(* ===== verification/Prelude.thy ===== *)
theory Prelude
  imports Complex_Main "HOL-Library.Product_Lexorder" "HOL-Library.Multiset"
begin

text \<open>
  Shared vocabulary of the development: identifiers, time, Python values, exceptions and the
  state-and-exception operations in which the services are written.

  \<^item> \<open>uuid\<close>, \<open>time\<close> (microseconds of naive UTC), \<open>ustr\<close> (a Python \<open>str\<close>: its code points).
  \<^item> \<open>json\<close>: the values \<open>json.loads\<close> produces.
  \<^item> \<open>message\<close>: an f-string kept as the list of its fragments; \<open>exn\<close>: the exceptions the code raises.
  \<^item> \<open>op\<close>: a computation over a state that returns a value or raises; raising keeps the state
    reached so far, and only a transaction or a savepoint (theory Store) rolls it back.
  \<^item> \<open>preserves\<close>: the compositional rules with which every component proves its invariant.
\<close>

subsection \<open>Basic types\<close>

type_synonym uuid = nat
type_synonym time = int
type_synonym ustr = "nat list"

datatype pyfloat = Fin rat | PosInf | NegInf | NaN

datatype json =
    JNull
  | JBool bool
  | JInt int
  | JFloat pyfloat
  | JStr ustr
  | JList "json list"
  | JObj "(ustr \<times> json) list"

text \<open>Reading a dictionary: the last entry of a key counts.\<close>

fun lookup :: "ustr \<Rightarrow> (ustr \<times> json) list \<Rightarrow> json option" where
  "lookup k [] = None"
| "lookup k ((k', v) # m) = (case lookup k m of Some w \<Rightarrow> Some w | None \<Rightarrow> if k' = k then Some v else None)"

datatype frag = Lit string | Uid uuid | Num int | Txt ustr

type_synonym message = "frag list"

datatype exn =
    ValueError message
  | KeyError message
  | TypeError message
  | RuntimeError message
  | HTTPException int message
  | IntegrityError
  | ValidationError message
  | AnalysisValidationError message
  | ResponseParseError message
  | ProviderTransportError message
  | ProviderTerminalError message
  | SDKUnexpectedError message
  | RetryableAnalysisError message
  | NonRetryableAnalysisError message
  | InvalidJobTransitionError message
  | StateMachineConcurrencyError message
  | DreamMemoryOnlyComplete
  | ConfigValidationError message
  | UnknownLLMProviderError message
  | HTTPClientError message
  | PromptAssetNotFound message
  | AttributeError message
  | DataError message

text \<open>\<open>str(exc)\<close>.\<close>

fun exn_message :: "exn \<Rightarrow> message" where
  "exn_message (ValueError m) = m"
| "exn_message (KeyError m) = m"
| "exn_message (TypeError m) = m"
| "exn_message (RuntimeError m) = m"
| "exn_message (HTTPException c m) = [Num c, Lit '': ''] @ m"
| "exn_message IntegrityError = [Lit ''IntegrityError'']"
| "exn_message (ValidationError m) = m"
| "exn_message (AnalysisValidationError m) = m"
| "exn_message (ResponseParseError m) = m"
| "exn_message (ProviderTransportError m) = m"
| "exn_message (ProviderTerminalError m) = m"
| "exn_message (SDKUnexpectedError m) = m"
| "exn_message (RetryableAnalysisError m) = m"
| "exn_message (NonRetryableAnalysisError m) = m"
| "exn_message (InvalidJobTransitionError m) = m"
| "exn_message (StateMachineConcurrencyError m) = m"
| "exn_message DreamMemoryOnlyComplete = []"
| "exn_message (ConfigValidationError m) = m"
| "exn_message (UnknownLLMProviderError m) = m"
| "exn_message (HTTPClientError m) = m"
| "exn_message (PromptAssetNotFound m) = m"
| "exn_message (AttributeError m) = m"
| "exn_message (DataError m) = m"

subsection \<open>Operations: state, value or exception\<close>

type_synonym ('w, 'a) op = "'w \<Rightarrow> (exn + 'a) \<times> 'w"

named_theorems run "equations that execute an operation on a state"
named_theorems pres "rules by which an operation preserves an invariant"

definition returnM :: "'a \<Rightarrow> ('w, 'a) op" where
  "returnM x s = (Inr x, s)"

definition throwM :: "exn \<Rightarrow> ('w, 'a) op" where
  "throwM e s = (Inl e, s)"

definition bindM :: "('w, 'a) op \<Rightarrow> ('a \<Rightarrow> ('w, 'b) op) \<Rightarrow> ('w, 'b) op" where
  "bindM m f s = (case m s of (Inl e, s') \<Rightarrow> (Inl e, s') | (Inr x, s') \<Rightarrow> f x s')"

definition thenM :: "('w, 'a) op \<Rightarrow> ('w, 'b) op \<Rightarrow> ('w, 'b) op" where
  "thenM m k = bindM m (\<lambda>_. k)"

definition catchM :: "('w, 'a) op \<Rightarrow> (exn \<Rightarrow> ('w, 'a) op) \<Rightarrow> ('w, 'a) op" where
  "catchM m h s = (case m s of (Inl e, s') \<Rightarrow> h e s' | (Inr x, s') \<Rightarrow> (Inr x, s'))"

definition getsM :: "('w \<Rightarrow> 'a) \<Rightarrow> ('w, 'a) op" where
  "getsM f s = (Inr (f s), s)"

definition modifyM :: "('w \<Rightarrow> 'w) \<Rightarrow> ('w, unit) op" where
  "modifyM f s = (Inr (), f s)"

definition liftM :: "exn + 'a \<Rightarrow> ('w, 'a) op" where
  "liftM r s = (r, s)"

primrec foreachM :: "('a \<Rightarrow> ('w, unit) op) \<Rightarrow> 'a list \<Rightarrow> ('w, unit) op" where
  "foreachM f [] = returnM ()"
| "foreachM f (x # xs) = thenM (f x) (foreachM f xs)"

primrec mapM :: "('a \<Rightarrow> ('w, 'b) op) \<Rightarrow> 'a list \<Rightarrow> ('w, 'b list) op" where
  "mapM f [] = returnM []"
| "mapM f (x # xs) = bindM (f x) (\<lambda>y. bindM (mapM f xs) (\<lambda>ys. returnM (y # ys)))"

lemmas [run] = returnM_def throwM_def bindM_def thenM_def catchM_def getsM_def modifyM_def liftM_def

lemma bindM_assoc: "bindM (bindM m f) g = bindM m (\<lambda>x. bindM (f x) g)"
  by (rule ext) (simp add: bindM_def split: prod.split sum.split)

lemma bindM_Inr: "m s = (Inr x, s') \<Longrightarrow> bindM m f s = f x s'"
  by (simp add: bindM_def)

lemma bindM_Inl: "m s = (Inl e, s') \<Longrightarrow> bindM m f s = (Inl e, s')"
  by (simp add: bindM_def)

lemma bindM_eq_Inr:
  "bindM m f s = (Inr y, t) \<longleftrightarrow> (\<exists>x s'. m s = (Inr x, s') \<and> f x s' = (Inr y, t))"
  by (auto simp: bindM_def split: prod.splits sum.splits)

subsection \<open>Pure computations that may raise\<close>

definition bindE :: "exn + 'a \<Rightarrow> ('a \<Rightarrow> exn + 'b) \<Rightarrow> exn + 'b" where
  "bindE m f = (case m of Inl e \<Rightarrow> Inl e | Inr x \<Rightarrow> f x)"

lemma bindE_Inr: "bindE m f = Inr y \<longleftrightarrow> (\<exists>x. m = Inr x \<and> f x = Inr y)"
  by (simp add: bindE_def split: sum.split)

lemma list_all2_rightD: "list_all2 P xs ys \<Longrightarrow> y \<in> set ys \<Longrightarrow> \<exists>x \<in> set xs. P x y"
  by (induction rule: list_all2_induct) auto

primrec mapE :: "('a \<Rightarrow> exn + 'b) \<Rightarrow> 'a list \<Rightarrow> exn + 'b list" where
  "mapE f [] = Inr []"
| "mapE f (x # xs) = bindE (f x) (\<lambda>y. bindE (mapE f xs) (\<lambda>ys. Inr (y # ys)))"

lemma mapE_Inr: "mapE f xs = Inr ys \<longleftrightarrow> list_all2 (\<lambda>x y. f x = Inr y) xs ys"
  by (induction xs arbitrary: ys) (auto simp: bindE_Inr list_all2_Cons1)

subsection \<open>Invariants of operations\<close>

definition preserves :: "('w \<Rightarrow> bool) \<Rightarrow> ('w, 'a) op \<Rightarrow> bool" where
  "preserves I m \<longleftrightarrow> (\<forall>s. I s \<longrightarrow> I (snd (m s)))"

lemma preservesI: "(\<And>s. I s \<Longrightarrow> I (snd (m s))) \<Longrightarrow> preserves I m"
  by (simp add: preserves_def)

lemma preservesD: "preserves I m \<Longrightarrow> I s \<Longrightarrow> m s = (r, s') \<Longrightarrow> I s'"
  by (metis preserves_def snd_conv)

lemma preserves_snd: "preserves I m \<Longrightarrow> I s \<Longrightarrow> I (snd (m s))"
  by (simp add: preserves_def)

lemma preserves_return [pres]: "preserves I (returnM x)"
  by (simp add: preserves_def returnM_def)

lemma preserves_throw [pres]: "preserves I (throwM e)"
  by (simp add: preserves_def throwM_def)

lemma preserves_lift [pres]: "preserves I (liftM r)"
  by (simp add: preserves_def liftM_def)

lemma preserves_gets [pres]: "preserves I (getsM f)"
  by (simp add: preserves_def getsM_def)

lemma preserves_bind [pres]:
  "preserves I m \<Longrightarrow> (\<And>x. preserves I (f x)) \<Longrightarrow> preserves I (bindM m f)"
  by (auto simp: preserves_def bindM_def split: prod.split sum.split)

lemma preserves_then [pres]: "preserves I m \<Longrightarrow> preserves I k \<Longrightarrow> preserves I (thenM m k)"
  by (simp add: thenM_def preserves_bind)

lemma preserves_catch [pres]:
  "preserves I m \<Longrightarrow> (\<And>e. preserves I (h e)) \<Longrightarrow> preserves I (catchM m h)"
  by (auto simp: preserves_def catchM_def split: prod.split sum.split)

lemma preserves_modify [pres]: "(\<And>s. I s \<Longrightarrow> I (f s)) \<Longrightarrow> preserves I (modifyM f)"
  by (simp add: preserves_def modifyM_def)

lemma preserves_if [pres]:
  "(b \<Longrightarrow> preserves I m) \<Longrightarrow> (\<not> b \<Longrightarrow> preserves I k) \<Longrightarrow> preserves I (if b then m else k)"
  by simp

lemma preserves_case_option [pres]:
  "(x = None \<Longrightarrow> preserves I m) \<Longrightarrow> (\<And>y. x = Some y \<Longrightarrow> preserves I (f y)) \<Longrightarrow>
   preserves I (case x of None \<Rightarrow> m | Some y \<Rightarrow> f y)"
  by (cases x) auto

lemma preserves_case_sum [pres]:
  "(\<And>y. x = Inl y \<Longrightarrow> preserves I (f y)) \<Longrightarrow> (\<And>y. x = Inr y \<Longrightarrow> preserves I (g y)) \<Longrightarrow>
   preserves I (case x of Inl y \<Rightarrow> f y | Inr y \<Rightarrow> g y)"
  by (cases x) auto

lemma preserves_case_prod [pres]:
  "(\<And>a b. x = (a, b) \<Longrightarrow> preserves I (f a b)) \<Longrightarrow> preserves I (case x of (a, b) \<Rightarrow> f a b)"
  by (cases x) auto

lemma preserves_foreach [pres]: "(\<And>x. x \<in> set xs \<Longrightarrow> preserves I (f x)) \<Longrightarrow> preserves I (foreachM f xs)"
  by (induction xs) (auto intro!: pres)

lemma preserves_mapM [pres]: "(\<And>x. x \<in> set xs \<Longrightarrow> preserves I (f x)) \<Longrightarrow> preserves I (mapM f xs)"
  by (induction xs) (auto intro!: pres)

lemma preserves_conj: "preserves I m \<Longrightarrow> preserves J m \<Longrightarrow> preserves (\<lambda>s. I s \<and> J s) m"
  by (simp add: preserves_def)

subsection \<open>Frames: what an operation leaves alone\<close>

named_theorems keep "rules by which an operation leaves a part of the state alone"

definition keeps :: "('w \<Rightarrow> 'b) \<Rightarrow> ('w, 'a) op \<Rightarrow> bool" where
  "keeps f m \<longleftrightarrow> (\<forall>s. f (snd (m s)) = f s)"

lemma keepsI: "(\<And>s. f (snd (m s)) = f s) \<Longrightarrow> keeps f m"
  by (simp add: keeps_def)

lemma keepsD: "keeps f m \<Longrightarrow> m s = (r, t) \<Longrightarrow> f t = f s"
  by (metis keeps_def snd_conv)

lemma keeps_return [keep]: "keeps f (returnM x)" and keeps_throw [keep]: "keeps f (throwM e)"
  and keeps_lift [keep]: "keeps f (liftM r)" and keeps_gets [keep]: "keeps f (getsM g)"
  by (simp_all add: keeps_def run)

lemma keeps_modify [keep]: "(\<And>s. f (g s) = f s) \<Longrightarrow> keeps f (modifyM g)"
  by (simp add: keeps_def run)

lemma keeps_bind [keep]: "keeps f m \<Longrightarrow> (\<And>x. keeps f (k x)) \<Longrightarrow> keeps f (bindM m k)"
  by (auto simp: keeps_def bindM_def split: prod.split sum.split) (metis snd_conv)+

lemma keeps_then [keep]: "keeps f m \<Longrightarrow> keeps f k \<Longrightarrow> keeps f (thenM m k)"
  by (simp add: thenM_def keeps_bind)

lemma keeps_catch [keep]: "keeps f m \<Longrightarrow> (\<And>e. keeps f (h e)) \<Longrightarrow> keeps f (catchM m h)"
  by (auto simp: keeps_def catchM_def split: prod.split sum.split) (metis snd_conv)+

lemma keeps_if [keep]: "keeps f m \<Longrightarrow> keeps f k \<Longrightarrow> keeps f (if b then m else k)"
  by simp

lemma keeps_case_option [keep]: "keeps f m \<Longrightarrow> (\<And>y. keeps f (k y)) \<Longrightarrow> keeps f (case x of None \<Rightarrow> m | Some y \<Rightarrow> k y)"
  by (cases x) auto

lemma keeps_case_sum [keep]:
  "(\<And>y. keeps f (k y)) \<Longrightarrow> (\<And>y. keeps f (l y)) \<Longrightarrow> keeps f (case x of Inl y \<Rightarrow> k y | Inr y \<Rightarrow> l y)"
  by (cases x) auto

lemma keeps_case_prod [keep]: "(\<And>a b. keeps f (k a b)) \<Longrightarrow> keeps f (case x of (a, b) \<Rightarrow> k a b)"
  by (cases x) auto

lemma keeps_foreach [keep]: "(\<And>x. keeps f (k x)) \<Longrightarrow> keeps f (foreachM k xs)"
  by (induction xs) (auto intro!: keep)

lemma keeps_mapM [keep]: "(\<And>x. keeps f (k x)) \<Longrightarrow> keeps f (mapM k xs)"
  by (induction xs) (auto intro!: keep)

subsection \<open>Which exceptions an operation can raise\<close>

named_theorems raise "rules for the exceptions an operation can raise"

definition raises_only :: "(exn \<Rightarrow> bool) \<Rightarrow> ('w, 'a) op \<Rightarrow> bool" where
  "raises_only E m \<longleftrightarrow> (\<forall>s. case fst (m s) of Inl e \<Rightarrow> E e | Inr _ \<Rightarrow> True)"

lemma raises_onlyD: "raises_only E m \<Longrightarrow> m s = (Inl e, t) \<Longrightarrow> E e"
  by (metis raises_only_def fst_conv sum.simps(5))

lemma raises_return [raise]: "raises_only E (returnM x)" and raises_gets [raise]: "raises_only E (getsM g)"
  and raises_modify [raise]: "raises_only E (modifyM h)" and raises_throw [raise]: "E e \<Longrightarrow> raises_only E (throwM e)"
  by (simp_all add: raises_only_def run)

lemma raises_lift [raise]: "(\<And>e. r = Inl e \<Longrightarrow> E e) \<Longrightarrow> raises_only E (liftM r)"
  by (cases r) (simp_all add: raises_only_def run)

lemma raises_bind [raise]: "raises_only E m \<Longrightarrow> (\<And>x. raises_only E (k x)) \<Longrightarrow> raises_only E (bindM m k)"
  unfolding raises_only_def bindM_def by (auto split: prod.split sum.split) (metis fst_conv sum.simps(5))+

lemma raises_then [raise]: "raises_only E m \<Longrightarrow> raises_only E k \<Longrightarrow> raises_only E (thenM m k)"
  by (simp add: thenM_def raises_bind)

lemma raises_catch: "raises_only D m \<Longrightarrow> (\<And>e. D e \<Longrightarrow> raises_only E (h e)) \<Longrightarrow> raises_only E (catchM m h)"
  unfolding raises_only_def catchM_def by (auto split: prod.split sum.split) (metis fst_conv sum.simps(5))+

lemma raises_if [raise]: "raises_only E m \<Longrightarrow> raises_only E k \<Longrightarrow> raises_only E (if b then m else k)"
  by simp

lemma raises_case_option [raise]:
  "raises_only E m \<Longrightarrow> (\<And>y. raises_only E (k y)) \<Longrightarrow> raises_only E (case x of None \<Rightarrow> m | Some y \<Rightarrow> k y)"
  by (cases x) auto

lemma raises_case_prod [raise]: "(\<And>a b. raises_only E (k a b)) \<Longrightarrow> raises_only E (case x of (a, b) \<Rightarrow> k a b)"
  by (cases x) auto

lemma raises_weaken: "raises_only D m \<Longrightarrow> (\<And>e. D e \<Longrightarrow> E e) \<Longrightarrow> raises_only E m"
  unfolding raises_only_def by (metis sum.case_eq_if)

subsection \<open>Lists\<close>

text \<open>\<open>LIMIT 1\<close>.\<close>

definition first_row :: "'a list \<Rightarrow> 'a option" where
  "first_row xs = (case xs of [] \<Rightarrow> None | x # _ \<Rightarrow> Some x)"

lemma first_row_Nil [simp]: "first_row [] = None"
  and first_row_Cons [simp]: "first_row (x # xs) = Some x"
  by (simp_all add: first_row_def)

lemma first_row_Some: "first_row xs = Some x \<Longrightarrow> x \<in> set xs"
  by (cases xs) auto

lemma first_row_None [simp]: "first_row xs = None \<longleftrightarrow> xs = []"
  by (cases xs) auto

lemma first_row_sort_key_min:
  assumes "first_row (sort_key k xs) = Some x" and "y \<in> set xs"
  shows "k x \<le> k y"
proof -
  obtain ys where ys: "sort_key k xs = x # ys"
    using assms(1) by (cases "sort_key k xs") auto
  have "sorted (map k (x # ys))" by (metis ys sorted_sort_key)
  moreover have "y \<in> set (x # ys)" by (metis assms(2) set_sort ys)
  ultimately show ?thesis by auto
qed

lemma sort_key_append_less:
  assumes "\<And>x y. x \<in> set xs \<Longrightarrow> y \<in> set ys \<Longrightarrow> k y < k x"
  shows "sort_key k (xs @ ys) = sort_key k ys @ sort_key k xs"
proof (rule properties_for_sort_key)
  show "mset (sort_key k ys @ sort_key k xs) = mset (xs @ ys)" by simp
  show "sorted (map k (sort_key k ys @ sort_key k xs))"
    using assms by (auto simp: sorted_append less_imp_le)
next
  fix z
  have "filter (\<lambda>x. k z = k x) (sort_key k ys) = filter (\<lambda>x. k z = k x) ys"
    and "filter (\<lambda>x. k z = k x) (sort_key k xs) = filter (\<lambda>x. k z = k x) xs"
    using sort_key_stable [of k "k z"] by (simp_all add: eq_commute)
  moreover have "filter (\<lambda>x. k z = k x) ys = [] \<or> filter (\<lambda>x. k z = k x) xs = []"
    using assms by (fastforce simp: filter_empty_conv)
  ultimately show "filter (\<lambda>x. k z = k x) (sort_key k ys @ sort_key k xs) = filter (\<lambda>x. k z = k x) (xs @ ys)"
    by auto
qed

text \<open>The first \<open>n\<close> of a sorted list, and what is left.\<close>

lemma take_sorted_le:
  assumes "x \<in> set (take n (sort_key k xs))" and "y \<in> set xs" and "y \<notin> set (take n (sort_key k xs))"
  shows "k x \<le> k y" and "n \<le> length xs"
proof -
  let ?ys = "sort_key k xs"
  have "y \<in> set ?ys" using assms(2) by simp
  then have y: "y \<in> set (drop n ?ys)"
    using assms(3) by (metis Un_iff append_take_drop_id set_append)
  have "sorted (map k (take n ?ys @ drop n ?ys))" by simp
  then show "k x \<le> k y"
    using assms(1) y by (auto simp: sorted_append simp del: append_take_drop_id)
  have "drop n ?ys \<noteq> []" using y by auto
  then show "n \<le> length xs" by simp
qed

lemma find_SomeD: "find P xs = Some x \<Longrightarrow> x \<in> set xs \<and> P x"
  by (auto simp: find_Some_iff)

lemma find_append_None: "find P xs = None \<Longrightarrow> find P (xs @ ys) = find P ys"
  by (induction xs) (auto split: if_splits)

text \<open>Rows of a table that satisfy \<open>P\<close> are rewritten by \<open>f\<close> (an \<open>UPDATE .. WHERE ..\<close>).\<close>

definition update_where :: "('a \<Rightarrow> bool) \<Rightarrow> ('a \<Rightarrow> 'a) \<Rightarrow> 'a list \<Rightarrow> 'a list" where
  "update_where P f xs = map (\<lambda>x. if P x then f x else x) xs"

lemma update_where_Nil [simp]: "update_where P f [] = []"
  by (simp add: update_where_def)

lemma update_where_Cons [simp]:
  "update_where P f (x # xs) = (if P x then f x else x) # update_where P f xs"
  by (simp add: update_where_def)

lemma update_where_append [simp]:
  "update_where P f (xs @ ys) = update_where P f xs @ update_where P f ys"
  by (simp add: update_where_def)

lemma set_update_where: "set (update_where P f xs) = (\<lambda>x. if P x then f x else x) ` set xs"
  by (simp add: update_where_def)

lemma length_update_where [simp]: "length (update_where P f xs) = length xs"
  by (simp add: update_where_def)

lemma update_where_id: "(\<And>x. x \<in> set xs \<Longrightarrow> \<not> P x) \<Longrightarrow> update_where P f xs = xs"
  by (induction xs) auto

lemma map_update_where:
  "(\<And>x. P x \<Longrightarrow> k (f x) = k x) \<Longrightarrow> map k (update_where P f xs) = map k xs"
  by (simp add: update_where_def)

lemma filter_update_where_other:
  "(\<And>x. x \<in> set xs \<Longrightarrow> P x \<Longrightarrow> \<not> Q x \<and> \<not> Q (f x)) \<Longrightarrow> filter Q (update_where P f xs) = filter Q xs"
  by (induction xs) auto

lemma filter_key_update:
  "(\<And>x. k (f x) = k x) \<Longrightarrow> filter (\<lambda>x. k x = v) (update_where (\<lambda>x. k x = v) f xs) = map f (filter (\<lambda>x. k x = v) xs)"
  by (induction xs) auto

lemma distinct_key_filter: "distinct (map k xs) \<Longrightarrow> x \<in> set xs \<Longrightarrow> filter (\<lambda>y. k y = k x) xs = [x]"
  by (induction xs) (auto simp: filter_empty_conv image_iff)

lemma find_update_where_key:
  assumes "\<And>x. P x \<Longrightarrow> k (f x) = k x"
  shows "find (\<lambda>x. k x = v) (update_where P f xs) =
         map_option (\<lambda>x. if P x then f x else x) (find (\<lambda>x. k x = v) xs)"
  using assms by (induction xs) auto

lemma find_distinct_key:
  "distinct (map k xs) \<Longrightarrow> x \<in> set xs \<Longrightarrow> find (\<lambda>y. k y = k x) xs = Some x"
  by (induction xs) auto

lemma length_filter_conj_le: "length (filter (\<lambda>x. Q x \<and> P x) xs) \<le> length (filter P xs)"
  by (induction xs) auto

lemma filter_singletonD:
  "length (filter P xs) \<le> 1 \<Longrightarrow> x \<in> set xs \<Longrightarrow> P x \<Longrightarrow> filter P xs = [x]"
  by (induction xs) (auto simp: filter_empty_conv split: if_splits)

lemma filter_eq_singletonD: "filter P xs = [x] \<Longrightarrow> x \<in> set xs \<and> P x"
  by (auto simp: filter_eq_Cons_iff)

lemma length_filter_le_1_iff:
  "length (filter P xs) \<le> 1 \<longleftrightarrow> (\<forall>i < length xs. \<forall>j < length xs. P (xs ! i) \<longrightarrow> P (xs ! j) \<longrightarrow> i = j)"
proof (induction xs)
  case Nil
  then show ?case by simp
next
  case (Cons x xs)
  show ?case
  proof (cases "P x")
    case True
    have "length (filter P (x # xs)) \<le> 1 \<longleftrightarrow> (\<forall>y \<in> set xs. \<not> P y)"
      using True by (simp add: filter_empty_conv)
    also have "\<dots> \<longleftrightarrow> (\<forall>j < length xs. \<not> P (xs ! j))"
      by (simp add: all_set_conv_all_nth)
    finally show ?thesis
      using True by (auto simp: nth_Cons split: nat.splits)
  next
    case False
    then show ?thesis using Cons.IH by (auto simp: nth_Cons split: nat.splits)
  qed
qed

end
