(* ===== verification/Text.thy ===== *)
theory Text
  imports Prelude
begin

text \<open>
  Python's string operations on code-point lists. What depends on the Unicode database (\<open>isspace\<close>,
  \<open>lower\<close>, the word characters and case-insensitive equality of \<open>re\<close>) is a parameter, the record
  \<open>unicode\<close>; the theorems hold for every database, and \<open>basic_unicode\<close> (ASCII and Russian letters)
  instantiates it in the witnesses.
\<close>

record unicode =
  uc_space :: "nat \<Rightarrow> bool"
  uc_lower :: "ustr \<Rightarrow> ustr"
  uc_word :: "nat \<Rightarrow> bool"
  uc_ieq :: "nat \<Rightarrow> nat \<Rightarrow> bool"
  uc_digit :: "nat \<Rightarrow> nat option"

definition ascii :: "string \<Rightarrow> ustr" where
  "ascii = map of_char"

text \<open>The blank as a code point.\<close>

abbreviation SP :: nat where "SP \<equiv> 32"

definition starts_with :: "ustr \<Rightarrow> ustr \<Rightarrow> bool" where
  "starts_with s p = (take (length p) s = p)"

definition ends_with :: "ustr \<Rightarrow> ustr \<Rightarrow> bool" where
  "ends_with s p = (length p \<le> length s \<and> drop (length s - length p) s = p)"

fun contains :: "ustr \<Rightarrow> ustr \<Rightarrow> bool" where
  "contains [] p = (p = [])"
| "contains (c # s) p = (starts_with (c # s) p \<or> contains s p)"

definition lstrip :: "unicode \<Rightarrow> ustr \<Rightarrow> ustr" where
  "lstrip u s = dropWhile (uc_space u) s"

definition rstrip :: "unicode \<Rightarrow> ustr \<Rightarrow> ustr" where
  "rstrip u s = rev (dropWhile (uc_space u) (rev s))"

definition strip :: "unicode \<Rightarrow> ustr \<Rightarrow> ustr" where
  "strip u s = rstrip u (lstrip u s)"

text \<open>\<open>str.split()\<close>: the maximal runs of non-space characters.\<close>

function split_ws :: "unicode \<Rightarrow> ustr \<Rightarrow> ustr list" where
  "split_ws u s =
     (let r = dropWhile (uc_space u) s
      in if r = [] then []
         else takeWhile (\<lambda>c. \<not> uc_space u c) r # split_ws u (dropWhile (\<lambda>c. \<not> uc_space u c) r))"
  by pat_completeness auto
termination
proof (relation "measure (\<lambda>(u, s). length s)", goal_cases)
  case 1
  then show ?case by simp
next
  case (2 u s r)
  then have "hd r \<in> set r" and "\<not> uc_space u (hd r)" and len: "length r \<le> length s"
    by (auto simp: hd_dropWhile length_dropWhile_le)
  then have "length (dropWhile (\<lambda>c. \<not> uc_space u c) r) < length r"
    using 2(2) by (cases r) (auto simp: le_imp_less_Suc length_dropWhile_le)
  then show ?case using len by simp
qed

declare split_ws.simps [simp del]

text \<open>\<open>sep.join(xs)\<close>.\<close>

fun join :: "ustr \<Rightarrow> ustr list \<Rightarrow> ustr" where
  "join sep [] = []"
| "join sep [x] = x"
| "join sep (x # y # xs) = x @ sep @ join sep (y # xs)"

subsection \<open>Words\<close>

text \<open>A token is a non-empty run without spaces: what \<open>split\<close> returns.\<close>

definition token :: "unicode \<Rightarrow> ustr \<Rightarrow> bool" where
  "token u w \<longleftrightarrow> w \<noteq> [] \<and> (\<forall>c \<in> set w. \<not> uc_space u c)"

lemma token_simps [simp]: "\<not> token u []"
  by (simp add: token_def)

lemma split_ws_Nil [simp]: "split_ws u [] = []"
  by (simp add: split_ws.simps)

lemma split_ws_token:
  assumes "token u w" and "rest = [] \<or> uc_space u (hd rest)"
  shows "split_ws u (w @ rest) = w # split_ws u rest"
proof -
  obtain c w' where w: "w = c # w'" using assms(1) by (cases w) auto
  have ns: "\<forall>c \<in> set w. \<not> uc_space u c" using assms(1) by (simp add: token_def)
  have dw: "dropWhile (uc_space u) (w @ rest) = w @ rest" using ns w by simp
  have tw: "takeWhile (\<lambda>c. \<not> uc_space u c) (w @ rest) = w"
    using ns assms(2) by (cases rest) auto
  have dw2: "dropWhile (\<lambda>c. \<not> uc_space u c) (w @ rest) = rest"
    using ns assms(2) by (cases rest) auto
  show ?thesis
    by (subst split_ws.simps) (simp add: Let_def dw tw dw2 w [symmetric], simp add: w)
qed

lemma split_ws_space:
  assumes "uc_space u c"
  shows "split_ws u (c # s) = split_ws u s"
  using assms by (subst (1 2) split_ws.simps) simp

lemma split_ws_tokens: "w \<in> set (split_ws u s) \<Longrightarrow> token u w"
proof (induction u s arbitrary: w rule: split_ws.induct)
  case (1 u s)
  let ?r = "dropWhile (uc_space u) s"
  show ?case
  proof (cases "?r = []")
    case True
    with "1.prems" show ?thesis by (simp add: split_ws.simps [of u s])
  next
    case False
    then have hd: "\<not> uc_space u (hd ?r)" by (rule hd_dropWhile)
    then have "token u (takeWhile (\<lambda>c. \<not> uc_space u c) ?r)"
      using False by (cases ?r) (auto simp: token_def dest: set_takeWhileD)
    have "split_ws u s = takeWhile (\<lambda>c. \<not> uc_space u c) ?r
        # split_ws u (dropWhile (\<lambda>c. \<not> uc_space u c) ?r)"
      using False by (subst split_ws.simps) (simp only: Let_def if_False)
    with "1.prems" "1.IH" [OF refl False] \<open>token u (takeWhile _ ?r)\<close> show ?thesis
      by (simp only: list.set insert_iff) blast
  qed
qed

text \<open>Joining tokens with single blanks and splitting again gives the same tokens.\<close>

lemma split_ws_join:
  assumes "uc_space u SP" and "\<forall>w \<in> set ws. token u w"
  shows "split_ws u (join [SP] ws) = ws"
  using assms(2)
proof (induction ws rule: induct_list012)
  case 1
  then show ?case by simp
next
  case (2 w)
  then show ?case using split_ws_token [of u w "[]"] by simp
next
  case (3 w v ws)
  have "split_ws u (w @ SP # join [SP] (v # ws)) = w # split_ws u (SP # join [SP] (v # ws))"
    using 3 assms(1) by (intro split_ws_token) auto
  then show ?case using 3 assms(1) by (simp add: split_ws_space)
qed

definition normalize_ws :: "unicode \<Rightarrow> ustr \<Rightarrow> ustr" where
  "normalize_ws u s = join [SP] (split_ws u s)"

lemma split_normalize: "uc_space u SP \<Longrightarrow> split_ws u (normalize_ws u s) = split_ws u s"
  by (simp add: normalize_ws_def split_ws_join split_ws_tokens)

lemma join_tokens_Nil: "\<forall>w \<in> set ws. token u w \<Longrightarrow> join [SP] ws = [] \<longleftrightarrow> ws = []"
  by (induction ws rule: induct_list012) (auto simp: token_def)

lemma normalize_Nil [simp]: "normalize_ws u s = [] \<longleftrightarrow> split_ws u s = []"
  unfolding normalize_ws_def by (rule join_tokens_Nil) (blast dest: split_ws_tokens)

lemma split_ws_lstrip: "split_ws u (lstrip u s) = split_ws u s"
  by (subst (1 2) split_ws.simps) (simp add: lstrip_def)

lemma takeWhile_append_stop:
  "\<forall>c \<in> set t. \<not> Q c \<Longrightarrow> takeWhile Q (r @ t) = takeWhile Q r"
  by (induction r) (cases t, auto)

lemma dropWhile_append_stop:
  "\<forall>c \<in> set t. \<not> Q c \<Longrightarrow> dropWhile Q (r @ t) = dropWhile Q r @ t"
  by (induction r) (cases t, auto)

lemma split_ws_append_spaces:
  "\<forall>c \<in> set t. uc_space u c \<Longrightarrow> split_ws u (s @ t) = split_ws u s"
proof (induction u s rule: split_ws.induct)
  case (1 u s)
  let ?r = "dropWhile (uc_space u) s"
  show ?case
  proof (cases "?r = []")
    case True
    with "1.prems" have "dropWhile (uc_space u) (s @ t) = []" by simp
    with True show ?thesis by (subst (1 2) split_ws.simps) (simp only: Let_def if_True)
  next
    case False
    then obtain x where x: "x \<in> set s" "\<not> uc_space u x" by auto
    have r: "dropWhile (uc_space u) (s @ t) = ?r @ t" 
      using dropWhile_append1 [of x s "uc_space u" t] x by simp
    have tw: "takeWhile (\<lambda>c. \<not> uc_space u c) (?r @ t) = takeWhile (\<lambda>c. \<not> uc_space u c) ?r"
      and dw: "dropWhile (\<lambda>c. \<not> uc_space u c) (?r @ t) = dropWhile (\<lambda>c. \<not> uc_space u c) ?r @ t"
      using "1.prems" by (simp_all add: takeWhile_append_stop dropWhile_append_stop)
    show ?thesis
      using False "1.IH" [OF refl False "1.prems"]
      by (subst (1 2) split_ws.simps) (simp only: Let_def r tw dw append_is_Nil_conv if_False simp_thms)
  qed
qed

lemma split_ws_rstrip: "split_ws u (rstrip u s) = split_ws u s"
proof -
  have s: "s = rstrip u s @ rev (takeWhile (uc_space u) (rev s))"
    by (metis rstrip_def rev_append rev_rev_ident takeWhile_dropWhile_id)
  have "\<forall>c \<in> set (rev (takeWhile (uc_space u) (rev s))). uc_space u c"
    by (auto dest: set_takeWhileD)
  from split_ws_append_spaces [OF this, of "rstrip u s"] show ?thesis using s by simp
qed

lemma split_ws_strip: "split_ws u (strip u s) = split_ws u s"
  by (simp add: strip_def split_ws_rstrip split_ws_lstrip)

text \<open>A character map that keeps spaces keeps the words.\<close>

lemma split_ws_map:
  "\<forall>c. uc_space u (f c) = uc_space u c \<Longrightarrow> split_ws u (map f s) = map (map f) (split_ws u s)"
proof (induction u s rule: split_ws.induct)
  case (1 u s)
  let ?r = "dropWhile (uc_space u) s"
  have d: "dropWhile (uc_space u) (map f s) = map f ?r"
    using "1.prems" by (simp add: dropWhile_map o_def)
  show ?case
  proof (cases "?r = []")
    case True
    with d show ?thesis by (subst (1 2) split_ws.simps) (simp only: Let_def if_True list.map simp_thms)
  next
    case False
    have t: "takeWhile (\<lambda>c. \<not> uc_space u c) (map f ?r) = map f (takeWhile (\<lambda>c. \<not> uc_space u c) ?r)"
      and e: "dropWhile (\<lambda>c. \<not> uc_space u c) (map f ?r) = map f (dropWhile (\<lambda>c. \<not> uc_space u c) ?r)"
      using "1.prems" by (simp_all add: takeWhile_map dropWhile_map o_def)
    show ?thesis
      using False "1.IH" [OF refl False "1.prems"]
      by (subst (1 2) split_ws.simps) (simp only: Let_def d t e list.map_disc_iff if_False list.map)
  qed
qed

lemma length_join_tokens:
  "\<forall>w \<in> set ws. token u w \<Longrightarrow> length ws \<le> length (join [SP] ws)"
proof (induction ws rule: induct_list012)
  case (2 w)
  then show ?case by (cases w) auto
next
  case (3 w v ws)
  then show ?case by (cases w) auto
qed simp

subsection \<open>A concrete character database\<close>

definition lower_cp :: "nat \<Rightarrow> nat" where
  "lower_cp c = (if 65 \<le> c \<and> c \<le> 90 then c + 32
     else if 1040 \<le> c \<and> c \<le> 1071 then c + 32 else if c = 1025 then 1105 else c)"

definition basic_unicode :: unicode where
  "basic_unicode = \<lparr>
     uc_space = (\<lambda>c. c = 32 \<or> (9 \<le> c \<and> c \<le> 13)),
     uc_lower = map lower_cp,
     uc_word = (\<lambda>c. (48 \<le> c \<and> c \<le> 57) \<or> (65 \<le> c \<and> c \<le> 90) \<or> c = 95 \<or> (97 \<le> c \<and> c \<le> 122)
        \<or> (1040 \<le> c \<and> c \<le> 1103) \<or> c = 1025 \<or> c = 1105),
     uc_ieq = (\<lambda>a b. lower_cp a = lower_cp b),
     uc_digit = (\<lambda>c. if 48 \<le> c \<and> c \<le> 57 then Some (c - 48) else None)\<rparr>"

subsection \<open>What the code relies on\<close>

text \<open>
  The laws of the Unicode database that the routing of messages depends on: the blank is a space and
  no word character, \<open>lower\<close> neither joins nor splits words, and every character equals itself under
  \<open>re.IGNORECASE\<close>.
\<close>

locale unicode_laws =
  fixes u :: unicode
  assumes blank_space: "uc_space u SP"
    and blank_not_word: "\<not> uc_word u SP"
    and lower_words: "length (split_ws u (uc_lower u s)) = length (split_ws u s)"
    and ieq_refl: "uc_ieq u c c"
begin

lemma lower_strip_words: "length (split_ws u (uc_lower u (strip u s))) = length (split_ws u s)"
  by (simp add: lower_words split_ws_strip)

lemma split_normalized: "split_ws u (normalize_ws u s) = split_ws u s"
  by (rule split_normalize [OF blank_space])

end

interpretation basic: unicode_laws basic_unicode
proof unfold_locales
  show "length (split_ws basic_unicode (uc_lower basic_unicode s)) = length (split_ws basic_unicode s)" for s
  proof -
    have "\<forall>c. uc_space basic_unicode (lower_cp c) = uc_space basic_unicode c"
      by (simp add: basic_unicode_def lower_cp_def)
    then show ?thesis by (simp add: split_ws_map basic_unicode_def [THEN arg_cong [where f = uc_lower]])
  qed
qed (simp_all add: basic_unicode_def)

end
