(* ===== verification/Config.thy ===== *)
theory Config
  imports Text
begin

text \<open>
  Runtime configuration: \<open>services/config/runtime_config.py\<close>, \<open>runtime_guards.py\<close>, \<open>startup_validation.py\<close>
  and \<open>infra_validation.py\<close>. The environment is a map from variable names to strings. Python's \<open>float\<close>
  and the checks \<open>urllib\<close> makes on a network location are parameters; \<open>int\<close> and the rest of
  \<open>urlparse\<close> are modelled.
\<close>

subsection \<open>Parsing a variable\<close>

fun int_digits :: "unicode \<Rightarrow> ustr \<Rightarrow> int \<Rightarrow> bool \<Rightarrow> int option" where
  "int_digits u [] acc after_digit = (if after_digit then Some acc else None)"
| "int_digits u (c # cs) acc after_digit =
     (case uc_digit u c of
        Some d \<Rightarrow> int_digits u cs (acc * 10 + int d) True
      | None \<Rightarrow> if c = 95 \<and> after_digit then int_digits u cs acc False else None)"

definition py_int :: "unicode \<Rightarrow> ustr \<Rightarrow> int option" where
  "py_int u s =
     (case strip u s of
        [] \<Rightarrow> None
      | c # cs \<Rightarrow> if c = 45 then map_option uminus (int_digits u cs 0 False)
                  else if c = 43 then int_digits u cs 0 False
                  else int_digits u (c # cs) 0 False)"

fun float_less :: "pyfloat \<Rightarrow> pyfloat \<Rightarrow> bool" where
  "float_less (Fin a) (Fin b) = (a < b)"
| "float_less NegInf b = (b \<noteq> NegInf \<and> b \<noteq> NaN)"
| "float_less a PosInf = (a \<noteq> PosInf \<and> a \<noteq> NaN)"
| "float_less a b = False"

definition parse_env_mode :: "unicode \<Rightarrow> ustr \<Rightarrow> exn + ustr" where
  "parse_env_mode u raw =
     (let v = uc_lower u (strip u raw) in
      if v \<notin> {ascii ''local'', ascii ''test'', ascii ''prod''}
      then Inl (ConfigValidationError [Lit ''Invalid ENV_MODE '', Txt raw, Lit ''. Allowed: local, test, prod''])
      else Inr v)"

definition parse_bool :: "unicode \<Rightarrow> ustr option \<Rightarrow> bool \<Rightarrow> bool" where
  "parse_bool u raw dflt =
     (case raw of None \<Rightarrow> dflt | Some r \<Rightarrow> uc_lower u (strip u r) \<in> {ascii ''true'', ascii ''1'', ascii ''yes''})"

definition parse_int :: "unicode \<Rightarrow> ustr option \<Rightarrow> int \<Rightarrow> int \<Rightarrow> exn + int" where
  "parse_int u raw dflt minimum =
     (case (case raw of None \<Rightarrow> Some dflt | Some r \<Rightarrow> py_int u r) of
        None \<Rightarrow> Inl (ValueError [Lit ''invalid literal for int() with base 10''])
      | Some v \<Rightarrow> if v < minimum
                  then Inl (ConfigValidationError [Lit ''Expected integer >= '', Num minimum, Lit '', got '', Num v])
                  else Inr v)"

definition parse_float :: "(ustr \<Rightarrow> pyfloat option) \<Rightarrow> ustr option \<Rightarrow> pyfloat \<Rightarrow> pyfloat \<Rightarrow> exn + pyfloat" where
  "parse_float py_float raw dflt minimum =
     (case (case raw of None \<Rightarrow> Some dflt | Some r \<Rightarrow> py_float r) of
        None \<Rightarrow> Inl (ValueError [Lit ''could not convert string to float''])
      | Some v \<Rightarrow> if float_less v minimum
                  then Inl (ConfigValidationError [Lit ''Expected float below minimum''])
                  else Inr v)"

definition require_str :: "unicode \<Rightarrow> (string \<Rightarrow> ustr option) \<Rightarrow> string \<Rightarrow> exn + ustr" where
  "require_str u env key =
     (let v = strip u (case env key of None \<Rightarrow> [] | Some r \<Rightarrow> r) in
      if v = [] then Inl (ConfigValidationError [Lit (key @ '' is required'')]) else Inr v)"

definition optional_str :: "unicode \<Rightarrow> ustr option \<Rightarrow> ustr option" where
  "optional_str u raw =
     (case raw of None \<Rightarrow> None | Some r \<Rightarrow> let v = strip u r in if v = [] then None else Some v)"

text \<open>\<open>urlparse\<close>: scheme and network location.\<close>

definition ascii_alpha :: "nat \<Rightarrow> bool" where
  "ascii_alpha c \<longleftrightarrow> (65 \<le> c \<and> c \<le> 90) \<or> (97 \<le> c \<and> c \<le> 122)"

definition scheme_char :: "nat \<Rightarrow> bool" where
  "scheme_char c \<longleftrightarrow> ascii_alpha c \<or> (48 \<le> c \<and> c \<le> 57) \<or> c \<in> {43, 45, 46}"

definition ascii_lower :: "nat \<Rightarrow> nat" where
  "ascii_lower c = (if 65 \<le> c \<and> c \<le> 90 then c + 32 else c)"

definition urlparse :: "(ustr \<Rightarrow> bool) \<Rightarrow> ustr \<Rightarrow> exn + (ustr \<times> ustr)" where
  "urlparse netloc_ok url =
     (let url = filter (\<lambda>c. c \<notin> {9, 10, 13}) (dropWhile (\<lambda>c. c \<le> 32) url);
          head = takeWhile (\<lambda>c. c \<noteq> 58) url;
          has_scheme = (length head < length url \<and> head \<noteq> [] \<and> ascii_alpha (hd head) \<and> (\<forall>c \<in> set head. scheme_char c));
          scheme = (if has_scheme then map ascii_lower head else []);
          rest = (if has_scheme then drop (Suc (length head)) url else url);
          netloc = (if starts_with rest [47, 47] then takeWhile (\<lambda>c. c \<notin> {47, 63, 35}) (drop 2 rest) else [])
      in if netloc_ok netloc then Inr (scheme, netloc) else Inl (ValueError [Lit ''Invalid IPv6 URL'']))"

definition validate_url :: "(ustr \<Rightarrow> bool) \<Rightarrow> ustr \<Rightarrow> string \<Rightarrow> exn + unit" where
  "validate_url netloc_ok url field =
     (case urlparse netloc_ok url of
        Inl e \<Rightarrow> Inl e
      | Inr (scheme, netloc) \<Rightarrow>
          if scheme \<notin> {ascii ''http'', ascii ''https''} \<or> netloc = []
          then Inl (ConfigValidationError [Lit (field @ '' must be a valid http(s) URL, got ''), Txt url])
          else Inr ())"

subsection \<open>The configuration\<close>

definition KNOWN_LLM_PROVIDERS :: "ustr set" where
  "KNOWN_LLM_PROVIDERS = {ascii ''mock'', ascii ''openai'', ascii ''openai-compatible'', ascii ''local'',
     ascii ''openrouter'', ascii ''lm-studio'', ascii ''ollama''}"

definition OPENAI_COMPATIBLE_PROVIDERS :: "ustr set" where
  "OPENAI_COMPATIBLE_PROVIDERS = {ascii ''openai-compatible'', ascii ''local'', ascii ''openrouter'',
     ascii ''lm-studio'', ascii ''ollama''}"

record RuntimeConfig =
  env_mode :: ustr
  llm_provider :: ustr
  openai_api_key :: "ustr option"
  openai_base_url :: ustr
  local_llm_base_url :: ustr
  default_model :: ustr
  llm_max_attempts :: int
  openai_timeout_seconds :: pyfloat
  runtime_enabled :: bool
  analysis_worker_concurrency :: int
  analysis_worker_batch_size :: int
  analysis_worker_poll_interval :: pyfloat
  analysis_job_max_attempts :: int
  analysis_job_stale_timeout_seconds :: int
  database_url :: ustr
  database_url_psycopg2 :: ustr
  traceback_output_enabled :: bool
  otlp_grpc_endpoint :: ustr

text \<open>The sum monad of the pure parts of the code.\<close>

definition whenE :: "bool \<Rightarrow> exn \<Rightarrow> exn + unit" where
  "whenE b e = (if b then Inl e else Inr ())"

definition no_key :: "ustr option \<Rightarrow> bool" where
  "no_key k \<longleftrightarrow> (case k of None \<Rightarrow> True | Some v \<Rightarrow> v = [])"

definition validate_prod_config :: "RuntimeConfig \<Rightarrow> exn + unit" where
  "validate_prod_config c =
     bindE (whenE (no_key (openai_api_key c)) (ConfigValidationError [Lit ''ENV_MODE=prod requires OPENAI_API_KEY''])) (\<lambda>_.
     bindE (whenE (llm_provider c = ascii ''mock'') (ConfigValidationError [Lit ''ENV_MODE=prod forbids LLM_PROVIDER=mock''])) (\<lambda>_.
     bindE (whenE (\<not> runtime_enabled c) (ConfigValidationError [Lit ''ENV_MODE=prod requires ANALYSIS_RUNTIME_ENABLED=true''])) (\<lambda>_.
     whenE (llm_provider c \<in> OPENAI_COMPATIBLE_PROVIDERS \<and> no_key (openai_api_key c))
       (ConfigValidationError [Lit ''OpenAI-compatible provider in prod requires OPENAI_API_KEY'']))))"

text \<open>A local configuration is never rejected; missing keys are only logged.\<close>

definition validate_local_config :: "RuntimeConfig \<Rightarrow> exn + unit" where
  "validate_local_config c = Inr ()"

definition validate_config :: "(ustr \<Rightarrow> bool) \<Rightarrow> RuntimeConfig \<Rightarrow> exn + unit" where
  "validate_config netloc_ok c =
     bindE (whenE (env_mode c \<notin> {ascii ''local'', ascii ''test'', ascii ''prod''})
       (ConfigValidationError [Lit ''Invalid ENV_MODE: '', Txt (env_mode c)])) (\<lambda>_.
     bindE (whenE (llm_provider c \<notin> KNOWN_LLM_PROVIDERS)
       (ConfigValidationError [Lit ''Invalid LLM_PROVIDER '', Txt (llm_provider c)])) (\<lambda>_.
     bindE (validate_url netloc_ok (openai_base_url c) ''OPENAI_BASE_URL'') (\<lambda>_.
     bindE (validate_url netloc_ok (local_llm_base_url c) ''LOCAL_LLM_BASE_URL'') (\<lambda>_.
     bindE (whenE (database_url c = []) (ConfigValidationError [Lit ''DATABASE_URL is required''])) (\<lambda>_.
     bindE (whenE (database_url_psycopg2 c = []) (ConfigValidationError [Lit ''DATABASE_URL_PSYCOPG2 is required''])) (\<lambda>_.
     if env_mode c = ascii ''test''
     then bindE (whenE (llm_provider c \<noteq> ascii ''mock'') (ConfigValidationError [Lit ''ENV_MODE=test requires LLM_PROVIDER=mock''])) (\<lambda>_.
          whenE (runtime_enabled c) (ConfigValidationError [Lit ''ENV_MODE=test requires ANALYSIS_RUNTIME_ENABLED=false'']))
     else if env_mode c = ascii ''prod'' then validate_prod_config c
     else validate_local_config c))))))"

definition env_or :: "(string \<Rightarrow> ustr option) \<Rightarrow> string \<Rightarrow> string \<Rightarrow> ustr" where
  "env_or env key dflt = (case env key of None \<Rightarrow> ascii dflt | Some v \<Rightarrow> v)"

definition resolve_runtime_config ::
  "unicode \<Rightarrow> (ustr \<Rightarrow> pyfloat option) \<Rightarrow> (string \<Rightarrow> ustr option) \<Rightarrow> exn + RuntimeConfig" where
  "resolve_runtime_config u py_float env =
     bindE (parse_env_mode u (env_or env ''ENV_MODE'' ''local'')) (\<lambda>mode.
     let provider = uc_lower u (strip u (env_or env ''LLM_PROVIDER'' ''mock''));
         enabled = parse_bool u (env ''ANALYSIS_RUNTIME_ENABLED'') False;
         key = optional_str u (env ''OPENAI_API_KEY'') in
     bindE (parse_int u (env ''LLM_MAX_ATTEMPTS'') 2 1) (\<lambda>attempts.
     bindE (parse_float py_float (env ''OPENAI_TIMEOUT_SECONDS'') (Fin 30) (Fin 1)) (\<lambda>timeout.
     bindE (require_str u env ''DATABASE_URL'') (\<lambda>url.
     bindE (require_str u env ''DATABASE_URL_PSYCOPG2'') (\<lambda>url2.
     bindE (parse_int u (env ''ANALYSIS_WORKER_CONCURRENCY'') 1 1) (\<lambda>concurrency.
     bindE (parse_int u (env ''ANALYSIS_WORKER_BATCH_SIZE'') 1 1) (\<lambda>batch.
     bindE (parse_float py_float (env ''ANALYSIS_WORKER_POLL_INTERVAL'') (Fin 1) (Fin (1 / 100))) (\<lambda>poll.
     bindE (parse_int u (env ''ANALYSIS_JOB_MAX_ATTEMPTS'') 1 1) (\<lambda>job_attempts.
     bindE (parse_int u (env ''ANALYSIS_JOB_STALE_TIMEOUT_SECONDS'') 180 1) (\<lambda>stale.
     let test = (mode = ascii ''test'') in
     Inr \<lparr>env_mode = mode, llm_provider = (if test then ascii ''mock'' else provider),
       openai_api_key = (if test then None else key),
       openai_base_url = strip u (env_or env ''OPENAI_BASE_URL'' ''https://api.openai.com/v1''),
       local_llm_base_url = strip u (env_or env ''LOCAL_LLM_BASE_URL'' ''http://localhost:1234/v1''),
       default_model = strip u (env_or env ''DEFAULT_MODEL'' ''gpt-4o-mini''),
       llm_max_attempts = attempts, openai_timeout_seconds = timeout,
       runtime_enabled = (if test then False else enabled), analysis_worker_concurrency = concurrency,
       analysis_worker_batch_size = batch, analysis_worker_poll_interval = poll,
       analysis_job_max_attempts = job_attempts, analysis_job_stale_timeout_seconds = stale,
       database_url = url, database_url_psycopg2 = url2,
       traceback_output_enabled = parse_bool u (env ''TRACEBACK_OUTPUT_ENABLED'') False,
       otlp_grpc_endpoint = strip u (env_or env ''OTLP_GRPC_ENDPOINT'' ''http://localhost:4317'')\<rparr>))))))))))"

definition load_runtime_config ::
  "unicode \<Rightarrow> (ustr \<Rightarrow> pyfloat option) \<Rightarrow> (ustr \<Rightarrow> bool) \<Rightarrow> (string \<Rightarrow> ustr option) \<Rightarrow> exn + RuntimeConfig" where
  "load_runtime_config u py_float netloc_ok env =
     bindE (resolve_runtime_config u py_float env) (\<lambda>c.
     bindE (validate_config netloc_ok c) (\<lambda>_. Inr c))"

subsection \<open>Guards\<close>

definition assert_llm_provider_allowed :: "unicode \<Rightarrow> ustr \<Rightarrow> RuntimeConfig \<Rightarrow> exn + unit" where
  "assert_llm_provider_allowed u provider c =
     (if env_mode c \<noteq> ascii ''test'' then Inr ()
      else whenE (uc_lower u (strip u provider) \<noteq> ascii ''mock'')
        (ConfigValidationError [Lit ''ENV_MODE=test forbids LLM_PROVIDER='', Txt provider, Lit ''; only mock is allowed'']))"

definition assert_openai_client_allowed :: "RuntimeConfig \<Rightarrow> exn + unit" where
  "assert_openai_client_allowed c =
     whenE (env_mode c = ascii ''test'') (ConfigValidationError [Lit ''ENV_MODE=test forbids AsyncOpenAI instantiation''])"

text \<open>
  The kill switch patches the constructors of \<open>httpx\<close> once and keeps the mode; every later
  construction looks at the mode kept last.
\<close>

definition kill_switch_env_mode :: "unicode \<Rightarrow> ustr option \<Rightarrow> (string \<Rightarrow> ustr option) \<Rightarrow> ustr" where
  "kill_switch_env_mode u mode env =
     (let m = (case mode of Some m \<Rightarrow> if m = [] then uc_lower u (strip u (env_or env ''ENV_MODE'' ''local'')) else m
               | None \<Rightarrow> uc_lower u (strip u (env_or env ''ENV_MODE'' ''local'')))
      in if m \<notin> {ascii ''local'', ascii ''test'', ascii ''prod''} then ascii ''local'' else m)"

definition guarded_http_client :: "ustr \<Rightarrow> ('w, 'a) op \<Rightarrow> ('w, 'a) op" where
  "guarded_http_client mode init =
     (if mode = ascii ''test'' then throwM (RuntimeError [Lit ''ENV_MODE=test blocks HTTP client creation'']) else init)"

definition should_start_runtime_worker :: "RuntimeConfig \<Rightarrow> bool" where
  "should_start_runtime_worker c = runtime_enabled c"

subsection \<open>Start-up\<close>

text \<open>
  \<open>probe\<close> is one connection attempt (\<open>SELECT 1\<close>), \<open>pause\<close> one \<open>asyncio.sleep\<close>. The loop runs with the
  attempts that are left; it pauses between attempts, not after the last.
\<close>

fun probe_loop :: "('w, unit) op \<Rightarrow> ('w, unit) op \<Rightarrow> nat \<Rightarrow> exn option \<Rightarrow> ('w, exn option + unit) op" where
  "probe_loop probe pause 0 last_error = returnM (Inl last_error)"
| "probe_loop probe pause (Suc n) last_error =
     (\<lambda>s. case probe s of
        (Inr (), s') \<Rightarrow> (Inr (Inr ()), s')
      | (Inl e, s') \<Rightarrow> thenM (if n = 0 then returnM () else pause) (probe_loop probe pause n (Some e)) s')"

definition validate_database_reachable :: "('w, unit) op \<Rightarrow> ('w, unit) op \<Rightarrow> nat \<Rightarrow> ('w, unit) op" where
  "validate_database_reachable probe pause retries =
     bindM (probe_loop probe pause retries None) (\<lambda>r.
     case r of
       Inr () \<Rightarrow> returnM ()
     | Inl last_error \<Rightarrow> throwM (ConfigValidationError ([Lit ''Database is not reachable after '', Num (int retries),
         Lit '' attempts: ''] @ (case last_error of None \<Rightarrow> [Lit ''None''] | Some e \<Rightarrow> exn_message e))))"

definition DEFAULT_DB_RETRIES :: nat where "DEFAULT_DB_RETRIES = 5"

definition validate_infra :: "('w, unit) op \<Rightarrow> ('w, unit) op \<Rightarrow> RuntimeConfig \<Rightarrow> ('w, unit) op" where
  "validate_infra probe pause c =
     (if env_mode c = ascii ''prod'' \<and> runtime_enabled c
      then validate_database_reachable probe pause DEFAULT_DB_RETRIES else returnM ())"

definition run_startup_validation ::
  "(ustr \<Rightarrow> bool) \<Rightarrow> ('w, unit) op \<Rightarrow> ('w, unit) op \<Rightarrow> RuntimeConfig \<Rightarrow> ('w, RuntimeConfig) op" where
  "run_startup_validation netloc_ok probe pause c =
     thenM (liftM (validate_config netloc_ok c)) (thenM (validate_infra probe pause c) (returnM c))"

definition validate_startup_sync :: "(ustr \<Rightarrow> bool) \<Rightarrow> RuntimeConfig \<Rightarrow> exn + RuntimeConfig" where
  "validate_startup_sync netloc_ok c = bindE (validate_config netloc_ok c) (\<lambda>_. Inr c)"

subsection \<open>What a loaded configuration guarantees\<close>

lemma whenE_Inr: "whenE b e = Inr x \<longleftrightarrow> \<not> b"
  by (simp add: whenE_def)

lemma parse_int_ge: "parse_int u raw d m = Inr v \<Longrightarrow> m \<le> v"
  by (auto simp: parse_int_def split: option.splits if_splits)

lemma parse_float_ge: "parse_float f raw d m = Inr v \<Longrightarrow> \<not> float_less v m"
  by (auto simp: parse_float_def split: option.splits if_splits)

lemma not_float_less: "\<not> float_less v (Fin m) \<longleftrightarrow> v = NaN \<or> v = PosInf \<or> (\<exists>q. v = Fin q \<and> m \<le> q)"
  by (cases v) auto

lemma ascii_inj [simp]: "ascii s = ascii t \<longleftrightarrow> s = t"
proof -
  have "inj (of_char :: char \<Rightarrow> nat)" by (rule inj_of_char)
  then show ?thesis by (simp add: ascii_def inj_map_eq_map)
qed

definition mode_rules :: "RuntimeConfig \<Rightarrow> bool" where
  "mode_rules c \<longleftrightarrow>
     (env_mode c = ascii ''test'' \<longrightarrow> llm_provider c = ascii ''mock'' \<and> \<not> runtime_enabled c)
     \<and> (env_mode c = ascii ''prod'' \<longrightarrow> llm_provider c \<noteq> ascii ''mock'' \<and> runtime_enabled c
          \<and> (\<exists>k. openai_api_key c = Some k \<and> k \<noteq> []))"

lemma validated:
  assumes "validate_config netloc_ok c = Inr ()"
  shows "env_mode c \<in> {ascii ''local'', ascii ''test'', ascii ''prod''}" "llm_provider c \<in> KNOWN_LLM_PROVIDERS"
    "database_url c \<noteq> []" "database_url_psycopg2 c \<noteq> []" "mode_rules c"
  using assms
  by (auto simp: validate_config_def bindE_Inr whenE_Inr mode_rules_def validate_prod_config_def no_key_def
      split: if_splits option.splits)

text \<open>C36. A configuration that loads is usable: the mode and the provider are known, the database is
  named, every count is at least one and every duration is at least its minimum, infinite or not a
  number (which the comparison lets through). In test mode it is the mock, without a key and with the
  worker off, whatever the environment says; in production there is a key, a real provider and a worker.\<close>

theorem loaded_config_is_usable:
  assumes "load_runtime_config u py_float netloc_ok env = Inr c"
  shows "env_mode c \<in> {ascii ''local'', ascii ''test'', ascii ''prod''} \<and> llm_provider c \<in> KNOWN_LLM_PROVIDERS
    \<and> database_url c \<noteq> [] \<and> database_url_psycopg2 c \<noteq> [] \<and> mode_rules c
    \<and> (env_mode c = ascii ''test'' \<longrightarrow> openai_api_key c = None)
    \<and> 1 \<le> llm_max_attempts c \<and> 1 \<le> analysis_worker_concurrency c \<and> 1 \<le> analysis_worker_batch_size c
    \<and> 1 \<le> analysis_job_max_attempts c \<and> 1 \<le> analysis_job_stale_timeout_seconds c
    \<and> (openai_timeout_seconds c \<in> {NaN, PosInf} \<or> (\<exists>q. openai_timeout_seconds c = Fin q \<and> 1 \<le> q))
    \<and> (analysis_worker_poll_interval c \<in> {NaN, PosInf} \<or> (\<exists>q. analysis_worker_poll_interval c = Fin q \<and> 1 / 100 \<le> q))"
proof -
  have r: "resolve_runtime_config u py_float env = Inr c" and v: "validate_config netloc_ok c = Inr ()"
    using assms by (auto simp: load_runtime_config_def bindE_Inr)
  have "1 \<le> llm_max_attempts c \<and> 1 \<le> analysis_worker_concurrency c \<and> 1 \<le> analysis_worker_batch_size c
    \<and> 1 \<le> analysis_job_max_attempts c \<and> 1 \<le> analysis_job_stale_timeout_seconds c
    \<and> \<not> float_less (openai_timeout_seconds c) (Fin 1) \<and> \<not> float_less (analysis_worker_poll_interval c) (Fin (1 / 100))
    \<and> (env_mode c = ascii ''test'' \<longrightarrow> openai_api_key c = None)"
    using r by (auto simp: resolve_runtime_config_def bindE_Inr Let_def dest: parse_int_ge parse_float_ge)
  then show ?thesis using validated [OF v] by (auto simp: not_float_less)
qed

definition sample_env :: "string \<Rightarrow> ustr option" where
  "sample_env key =
     (if key = ''ENV_MODE'' then Some (ascii '' Test '')
      else if key = ''LLM_PROVIDER'' then Some (ascii ''openai'')
      else if key = ''OPENAI_API_KEY'' then Some (ascii ''sk'')
      else if key = ''LLM_MAX_ATTEMPTS'' then Some (ascii '' 1_0 '')
      else if key \<in> {''DATABASE_URL'', ''DATABASE_URL_PSYCOPG2''} then Some (ascii ''postgresql://db'')
      else None)"

definition sample_config :: RuntimeConfig where
  "sample_config = (case load_runtime_config basic_unicode (\<lambda>_. None) (\<lambda>_. True) sample_env of Inr c \<Rightarrow> c)"

lemma sample_config_loads: "load_runtime_config basic_unicode (\<lambda>_. None) (\<lambda>_. True) sample_env = Inr sample_config"
proof -
  have "case load_runtime_config basic_unicode (\<lambda>_. None) (\<lambda>_. True) sample_env of Inr c \<Rightarrow> True | Inl _ \<Rightarrow> False"
    by code_simp
  then show ?thesis by (auto simp: sample_config_def split: sum.splits)
qed

theorem loaded_config_is_usable_witness:
  "llm_provider sample_config \<in> KNOWN_LLM_PROVIDERS \<and> mode_rules sample_config \<and> 1 \<le> llm_max_attempts sample_config"
  using loaded_config_is_usable [OF sample_config_loads] by blast

end
