(* ===== verification/Parser.thy ===== *)
theory Parser
  imports Text
begin

text \<open>
  From the raw text of a model to a JSON object: \<open>services/response_parser.py\<close>, with the part of the standard
  library it rests on, \<open>json.JSONDecoder.raw_decode\<close> and \<open>json.loads\<close>. \<open>float()\<close> is a parameter. The decoder
  is fuelled by the length of the text; \<open>scan_mono\<close> shows that more fuel changes no result.
\<close>

subsection \<open>Strings\<close>

definition json_ws :: "nat \<Rightarrow> bool" where
  "json_ws c \<longleftrightarrow> c \<in> {32, 9, 10, 13}"

definition skip_ws :: "ustr \<Rightarrow> ustr" where
  "skip_ws = dropWhile json_ws"

definition hex_digit :: "nat \<Rightarrow> nat option" where
  "hex_digit c = (if 48 \<le> c \<and> c \<le> 57 then Some (c - 48) else if 97 \<le> c \<and> c \<le> 102 then Some (c - 87)
     else if 65 \<le> c \<and> c \<le> 70 then Some (c - 55) else None)"

fun hex4 :: "ustr \<Rightarrow> (nat \<times> ustr) option" where
  "hex4 (a # b # c # d # s) =
     (case (hex_digit a, hex_digit b, hex_digit c, hex_digit d) of
        (Some a, Some b, Some c, Some d) \<Rightarrow> Some (4096 * a + 256 * b + 16 * c + d, s)
      | _ \<Rightarrow> None)"
| "hex4 _ = None"

definition simple_escape :: "nat \<Rightarrow> nat option" where
  "simple_escape c = (if c \<in> {34, 92, 47} then Some c else if c = 98 then Some 8 else if c = 102 then Some 12
     else if c = 110 then Some 10 else if c = 114 then Some 13 else if c = 116 then Some 9 else None)"

lemma hex4_length: "hex4 s = Some (n, r) \<Longrightarrow> length r < length s"
  by (cases s rule: hex4.cases) (auto split: option.splits)

text \<open>A high surrogate takes a low one that follows it as another \<open>\u\<close> escape; a lone one stays.\<close>

definition unicode_escape :: "ustr \<Rightarrow> (nat \<times> ustr) option" where
  "unicode_escape s =
     (case hex4 s of
        None \<Rightarrow> None
      | Some (n, r) \<Rightarrow>
          if 55296 \<le> n \<and> n \<le> 56319 \<and> starts_with r [92, 117] then
            (case hex4 (drop 2 r) of
               None \<Rightarrow> None
             | Some (m, r') \<Rightarrow>
                 if 56320 \<le> m \<and> m \<le> 57343 then Some (65536 + 1024 * (n - 55296) + (m - 56320), r') else Some (n, r))
          else Some (n, r))"

lemma unicode_escape_length: "unicode_escape s = Some (n, r) \<Longrightarrow> length r < length s"
  by (auto simp: unicode_escape_def dest!: hex4_length split: option.splits if_splits)

text \<open>The body of a string, after the opening quote (\<open>scanstring\<close> in strict mode).\<close>

function scan_string :: "ustr \<Rightarrow> (ustr \<times> ustr) option" where
  "scan_string s =
     (case s of
        [] \<Rightarrow> None
      | c # cs \<Rightarrow>
          if c = 34 then Some ([], cs)
          else if c < 32 then None
          else if c \<noteq> 92 then map_option (\<lambda>(t, r). (c # t, r)) (scan_string cs)
          else (case cs of
             [] \<Rightarrow> None
           | e # es \<Rightarrow>
               if e = 117 then
                 (case unicode_escape es of
                    None \<Rightarrow> None
                  | Some (n, r) \<Rightarrow> map_option (\<lambda>(t, r'). (n # t, r')) (scan_string r))
               else
                 (case simple_escape e of
                    None \<Rightarrow> None
                  | Some n \<Rightarrow> map_option (\<lambda>(t, r). (n # t, r)) (scan_string es))))"
  by pat_completeness auto
termination
  by (relation "measure length") (auto dest: unicode_escape_length)

declare scan_string.simps [simp del]

subsection \<open>Numbers\<close>

definition is_digit :: "nat \<Rightarrow> bool" where
  "is_digit c \<longleftrightarrow> 48 \<le> c \<and> c \<le> 57"

definition digits :: "ustr \<Rightarrow> ustr \<times> ustr" where
  "digits s = (takeWhile is_digit s, dropWhile is_digit s)"

text \<open>\<open>(-?(?:0|[1-9]\d*))(\.\d+)?([eE][-+]?\d+)?\<close>: the three groups, and the rest.\<close>

definition scan_sign :: "ustr \<Rightarrow> ustr \<times> ustr" where
  "scan_sign s = (case s of c # cs \<Rightarrow> if c = 45 then ([45], cs) else ([], s) | [] \<Rightarrow> ([], []))"

definition scan_integer :: "ustr \<Rightarrow> (ustr \<times> ustr) option" where
  "scan_integer s =
     (case s of
        [] \<Rightarrow> None
      | c # cs \<Rightarrow> if c = 48 then Some ([48], cs) else if is_digit c then Some (digits s) else None)"

definition scan_frac :: "ustr \<Rightarrow> ustr \<times> ustr" where
  "scan_frac s =
     (case s of
        c # cs \<Rightarrow> if c = 46 \<and> fst (digits cs) \<noteq> [] then (46 # fst (digits cs), snd (digits cs)) else ([], s)
      | [] \<Rightarrow> ([], []))"

definition scan_exp :: "ustr \<Rightarrow> ustr \<times> ustr" where
  "scan_exp s =
     (case s of
        c # cs \<Rightarrow>
          if c \<in> {101, 69} then
            (let (sg, r) = (case cs of d # ds \<Rightarrow> if d \<in> {43, 45} then ([d], ds) else ([], cs) | [] \<Rightarrow> ([], []))
             in if fst (digits r) \<noteq> [] then (c # sg @ fst (digits r), snd (digits r)) else ([], s))
          else ([], s)
      | [] \<Rightarrow> ([], []))"

definition digits_value :: "ustr \<Rightarrow> int" where
  "digits_value = foldl (\<lambda>n c. n * 10 + (int c - 48)) 0"

definition scan_number :: "(ustr \<Rightarrow> pyfloat option) \<Rightarrow> ustr \<Rightarrow> (json \<times> ustr) option" where
  "scan_number py_float s =
     (let (sg, s1) = scan_sign s in
      case scan_integer s1 of
        None \<Rightarrow> None
      | Some (ds, s2) \<Rightarrow>
          let (fr, s3) = scan_frac s2; (ex, s4) = scan_exp s3 in
          if fr = [] \<and> ex = [] then Some (JInt ((if sg = [] then 1 else - 1) * digits_value ds), s4)
          else map_option (\<lambda>f. (JFloat f, s4)) (py_float (sg @ ds @ fr @ ex)))"

subsection \<open>Values\<close>

text \<open>A dictionary keeps the place of a key's first insertion and the value of its last.\<close>

fun put :: "ustr \<Rightarrow> json \<Rightarrow> (ustr \<times> json) list \<Rightarrow> (ustr \<times> json) list" where
  "put k v [] = [(k, v)]"
| "put k v ((k', v') # m) = (if k' = k then (k', v) # m else (k', v') # put k v m)"

definition literal :: "string \<Rightarrow> json \<Rightarrow> ustr \<Rightarrow> (json \<times> ustr) option" where
  "literal name v s = (if starts_with s (ascii name) then Some (v, drop (length name) s) else None)"

definition first_of :: "'a option list \<Rightarrow> 'a option" where
  "first_of xs = (case filter (\<lambda>x. x \<noteq> None) xs of [] \<Rightarrow> None | x # _ \<Rightarrow> x)"

definition scan_atom :: "(ustr \<Rightarrow> pyfloat option) \<Rightarrow> ustr \<Rightarrow> (json \<times> ustr) option" where
  "scan_atom py_float s = first_of [literal ''null'' JNull s, literal ''true'' (JBool True) s,
     literal ''false'' (JBool False) s, scan_number py_float s, literal ''NaN'' (JFloat NaN) s,
     literal ''Infinity'' (JFloat PosInf) s, literal ''-Infinity'' (JFloat NegInf) s]"

text \<open>
  The scanner is put together from four combinators: \<open>seqP\<close> (then), \<open>wsP\<close> (skip white space), \<open>tokP\<close> (one
  expected character, with a value) and \<open>headP\<close> (look at the next character).
\<close>

type_synonym 'a scanner = "ustr \<Rightarrow> ('a \<times> ustr) option"

definition seqP :: "'a scanner \<Rightarrow> ('a \<Rightarrow> 'b scanner) \<Rightarrow> 'b scanner" where
  "seqP p f s = (case p s of None \<Rightarrow> None | Some (v, r) \<Rightarrow> f v r)"

definition wsP :: "unit scanner" where
  "wsP s = Some ((), skip_ws s)"

definition tokP :: "nat \<Rightarrow> 'a \<Rightarrow> 'a scanner" where
  "tokP c v s = (case s of [] \<Rightarrow> None | d # ds \<Rightarrow> if d = c then Some (v, ds) else None)"

definition headP :: "(nat \<Rightarrow> 'a scanner) \<Rightarrow> 'a scanner" where
  "headP g s = (case s of [] \<Rightarrow> None | c # cs \<Rightarrow> g c s)"

definition stringP :: "ustr scanner" where
  "stringP = seqP (tokP 34 ()) (\<lambda>_. scan_string)"

definition mapP :: "('a \<Rightarrow> 'b) \<Rightarrow> 'a scanner \<Rightarrow> 'b scanner" where
  "mapP h p s = map_option (\<lambda>(v, r). (h v, r)) (p s)"

definition failP :: "'a scanner" where
  "failP s = None"

fun scan :: "(ustr \<Rightarrow> pyfloat option) \<Rightarrow> nat \<Rightarrow> json scanner"
  and members :: "(ustr \<Rightarrow> pyfloat option) \<Rightarrow> nat \<Rightarrow> (ustr \<times> json) list \<Rightarrow> json scanner"
  and elements :: "(ustr \<Rightarrow> pyfloat option) \<Rightarrow> nat \<Rightarrow> json list \<Rightarrow> json scanner"
where
  "scan fl 0 = failP"
| "scan fl (Suc n) = headP (\<lambda>c.
     if c = 34 then mapP JStr stringP
     else if c = 123 then
       seqP (tokP 123 ()) (\<lambda>_. seqP wsP (\<lambda>_. headP (\<lambda>d.
         if d = 125 then tokP 125 (JObj []) else members fl n [])))
     else if c = 91 then
       seqP (tokP 91 ()) (\<lambda>_. seqP wsP (\<lambda>_. headP (\<lambda>d.
         if d = 93 then tokP 93 (JList []) else elements fl n [])))
     else scan_atom fl)"
| "members fl 0 m = failP"
| "members fl (Suc n) m =
     seqP stringP (\<lambda>k. seqP wsP (\<lambda>_. seqP (tokP 58 ()) (\<lambda>_. seqP wsP (\<lambda>_. seqP (scan fl n) (\<lambda>v. seqP wsP (\<lambda>_.
       headP (\<lambda>e.
         if e = 125 then tokP 125 (JObj (put k v m))
         else seqP (tokP 44 ()) (\<lambda>_. seqP wsP (\<lambda>_. members fl n (put k v m)))))))))) "
| "elements fl 0 xs = failP"
| "elements fl (Suc n) xs =
     seqP (scan fl n) (\<lambda>v. seqP wsP (\<lambda>_. headP (\<lambda>e.
       if e = 93 then tokP 93 (JList (xs @ [v]))
       else seqP (tokP 44 ()) (\<lambda>_. seqP wsP (\<lambda>_. elements fl n (xs @ [v]))))))"

text \<open>The fuel: every call consumes at least one character or precedes one that does.\<close>

definition raw_decode :: "(ustr \<Rightarrow> pyfloat option) \<Rightarrow> ustr \<Rightarrow> (json \<times> ustr) option" where
  "raw_decode fl s = scan fl (2 * length s + 2) s"

definition loads :: "(ustr \<Rightarrow> pyfloat option) \<Rightarrow> ustr \<Rightarrow> json option" where
  "loads fl s =
     (if starts_with s [65279] then None else
      case raw_decode fl (skip_ws s) of
        None \<Rightarrow> None
      | Some (v, r) \<Rightarrow> if skip_ws r = [] then Some v else None)"

subsection \<open>\<open>response_parser\<close>\<close>

fun split_first :: "ustr \<Rightarrow> ustr \<Rightarrow> (ustr \<times> ustr) option" where
  "split_first p [] = (if p = [] then Some ([], []) else None)"
| "split_first p (c # s) =
     (if starts_with (c # s) p then Some ([], drop (length p) (c # s))
      else map_option (\<lambda>(a, b). (c # a, b)) (split_first p s))"

lemma split_first_Some: "split_first p s = Some (a, b) \<Longrightarrow> s = a @ p @ b"
proof (induction p s arbitrary: a rule: split_first.induct)
  case (1 p)
  then show ?case by (auto split: if_splits)
next
  case (2 p c s)
  then show ?case
    by (auto simp: starts_with_def split: if_splits) (metis append_take_drop_id)
qed

definition FENCE :: ustr where "FENCE = [96, 96, 96]"

definition drop_json_tag :: "unicode \<Rightarrow> ustr \<Rightarrow> ustr" where
  "drop_json_tag u s =
     (if length s \<ge> 4 \<and> list_all2 (uc_ieq u) (ascii ''json'') (take 4 s) then drop 4 s else s)"

text \<open>
  The bodies of \<open>```(?:json)?\s*(?P<body>.*?)\s*```\<close>, match after match: the lazy body ends at the first
  closing fence, since neither the tag nor white space contains a back-quote.
\<close>

function fenced :: "unicode \<Rightarrow> ustr \<Rightarrow> ustr list" where
  "fenced u s =
     (case split_first FENCE s of
        None \<Rightarrow> []
      | Some (a, r) \<Rightarrow>
          (case split_first FENCE (lstrip u (drop_json_tag u r)) of
             None \<Rightarrow> []
           | Some (body, r') \<Rightarrow> rstrip u body # fenced u r'))"
  by pat_completeness auto
termination
proof (relation "measure (\<lambda>(u, s). length s)")
  fix u s x a r x' body r'
  assume h: "split_first FENCE s = Some x" "(a, r) = x"
    "split_first FENCE (lstrip u (drop_json_tag u r)) = Some x'" "(body, r') = x'"
  have "length r < length s" using split_first_Some [of FENCE s a r] h by (auto simp: FENCE_def)
  moreover have "length (lstrip u (drop_json_tag u r)) \<le> length r"
    by (rule le_trans [of _ "length (drop_json_tag u r)"])
      (simp_all add: lstrip_def drop_json_tag_def length_dropWhile_le)
  moreover have "length r' \<le> length (lstrip u (drop_json_tag u r))"
    using split_first_Some [of FENCE "lstrip u (drop_json_tag u r)" body r'] h by simp
  ultimately show "((u, r'), (u, s)) \<in> measure (\<lambda>(u, s). length s)" by simp
qed simp

declare fenced.simps [simp del]

definition braced :: "ustr \<Rightarrow> bool" where
  "braced s \<longleftrightarrow> starts_with s [123] \<and> ends_with s [125]"

text \<open>The scan over the positions of an opening brace.\<close>

fun first_object :: "(ustr \<Rightarrow> pyfloat option) \<Rightarrow> ustr \<Rightarrow> ustr option" where
  "first_object fl [] = None"
| "first_object fl (c # s) =
     (if c \<noteq> 123 then first_object fl s else
      case raw_decode fl (c # s) of
        None \<Rightarrow> first_object fl s
      | Some (v, r) \<Rightarrow> Some (take (length (c # s) - length r) (c # s)))"

definition extract_json :: "unicode \<Rightarrow> (ustr \<Rightarrow> pyfloat option) \<Rightarrow> ustr \<Rightarrow> exn + ustr" where
  "extract_json u fl raw =
     (let stripped = strip u raw in
      if braced stripped then Inr stripped else
      case find braced (map (strip u) (fenced u raw)) of
        Some candidate \<Rightarrow> Inr candidate
      | None \<Rightarrow>
          (case first_object fl raw of
             Some t \<Rightarrow> Inr t
           | None \<Rightarrow> Inl (ResponseParseError [Lit ''Could not extract JSON object from raw response''])))"

definition parse_json :: "(ustr \<Rightarrow> pyfloat option) \<Rightarrow> ustr \<Rightarrow> exn + (ustr \<times> json) list" where
  "parse_json fl raw =
     (case loads fl raw of
        None \<Rightarrow> Inl (ResponseParseError [Lit ''Extracted payload is not valid JSON''])
      | Some (JObj m) \<Rightarrow> Inr m
      | Some _ \<Rightarrow> Inl (ResponseParseError [Lit ''Extracted JSON payload must be an object'']))"

subsection \<open>More fuel changes no result\<close>

definition below :: "'a scanner \<Rightarrow> 'a scanner \<Rightarrow> bool" where
  "below p q \<longleftrightarrow> (\<forall>s x. p s = Some x \<longrightarrow> q s = Some x)"

named_theorems scanner "closure rules for scanners"

lemma below_refl [scanner]: "below p p"
  by (simp add: below_def)

lemma below_fail [scanner]: "below failP q"
  by (simp add: below_def failP_def)

lemma below_seq [scanner]: "below p q \<Longrightarrow> (\<And>v. below (f v) (g v)) \<Longrightarrow> below (seqP p f) (seqP q g)"
  by (auto simp: below_def seqP_def split: option.splits)

lemma below_head [scanner]: "(\<And>c. below (f c) (g c)) \<Longrightarrow> below (headP f) (headP g)"
  by (auto simp: below_def headP_def split: list.splits)

lemma below_if [scanner]: "(b \<Longrightarrow> below p p') \<Longrightarrow> (\<not> b \<Longrightarrow> below q q') \<Longrightarrow> below (if b then p else q) (if b then p' else q')"
  by simp

lemma scan_mono:
  "n \<le> k \<Longrightarrow> below (scan fl n) (scan fl k)"
  "n \<le> k \<Longrightarrow> below (members fl n m) (members fl k m)"
  "n \<le> k \<Longrightarrow> below (elements fl n xs) (elements fl k xs)"
proof (induction n arbitrary: k m xs)
  case (Suc n)
  {
    case 1
    then obtain k' where "k = Suc k'" "n \<le> k'" by (cases k) auto
    then show ?case using Suc.IH by (simp, intro scanner) simp_all
  next
    case 2
    then obtain k' where "k = Suc k'" "n \<le> k'" by (cases k) auto
    then show ?case using Suc.IH by (simp, intro scanner) simp_all
  next
    case 3
    then obtain k' where "k = Suc k'" "n \<le> k'" by (cases k) auto
    then show ?case using Suc.IH by (simp, intro scanner) simp_all
  }
qed (simp_all add: scanner)

subsection \<open>A scanner does not look past the object it reads\<close>

text \<open>
  \<open>strict\<close>: something is consumed. \<open>stable\<close>: on a text whose part up to a closing brace is \<open>e\<close>, a result that
  leaves all of what follows \<open>e\<close> does not depend on what follows.
\<close>

definition weak :: "'a scanner \<Rightarrow> bool" where
  "weak p \<longleftrightarrow> (\<forall>s v r. p s = Some (v, r) \<longrightarrow> (\<exists>c. s = c @ r))"

definition strict :: "'a scanner \<Rightarrow> bool" where
  "strict p \<longleftrightarrow> (\<forall>s v r. p s = Some (v, r) \<longrightarrow> (\<exists>c. c \<noteq> [] \<and> s = c @ r))"

definition stable :: "'a scanner \<Rightarrow> bool" where
  "stable p \<longleftrightarrow> (\<forall>e z v w z'. e \<noteq> [] \<longrightarrow> last e = 125 \<longrightarrow> p (e @ z) = Some (v, w @ z) \<longrightarrow> p (e @ z') = Some (v, w @ z'))"

lemma strict_weak: "strict p \<Longrightarrow> weak p"
  unfolding strict_def weak_def by blast

lemma seqP_Some: "seqP p f s = Some x \<longleftrightarrow> (\<exists>v r. p s = Some (v, r) \<and> f v r = Some x)"
  by (auto simp: seqP_def split: option.splits)

lemma strict_seq [scanner]: "weak p \<Longrightarrow> (\<And>v. strict (f v)) \<Longrightarrow> strict (seqP p f)"
  unfolding strict_def weak_def seqP_Some by (metis append_assoc append_is_Nil_conv)

lemma stable_seq [scanner]:
  assumes "stable p" and "weak p" and "\<And>v. stable (f v)" and "\<And>v. strict (f v)"
  shows "stable (seqP p f)"
  unfolding stable_def
proof (intro allI impI)
  fix e z x w z'
  assume e: "e \<noteq> []" "last e = 125" and run: "seqP p f (e @ z) = Some (x, w @ z)"
  then obtain v r where p: "p (e @ z) = Some (v, r)" and f: "f v r = Some (x, w @ z)"
    by (auto simp: seqP_Some)
  obtain c where c: "c \<noteq> []" "r = c @ w @ z" using assms(4) f unfolding strict_def by blast
  obtain d where "e @ z = d @ r" using assms(2) p unfolding weak_def by blast
  then have d: "e = d @ c @ w" using c(2) by simp
  then have cw: "c @ w \<noteq> []" "last (c @ w) = 125" using c(1) e(2) by auto
  have "p (e @ z') = Some (v, (c @ w) @ z')"
    using assms(1) e p unfolding stable_def c(2) by (metis append_assoc)
  moreover have "f v ((c @ w) @ z') = Some (x, w @ z')"
    using assms(3) cw f unfolding stable_def c(2) by (metis append_assoc)
  ultimately show "seqP p f (e @ z') = Some (x, w @ z')" by (auto simp: seqP_Some)
qed

lemma strict_head [scanner]: "(\<And>c. strict (g c)) \<Longrightarrow> strict (headP g)"
  by (auto simp: strict_def headP_def split: list.splits)

lemma stable_head [scanner]:
  assumes "\<And>c. stable (g c)" shows "stable (headP g)"
  unfolding stable_def
proof (intro allI impI)
  fix e z x w z'
  assume e: "e \<noteq> []" "last e = 125" and run: "headP g (e @ z) = Some (x, w @ z)"
  obtain c cs where c: "e = c # cs" using e(1) by (cases e) auto
  then have "g c (e @ z) = Some (x, w @ z)" using run by (simp add: headP_def)
  then have "g c (e @ z') = Some (x, w @ z')" using assms e unfolding stable_def by blast
  then show "headP g (e @ z') = Some (x, w @ z')" by (simp add: headP_def c)
qed

lemma strict_tok [scanner]: "strict (tokP c v)"
  by (auto simp: strict_def tokP_def split: list.splits if_splits)

lemma stable_tok [scanner]: "stable (tokP c v)"
  unfolding stable_def
proof (intro allI impI)
  fix e z x w z'
  assume e: "e \<noteq> []" "last e = 125" and run: "tokP c v (e @ z) = Some (x, w @ z)"
  obtain d ds where d: "e = d # ds" using e(1) by (cases e) auto
  then have "ds @ z = w @ z" using run by (simp add: tokP_def split: if_splits)
  then show "tokP c v (e @ z') = Some (x, w @ z')" using run d by (simp add: tokP_def split: if_splits)
qed

lemma weak_ws [scanner]: "weak wsP"
  unfolding weak_def wsP_def skip_ws_def by (metis prod.inject option.inject takeWhile_dropWhile_id)

lemma skip_ws_append: "e \<noteq> [] \<Longrightarrow> last e = 125 \<Longrightarrow> skip_ws (e @ z) = skip_ws e @ z"
  unfolding skip_ws_def by (rule dropWhile_append1 [OF last_in_set]) (simp_all add: json_ws_def)

lemma stable_ws [scanner]: "stable wsP"
  by (auto simp: stable_def wsP_def skip_ws_append)

lemma strict_map [scanner]: "strict p \<Longrightarrow> strict (mapP h p)"
  by (auto simp: strict_def mapP_def)

lemma mapP_Some: "mapP h p s = Some (x, r) \<longleftrightarrow> (\<exists>v. p s = Some (v, r) \<and> x = h v)"
  by (auto simp: mapP_def)

lemma stable_map [scanner]: "stable p \<Longrightarrow> stable (mapP h p)"
  unfolding stable_def mapP_Some by blast

lemma strict_fail [scanner]: "strict failP" and stable_fail [scanner]: "stable failP"
  by (simp_all add: strict_def stable_def failP_def)

lemma strict_if [scanner]: "(b \<Longrightarrow> strict p) \<Longrightarrow> (\<not> b \<Longrightarrow> strict q) \<Longrightarrow> strict (if b then p else q)"
  and stable_if [scanner]: "(b \<Longrightarrow> stable p) \<Longrightarrow> (\<not> b \<Longrightarrow> stable q) \<Longrightarrow> stable (if b then p else q)"
  by simp_all

text \<open>Strings end at their quote.\<close>

lemma hex4_prefix:
  assumes "hex4 s = Some (n, r)"
  shows "\<exists>c. length c = 4 \<and> s = c @ r \<and> (\<forall>r'. hex4 (c @ r') = Some (n, r'))"
  using assms
proof (cases s rule: hex4.cases)
  case (1 a b c d t)
  obtain a' b' c' d' where h: "hex_digit a = Some a'" "hex_digit b = Some b'" "hex_digit c = Some c'" "hex_digit d = Some d'"
    using assms 1 by (simp split: option.splits)
  then have "n = 4096 * a' + 256 * b' + 16 * c' + d'" "r = t" using assms 1 by simp_all
  then show ?thesis using 1 h by (intro exI [of _ "[a, b, c, d]"]) simp
qed simp_all

lemma starts_with_append: "length p \<le> length c \<Longrightarrow> starts_with (c @ r) p = starts_with c p"
  by (simp add: starts_with_def)

lemma unicode_escape_prefix:
  assumes "unicode_escape s = Some (n, c1 @ r)" and "c1 \<noteq> []" and "last c1 = 34"
    and "starts_with c1 [92, 117] \<longrightarrow> 6 \<le> length c1"
  shows "\<exists>c. c \<noteq> [] \<and> s = c @ c1 @ r \<and> (\<forall>r'. unicode_escape (c @ c1 @ r') = Some (n, c1 @ r'))"
proof -
  obtain m t where h: "hex4 s = Some (m, t)" using assms(1) by (auto simp: unicode_escape_def split: option.splits)
  obtain c where c: "length c = 4" "s = c @ t" "\<forall>r'. hex4 (c @ r') = Some (m, r')" using hex4_prefix [OF h] by blast
  show ?thesis
  proof (cases "55296 \<le> m \<and> m \<le> 56319 \<and> starts_with t [92, 117]")
    case False
    then have t: "t = c1 @ r" "n = m" using assms(1) h by (simp_all add: unicode_escape_def split: if_splits)
    have nst: "(55296 \<le> m \<and> m \<le> 56319 \<and> starts_with (c1 @ r') [92, 117]) = False" for r'
    proof (cases "2 \<le> length c1")
      case True
      then show ?thesis using False by (simp add: t starts_with_append)
    next
      case short: False
      then have "c1 = [34]" using assms(2, 3) by (cases c1) (auto simp: not_le less_Suc_eq)
      then show ?thesis by (simp add: starts_with_def)
    qed
    have "unicode_escape (c @ c1 @ r') = Some (n, c1 @ r')" for r'
      by (simp only: unicode_escape_def c(3) [rule_format] option.case prod.case nst if_False t(2))
    then show ?thesis using c t by (intro exI [of _ c]) auto
  next
    case True
    obtain k t2 where h2: "hex4 (drop 2 t) = Some (k, t2)"
      using assms(1) h True by (auto simp: unicode_escape_def split: option.splits)
    obtain c2 where c2: "length c2 = 4" "drop 2 t = c2 @ t2" "\<forall>r'. hex4 (c2 @ r') = Some (k, r')"
      using hex4_prefix [OF h2] by blast
    have t: "t = [92, 117] @ c2 @ t2" using True c2(2) by (metis append_take_drop_id starts_with_def length_Cons list.size(3) One_nat_def Suc_1)
    show ?thesis
    proof (cases "56320 \<le> k \<and> k \<le> 57343")
      case low: True
      then have n: "n = 65536 + 1024 * (m - 55296) + (k - 56320)" "t2 = c1 @ r"
        using assms(1) h h2 True by (simp_all add: unicode_escape_def)
      have "unicode_escape ((c @ [92, 117] @ c2) @ c1 @ r') = Some (n, c1 @ r')" for r'
        using c(3) c2(3) True low n(1) by (simp add: unicode_escape_def starts_with_def)
      then show ?thesis using c(2) t n(2) by (intro exI [of _ "c @ [92, 117] @ c2"]) auto
    next
      case lone: False
      then have n: "n = m" "t = c1 @ r" using assms(1) h h2 True by (simp_all add: unicode_escape_def split: if_splits)
      have "c1 \<noteq> [34]" using True n(2) by (auto simp: starts_with_def)
      then have "2 \<le> length c1" using assms(2, 3) by (cases c1; cases "tl c1") auto
      then have st: "starts_with c1 [92, 117]" using True n(2) by (simp add: starts_with_append)
      then have six: "6 \<le> length c1" using assms(4) by blast
      obtain y where y: "c1 = [92, 117] @ y"
        using st by (metis append_take_drop_id starts_with_def)
      have "y @ r = c2 @ t2" using t n(2) y by simp
      moreover have "length c2 \<le> length y" using six c2(1) y by simp
      ultimately obtain y' where y': "y = c2 @ y'" by (auto simp: append_eq_append_conv2)
      have "unicode_escape (c @ c1 @ r') = Some (n, c1 @ r')" for r'
        using c(3) c2(3) True lone n(1) by (simp add: unicode_escape_def starts_with_def y y')
      then show ?thesis using c n(2) by (intro exI [of _ c]) auto
    qed
  qed
qed

lemma unicode_escape_needs: "unicode_escape s = Some x \<Longrightarrow> 4 \<le> length s"
  by (cases x) (auto simp: unicode_escape_def dest!: hex4_prefix split: option.splits)

lemma scan_string_prefix:
  "scan_string s = Some (t, r) \<Longrightarrow> \<exists>c. c \<noteq> [] \<and> last c = 34 \<and> s = c @ r \<and> (\<forall>r'. scan_string (c @ r') = Some (t, r'))"
proof (induction s arbitrary: t r rule: scan_string.induct)
  case (1 s)
  obtain c cs where s: "s = c # cs" using "1.prems" by (cases s) (simp_all add: scan_string.simps [of "[]"])
  have run: "scan_string (c # cs) = Some (t, r)" using "1.prems" s by simp
  consider (quote) "c = 34" | (plain) "c \<noteq> 34" "\<not> c < 32" "c \<noteq> 92" | (esc) "c = 92"
    using run by (force simp: scan_string.simps [of "c # cs"])
  then show ?case
  proof cases
    case quote
    then show ?thesis using run s
      by (intro exI [of _ "[34]"]) (simp add: scan_string.simps [of "34 # x" for x])
  next
    case plain
    then obtain t' where t': "scan_string cs = Some (t', r)" "t = c # t'"
      using run by (auto simp: scan_string.simps [of "c # cs"])
    obtain d where d: "d \<noteq> []" "last d = 34" "cs = d @ r" "\<forall>r'. scan_string (d @ r') = Some (t', r')"
      using "1.IH"(1) [OF s plain(1, 2, 3) t'(1)] by blast
    then show ?thesis using plain s t'(2)
      by (intro exI [of _ "c # d"]) (simp add: scan_string.simps [of "c # x" for x])
  next
    case esc
    obtain e es where cs: "cs = e # es" using run esc by (cases cs) (simp_all add: scan_string.simps [of "92 # x" for x])
    show ?thesis
    proof (cases "e = 117")
      case True
      obtain n q t' where q: "unicode_escape es = Some (n, q)" "scan_string q = Some (t', r)" "t = n # t'"
        using run esc cs True by (auto simp: scan_string.simps [of "92 # x" for x] split: option.splits)
      obtain d where d: "d \<noteq> []" "last d = 34" "q = d @ r" "\<forall>r'. scan_string (d @ r') = Some (t', r')"
        using "1.IH"(2) [OF s _ _ _ cs True q(1) refl q(2)] esc by auto
      have "6 \<le> length d" if st: "starts_with d [92, 117]"
      proof -
        obtain y where y: "d = 92 # 117 # y"
          using st unfolding starts_with_def by (metis append_Cons append_Nil append_take_drop_id)
        have "scan_string (92 # 117 # y) = Some (t', [])" using d(4) [rule_format, of "[]"] y by simp
        then have "\<exists>x. unicode_escape y = Some x"
          by (auto simp: scan_string.simps [of "92 # x" for x] split: option.splits)
        then show ?thesis using unicode_escape_needs y by fastforce
      qed
      then obtain c1 where c1: "c1 \<noteq> []" "es = c1 @ d @ r" "\<forall>r'. unicode_escape (c1 @ d @ r') = Some (n, d @ r')"
        using unicode_escape_prefix [of es n d r] q(1) d(1, 2, 3) by auto
      show ?thesis using c1 d q(3) s cs esc True
        by (intro exI [of _ "92 # 117 # c1 @ d"]) (simp add: scan_string.simps [of "92 # x" for x])
    next
      case False
      obtain n t' where q: "simple_escape e = Some n" "scan_string es = Some (t', r)" "t = n # t'"
        using run esc cs False by (auto simp: scan_string.simps [of "92 # x" for x] split: option.splits)
      obtain d where d: "d \<noteq> []" "last d = 34" "es = d @ r" "\<forall>r'. scan_string (d @ r') = Some (t', r')"
        using "1.IH"(3) [OF s _ _ _ cs False q(1, 2)] esc by auto
      show ?thesis using d q s cs esc False
        by (intro exI [of _ "92 # e # d"]) (simp add: scan_string.simps [of "92 # x" for x])
    qed
  qed
qed

lemma strict_string [scanner]: "strict stringP"
  unfolding stringP_def by (intro scanner) (auto simp: strict_def dest: scan_string_prefix intro: strict_weak scanner)

lemma stable_scan_string: "stable scan_string"
  unfolding stable_def
proof (intro allI impI)
  fix e z x w z' assume "scan_string (e @ z) = Some (x, w @ z)"
  then obtain c where c: "e @ z = c @ w @ z" "\<forall>r'. scan_string (c @ r') = Some (x, r')"
    using scan_string_prefix by blast
  then have "e = c @ w" by simp
  then show "scan_string (e @ z') = Some (x, w @ z')" using c(2) by simp
qed

lemma stable_string [scanner]: "stable stringP"
  unfolding stringP_def
  by (intro scanner stable_scan_string strict_weak) (auto simp: strict_def dest: scan_string_prefix)

text \<open>Atoms treat a closing brace like the end of the text.\<close>

definition exact :: "'a scanner \<Rightarrow> bool" where
  "exact p \<longleftrightarrow> (\<forall>x z. p (x @ 125 # z) = map_option (\<lambda>(v, r). (v, r @ 125 # z)) (p x))"

lemma exact_stable: "exact p \<Longrightarrow> stable p"
  unfolding stable_def
proof (intro allI impI)
  fix e z v w z'
  assume ex: "exact p" and e: "e \<noteq> []" "last e = 125" and run: "p (e @ z) = Some (v, w @ z)"
  obtain x where x: "e = x @ [125]" using e by (metis append_butlast_last_id)
  obtain r where r: "p x = Some (v, r)" "w @ z = r @ 125 # z"
    using run ex unfolding exact_def x by auto
  then have "w = r @ [125]" by simp
  then show "p (e @ z') = Some (v, w @ z')" using ex r(1) unfolding exact_def x by simp
qed

lemma digits_brace: "digits (x @ 125 # z) = (fst (digits x), snd (digits x) @ 125 # z)"
proof -
  have "\<not> is_digit 125" by (simp add: is_digit_def)
  then have "takeWhile is_digit (x @ 125 # z) = takeWhile is_digit x"
    "dropWhile is_digit (x @ 125 # z) = dropWhile is_digit x @ 125 # z"
    by (induction x) auto
  then show ?thesis by (simp add: digits_def)
qed

lemma scan_sign_brace: "scan_sign (x @ 125 # z) = (fst (scan_sign x), snd (scan_sign x) @ 125 # z)"
  by (cases x) (simp_all add: scan_sign_def)

lemma scan_integer_brace: "scan_integer (x @ 125 # z) = map_option (\<lambda>(v, r). (v, r @ 125 # z)) (scan_integer x)"
proof (cases x)
  case (Cons c cs)
  then show ?thesis using digits_brace [of "c # cs" z] by (simp add: scan_integer_def split: prod.split)
qed (simp add: scan_integer_def is_digit_def)

lemma scan_frac_brace: "scan_frac (x @ 125 # z) = (fst (scan_frac x), snd (scan_frac x) @ 125 # z)"
proof (cases x)
  case (Cons c cs)
  then show ?thesis using digits_brace [of cs z] by (simp add: scan_frac_def)
qed (simp add: scan_frac_def)

lemma scan_exp_brace: "scan_exp (x @ 125 # z) = (fst (scan_exp x), snd (scan_exp x) @ 125 # z)"
proof (cases x)
  case (Cons c cs)
  show ?thesis
  proof (cases cs)
    case Nil
    then show ?thesis using Cons digits_brace [of "[]" z] by (simp add: scan_exp_def)
  next
    case (Cons d ds)
    then show ?thesis using \<open>x = c # cs\<close> digits_brace [of ds z] digits_brace [of "d # ds" z]
      by (simp add: scan_exp_def)
  qed
qed (simp add: scan_exp_def)

lemma exact_number: "exact (scan_number fl)"
  unfolding exact_def
proof (intro allI)
  fix x z
  obtain sg a where a: "scan_sign x = (sg, a)" by fastforce
  show "scan_number fl (x @ 125 # z) = map_option (\<lambda>(v, r). (v, r @ 125 # z)) (scan_number fl x)"
  proof (cases "scan_integer a")
    case None
    then show ?thesis by (simp add: scan_number_def scan_sign_brace scan_integer_brace a)
  next
    case (Some p)
    obtain ds b where "p = (ds, b)" by fastforce
    moreover obtain fr c where "scan_frac b = (fr, c)" by fastforce
    moreover obtain ex d where "scan_exp c = (ex, d)" by fastforce
    ultimately show ?thesis
      using Some by (cases "fl (sg @ ds @ fr @ ex)")
        (simp_all add: scan_number_def scan_sign_brace scan_integer_brace scan_frac_brace scan_exp_brace a Let_def)
  qed
qed

lemma starts_with_brace: "125 \<notin> set p \<Longrightarrow> starts_with (x @ 125 # z) p = starts_with x p"
proof (induction p arbitrary: x)
  case (Cons c p)
  then show ?case by (cases x) (auto simp: starts_with_def)
qed (simp add: starts_with_def)

lemma starts_with_length: "starts_with x p \<Longrightarrow> length p \<le> length x"
  by (metis starts_with_def length_take min.cobounded1 min_def nat_le_linear)

lemma exact_literal: "125 \<notin> set (ascii name) \<Longrightarrow> exact (literal name v)"
  by (auto simp: exact_def literal_def starts_with_brace dest!: starts_with_length) (simp add: ascii_def)

lemma first_of_map: "first_of (map (map_option h) xs) = map_option h (first_of xs)"
  by (induction xs) (auto simp: first_of_def split: option.splits)

lemma exact_atom: "exact (scan_atom fl)"
  unfolding exact_def
proof (intro allI)
  fix x z :: ustr
  let ?h = "\<lambda>(v :: json, r :: ustr). (v, r @ 125 # z)"
  have "scan_atom fl (x @ 125 # z) = first_of (map (map_option ?h)
     [literal ''null'' JNull x, literal ''true'' (JBool True) x, literal ''false'' (JBool False) x, scan_number fl x,
      literal ''NaN'' (JFloat NaN) x, literal ''Infinity'' (JFloat PosInf) x, literal ''-Infinity'' (JFloat NegInf) x])"
    using exact_number [of fl] exact_literal [of "''null''" JNull] exact_literal [of "''true''" "JBool True"]
      exact_literal [of "''false''" "JBool False"] exact_literal [of "''NaN''" "JFloat NaN"]
      exact_literal [of "''Infinity''" "JFloat PosInf"] exact_literal [of "''-Infinity''" "JFloat NegInf"]
    by (simp add: scan_atom_def exact_def ascii_def)
  then show "scan_atom fl (x @ 125 # z) = map_option ?h (scan_atom fl x)"
    by (simp only: first_of_map scan_atom_def)
qed

lemmas stable_atom [scanner] = exact_stable [OF exact_atom]

lemma scan_number_strict: "strict (scan_number fl)"
  unfolding strict_def
proof (intro allI impI)
  fix s v r assume run: "scan_number fl s = Some (v, r)"
  have dg: "fst (digits x) @ snd (digits x) = x" for x by (simp add: digits_def)
  have sign: "fst (scan_sign x) @ snd (scan_sign x) = x" for x by (cases x) (simp_all add: scan_sign_def)
  have frac: "fst (scan_frac x) @ snd (scan_frac x) = x" for x using dg by (cases x) (simp_all add: scan_frac_def)
  have exp: "fst (scan_exp x) @ snd (scan_exp x) = x" for x
    using dg by (cases x; cases "tl x") (simp_all add: scan_exp_def)
  have int: "\<exists>c. c \<noteq> [] \<and> x = c @ y" if "scan_integer x = Some (ds, y)" for x ds y
  proof (cases x)
    case (Cons c cs)
    show ?thesis
    proof (cases "c = 48")
      case True
      then show ?thesis using that Cons by (auto simp: scan_integer_def)
    next
      case False
      then have "is_digit c" "digits x = (ds, y)" using that Cons by (auto simp: scan_integer_def split: if_splits)
      then show ?thesis using dg [of x] Cons by (intro exI [of _ ds]) (auto simp: digits_def)
    qed
  qed (use that in \<open>simp add: scan_integer_def\<close>)
  obtain ds b where b: "scan_integer (snd (scan_sign s)) = Some (ds, b)"
    "r = snd (scan_exp (snd (scan_frac b)))"
    using run by (auto simp: scan_number_def Let_def split: prod.splits option.splits if_splits)
  obtain c where c: "c \<noteq> []" "snd (scan_sign s) = c @ b" using int [OF b(1)] by blast
  have "b = fst (scan_frac b) @ fst (scan_exp (snd (scan_frac b))) @ r"
    using frac [of b] exp [of "snd (scan_frac b)"] b(2) by simp
  then have "s = (fst (scan_sign s) @ c @ fst (scan_frac b) @ fst (scan_exp (snd (scan_frac b)))) @ r"
    using sign [of s] c(2) by simp
  then show "\<exists>c. c \<noteq> [] \<and> s = c @ r" using c(1) by blast
qed

lemma literal_strict: "name \<noteq> [] \<Longrightarrow> strict (literal name v)"
  by (auto simp: strict_def literal_def starts_with_def ascii_def)
    (metis append_take_drop_id length_map list.map_disc_iff)

lemma first_of_strict:
  "first_of xs = Some (v, r) \<Longrightarrow> \<forall>y \<in> set xs. \<forall>v r. y = Some (v, r) \<longrightarrow> (\<exists>c. c \<noteq> [] \<and> s = c @ r) \<Longrightarrow>
   \<exists>c. c \<noteq> [] \<and> s = c @ r"
  by (induction xs) (auto simp: first_of_def split: if_splits)

lemma strictD: "strict p \<Longrightarrow> p s = Some (v, r) \<Longrightarrow> \<exists>c. c \<noteq> [] \<and> s = c @ r"
  unfolding strict_def by blast

lemma strict_atom [scanner]: "strict (scan_atom fl)"
  unfolding strict_def
proof (intro allI impI)
  fix s v r assume "scan_atom fl s = Some (v, r)"
  then have h: "first_of [literal ''null'' JNull s, literal ''true'' (JBool True) s,
     literal ''false'' (JBool False) s, scan_number fl s, literal ''NaN'' (JFloat NaN) s,
     literal ''Infinity'' (JFloat PosInf) s, literal ''-Infinity'' (JFloat NegInf) s] = Some (v, r)"
    by (simp only: scan_atom_def)
  show "\<exists>c. c \<noteq> [] \<and> s = c @ r"
  proof (rule first_of_strict [OF h], intro ballI allI impI)
    fix y v' r'
    assume "y \<in> set [literal ''null'' JNull s, literal ''true'' (JBool True) s,
     literal ''false'' (JBool False) s, scan_number fl s, literal ''NaN'' (JFloat NaN) s,
     literal ''Infinity'' (JFloat PosInf) s, literal ''-Infinity'' (JFloat NegInf) s]" and "y = Some (v', r')"
    then show "\<exists>c. c \<noteq> [] \<and> s = c @ r'"
      using strictD [OF scan_number_strict [of fl], of s v' r'] strictD [OF literal_strict [of "''null''" JNull], of s v' r']
        strictD [OF literal_strict [of "''true''" "JBool True"], of s v' r']
        strictD [OF literal_strict [of "''false''" "JBool False"], of s v' r']
        strictD [OF literal_strict [of "''NaN''" "JFloat NaN"], of s v' r']
        strictD [OF literal_strict [of "''Infinity''" "JFloat PosInf"], of s v' r']
        strictD [OF literal_strict [of "''-Infinity''" "JFloat NegInf"], of s v' r']
      by auto
  qed
qed

lemmas weak_scanners [scanner] = strict_weak [OF strict_string] strict_weak [OF strict_tok]

lemma scan_strict:
  "strict (scan fl n) \<and> (\<forall>m. strict (members fl n m)) \<and> (\<forall>xs. strict (elements fl n xs))"
proof (induction n)
  case (Suc n)
  then have "strict (scan fl n)" "weak (scan fl n)" "strict (members fl n m)" "strict (elements fl n xs)" for m xs
    by (auto intro: strict_weak)
  then show ?case by (auto intro!: scanner)
qed (simp add: strict_fail)

lemma scan_stable:
  "stable (scan fl n) \<and> (\<forall>m. stable (members fl n m)) \<and> (\<forall>xs. stable (elements fl n xs))"
proof (induction n)
  case (Suc n)
  have "strict (scan fl n)" "weak (scan fl n)" "strict (members fl n m)" "strict (elements fl n xs)" for m xs
    using scan_strict [of fl n] by (auto intro: strict_weak)
  moreover have "stable (scan fl n)" "stable (members fl n m)" "stable (elements fl n xs)" for m xs
    using Suc by auto
  ultimately show ?case by (auto intro!: scanner)
qed (simp add: stable_fail)

subsection \<open>An object embedded in prose is found\<close>

lemma no_fence: "split_first FENCE s = None \<Longrightarrow> fenced u s = []"
  by (simp add: fenced.simps)

lemma first_object_skip: "123 \<notin> set pre \<Longrightarrow> first_object fl (pre @ s) = first_object fl s"
  by (induction pre) auto

lemma raw_decode_stable:
  assumes "raw_decode fl obj = Some (v, [])" and "last obj = 125"
  shows "raw_decode fl (obj @ post) = Some (v, post)"
proof -
  have ne: "obj \<noteq> []" using assms(1) by (auto simp: raw_decode_def headP_def numeral_2_eq_2)
  have "below (scan fl (2 * length obj + 2)) (scan fl (2 * length (obj @ post) + 2))"
    by (rule scan_mono) simp
  then have "scan fl (2 * length (obj @ post) + 2) (obj @ []) = Some (v, [] @ [])"
    using assms(1) by (simp add: raw_decode_def below_def)
  moreover have "stable (scan fl (2 * length (obj @ post) + 2))" using scan_stable by blast
  ultimately have "scan fl (2 * length (obj @ post) + 2) (obj @ post) = Some (v, [] @ post)"
    using ne assms(2) unfolding stable_def by blast
  then show ?thesis by (simp add: raw_decode_def)
qed


definition sample_object :: ustr where
  "sample_object = ascii ''{'' @ [34] @ ascii ''a}'' @ [34] @ ascii '': [1, true, '' @ [34, 92, 110, 34] @ ascii ''] }''"

definition no_floats :: "ustr \<Rightarrow> pyfloat option" where
  "no_floats s = None"

lemma sample_object_decodes:
  "raw_decode no_floats sample_object = Some (JObj [(ascii ''a}'', JList [JInt 1, JBool True, JStr [10]])], [])"
  by code_simp


end
