(* ===== verification/Store.thy ===== *)
theory Store
  imports Prelude
begin

text \<open>
  The shared state: one record per ORM class of \<open>db/models\<close>, the tables as lists of rows in
  insertion order, and the environment the services read from.

  A table is only changed through \<open>INSERT\<close> (append), \<open>UPDATE .. WHERE\<close> (\<open>update_where\<close>) and, in the
  clean-up script, \<open>DELETE\<close>. The environment consists of what the code does not compute itself:
  \<open>uuids\<close> (successive results of \<open>uuid.uuid4()\<close>), \<open>clock\<close> (successive readings of
  \<open>datetime.utcnow()\<close>), \<open>tx_now\<close> (PostgreSQL's \<open>now()\<close>, constant within a transaction), \<open>dream_seq\<close>
  (the sequence of \<open>dreams.id\<close>), \<open>row_locked\<close> (rows another transaction holds) and \<open>rivals\<close> (for
  each flush of a new active thread, the row a concurrent transaction committed first, if any).
  \<open>redis\<close> and \<open>sent\<close> are outside the database: no rollback touches them.
\<close>

subsection \<open>Rows\<close>

record dream_session =
  ds_id :: uuid
  ds_user_id :: int
  ds_status :: string
  ds_created_at :: time
  ds_updated_at :: time
  ds_last_activity_at :: time

record dream =
  dr_id :: int
  dr_user_id :: int
  dr_text :: ustr
  dr_created_at :: time
  dr_session_id :: uuid

datatype job_status = QUEUED | RUNNING | COMPLETED | FAILED | CANCELLED

record analysis_job =
  job_id :: uuid
  job_session_id :: uuid
  job_dream_id :: "int option"
  job_thread_id :: "uuid option"
  job_status :: job_status
  job_provider :: ustr
  job_model :: ustr
  job_mode :: string
  job_attempts :: int
  job_max_attempts :: int
  job_last_error_class :: "string option"
  job_last_error_message :: "message option"
  job_retryable :: bool
  job_created_at :: time
  job_updated_at :: time
  job_available_after :: time
  job_started_at :: "time option"
  job_completed_at :: "time option"
  job_locked_by :: "string option"
  job_locked_at :: "time option"

record analysis_thread =
  th_id :: uuid
  th_session_id :: uuid
  th_status :: string
  th_created_at :: time
  th_updated_at :: time
  th_last_activity_at :: "time option"
  th_last_analysis_id :: "uuid option"

record session_analysis =
  sa_id :: uuid
  sa_session_id :: uuid
  sa_thread_id :: uuid
  sa_user_id :: int
  sa_provider :: ustr
  sa_model :: ustr
  sa_prompt_version :: string
  sa_analysis_version :: string
  sa_analysis_json :: json
  sa_raw_response :: "ustr option"
  sa_is_latest :: bool
  sa_continuation_index :: nat
  sa_analysis_job_id :: "uuid option"
  sa_created_at :: time

record conversation_turn =
  ct_id :: uuid
  ct_user_id :: int
  ct_session_id :: uuid
  ct_dream_id :: "int option"
  ct_role :: string
  ct_turn_type :: string
  ct_source :: string
  ct_text :: ustr
  ct_metadata_json :: "json option"
  ct_created_at :: time

record policy_trace =
  pt_id :: uuid
  pt_user_id :: int
  pt_session_id :: "uuid option"
  pt_dream_id :: "int option"
  pt_job_id :: "uuid option"
  pt_input_json :: json
  pt_decision_json :: json
  pt_route :: string
  pt_reason_code :: string
  pt_outcome_json :: json
  pt_created_at :: time

record dream_memory =
  dm_id :: uuid
  dm_dream_id :: int
  dm_session_id :: uuid
  dm_user_id :: int
  dm_memory_version :: string
  dm_memory_json :: json
  dm_analysis_job_id :: "uuid option"
  dm_created_at :: time
  dm_updated_at :: time

record session_summary =
  ss_id :: uuid
  ss_session_id :: uuid
  ss_user_id :: int
  ss_dream_count :: nat
  ss_key_symbols :: "ustr list"
  ss_recurring_words :: "ustr list"
  ss_raw_text_sample :: "ustr option"
  ss_created_at :: time

record admin_prompt_version =
  pv_id :: uuid
  pv_prompt_type :: string
  pv_version :: int
  pv_content :: ustr
  pv_active_flag :: bool
  pv_created_at :: time

record player =
  pl_id :: int
  pl_username :: ustr
  pl_created_at :: time
  pl_updated_at :: "time option"

text \<open>Status and role constants of \<open>db/models\<close>.\<close>

definition THREAD_STATUS_ACTIVE :: string where "THREAD_STATUS_ACTIVE = ''active''"
definition THREAD_STATUS_IDLE :: string where "THREAD_STATUS_IDLE = ''idle''"
definition THREAD_STATUS_CLOSED :: string where "THREAD_STATUS_CLOSED = ''closed''"
definition TURN_ROLE_USER :: string where "TURN_ROLE_USER = ''user''"
definition TURN_ROLE_ASSISTANT :: string where "TURN_ROLE_ASSISTANT = ''assistant''"
definition TURN_TYPE_DREAM_INTAKE :: string where "TURN_TYPE_DREAM_INTAKE = ''dream_intake''"
definition TURN_TYPE_DIALOGUE :: string where "TURN_TYPE_DIALOGUE = ''dialogue''"
definition TURN_TYPE_CLARIFICATION :: string where "TURN_TYPE_CLARIFICATION = ''clarification''"
definition TURN_TYPE_SAFETY :: string where "TURN_TYPE_SAFETY = ''safety''"

lemmas thread_status_defs = THREAD_STATUS_ACTIVE_def THREAD_STATUS_IDLE_def THREAD_STATUS_CLOSED_def
lemmas turn_defs = TURN_ROLE_USER_def TURN_ROLE_ASSISTANT_def TURN_TYPE_DREAM_INTAKE_def
  TURN_TYPE_DIALOGUE_def TURN_TYPE_CLARIFICATION_def TURN_TYPE_SAFETY_def

lemma thread_status_distinct [simp]:
  "THREAD_STATUS_ACTIVE \<noteq> THREAD_STATUS_IDLE" "THREAD_STATUS_IDLE \<noteq> THREAD_STATUS_ACTIVE"
  "THREAD_STATUS_ACTIVE \<noteq> THREAD_STATUS_CLOSED" "THREAD_STATUS_CLOSED \<noteq> THREAD_STATUS_ACTIVE"
  "THREAD_STATUS_IDLE \<noteq> THREAD_STATUS_CLOSED" "THREAD_STATUS_CLOSED \<noteq> THREAD_STATUS_IDLE"
  by (simp_all add: thread_status_defs)

subsection \<open>The world\<close>

record world =
  sessions :: "dream_session list"
  dreams :: "dream list"
  jobs :: "analysis_job list"
  threads :: "analysis_thread list"
  analyses :: "session_analysis list"
  turns :: "conversation_turn list"
  traces :: "policy_trace list"
  memories :: "dream_memory list"
  summaries :: "session_summary list"
  prompt_versions :: "admin_prompt_version list"
  players :: "player list"
  tx_now :: time
  clock :: "nat \<Rightarrow> time"
  uuids :: "nat \<Rightarrow> uuid"
  dream_seq :: int
  row_locked :: "uuid \<Rightarrow> bool"
  rivals :: "nat \<Rightarrow> analysis_thread option"
  rivals_pending :: "analysis_thread list"
  redis :: "string \<times> uuid \<rightharpoonup> string"
  sent :: "(ustr \<times> ustr) list"

type_synonym 'a db = "(world, 'a) op"

subsection \<open>Reading the environment\<close>

definition uuid4 :: "uuid db" where
  "uuid4 s = (Inr (uuids s 0), s\<lparr>uuids := \<lambda>n. uuids s (Suc n)\<rparr>)"

definition utcnow :: "time db" where
  "utcnow s = (Inr (clock s 0), s\<lparr>clock := \<lambda>n. clock s (Suc n)\<rparr>)"

definition next_dream_id :: "int db" where
  "next_dream_id s = (Inr (dream_seq s + 1), s\<lparr>dream_seq := dream_seq s + 1\<rparr>)"

lemmas [run] = uuid4_def utcnow_def next_dream_id_def

lemma preserves_uuid4: "(\<And>s g. I s \<Longrightarrow> I (s\<lparr>uuids := g\<rparr>)) \<Longrightarrow> preserves I uuid4"
  by (simp add: preserves_def uuid4_def)

lemma preserves_utcnow: "(\<And>s g. I s \<Longrightarrow> I (s\<lparr>clock := g\<rparr>)) \<Longrightarrow> preserves I utcnow"
  by (simp add: preserves_def utcnow_def)

lemma preserves_next_dream_id:
  "(\<And>s n. I s \<Longrightarrow> I (s\<lparr>dream_seq := n\<rparr>)) \<Longrightarrow> preserves I next_dream_id"
  by (simp add: preserves_def next_dream_id_def)

lemmas preserves_env = preserves_uuid4 preserves_utcnow preserves_next_dream_id

lemma keeps_env [keep]:
  "(\<And>s g. f (s\<lparr>uuids := g\<rparr>) = f s) \<Longrightarrow> keeps f uuid4"
  "(\<And>s g. f (s\<lparr>clock := g\<rparr>) = f s) \<Longrightarrow> keeps f utcnow"
  "(\<And>s n. f (s\<lparr>dream_seq := n\<rparr>) = f s) \<Longrightarrow> keeps f next_dream_id"
  by (simp_all add: keeps_def run)

lemma raises_env [raise]: "raises_only E uuid4" "raises_only E utcnow" "raises_only E next_dream_id"
  by (simp_all add: raises_only_def run)

text \<open>A call to the outside world: it takes time, and has no access to the database.\<close>

definition calls_outside :: "'a db \<Rightarrow> bool" where
  "calls_outside m \<longleftrightarrow> (\<forall>s. \<exists>c. snd (m s) = s\<lparr>clock := c\<rparr>)"

lemma keeps_outside: "calls_outside m \<Longrightarrow> (\<And>s g. f (s\<lparr>clock := g\<rparr>) = f s) \<Longrightarrow> keeps f m"
  by (metis calls_outside_def keepsI)

subsection \<open>Savepoints and transactions\<close>

text \<open>
  A rival is a transaction that committed an active thread for the same session between our
  \<open>UPDATE\<close> and our \<open>INSERT\<close>; it went through the same steps, so the session's other active threads
  are idle. Its row is seen once our own attempt has been rolled back.
\<close>

definition commit_rival :: "analysis_thread \<Rightarrow> analysis_thread list \<Rightarrow> analysis_thread list" where
  "commit_rival r ts =
     update_where (\<lambda>t. th_session_id t = th_session_id r \<and> th_status t = THREAD_STATUS_ACTIVE)
       (\<lambda>t. t\<lparr>th_status := THREAD_STATUS_IDLE\<rparr>) ts @ [r]"

definition rollback_to :: "world \<Rightarrow> world \<Rightarrow> world" where
  "rollback_to s0 s1 = s1\<lparr>sessions := sessions s0, dreams := dreams s0, jobs := jobs s0,
     threads := fold commit_rival (rivals_pending s1) (threads s0), analyses := analyses s0,
     turns := turns s0, traces := traces s0, memories := memories s0, summaries := summaries s0,
     prompt_versions := prompt_versions s0, players := players s0, rivals_pending := []\<rparr>"

text \<open>\<open>async with db.begin_nested()\<close> and the request's \<open>async_session.begin()\<close>.\<close>

definition atomically :: "'a db \<Rightarrow> 'a db" where
  "atomically m s = (case m s of (Inr x, s') \<Rightarrow> (Inr x, s') | (Inl e, s') \<Rightarrow> (Inl e, rollback_to s s'))"

lemma keeps_atomically [keep]: "keeps f m \<Longrightarrow> (\<And>s t. f t = f s \<Longrightarrow> f (rollback_to s t) = f s) \<Longrightarrow> keeps f (atomically m)"
  by (auto simp: keeps_def atomically_def split: prod.split sum.split) (metis snd_conv)+

lemma raises_atomically [raise]: "raises_only E m \<Longrightarrow> raises_only E (atomically m)"
  by (auto simp: raises_only_def atomically_def split: prod.split sum.split) (metis fst_conv sum.simps(5))

lemma atomically_Inr: "m s = (Inr x, s') \<Longrightarrow> atomically m s = (Inr x, s')"
  by (simp add: atomically_def)

lemma atomically_Inl: "m s = (Inl e, s') \<Longrightarrow> atomically m s = (Inl e, rollback_to s s')"
  by (simp add: atomically_def)

lemma rollback_to_tables [simp]:
  "sessions (rollback_to s0 s1) = sessions s0" "dreams (rollback_to s0 s1) = dreams s0"
  "jobs (rollback_to s0 s1) = jobs s0" "analyses (rollback_to s0 s1) = analyses s0"
  "turns (rollback_to s0 s1) = turns s0" "traces (rollback_to s0 s1) = traces s0"
  "memories (rollback_to s0 s1) = memories s0" "summaries (rollback_to s0 s1) = summaries s0"
  "prompt_versions (rollback_to s0 s1) = prompt_versions s0" "players (rollback_to s0 s1) = players s0"
  "threads (rollback_to s0 s1) = fold commit_rival (rivals_pending s1) (threads s0)"
  "redis (rollback_to s0 s1) = redis s1" "sent (rollback_to s0 s1) = sent s1"
  "rivals_pending (rollback_to s0 s1) = []" "tx_now (rollback_to s0 s1) = tx_now s1"
  "rivals (rollback_to s0 s1) = rivals s1" "clock (rollback_to s0 s1) = clock s1"
  "uuids (rollback_to s0 s1) = uuids s1" "row_locked (rollback_to s0 s1) = row_locked s1"
  by (simp_all add: rollback_to_def)

text \<open>An operation that raises inside a transaction leaves every table as it found it.\<close>

lemma atomically_error_tables:
  assumes "atomically m s = (Inl e, s')"
  shows "sessions s' = sessions s" "dreams s' = dreams s" "jobs s' = jobs s" "analyses s' = analyses s"
    "turns s' = turns s" "traces s' = traces s" "memories s' = memories s" "summaries s' = summaries s"
    "prompt_versions s' = prompt_versions s" "players s' = players s"
  using assms by (auto simp: atomically_def split: prod.splits sum.splits)

subsection \<open>A fresh supply of identifiers\<close>

text \<open>
  What the code relies on for \<open>uuid.uuid4()\<close>: two draws never give the same value. \<open>supplies\<close> says
  that the remaining draws avoid a given set of identifiers.
\<close>

definition supplies :: "world \<Rightarrow> uuid set \<Rightarrow> bool" where
  "supplies s used \<longleftrightarrow> inj (uuids s) \<and> range (uuids s) \<inter> used = {}"

lemma supplies_draw:
  assumes "supplies s used"
  shows "uuids s 0 \<notin> used" and "supplies (s\<lparr>uuids := \<lambda>n. uuids s (Suc n)\<rparr>) (insert (uuids s 0) used)"
proof -
  have inj: "inj (uuids s)" and dis: "range (uuids s) \<inter> used = {}"
    using assms by (auto simp: supplies_def)
  show "uuids s 0 \<notin> used" using dis by blast
  have "inj (\<lambda>n. uuids s (Suc n))"
    using inj by (auto simp: inj_def)
  moreover have "uuids s 0 \<notin> range (\<lambda>n. uuids s (Suc n))"
    using inj by (auto dest: injD)
  moreover have "range (\<lambda>n. uuids s (Suc n)) \<inter> used = {}"
    using dis by blast
  ultimately show "supplies (s\<lparr>uuids := \<lambda>n. uuids s (Suc n)\<rparr>) (insert (uuids s 0) used)"
    by (auto simp: supplies_def)
qed

subsection \<open>A first concrete world\<close>

text \<open>An empty database; identifiers count up from 100, the clock advances by a second per reading.\<close>

definition empty_world :: world where
  "empty_world = \<lparr>sessions = [], dreams = [], jobs = [], threads = [], analyses = [], turns = [],
     traces = [], memories = [], summaries = [], prompt_versions = [], players = [],
     tx_now = 1000000, clock = (\<lambda>n. 1000000 * (1 + int n)), uuids = (\<lambda>n. 100 + n), dream_seq = 0,
     row_locked = (\<lambda>_. False), rivals = (\<lambda>_. None), rivals_pending = [],
     redis = Map.empty, sent = []\<rparr>"

end
