(* ===== verification/Players.thy ===== *)
theory Players
  imports Config Parser Store "HOL-Library.List_Lexorder"
begin

text \<open>
  Players: the authentication of Telegram Mini App data (\<open>utils/helpers.py\<close>, \<open>utils/auth.py\<close>), the player
  table (\<open>services/player_service.py\<close>), pagination (\<open>utils/pagination.py\<close>) and the routes
  (\<open>routers/players.py\<close>). HMAC-SHA256 is a parameter on bytes, as are the coercions of pydantic and the
  Unicode tables; percent decoding, UTF-8 and \<open>LIKE\<close> are defined here. Rows without \<open>ORDER BY\<close> come in an
  order that is a parameter of the queries.
\<close>

subsection \<open>Bytes\<close>

definition continuation :: "nat \<Rightarrow> nat" where
  "continuation n = 128 + n mod 64"

text \<open>\<open>str.encode()\<close>: a lone surrogate is an error.\<close>

definition utf8_char :: "nat \<Rightarrow> nat list option" where
  "utf8_char c =
     (if c < 128 then Some [c]
      else if c < 2048 then Some [192 + c div 64, continuation c]
      else if 55296 \<le> c \<and> c < 57344 then None
      else if c < 65536 then Some [224 + c div 4096, continuation (c div 64), continuation c]
      else Some [240 + c div 262144, continuation (c div 4096), continuation (c div 64), continuation c])"

definition encode :: "ustr \<Rightarrow> exn + nat list" where
  "encode s = (case those (map utf8_char s) of
     None \<Rightarrow> Inl (ValueError [Lit ''surrogates not allowed'']) | Some bs \<Rightarrow> Inr (concat bs))"

text \<open>
  \<open>bytes.decode('utf-8', 'replace')\<close>: a lead byte fixes how many continuation bytes follow and the range of
  the first; a sequence that breaks off becomes one replacement character.
\<close>

definition lead_byte :: "nat \<Rightarrow> (nat \<times> nat \<times> nat \<times> nat) option" where
  "lead_byte b =
     (if 194 \<le> b \<and> b \<le> 223 then Some (1, 128, 191, b - 192)
      else if b = 224 then Some (2, 160, 191, 0)
      else if b = 237 then Some (2, 128, 159, 13)
      else if 225 \<le> b \<and> b \<le> 239 then Some (2, 128, 191, b - 224)
      else if b = 240 then Some (3, 144, 191, 0)
      else if 241 \<le> b \<and> b \<le> 243 then Some (3, 128, 191, b - 240)
      else if b = 244 then Some (3, 128, 143, 4) else None)"

fun continue_char :: "nat \<Rightarrow> nat \<Rightarrow> nat \<Rightarrow> nat \<Rightarrow> nat list \<Rightarrow> nat option \<times> nat list" where
  "continue_char 0 lo hi acc bs = (Some acc, bs)"
| "continue_char (Suc n) lo hi acc [] = (None, [])"
| "continue_char (Suc n) lo hi acc (b # bs) =
     (if lo \<le> b \<and> b \<le> hi then continue_char n 128 191 (acc * 64 + (b - 128)) bs else (None, b # bs))"

lemma continue_char_length [simp]: "length (snd (continue_char n lo hi acc bs)) \<le> length bs"
  by (induction n lo hi acc bs rule: continue_char.induct) auto

function decode_utf8 :: "nat list \<Rightarrow> ustr" where
  "decode_utf8 [] = []"
| "decode_utf8 (b # bs) =
     (if b < 128 then b # decode_utf8 bs
      else case lead_byte b of
        None \<Rightarrow> 65533 # decode_utf8 bs
      | Some (n, lo, hi, acc) \<Rightarrow>
          (case continue_char n lo hi acc bs of
             (None, r) \<Rightarrow> 65533 # decode_utf8 r
           | (Some c, r) \<Rightarrow> c # decode_utf8 r))"
  by pat_completeness auto
termination
  by (relation "measure length") (auto simp: le_imp_less_Suc, (metis continue_char_length le_imp_less_Suc snd_conv)+)

text \<open>\<open>urllib.parse.unquote\<close>: the runs of ASCII characters are percent-decoded to bytes and read as UTF-8.\<close>

definition hex_value :: "nat \<Rightarrow> nat option" where
  "hex_value c = (if 48 \<le> c \<and> c \<le> 57 then Some (c - 48) else if 97 \<le> c \<and> c \<le> 102 then Some (c - 87)
     else if 65 \<le> c \<and> c \<le> 70 then Some (c - 55) else None)"

fun unquote_to_bytes :: "ustr \<Rightarrow> nat list" where
  "unquote_to_bytes (c # a # b # s) =
     (if c = 37 \<and> hex_value a \<noteq> None \<and> hex_value b \<noteq> None
      then (16 * the (hex_value a) + the (hex_value b)) # unquote_to_bytes s
      else c # unquote_to_bytes (a # b # s))"
| "unquote_to_bytes s = s"

function unquote :: "ustr \<Rightarrow> ustr" where
  "unquote [] = []"
| "unquote (c # s) =
     (if c < 128 then decode_utf8 (unquote_to_bytes (c # takeWhile (\<lambda>c. c < 128) s)) @ unquote (dropWhile (\<lambda>c. c < 128) s)
      else c # unquote s)"
  by pat_completeness auto
termination
  by (relation "measure length") (auto simp: le_imp_less_Suc length_dropWhile_le)

definition hexdigest :: "nat list \<Rightarrow> ustr" where
  "hexdigest bs = concat (map (\<lambda>b. map (\<lambda>d. if d < 10 then 48 + d else 87 + d) [b div 16, b mod 16]) bs)"

subsection \<open>Mini App data\<close>

type_synonym hmac = "nat list \<Rightarrow> nat list \<Rightarrow> nat list"

text \<open>\<open>s.split("=", 1)\<close> unpacked into two names; a part without \<open>=\<close> cannot be unpacked.\<close>

definition key_value :: "ustr \<Rightarrow> exn + ustr \<times> ustr" where
  "key_value s = (case split_first [61] s of
     None \<Rightarrow> Inl (ValueError [Lit ''not enough values to unpack (expected 2, got 1)''])
   | Some (k, v) \<Rightarrow> Inr (k, unquote v))"

fun split_char :: "nat \<Rightarrow> ustr \<Rightarrow> ustr list" where
  "split_char c [] = [[]]"
| "split_char c (x # s) = (if x = c then [] # split_char c s
     else case split_char c s of [] \<Rightarrow> [[x]] | w # ws \<Rightarrow> (x # w) # ws)"

definition parse_mini_app_data :: "ustr \<Rightarrow> exn + (ustr \<rightharpoonup> ustr) \<times> ustr list" where
  "parse_mini_app_data data =
     bindE (mapE key_value (split_char 38 data)) (\<lambda>kvs.
     Inr (map_of (rev kvs), sort (remdups (map fst kvs))))"

definition data_check_string :: "(ustr \<rightharpoonup> ustr) \<Rightarrow> ustr list \<Rightarrow> ustr" where
  "data_check_string vals keys =
     join [10] (map (\<lambda>k. k @ [61] @ the (vals k)) (filter (\<lambda>k. k \<noteq> ascii ''hash'') keys))"

definition mini_app_hash :: "hmac \<Rightarrow> ustr \<Rightarrow> ustr \<Rightarrow> exn + ustr" where
  "mini_app_hash mac bot_token check =
     bindE (encode (ascii ''WebAppData'')) (\<lambda>label. bindE (encode bot_token) (\<lambda>token. bindE (encode check) (\<lambda>msg.
     Inr (hexdigest (mac (mac label token) msg)))))"

definition validate_mini_app_data :: "hmac \<Rightarrow> ustr \<Rightarrow> ustr \<Rightarrow> exn + bool \<times> (ustr \<rightharpoonup> ustr)" where
  "validate_mini_app_data mac bot_token data =
     bindE (parse_mini_app_data data) (\<lambda>(vals, keys).
     bindE (mini_app_hash mac bot_token (data_check_string vals keys)) (\<lambda>h.
     case vals (ascii ''hash'') of
       None \<Rightarrow> Inl (KeyError [Lit ''hash''])
     | Some given \<Rightarrow> Inr (h = given, vals)))"

subsection \<open>Authentication\<close>

fun truthy_json :: "json \<Rightarrow> bool" where
  "truthy_json JNull = False"
| "truthy_json (JBool b) = b"
| "truthy_json (JInt i) = (i \<noteq> 0)"
| "truthy_json (JFloat x) = (x \<noteq> Fin 0)"
| "truthy_json (JStr s) = (s \<noteq> [])"
| "truthy_json (JList xs) = (xs \<noteq> [])"
| "truthy_json (JObj m) = (m \<noteq> [])"

text \<open>\<open>d.get(key)\<close> on a parsed value, which need not be a dictionary.\<close>

definition dict_get :: "json \<Rightarrow> string \<Rightarrow> exn + json" where
  "dict_get d key = (case d of JObj m \<Rightarrow> Inr (case lookup (ascii key) m of None \<Rightarrow> JNull | Some v \<Rightarrow> v)
     | _ \<Rightarrow> Inl (AttributeError [Lit ''get'']))"

record PlayerCreate =
  pcr_player_id :: int
  pcr_username :: "ustr option"

record player_coercions =
  coerce_int :: "json \<Rightarrow> int option"
  coerce_optional_str :: "json \<Rightarrow> ustr option option"

definition player_create :: "player_coercions \<Rightarrow> json \<Rightarrow> json \<Rightarrow> exn + PlayerCreate" where
  "player_create pd i name = (case (coerce_int pd i, coerce_optional_str pd name) of
     (Some n, Some t) \<Rightarrow> Inr \<lparr>pcr_player_id = n, pcr_username = t\<rparr>
   | _ \<Rightarrow> Inl (ValidationError [Lit ''PlayerCreate'']))"

definition unauthorized :: exn where
  "unauthorized = HTTPException 401 [Lit ''UNAUTHORIZED'']"

text \<open>\<open>x or y\<close>.\<close>

definition or_json :: "json \<Rightarrow> json \<Rightarrow> json" where
  "or_json x y = (if truthy_json x then x else y)"

text \<open>\<open>data.get("user", "{}")\<close>.\<close>

definition user_field :: "(ustr \<rightharpoonup> ustr) \<Rightarrow> ustr" where
  "user_field vals = (case vals (ascii ''user'') of None \<Rightarrow> ascii ''{}'' | Some t \<Rightarrow> t)"

text \<open>\<open>body\<close> is \<open>None\<close> when \<open>request.json()\<close> raises.\<close>

definition get_authenticated_player_create ::
  "hmac \<Rightarrow> (ustr \<Rightarrow> pyfloat option) \<Rightarrow> player_coercions \<Rightarrow> ustr \<Rightarrow> json option \<Rightarrow> exn + PlayerCreate" where
  "get_authenticated_player_create mac fl pd bot_token body =
     (case body of None \<Rightarrow> Inl unauthorized
      | Some b \<Rightarrow>
        bindE (dict_get b ''initData'') (\<lambda>init.
        if \<not> truthy_json init then Inl unauthorized
        else case init of
          JStr data \<Rightarrow>
            bindE (validate_mini_app_data mac bot_token data) (\<lambda>(is_valid, vals).
            if \<not> is_valid then Inl unauthorized
            else case loads fl (user_field vals) of
              None \<Rightarrow> Inl (ValueError [Lit ''JSONDecodeError''])
            | Some user \<Rightarrow>
                bindE (dict_get user ''id'') (\<lambda>user_id.
                if \<not> truthy_json user_id then Inl unauthorized
                else bindE (dict_get user ''username'') (\<lambda>signed.
                  bindE (dict_get b ''username'') (\<lambda>unsigned.
                  player_create pd user_id (or_json (or_json signed unsigned) (JStr []))))))
        | _ \<Rightarrow> Inl (AttributeError [Lit ''split''])))"

subsection \<open>The player table\<close>

text \<open>
  The columns of \<open>players\<close>: a 32-bit identifier, a name of at most 32 characters; longer only by blanks, which are
  cut. The table that the revisions build (theory Schema) has a unique name, which the model does not declare;
  \<open>ON CONFLICT (id) DO NOTHING\<close> covers only the identifier.
\<close>

definition int4 :: "int \<Rightarrow> bool" where
  "int4 i \<longleftrightarrow> - (2 ^ 31) \<le> i \<and> i < 2 ^ 31"

definition varchar32 :: "ustr option \<Rightarrow> exn + ustr" where
  "varchar32 t = (case t of None \<Rightarrow> Inl IntegrityError
     | Some s \<Rightarrow> if list_all (\<lambda>c. c = SP) (drop 32 s) then Inr (take 32 s)
                 else Inl (DataError [Lit ''value too long for type character varying(32)'']))"

definition create_or_get_player :: "PlayerCreate \<Rightarrow> player db" where
  "create_or_get_player p =
     (if \<not> int4 (pcr_player_id p) then throwM (DataError [Lit ''value out of int32 range''])
      else bindM (liftM (varchar32 (pcr_username p))) (\<lambda>name.
      bindM (getsM (\<lambda>s. (find (\<lambda>x. pl_id x = pcr_player_id p) (players s), tx_now s))) (\<lambda>(found, now).
      case found of
        Some x \<Rightarrow> returnM x
      | None \<Rightarrow> bindM (getsM (\<lambda>s. name \<in> set (map pl_username (players s)))) (\<lambda>taken.
                if taken then throwM IntegrityError
                else let x = \<lparr>pl_id = pcr_player_id p, pl_username = name, pl_created_at = now, pl_updated_at = None\<rparr>
                     in thenM (modifyM (\<lambda>s. s\<lparr>players := players s @ [x]\<rparr>)) (returnM x)))))"

definition get_player :: "int \<Rightarrow> player option db" where
  "get_player i = (if \<not> int4 i then throwM (DataError [Lit ''value out of int32 range''])
     else getsM (\<lambda>s. find (\<lambda>x. pl_id x = i) (players s)))"

text \<open>\<open>get_player_by_id\<close> is the same query.\<close>

definition get_player_by_id :: "int \<Rightarrow> player option db" where
  "get_player_by_id = get_player"

text \<open>\<open>scalar_one_or_none\<close> raises when the query has several rows.\<close>

definition get_player_by_username :: "ustr \<Rightarrow> player option db" where
  "get_player_by_username name =
     bindM (getsM (\<lambda>s. filter (\<lambda>x. pl_username x = name) (players s))) (\<lambda>xs.
     case xs of [] \<Rightarrow> returnM None | [x] \<Rightarrow> returnM (Some x)
     | _ \<Rightarrow> throwM (RuntimeError [Lit ''Multiple rows were found when one or none was required'']))"

subsection \<open>Pagination\<close>

record Pagination =
  pg_page :: int
  pg_pages :: int
  pg_on_page :: int
  pg_results :: int

text \<open>\<open>ceil(count / limit)\<close>; a division by zero is caught.\<close>

definition get_pagination :: "int \<Rightarrow> int \<Rightarrow> int \<Rightarrow> Pagination" where
  "get_pagination page limit rows =
     (if limit = 0 then \<lparr>pg_page = page, pg_pages = 0, pg_on_page = limit, pg_results = 0\<rparr>
      else \<lparr>pg_page = page, pg_pages = - ((- rows) div limit), pg_on_page = limit, pg_results = rows\<rparr>)"

text \<open>A page of a query: \<open>OFFSET (page - 1) * limit LIMIT limit\<close>; negative values are refused by the database.\<close>

type_synonym plan = "player list \<Rightarrow> player list"

definition page_of :: "plan \<Rightarrow> (player \<Rightarrow> bool) \<Rightarrow> int \<Rightarrow> int \<Rightarrow> (player list \<times> Pagination) db" where
  "page_of order P page limit =
     (if (page - 1) * limit < 0 \<or> limit < 0 then throwM (DataError [Lit ''must not be negative''])
      else bindM (getsM players) (\<lambda>xs.
      returnM (take (nat limit) (drop (nat ((page - 1) * limit)) (order (filter P xs))),
        get_pagination page limit (int (length (filter P xs))))))"

definition get_players_by_ids :: "plan \<Rightarrow> int list \<Rightarrow> int \<Rightarrow> int \<Rightarrow> (player list \<times> Pagination) db" where
  "get_players_by_ids order ids page limit =
     (if \<not> list_all int4 ids then throwM (DataError [Lit ''value out of int32 range''])
      else page_of order (\<lambda>x. pl_id x \<in> set ids) page limit)"

text \<open>\<open>LIKE\<close> with the default escape character, a backslash.\<close>

fun like :: "ustr \<Rightarrow> ustr \<Rightarrow> bool" where
  "like [] s = (s = [])"
| "like (p # ps) [] = (p = 37 \<and> like ps [])"
| "like (p # ps) (c # s) =
     (if p = 37 then like ps (c # s) \<or> like (p # ps) s
      else if p = 95 then like ps s
      else if p = 92 then (case ps of [] \<Rightarrow> False | q # qs \<Rightarrow> q = c \<and> like qs s)
      else p = c \<and> like ps s)"

definition username_matches :: "unicode \<Rightarrow> ustr \<Rightarrow> player \<Rightarrow> bool" where
  "username_matches u username x =
     like (uc_lower u ([37] @ username @ [37])) (uc_lower u (uc_lower u (pl_username x)))"

definition get_players_by_username :: "unicode \<Rightarrow> plan \<Rightarrow> ustr \<Rightarrow> int \<Rightarrow> int \<Rightarrow> (player list \<times> Pagination) db" where
  "get_players_by_username u order username page limit = page_of order (username_matches u username) page limit"

subsection \<open>The routes\<close>

definition get_current_or_create_player ::
  "hmac \<Rightarrow> (ustr \<Rightarrow> pyfloat option) \<Rightarrow> player_coercions \<Rightarrow> ustr \<Rightarrow> json option \<Rightarrow> player db" where
  "get_current_or_create_player mac fl pd bot_token body =
     bindM (liftM (get_authenticated_player_create mac fl pd bot_token body)) create_or_get_player"

definition parse_id :: "unicode \<Rightarrow> ustr \<Rightarrow> exn + int" where
  "parse_id u t = (case py_int u t of None \<Rightarrow> Inl (ValueError [Lit ''invalid literal for int() with base 10'']) | Some i \<Rightarrow> Inr i)"

text \<open>The query parameters are declared with \<open>ge=1\<close>; the answer is one player or a page of players.\<close>

definition valid_page :: "int \<Rightarrow> int \<Rightarrow> (world, unit) op" where
  "valid_page page limit = (if 1 \<le> page \<and> 1 \<le> limit then returnM () else throwM (HTTPException 422 [Lit ''Invalid query parameters'']))"

definition get_other_players ::
  "unicode \<Rightarrow> plan \<Rightarrow> ustr \<Rightarrow> int \<Rightarrow> int \<Rightarrow> (player + player list \<times> Pagination) db" where
  "get_other_players u order player_ids page limit =
     thenM (valid_page page limit)
     (if contains player_ids [44] then
        bindM (liftM (mapE (parse_id u) (split_char 44 player_ids))) (\<lambda>ids.
        bindM (get_players_by_ids order ids page limit) (\<lambda>r. returnM (Inr r)))
      else bindM (liftM (parse_id u player_ids)) (\<lambda>i.
        bindM (get_player i) (\<lambda>x. case x of
          None \<Rightarrow> throwM (HTTPException 404 [Lit ''Player not found'']) | Some y \<Rightarrow> returnM (Inl y))))"

definition search_players ::
  "unicode \<Rightarrow> plan \<Rightarrow> ustr \<Rightarrow> int \<Rightarrow> int \<Rightarrow> (player list \<times> Pagination) db" where
  "search_players u order username page limit =
     thenM (valid_page page limit) (get_players_by_username u order username page limit)"

subsection \<open>Who is let in\<close>

lemma validate_Inr:
  "validate_mini_app_data mac tok data = Inr (True, vals) \<longleftrightarrow>
     (\<exists>keys h. parse_mini_app_data data = Inr (vals, keys) \<and> mini_app_hash mac tok (data_check_string vals keys) = Inr h
       \<and> vals (ascii ''hash'') = Some h)"
  by (auto simp: validate_mini_app_data_def bindE_Inr split: option.splits)

lemma dict_get_Inr: "dict_get d key = Inr v \<longleftrightarrow> (\<exists>m. d = JObj m \<and> v = (case lookup (ascii key) m of None \<Rightarrow> JNull | Some v \<Rightarrow> v))"
  by (auto simp: dict_get_def split: json.splits)

text \<open>C29. A request is only let in on data that the bot's key has signed: the hash in the request is the HMAC of
  the sorted fields, and the player identifier is the non-empty \<open>id\<close> of the \<open>user\<close> field among them. Nothing
  outside the signed data can change the identifier (the name can come from outside).\<close>

theorem authenticated_player_is_signed:
  assumes "get_authenticated_player_create mac fl pd bot_token body = Inr p"
  shows "\<exists>b data vals keys h user v. body = Some (JObj b) \<and> lookup (ascii ''initData'') b = Some (JStr data)
    \<and> parse_mini_app_data data = Inr (vals, keys)
    \<and> mini_app_hash mac bot_token (data_check_string vals keys) = Inr h \<and> vals (ascii ''hash'') = Some h
    \<and> loads fl (user_field vals) = Some (JObj user)
    \<and> lookup (ascii ''id'') user = Some v \<and> truthy_json v \<and> coerce_int pd v = Some (pcr_player_id p)"
proof -
  obtain c data where b: "body = Some c" "dict_get c ''initData'' = Inr (JStr data)" "data \<noteq> []"
    and rest: "bindE (validate_mini_app_data mac bot_token data) (\<lambda>(is_valid, vals).
            if \<not> is_valid then Inl unauthorized
            else case loads fl (user_field vals) of
              None \<Rightarrow> Inl (ValueError [Lit ''JSONDecodeError''])
            | Some user \<Rightarrow>
                bindE (dict_get user ''id'') (\<lambda>user_id.
                if \<not> truthy_json user_id then Inl unauthorized
                else bindE (dict_get user ''username'') (\<lambda>signed.
                  bindE (dict_get c ''username'') (\<lambda>unsigned.
                  player_create pd user_id (or_json (or_json signed unsigned) (JStr [])))))) = Inr p"
    using assms by (auto simp: get_authenticated_player_create_def bindE_Inr split: option.splits if_splits json.splits)
  from rest obtain vals user v where v: "validate_mini_app_data mac bot_token data = Inr (True, vals)"
    "loads fl (user_field vals) = Some user" "dict_get user ''id'' = Inr v" "truthy_json v"
    and "\<exists>name. player_create pd v name = Inr p"
    by (auto simp: bindE_Inr split: option.splits if_splits)
  moreover from this(5) have "coerce_int pd v = Some (pcr_player_id p)"
    by (cases "coerce_int pd v"; force simp: player_create_def split: option.splits)
  ultimately show ?thesis using b
    by (auto simp: dict_get_Inr validate_Inr split: option.splits)
qed

subsection \<open>One row per player\<close>

lemma create_or_get_run:
  assumes "int4 (pcr_player_id p)" and "varchar32 (pcr_username p) = Inr name"
  shows "create_or_get_player p s = (case find (\<lambda>x. pl_id x = pcr_player_id p) (players s) of
     Some x \<Rightarrow> (Inr x, s)
   | None \<Rightarrow> if name \<in> pl_username ` set (players s) then (Inl IntegrityError, s)
     else let x = \<lparr>pl_id = pcr_player_id p, pl_username = name, pl_created_at = tx_now s, pl_updated_at = None\<rparr>
          in (Inr x, s\<lparr>players := players s @ [x]\<rparr>))"
  using assms by (simp add: create_or_get_player_def run Let_def split: option.split)

text \<open>Whoever presents a valid player is stored once: the row that is returned is the stored row of that
  identifier; a player who was stored before gets that row unchanged, also when the name is a new one; a new
  player is appended, and identifiers and names stay distinct. Asking again returns the same row and changes
  nothing. A new player with a name that another one has is refused; all users without a Telegram name have the
  empty one, so only the first of them can ever be stored.\<close>

theorem player_is_stored_once:
  assumes "int4 (pcr_player_id p)" and "varchar32 (pcr_username p) = Inr name"
    and ok: "distinct (map pl_id (players s))" "distinct (map pl_username (players s))"
    and res: "create_or_get_player p s = (r, t)"
  shows "(if list_ex (\<lambda>y. pl_id y = pcr_player_id p) (players s) then t = s \<and> (\<exists>x\<in>set (players s). r = Inr x)
      else if name \<in> pl_username ` set (players s) then r = Inl IntegrityError \<and> t = s
      else \<exists>x. r = Inr x \<and> t = s\<lparr>players := players s @ [x]\<rparr> \<and> pl_username x = name \<and> pl_created_at x = tx_now s)
    \<and> (\<forall>x. r = Inr x \<longrightarrow> pl_id x = pcr_player_id p \<and> create_or_get_player p t = (Inr x, t))
    \<and> distinct (map pl_id (players t)) \<and> distinct (map pl_username (players t))"
proof (cases "find (\<lambda>x. pl_id x = pcr_player_id p) (players s)")
  case (Some x)
  then have "r = Inr x" "t = s" using assms by (simp_all add: create_or_get_run)
  moreover have "x \<in> set (players s)" "pl_id x = pcr_player_id p" using find_SomeD [OF Some] by simp_all
  ultimately show ?thesis using ok res by (auto simp: list_ex_iff)
next
  case None
  then have new: "pcr_player_id p \<notin> pl_id ` set (players s)" by (auto simp: find_None_iff)
  have none: "\<not> list_ex (\<lambda>y. pl_id y = pcr_player_id p) (players s)" using None by (auto simp: list_ex_iff find_None_iff)
  show ?thesis
  proof (cases "name \<in> pl_username ` set (players s)")
    case True
    then show ?thesis using assms None none by (auto simp: create_or_get_run)
  next
    case False
    then show ?thesis using assms new None none by (auto simp: create_or_get_run find_append_None Let_def)
  qed
qed

subsection \<open>Pages\<close>

lemma concat_pages:
  "concat (map (\<lambda>k. take n (drop (k * n) xs)) [0..<m]) = take (m * n) xs"
proof (induction m)
  case (Suc m)
  have "take (m * n) xs @ take n (drop (m * n) xs) = take (m * n + n) xs" by (simp add: take_add)
  then show ?case using Suc by (simp add: add.commute)
qed simp

lemma pages_cover:
  assumes "0 < limit"
  shows "int n \<le> - ((- int n) div limit) * limit"
proof -
  have "(- int n) div limit * limit + (- int n) mod limit = - int n" by simp
  moreover have "0 \<le> (- int n) mod limit" using assms by simp
  ultimately show ?thesis unfolding mult_minus_left by linarith
qed

definition pages :: "(int \<Rightarrow> (player list \<times> Pagination) db) \<Rightarrow> world \<Rightarrow> nat \<Rightarrow> player list" where
  "pages q s n = concat (map (\<lambda>k. case q (int k) s of (Inr (xs, _), _) \<Rightarrow> xs | _ \<Rightarrow> []) [1..<Suc n])"

text \<open>Paging through a search shows every matching player exactly once: the pages 1 to \<open>pages\<close>, put
  together, are the matching rows in the order of the query, no page holds more than \<open>limit\<close> rows, and no
  further page exists (provided the database answers all pages in one order, which the query does not ask
  for). The counts in the pagination are those of the matching rows.\<close>

theorem pages_show_every_match_once:
  assumes "1 \<le> limit" and "\<And>xs. mset (order xs) = mset xs"
    and "search_players u order username 1 limit s = (Inr (first, info), t)"
  shows "pages (\<lambda>page. search_players u order username page limit) s (nat (pg_pages info))
      = order (filter (username_matches u username) (players s))
    \<and> pg_results info = int (length (filter (username_matches u username) (players s)))
    \<and> search_players u order username (pg_pages info + 1) limit s = (Inr ([], info\<lparr>pg_page := pg_pages info + 1\<rparr>), s)
    \<and> length first \<le> nat limit"
proof -
  let ?P = "username_matches u username" and ?n = "nat limit"
  let ?ys = "order (filter ?P (players s))"
  have len: "length ?ys = length (filter ?P (players s))" by (metis assms(2) size_mset)
  have page: "search_players u order username (int (Suc k)) limit s
      = (Inr (take ?n (drop (k * ?n) ?ys), get_pagination (int (Suc k)) limit (int (length ?ys))), s)" for k
  proof -
    have "nat (int k * limit) = k * ?n" using assms(1) by (simp add: nat_mult_distrib)
    moreover have "\<not> int k * limit < 0" using assms(1) by (simp add: not_less)
    ultimately show ?thesis using assms(1)
      by (simp add: search_players_def valid_page_def get_players_by_username_def page_of_def run len)
  qed
  have info: "info = get_pagination 1 limit (int (length ?ys))" "first = take ?n ?ys"
    using page [of 0] assms(3) by simp_all
  define m where "m = nat (pg_pages info)"
  have m: "pg_pages info = int m" "length ?ys \<le> m * ?n"
  proof -
    have c: "int (length ?ys) \<le> pg_pages info * limit"
      using pages_cover [of limit "length ?ys"] assms(1) by (simp add: info(1) get_pagination_def)
    have "0 \<le> pg_pages info"
    proof (rule ccontr)
      assume "\<not> 0 \<le> pg_pages info"
      then have "pg_pages info * limit < 0" using assms(1) by (simp add: mult_neg_pos)
      with c show False by simp
    qed
    then show "pg_pages info = int m" by (simp add: m_def)
    with c have "int (length ?ys) \<le> int m * limit" by simp
    also have "\<dots> = int (m * ?n)" using assms(1) by simp
    finally show "length ?ys \<le> m * ?n" by (simp only: of_nat_le_iff)
  qed
  have "[1..<Suc m] = map Suc [0..<m]" by (simp add: map_Suc_upt)
  then have "pages (\<lambda>page. search_players u order username page limit) s m
      = concat (map (\<lambda>k. take ?n (drop (k * ?n) ?ys)) [0..<m])"
    unfolding pages_def by (simp only: map_map o_def page prod.case sum.case)
  then have "pages (\<lambda>page. search_players u order username page limit) s m = ?ys"
    using m(2) by (simp add: concat_pages)
  moreover have "search_players u order username (pg_pages info + 1) limit s = (Inr ([], info\<lparr>pg_page := pg_pages info + 1\<rparr>), s)"
    using page [of m, unfolded of_nat_Suc add.commute [of 1]] m by (simp add: info(1) get_pagination_def)
  ultimately show ?thesis using assms(1) by (simp add: m_def info get_pagination_def len)
qed

subsection \<open>What a search finds\<close>

definition plain_pattern :: "ustr \<Rightarrow> bool" where
  "plain_pattern p \<longleftrightarrow> set p \<inter> {37, 92, 95} = {}"

lemma like_plain: "plain_pattern p \<Longrightarrow> like (p @ [37]) s \<longleftrightarrow> starts_with s p"
proof (induction p arbitrary: s)
  case Nil
  have "like [37] s" for s by (induction s) auto
  then show ?case by (simp add: starts_with_def)
next
  case (Cons c p)
  then show ?case by (cases s) (auto simp: plain_pattern_def starts_with_def)
qed

lemma ex_le_Suc: "(\<exists>n \<le> Suc m. P n) \<longleftrightarrow> P 0 \<or> (\<exists>n \<le> m. P (Suc n))"
  by (metis Suc_le_mono le0 not0_implies_Suc)

lemma like_any: "like (37 # p) s \<longleftrightarrow> (\<exists>n \<le> length s. like p (drop n s))"
  by (induction s) (simp_all add: ex_le_Suc)

lemma contains_drop: "contains s p \<longleftrightarrow> (\<exists>n \<le> length s. starts_with (drop n s) p)"
proof (induction s)
  case Nil
  show ?case by (auto simp: starts_with_def)
qed (simp add: ex_le_Suc)

text \<open>A search for text without the characters percent, underscore and backslash finds exactly the players
  whose name contains it, without regard to case (in those three characters the text of the user acts as a
  pattern: nothing escapes them).\<close>

theorem plain_search_is_substring_search:
  assumes "plain_pattern (uc_lower u username)" and "uc_lower u ([37] @ username @ [37]) = [37] @ uc_lower u username @ [37]"
  shows "username_matches u username x \<longleftrightarrow> contains (uc_lower u (uc_lower u (pl_username x))) (uc_lower u username)"
  using assms by (simp add: username_matches_def like_any like_plain contains_drop)

subsection \<open>Concrete requests\<close>

text \<open>A stand-in for HMAC-SHA256: the number of bytes of the message. Two players, one page each.\<close>

definition length_mac :: hmac where
  "length_mac k m = [length m mod 256]"

definition sample_coercions :: player_coercions where
  "sample_coercions = \<lparr>coerce_int = (\<lambda>v. case v of JInt i \<Rightarrow> Some i | _ \<Rightarrow> None),
     coerce_optional_str = (\<lambda>v. case v of JStr t \<Rightarrow> Some (Some t) | JNull \<Rightarrow> Some None | _ \<Rightarrow> None)\<rparr>"

definition signed_body :: json where
  "signed_body = JObj [(ascii ''initData'', JStr (ascii ''user=%7B%22id%22%3A5%7D&hash=0d''))]"

definition two_players :: world where
  "two_players = empty_world\<lparr>players := [\<lparr>pl_id = 5, pl_username = ascii ''Ann'', pl_created_at = 0, pl_updated_at = None\<rparr>,
     \<lparr>pl_id = 6, pl_username = ascii ''Joanna'', pl_created_at = 0, pl_updated_at = None\<rparr>]\<rparr>"

lemma signed_fields:
  "mapE key_value (split_char 38 (ascii ''user=%7B%22id%22%3A5%7D&hash=0d''))
    = Inr [(ascii ''user'', ascii ''{\"id\":5}''), (ascii ''hash'', ascii ''0d'')]"
  "sort [ascii ''user'', ascii ''hash''] = [ascii ''hash'', ascii ''user'']"
  "mini_app_hash length_mac (ascii ''token'') (ascii ''user={\"id\":5}'') = Inr (ascii ''0d'')"
  by code_simp+

lemma signed_user: "loads no_floats (ascii ''{\"id\":5}'') = Some (JObj [(ascii ''id'', JInt 5)])"
proof -
  have "raw_decode no_floats (ascii ''{\"id\":5}'') = Some (JObj [(ascii ''id'', JInt 5)], [])"
    "skip_ws (ascii ''{\"id\":5}'') = ascii ''{\"id\":5}''" by code_simp+
  then show ?thesis by (simp add: loads_def) (simp add: starts_with_def ascii_def skip_ws_def)
qed

lemma field_names: "ascii ''user'' \<noteq> ascii ''hash''" "ascii ''hash'' \<noteq> ascii ''user''"
  by (simp_all add: ascii_def)

definition signed_vals :: "ustr \<rightharpoonup> ustr" where
  "signed_vals = [ascii ''user'' \<mapsto> ascii ''{\"id\":5}'', ascii ''hash'' \<mapsto> ascii ''0d'']"

lemma signed_parsed:
  "parse_mini_app_data (ascii ''user=%7B%22id%22%3A5%7D&hash=0d'') = Inr (signed_vals, [ascii ''hash'', ascii ''user''])"
  unfolding parse_mini_app_data_def signed_fields(1)
  using signed_fields(2) field_names by (simp add: bindE_def signed_vals_def fun_upd_twist)

lemma signed_check: "data_check_string signed_vals [ascii ''hash'', ascii ''user''] = ascii ''user={\"id\":5}''"
  using field_names by (simp add: data_check_string_def signed_vals_def) (simp add: ascii_def)

lemma signed_request: "get_authenticated_player_create length_mac no_floats sample_coercions (ascii ''token'') (Some signed_body)
    = Inr \<lparr>pcr_player_id = 5, pcr_username = Some []\<rparr>"
proof -
  have "validate_mini_app_data length_mac (ascii ''token'') (ascii ''user=%7B%22id%22%3A5%7D&hash=0d'') = Inr (True, signed_vals)"
    unfolding validate_Inr using signed_parsed signed_check signed_fields(3) field_names by (simp add: signed_vals_def)
  moreover have "user_field signed_vals = ascii ''{\"id\":5}''" using field_names by (simp add: user_field_def signed_vals_def)
  moreover have "dict_get signed_body ''initData'' = Inr (JStr (ascii ''user=%7B%22id%22%3A5%7D&hash=0d''))"
    "dict_get signed_body ''username'' = Inr JNull" "dict_get (JObj [(ascii ''id'', JInt 5)]) ''id'' = Inr (JInt 5)"
    "dict_get (JObj [(ascii ''id'', JInt 5)]) ''username'' = Inr JNull"
    by (simp_all add: dict_get_def signed_body_def ascii_def)
  ultimately show ?thesis
    by (simp add: get_authenticated_player_create_def bindE_def signed_user player_create_def sample_coercions_def or_json_def)
      (simp add: ascii_def)
qed

theorem authenticated_player_is_signed_witness:
  "\<exists>vals keys. parse_mini_app_data (ascii ''user=%7B%22id%22%3A5%7D&hash=0d'') = Inr (vals, keys)
    \<and> mini_app_hash length_mac (ascii ''token'') (data_check_string vals keys) = Inr (ascii ''0d'')"
proof -
  from authenticated_player_is_signed [OF signed_request] obtain b data vals keys h
    where w: "signed_body = JObj b" "lookup (ascii ''initData'') b = Some (JStr data)" "parse_mini_app_data data = Inr (vals, keys)"
      "mini_app_hash length_mac (ascii ''token'') (data_check_string vals keys) = Inr h" "vals (ascii ''hash'') = Some h" by blast
  from w(1, 2) have data: "data = ascii ''user=%7B%22id%22%3A5%7D&hash=0d''" by (auto simp: signed_body_def)
  with w(3) have "vals = signed_vals" by (simp add: signed_parsed)
  with w(5) have "h = ascii ''0d''" by (simp add: signed_vals_def)
  with w(3, 4) data show ?thesis by blast
qed

theorem player_is_stored_once_witness:
  "create_or_get_player \<lparr>pcr_player_id = 7, pcr_username = Some (ascii ''Joanna'')\<rparr> two_players = (Inl IntegrityError, two_players)"
proof -
  let ?p = "\<lparr>pcr_player_id = 7, pcr_username = Some (ascii ''Joanna'')\<rparr>"
  have "int4 (pcr_player_id ?p)" "varchar32 (pcr_username ?p) = Inr (ascii ''Joanna'')" "distinct (map pl_id (players two_players))"
    "distinct (map pl_username (players two_players))" "\<not> list_ex (\<lambda>y. pl_id y = 7) (players two_players)"
    "ascii ''Joanna'' \<in> pl_username ` set (players two_players)"
    by (simp_all add: int4_def varchar32_def ascii_def two_players_def empty_world_def)
  with player_is_stored_once [OF this(1-4) prod.collapse [symmetric]] show ?thesis by (simp add: prod_eq_iff)
qed

lemma ann_matches: "filter (username_matches basic_unicode (ascii ''ann'')) (players two_players) = players two_players"
  by code_simp

theorem pages_show_every_match_once_witness:
  "pages (\<lambda>page. search_players basic_unicode id (ascii ''ann'') page 1) two_players 2 = players two_players"
proof -
  have len: "length (players two_players) = 2" by (simp add: two_players_def)
  obtain first info where s: "search_players basic_unicode id (ascii ''ann'') 1 1 two_players = (Inr (first, info), two_players)"
    "pg_pages info = 2"
    by (simp add: search_players_def valid_page_def get_players_by_username_def page_of_def run ann_matches len get_pagination_def)
  from pages_show_every_match_once [OF _ _ s(1)] show ?thesis by (simp add: s(2) ann_matches)
qed

theorem plain_search_is_substring_search_witness:
  "username_matches basic_unicode (ascii ''ANN'') \<lparr>pl_id = 6, pl_username = ascii ''Joanna'', pl_created_at = 0, pl_updated_at = None\<rparr>"
proof -
  have "plain_pattern (uc_lower basic_unicode (ascii ''ANN''))"
    "uc_lower basic_unicode ([37] @ ascii ''ANN'' @ [37]) = [37] @ uc_lower basic_unicode (ascii ''ANN'') @ [37]" by code_simp+
  from plain_search_is_substring_search [OF this] show ?thesis by code_simp
qed

end
