(* ===== verification/Provider.thy ===== *)
theory Provider
  imports Config
begin

text \<open>
  Language-model providers: \<open>services/llm_providers\<close> and the retry of \<open>services/analysis_policy_service.py\<close>.
  The SDK call, the HTTP call and \<open>response.json()\<close> are operations on an arbitrary outside state \<open>'w\<close>; what
  the code does with their results and exceptions is modelled.
\<close>

subsection \<open>Types of \<open>base\<close>\<close>

record ProviderUsage =
  prompt_tokens :: int
  completion_tokens :: int
  total_tokens :: int

record ProviderResponseMeta =
  pm_provider :: ustr
  pm_model :: ustr
  pm_prompt_version :: string
  pm_latency_ms :: int
  pm_usage :: "ProviderUsage option"

record ProviderRawResponse =
  raw_text :: ustr
  raw_meta :: ProviderResponseMeta

record 'w LLMProvider =
  provider_name :: ustr
  model_name :: ustr
  generate :: "ustr \<Rightarrow> string \<Rightarrow> pyfloat option \<Rightarrow> ('w, ProviderRawResponse) op"

subsection \<open>Retry\<close>

fun is_transport :: "exn \<Rightarrow> bool" where
  "is_transport (ProviderTransportError m) = True"
| "is_transport e = False"

text \<open>The loop over \<open>range(1, attempts + 1)\<close>, by the attempts that are left.\<close>

fun retry_loop :: "('w, 'a) op \<Rightarrow> nat \<Rightarrow> ('w, 'a) op" where
  "retry_loop call 0 = throwM (RuntimeError [Lit ''Unreachable retry state''])"
| "retry_loop call (Suc n) =
     catchM call (\<lambda>e. if is_transport e \<and> n \<noteq> 0 then retry_loop call n else throwM e)"

definition generate_with_retry ::
  "int \<Rightarrow> 'w LLMProvider \<Rightarrow> ustr \<Rightarrow> string \<Rightarrow> pyfloat option \<Rightarrow> ('w, ProviderRawResponse) op" where
  "generate_with_retry max_attempts llm prompt version temperature =
     retry_loop (generate llm prompt version temperature) (nat (max 1 max_attempts))"

subsection \<open>The OpenAI provider\<close>

datatype sdk_exc =
    APIConnectionError message
  | APITimeoutError message
  | APIStatusError "int option" message
  | OtherError message

fun sdk_message :: "sdk_exc \<Rightarrow> message" where
  "sdk_message (APIConnectionError m) = m"
| "sdk_message (APITimeoutError m) = m"
| "sdk_message (APIStatusError s m) = m"
| "sdk_message (OtherError m) = m"

text \<open>\<open>sdk\<close> says whether the error classes of the \<open>openai\<close> package could be imported.\<close>

definition is_retryable_sdk_error :: "bool \<Rightarrow> sdk_exc \<Rightarrow> bool" where
  "is_retryable_sdk_error sdk e =
     (if \<not> sdk then False else
      case e of
        APIConnectionError m \<Rightarrow> True
      | APITimeoutError m \<Rightarrow> True
      | APIStatusError status m \<Rightarrow>
          (case status of None \<Rightarrow> False | Some n \<Rightarrow> if n \<ge> 500 then True else if n = 429 then True else False)
      | OtherError m \<Rightarrow> False)"

definition is_terminal_sdk_error :: "bool \<Rightarrow> sdk_exc \<Rightarrow> bool" where
  "is_terminal_sdk_error sdk e =
     (if \<not> sdk then False else
      case e of
        APIStatusError status m \<Rightarrow>
          (case status of None \<Rightarrow> False | Some n \<Rightarrow> 400 \<le> n \<and> n < 500 \<and> n \<noteq> 429)
      | _ \<Rightarrow> False)"

definition map_sdk_exception :: "bool \<Rightarrow> sdk_exc \<Rightarrow> exn" where
  "map_sdk_exception sdk e =
     (if is_retryable_sdk_error sdk e then ProviderTransportError (sdk_message e)
      else if is_terminal_sdk_error sdk e then ProviderTerminalError (sdk_message e)
      else SDKUnexpectedError (sdk_message e))"

text \<open>A response object is read through \<open>getattr\<close>: a map from attribute names to values.\<close>

definition extract_output_text :: "unicode \<Rightarrow> (string \<Rightarrow> json option) \<Rightarrow> exn + ustr" where
  "extract_output_text u response =
     (case response ''output_text'' of
        Some (JStr t) \<Rightarrow>
          if strip u t \<noteq> [] then Inr t else Inl (SDKUnexpectedError [Lit ''OpenAI response missing output_text''])
      | _ \<Rightarrow> Inl (SDKUnexpectedError [Lit ''OpenAI response missing output_text'']))"

text \<open>\<open>isinstance(v, int)\<close> holds for booleans too.\<close>

fun as_int :: "json \<Rightarrow> int option" where
  "as_int (JInt i) = Some i"
| "as_int (JBool b) = Some (if b then 1 else 0)"
| "as_int v = None"

definition or_none :: "json option \<Rightarrow> json" where
  "or_none v = (case v of None \<Rightarrow> JNull | Some x \<Rightarrow> x)"

definition usage_of :: "json \<Rightarrow> json \<Rightarrow> json \<Rightarrow> ProviderUsage option" where
  "usage_of p c t =
     (case (as_int p, as_int c, as_int t) of
        (Some p, Some c, Some t) \<Rightarrow> Some \<lparr>prompt_tokens = p, completion_tokens = c, total_tokens = t\<rparr>
      | _ \<Rightarrow> None)"

definition extract_usage_sdk :: "(string \<Rightarrow> json option) option \<Rightarrow> ProviderUsage option" where
  "extract_usage_sdk raw =
     (case raw of
        None \<Rightarrow> None
      | Some a \<Rightarrow>
          let p = or_none (a ''input_tokens''); p = (if p = JNull then or_none (a ''prompt_tokens'') else p);
              c = or_none (a ''output_tokens''); c = (if c = JNull then or_none (a ''completion_tokens'') else c)
          in usage_of p c (or_none (a ''total_tokens'')))"

type_synonym sdk_response = "(string \<Rightarrow> json option) \<times> (string \<Rightarrow> json option) option"

text \<open>
  \<open>create\<close> is \<open>client.responses.create\<close>; \<open>elapsed\<close> reads the latency. The temperature defaults to zero.
\<close>

definition openai_generate ::
  "unicode \<Rightarrow> bool \<Rightarrow> (ustr \<Rightarrow> ustr \<Rightarrow> pyfloat \<Rightarrow> 'w \<Rightarrow> (sdk_exc + sdk_response) \<times> 'w) \<Rightarrow> ('w \<Rightarrow> int) \<Rightarrow> ustr \<Rightarrow>
   ustr \<Rightarrow> string \<Rightarrow> pyfloat option \<Rightarrow> ('w, ProviderRawResponse) op" where
  "openai_generate u sdk create elapsed model prompt version temperature s =
     (case create model prompt (case temperature of None \<Rightarrow> Fin 0 | Some t \<Rightarrow> t) s of
        (Inl e, s') \<Rightarrow> (Inl (map_sdk_exception sdk e), s')
      | (Inr (response, usage), s') \<Rightarrow>
          (case extract_output_text u response of
             Inl e \<Rightarrow> (Inl e, s')
           | Inr t \<Rightarrow> (Inr \<lparr>raw_text = t, raw_meta = \<lparr>pm_provider = ascii ''openai'', pm_model = model,
               pm_prompt_version = version, pm_latency_ms = elapsed s', pm_usage = extract_usage_sdk usage\<rparr>\<rparr>, s')))"

subsection \<open>OpenAI-compatible gateways\<close>

text \<open>\<open>body[key]\<close>, where \<open>body\<close> may turn out to be any JSON value, and \<open>choices[0]\<close>.\<close>

definition item :: "json \<Rightarrow> string \<Rightarrow> exn + json" where
  "item v key =
     (case v of
        JObj m \<Rightarrow> (case lookup (ascii key) m of Some x \<Rightarrow> Inr x | None \<Rightarrow> Inl (KeyError [Lit key]))
      | _ \<Rightarrow> Inl (TypeError [Lit ''indices must be integers or slices'']))"

definition item0 :: "json \<Rightarrow> exn + json" where
  "item0 v =
     (case v of
        JList (x # _) \<Rightarrow> Inr x
      | JList [] \<Rightarrow> Inl (KeyError [Lit ''list index out of range''])
      | JStr (c # _) \<Rightarrow> Inr (JStr [c])
      | JStr [] \<Rightarrow> Inl (KeyError [Lit ''string index out of range''])
      | JObj m \<Rightarrow> Inl (KeyError [Lit ''0''])
      | _ \<Rightarrow> Inl (TypeError [Lit ''object is not subscriptable'']))"

definition extract_content :: "json \<Rightarrow> exn + ustr" where
  "extract_content body =
     (case bindE (item body ''choices'') (\<lambda>cs. bindE (item0 cs) (\<lambda>c. bindE (item c ''message'') (\<lambda>m. item m ''content''))) of
        Inl e \<Rightarrow> Inl (ProviderTransportError [Lit ''Provider response missing chat content''])
      | Inr (JStr t) \<Rightarrow> Inr t
      | Inr _ \<Rightarrow> Inl (ProviderTransportError [Lit ''Provider content must be string'']))"

definition extract_usage_chat :: "json \<Rightarrow> ProviderUsage option" where
  "extract_usage_chat raw =
     (case raw of
        JObj m \<Rightarrow> usage_of (or_none (lookup (ascii ''prompt_tokens'') m)) (or_none (lookup (ascii ''completion_tokens'') m))
                    (or_none (lookup (ascii ''total_tokens'') m))
      | _ \<Rightarrow> None)"

text \<open>
  \<open>post\<close> is the request with \<open>raise_for_status\<close>: it raises an \<open>httpx\<close> error (here \<open>HTTPClientError\<close>) or yields the
  body, decoded or not decodable (\<open>response.json()\<close> raising a \<open>ValueError\<close>).
\<close>

definition compatible_generate ::
  "(ustr \<Rightarrow> ustr \<Rightarrow> pyfloat \<Rightarrow> 'w \<Rightarrow> (message + (exn + json)) \<times> 'w) \<Rightarrow> ('w \<Rightarrow> int) \<Rightarrow> ustr \<Rightarrow> ustr \<Rightarrow>
   ustr \<Rightarrow> string \<Rightarrow> pyfloat option \<Rightarrow> ('w, ProviderRawResponse) op" where
  "compatible_generate post elapsed name model prompt version temperature s =
     (case post model prompt (case temperature of None \<Rightarrow> Fin 0 | Some t \<Rightarrow> t) s of
        (Inl m, s') \<Rightarrow> (Inl (ProviderTransportError m), s')
      | (Inr (Inl e), s') \<Rightarrow> (Inl e, s')
      | (Inr (Inr body), s') \<Rightarrow>
          (case extract_content body of
             Inl e \<Rightarrow> (Inl e, s')
           | Inr t \<Rightarrow> (Inr \<lparr>raw_text = t, raw_meta = \<lparr>pm_provider = name, pm_model = model,
               pm_prompt_version = version, pm_latency_ms = elapsed s',
               pm_usage = extract_usage_chat (case body of JObj m \<Rightarrow> or_none (lookup (ascii ''usage'') m) | _ \<Rightarrow> JNull)\<rparr>\<rparr>, s')))"

subsection \<open>The registry\<close>

datatype built_provider =
    BuiltOpenAI RuntimeConfig
  | BuiltCompatible ustr ustr ustr ustr   \<comment> \<open>model, base URL, key, name\<close>
  | BuiltMock

definition build_provider :: "unicode \<Rightarrow> ustr \<Rightarrow> RuntimeConfig \<Rightarrow> exn + built_provider" where
  "build_provider u name c =
     bindE (assert_llm_provider_allowed u name c) (\<lambda>_.
     if name = ascii ''openai'' then bindE (assert_openai_client_allowed c) (\<lambda>_. Inr (BuiltOpenAI c))
     else if name \<in> {ascii ''openai-compatible'', ascii ''local'', ascii ''openrouter'', ascii ''lm-studio'', ascii ''ollama''}
     then Inr (BuiltCompatible (default_model c) (local_llm_base_url c)
       (case openai_api_key c of None \<Rightarrow> [] | Some k \<Rightarrow> k) name)
     else if name = ascii ''mock'' then Inr BuiltMock
     else Inl (UnknownLLMProviderError [Lit ''Unknown LLM provider '', Txt name]))"

definition get_provider :: "unicode \<Rightarrow> RuntimeConfig \<Rightarrow> ustr option \<Rightarrow> exn + built_provider" where
  "get_provider u c name =
     (let n = (case name of None \<Rightarrow> llm_provider c | Some n \<Rightarrow> if n = [] then llm_provider c else n)
      in build_provider u (uc_lower u (strip u n)) c)"

subsection \<open>Retry: how often, and with which outcome\<close>

text \<open>\<open>after_calls call i s\<close>: the state after \<open>i\<close> calls, and whether the next one fails in transport.\<close>

definition after_calls :: "('w, 'a) op \<Rightarrow> nat \<Rightarrow> 'w \<Rightarrow> 'w" where
  "after_calls call i s = ((\<lambda>s. snd (call s)) ^^ i) s"

definition transport_fails :: "('w, 'a) op \<Rightarrow> 'w \<Rightarrow> bool" where
  "transport_fails call s \<longleftrightarrow> (case fst (call s) of Inl e \<Rightarrow> is_transport e | Inr x \<Rightarrow> False)"

lemma after_calls_simps [simp]:
  "after_calls call 0 s = s" "after_calls call (Suc i) s = after_calls call i (snd (call s))"
  using funpow_swap1 [of "\<lambda>s. snd (call s)" i s] by (simp_all add: after_calls_def)

lemma retry_loop_stop: "n = 0 \<or> \<not> transport_fails call s \<Longrightarrow> retry_loop call (Suc n) s = call s"
  by (cases "call s") (auto simp: run transport_fails_def split: sum.splits)

lemma retry_loop_again: "n \<noteq> 0 \<Longrightarrow> transport_fails call s \<Longrightarrow> retry_loop call (Suc n) s = retry_loop call n (snd (call s))"
  by (cases "call s") (auto simp: run transport_fails_def split: sum.splits)

lemma retry_loop_spec:
  "\<exists>k \<le> n. (\<forall>i < k. transport_fails call (after_calls call i s))
     \<and> (k = n \<or> \<not> transport_fails call (after_calls call k s))
     \<and> retry_loop call (Suc n) s = call (after_calls call k s)"
proof (induction n arbitrary: s)
  case 0
  then show ?case by (simp add: retry_loop_stop del: retry_loop.simps)
next
  case (Suc n)
  show ?case
  proof (cases "transport_fails call s")
    case False
    then show ?thesis by (intro exI [of _ 0]) (simp add: retry_loop_stop del: retry_loop.simps)
  next
    case True
    obtain k where k: "k \<le> n" "\<forall>i < k. transport_fails call (after_calls call i (snd (call s)))"
      "k = n \<or> \<not> transport_fails call (after_calls call k (snd (call s)))"
      "retry_loop call (Suc n) (snd (call s)) = call (after_calls call k (snd (call s)))"
      using Suc.IH by blast
    have "transport_fails call (after_calls call i s)" if "i < Suc k" for i
      using that True k(2) by (cases i) auto
    then show ?thesis
      using k True by (intro exI [of _ "Suc k"]) (simp add: retry_loop_again del: retry_loop.simps)
  qed
qed

text \<open>C27. A request to the provider is made at least once and at most \<open>max(1, LLM_MAX_ATTEMPTS)\<close> times. It is
  repeated exactly while it fails in transport and attempts are left; every other outcome, a response
  or a terminal error, is returned at once, and so is the outcome of the last attempt.\<close>

theorem retry_is_bounded:
  "\<exists>k < nat (max 1 max_attempts).
     let call = generate llm prompt version temperature in
     (\<forall>i < k. transport_fails call (after_calls call i s))
     \<and> (k = nat (max 1 max_attempts) - 1 \<or> \<not> transport_fails call (after_calls call k s))
     \<and> generate_with_retry max_attempts llm prompt version temperature s = call (after_calls call k s)"
proof -
  obtain n where n: "nat (max 1 max_attempts) = Suc n"
    by (metis not0_implies_Suc max.cobounded1 nat_eq_iff2 not_one_le_zero int_nat_eq zero_le_one order_trans zless_nat_conj zero_less_one nat_0_iff)
  then show ?thesis
    using retry_loop_spec [of n "generate llm prompt version temperature" s]
    by (auto simp: generate_with_retry_def n Let_def less_Suc_eq_le simp del: retry_loop.simps)
qed

text \<open>Which failures of the OpenAI request are worth a retry: those of the connection, time-outs, rate
  limiting (429) and server errors (500 and above). The other client errors (4xx) are terminal, everything
  else, an unreadable status or output included, is an unexpected SDK error. No other exception comes out.\<close>

theorem openai_errors_are_classified:
  assumes "openai_generate u True create elapsed model prompt version temperature s = (Inl e, s')"
  shows "(is_transport e \<longleftrightarrow>
      (\<exists>x. create model prompt (case temperature of None \<Rightarrow> Fin 0 | Some t \<Rightarrow> t) s = (Inl x, s') \<and>
        (case x of APIConnectionError m \<Rightarrow> True | APITimeoutError m \<Rightarrow> True
         | APIStatusError status m \<Rightarrow> (\<exists>n. status = Some n \<and> (n = 429 \<or> 500 \<le> n)) | OtherError m \<Rightarrow> False)))
    \<and> ((\<exists>m. e = ProviderTerminalError m) \<longleftrightarrow>
      (\<exists>n m. create model prompt (case temperature of None \<Rightarrow> Fin 0 | Some t \<Rightarrow> t) s = (Inl (APIStatusError (Some n) m), s')
        \<and> 400 \<le> n \<and> n < 500 \<and> n \<noteq> 429))
    \<and> (is_transport e \<or> (\<exists>m. e = ProviderTerminalError m) \<or> (\<exists>m. e = SDKUnexpectedError m))"
  using assms
  by (auto simp: openai_generate_def map_sdk_exception_def is_retryable_sdk_error_def is_terminal_sdk_error_def
      extract_output_text_def split: sum.splits prod.splits sdk_exc.splits option.splits if_splits json.splits)

text \<open>A loaded configuration always yields a provider: the default provider is never unknown and never
  refused, it is the mock in test mode and a real one in production. In test mode no name whatsoever
  yields anything but the mock.\<close>

theorem loaded_config_yields_provider:
  assumes "load_runtime_config u py_float netloc_ok env = Inr c"
    and "\<forall>n \<in> KNOWN_LLM_PROVIDERS. uc_lower u (strip u n) = n"
  shows "(\<exists>b. get_provider u c None = Inr b \<and> (env_mode c = ascii ''test'' \<longrightarrow> b = BuiltMock)
      \<and> (env_mode c = ascii ''prod'' \<longrightarrow> b \<noteq> BuiltMock))
    \<and> (env_mode c = ascii ''test'' \<longrightarrow> get_provider u c name = Inr b \<longrightarrow> b = BuiltMock)"
proof
  have known: "llm_provider c \<in> KNOWN_LLM_PROVIDERS" and rules: "mode_rules c"
    using assms(1) validated by (auto simp: load_runtime_config_def bindE_Inr)
  then have stable: "uc_lower u (strip u (llm_provider c)) = llm_provider c" using assms(2) by blast
  show "\<exists>b. get_provider u c None = Inr b \<and> (env_mode c = ascii ''test'' \<longrightarrow> b = BuiltMock)
      \<and> (env_mode c = ascii ''prod'' \<longrightarrow> b \<noteq> BuiltMock)"
  proof (cases "env_mode c = ascii ''test''")
    case True
    then show ?thesis using rules stable
      by (simp add: get_provider_def build_provider_def mode_rules_def assert_llm_provider_allowed_def bindE_def whenE_def)
  next
    case False
    then show ?thesis using known rules stable
      unfolding KNOWN_LLM_PROVIDERS_def
      by (auto simp: get_provider_def build_provider_def mode_rules_def assert_llm_provider_allowed_def
          assert_openai_client_allowed_def bindE_def whenE_def)
  qed
  show "env_mode c = ascii ''test'' \<longrightarrow> get_provider u c name = Inr b \<longrightarrow> b = BuiltMock"
    by (auto simp: get_provider_def Let_def build_provider_def assert_llm_provider_allowed_def bindE_Inr whenE_Inr
        assert_openai_client_allowed_def assms(2) KNOWN_LLM_PROVIDERS_def split: if_splits)
qed

subsection \<open>Concrete providers\<close>

definition sample_response :: ProviderRawResponse where
  "sample_response = \<lparr>raw_text = ascii ''{}'', raw_meta = \<lparr>pm_provider = ascii ''mock'', pm_model = ascii ''m'',
     pm_prompt_version = ''v1'', pm_latency_ms = 0, pm_usage = None\<rparr>\<rparr>"

text \<open>A provider over a call counter whose first call fails in transport.\<close>

definition flaky :: "nat LLMProvider" where
  "flaky = \<lparr>provider_name = ascii ''flaky'', model_name = ascii ''m'', generate = (\<lambda>p v t n.
     (if n = 0 then Inl (ProviderTransportError []) else Inr sample_response, Suc n))\<rparr>"

theorem retry_is_bounded_witness: "generate_with_retry 2 flaky [] ''v1'' None 0 = (Inr sample_response, 2)"
proof -
  let ?call = "generate flaky [] ''v1'' None"
  obtain k where k: "k < 2" "k = 1 \<or> \<not> transport_fails ?call (after_calls ?call k 0)"
    "generate_with_retry 2 flaky [] ''v1'' None 0 = ?call (after_calls ?call k 0)"
    using retry_is_bounded [of 2 flaky "[]" "''v1''" None 0] by (auto simp: Let_def)
  have "k \<noteq> 0" using k(2) by (cases k) (simp_all add: transport_fails_def flaky_def)
  then have "k = 1" using k(1) by simp
  then show ?thesis using k(3) by (simp add: flaky_def)
qed

definition sample_create :: "ustr \<Rightarrow> ustr \<Rightarrow> pyfloat \<Rightarrow> nat \<Rightarrow> (sdk_exc + sdk_response) \<times> nat" where
  "sample_create model prompt t n = (Inl (APIStatusError (Some 404) []), Suc n)"

theorem openai_errors_are_classified_witness:
  "\<exists>m. fst (openai_generate basic_unicode True sample_create (\<lambda>_. 0) [] [] ''v1'' None 0) = Inl (ProviderTerminalError m)"
proof -
  obtain e s' where "openai_generate basic_unicode True sample_create (\<lambda>_. 0) [] [] ''v1'' None 0 = (Inl e, s')"
    by (simp add: openai_generate_def sample_create_def)
  moreover from openai_errors_are_classified [OF this] have "\<exists>m. e = ProviderTerminalError m"
    using calculation by (simp add: sample_create_def openai_generate_def)
  ultimately show ?thesis by auto
qed

lemma known_providers_stable: "\<forall>n \<in> KNOWN_LLM_PROVIDERS. uc_lower basic_unicode (strip basic_unicode n) = n"
  unfolding KNOWN_LLM_PROVIDERS_def by code_simp

theorem loaded_config_yields_provider_witness: "get_provider basic_unicode sample_config None = Inr BuiltMock"
proof -
  have "env_mode sample_config = ascii ''test''" by code_simp
  then show ?thesis
    using loaded_config_yields_provider [OF sample_config_loads known_providers_stable] by blast
qed

end
