(* ===== verification/Contract.thy ===== *)
theory Contract
  imports Parser "HOL-Library.Monad_Syntax"
begin

text \<open>
  The contracts of model output: \<open>services/analysis/schema\<close>, \<open>services/dialogue/schema\<close> and
  \<open>services/analysis_contract.py\<close>. What the schemas declare (fields, defaults, bounds, forbidden extras, the
  validators) is modelled; how pydantic reads a string or a float from a JSON value is the parameter
  \<open>pydantic\<close>.
\<close>

subsection \<open>Reading fields\<close>

record pydantic =
  pd_str :: "json \<Rightarrow> ustr option"
  pd_float :: "json \<Rightarrow> pyfloat option"
  py_number_str :: "json \<Rightarrow> ustr"

definition required :: "(ustr \<times> json) list \<Rightarrow> string \<Rightarrow> (json \<Rightarrow> 'a option) \<Rightarrow> 'a option" where
  "required m key r = (case lookup (ascii key) m of None \<Rightarrow> None | Some v \<Rightarrow> r v)"

definition optional :: "(ustr \<times> json) list \<Rightarrow> string \<Rightarrow> (json \<Rightarrow> 'a option) \<Rightarrow> 'a \<Rightarrow> 'a option" where
  "optional m key r d = (case lookup (ascii key) m of None \<Rightarrow> Some d | Some v \<Rightarrow> r v)"

definition list_of :: "(json \<Rightarrow> 'a option) \<Rightarrow> json \<Rightarrow> 'a list option" where
  "list_of r v = (case v of JList xs \<Rightarrow> those (map r xs) | _ \<Rightarrow> None)"

text \<open>\<open>extra="forbid"\<close>: an object with no keys but these.\<close>

definition object_of :: "string list \<Rightarrow> ((ustr \<times> json) list \<Rightarrow> 'a option) \<Rightarrow> json \<Rightarrow> 'a option" where
  "object_of keys r v =
     (case v of
        JObj m \<Rightarrow> if list_all (\<lambda>(k, _). k \<in> ascii ` set keys) m then r m else None
      | _ \<Rightarrow> None)"

definition check :: "bool \<Rightarrow> unit option" where
  "check b = (if b then Some () else None)"

text \<open>\<open>Field(ge=0.0, le=1.0)\<close>.\<close>

definition unit_interval :: "pyfloat \<Rightarrow> bool" where
  "unit_interval f = (case f of Fin q \<Rightarrow> 0 \<le> q \<and> q \<le> 1 | _ \<Rightarrow> False)"

subsection \<open>\<open>DreamAnalysisV1\<close>\<close>

record DreamSymbolV1 =
  sy_symbol :: ustr
  sy_meaning :: ustr
  sy_emotional_charge :: ustr

record EmotionalStateV1 =
  em_primary :: ustr
  em_secondary :: ustr
  em_intensity :: pyfloat

record JungianInterpretationV1 =
  ju_archetypes :: "ustr list"
  ju_shadow_elements :: "ustr list"
  ju_anima_animus_signals :: "ustr list"
  ju_individuation_hint :: ustr

record DreamAnalysisV1 =
  da_summary :: ustr
  da_symbols :: "DreamSymbolV1 list"
  da_emotional_state :: EmotionalStateV1
  da_jungian_interpretation :: JungianInterpretationV1
  da_narrative_interpretation :: ustr
  da_key_insight :: ustr
  da_uncertainty_notes :: "ustr list"

definition read_symbol :: "pydantic \<Rightarrow> json \<Rightarrow> DreamSymbolV1 option" where
  "read_symbol pd = object_of [''symbol'', ''meaning'', ''emotional_charge''] (\<lambda>m. do {
     a \<leftarrow> required m ''symbol'' (pd_str pd);
     b \<leftarrow> required m ''meaning'' (pd_str pd);
     c \<leftarrow> required m ''emotional_charge'' (pd_str pd);
     Some \<lparr>sy_symbol = a, sy_meaning = b, sy_emotional_charge = c\<rparr> })"

definition read_emotional_state :: "pydantic \<Rightarrow> json \<Rightarrow> EmotionalStateV1 option" where
  "read_emotional_state pd = object_of [''primary'', ''secondary'', ''intensity''] (\<lambda>m. do {
     a \<leftarrow> required m ''primary'' (pd_str pd);
     b \<leftarrow> required m ''secondary'' (pd_str pd);
     c \<leftarrow> required m ''intensity'' (pd_float pd);
     check (unit_interval c);
     Some \<lparr>em_primary = a, em_secondary = b, em_intensity = c\<rparr> })"

definition read_jungian :: "pydantic \<Rightarrow> json \<Rightarrow> JungianInterpretationV1 option" where
  "read_jungian pd = object_of [''archetypes'', ''shadow_elements'', ''anima_animus_signals'', ''individuation_hint''] (\<lambda>m. do {
     a \<leftarrow> required m ''archetypes'' (list_of (pd_str pd));
     b \<leftarrow> required m ''shadow_elements'' (list_of (pd_str pd));
     c \<leftarrow> required m ''anima_animus_signals'' (list_of (pd_str pd));
     d \<leftarrow> required m ''individuation_hint'' (pd_str pd);
     Some \<lparr>ju_archetypes = a, ju_shadow_elements = b, ju_anima_animus_signals = c, ju_individuation_hint = d\<rparr> })"

definition symbols_required_when_interpretation_exists :: "unicode \<Rightarrow> DreamAnalysisV1 \<Rightarrow> bool" where
  "symbols_required_when_interpretation_exists u a =
     (let has_interpretation = strip u (da_narrative_interpretation a) \<noteq> [] \<or> strip u (da_key_insight a) \<noteq> []
      in \<not> (has_interpretation \<and> da_symbols a = []))"

definition read_dream_analysis :: "unicode \<Rightarrow> pydantic \<Rightarrow> json \<Rightarrow> DreamAnalysisV1 option" where
  "read_dream_analysis u pd = object_of [''summary'', ''symbols'', ''emotional_state'', ''jungian_interpretation'',
       ''narrative_interpretation'', ''key_insight'', ''uncertainty_notes''] (\<lambda>m. do {
     a \<leftarrow> required m ''summary'' (pd_str pd);
     b \<leftarrow> required m ''symbols'' (list_of (read_symbol pd));
     c \<leftarrow> required m ''emotional_state'' (read_emotional_state pd);
     d \<leftarrow> required m ''jungian_interpretation'' (read_jungian pd);
     e \<leftarrow> required m ''narrative_interpretation'' (pd_str pd);
     f \<leftarrow> required m ''key_insight'' (pd_str pd);
     g \<leftarrow> required m ''uncertainty_notes'' (list_of (pd_str pd));
     let x = \<lparr>da_summary = a, da_symbols = b, da_emotional_state = c, da_jungian_interpretation = d,
              da_narrative_interpretation = e, da_key_insight = f, da_uncertainty_notes = g\<rparr>;
     check (symbols_required_when_interpretation_exists u x);
     Some x })"

definition dream_model_validate :: "unicode \<Rightarrow> pydantic \<Rightarrow> json \<Rightarrow> exn + DreamAnalysisV1" where
  "dream_model_validate u pd v =
     (case read_dream_analysis u pd v of
        None \<Rightarrow> Inl (ValidationError [Lit ''DreamAnalysisV1'']) | Some a \<Rightarrow> Inr a)"

text \<open>\<open>validate_analysis_output\<close>.\<close>

definition validate_analysis_output :: "unicode \<Rightarrow> pydantic \<Rightarrow> (ustr \<times> json) list \<Rightarrow> exn + DreamAnalysisV1" where
  "validate_analysis_output u pd payload =
     (case dream_model_validate u pd (JObj payload) of
        Inl (ValidationError m) \<Rightarrow> Inl (AnalysisValidationError m) | r \<Rightarrow> r)"

text \<open>\<open>model_dump()\<close>: the fields in their order.\<close>

definition strs :: "ustr list \<Rightarrow> json" where
  "strs xs = JList (map JStr xs)"

definition dump_symbol :: "DreamSymbolV1 \<Rightarrow> json" where
  "dump_symbol x = JObj [(ascii ''symbol'', JStr (sy_symbol x)), (ascii ''meaning'', JStr (sy_meaning x)),
     (ascii ''emotional_charge'', JStr (sy_emotional_charge x))]"

definition dump_emotional_state :: "EmotionalStateV1 \<Rightarrow> json" where
  "dump_emotional_state x = JObj [(ascii ''primary'', JStr (em_primary x)), (ascii ''secondary'', JStr (em_secondary x)),
     (ascii ''intensity'', JFloat (em_intensity x))]"

definition dump_jungian :: "JungianInterpretationV1 \<Rightarrow> json" where
  "dump_jungian x = JObj [(ascii ''archetypes'', strs (ju_archetypes x)), (ascii ''shadow_elements'', strs (ju_shadow_elements x)),
     (ascii ''anima_animus_signals'', strs (ju_anima_animus_signals x)), (ascii ''individuation_hint'', JStr (ju_individuation_hint x))]"

definition dump_dream_analysis :: "DreamAnalysisV1 \<Rightarrow> json" where
  "dump_dream_analysis a = JObj [(ascii ''summary'', JStr (da_summary a)),
     (ascii ''symbols'', JList (map dump_symbol (da_symbols a))),
     (ascii ''emotional_state'', dump_emotional_state (da_emotional_state a)),
     (ascii ''jungian_interpretation'', dump_jungian (da_jungian_interpretation a)),
     (ascii ''narrative_interpretation'', JStr (da_narrative_interpretation a)),
     (ascii ''key_insight'', JStr (da_key_insight a)),
     (ascii ''uncertainty_notes'', strs (da_uncertainty_notes a))]"

subsection \<open>\<open>DialogueTurnV1\<close>\<close>

datatype note_value = NoteStr ustr | NoteList "ustr list"

definition number_str :: "pydantic \<Rightarrow> json \<Rightarrow> ustr option" where
  "number_str pd v =
     (case v of
        JStr t \<Rightarrow> Some t
      | JBool b \<Rightarrow> Some (if b then ascii ''true'' else ascii ''false'')
      | JInt i \<Rightarrow> Some (py_number_str pd v)
      | JFloat f \<Rightarrow> Some (py_number_str pd v)
      | _ \<Rightarrow> None)"

definition coerce_background_note_value :: "pydantic \<Rightarrow> json \<Rightarrow> note_value option" where
  "coerce_background_note_value pd raw =
     (case raw of
        JList xs \<Rightarrow> Some (NoteList (List.map_filter (number_str pd) xs))
      | _ \<Rightarrow> map_option NoteStr (number_str pd raw))"

definition normalize_background_notes :: "pydantic \<Rightarrow> json \<Rightarrow> (ustr \<times> note_value) list" where
  "normalize_background_notes pd v =
     (case v of
        JObj m \<Rightarrow> List.map_filter (\<lambda>(k, raw). map_option (Pair k) (coerce_background_note_value pd raw)) m
      | _ \<Rightarrow> [])"

definition FORBIDDEN_PHRASES :: "ustr list" where
  "FORBIDDEN_PHRASES = [[1101, 1090, 1086, 32, 1086, 1079, 1085, 1072, 1095, 1072, 1077, 1090],
     [1074, 1072, 1096, 32, 1089, 1086, 1085, 32, 1075, 1086, 1074, 1086, 1088, 1080, 1090],
     [1074, 1099, 32, 1090, 1086, 1095, 1085, 1086],
     [1075, 1083, 1072, 1074, 1085, 1099, 1081, 32, 1089, 1084, 1099, 1089, 1083, 32, 1089, 1085, 1072],
     [1086, 1089, 1085, 1086, 1074, 1085, 1086, 1077, 32, 1079, 1085, 1072, 1095, 1077, 1085, 1080, 1077, 32, 1089, 1085, 1072],
     [1101, 1090, 1086, 32, 1079, 1085, 1072, 1095, 1080, 1090]]"

record DialogueTurnV1 =
  dt_assistant_message :: ustr
  dt_focus :: "ustr list"
  dt_questions :: "ustr list"
  dt_background_notes :: "(ustr \<times> note_value) list"
  dt_emotional_intensity :: pyfloat
  dt_safety_flags :: "ustr list"

definition reject_authoritarian_language :: "unicode \<Rightarrow> ustr \<Rightarrow> ustr option" where
  "reject_authoritarian_language u v =
     (let lowered = uc_lower u v in
      if \<exists>p \<in> set FORBIDDEN_PHRASES. contains lowered p then None
      else let stripped = strip u v in if length stripped < 20 then None else Some stripped)"

definition limit_questions :: "unicode \<Rightarrow> ustr list \<Rightarrow> ustr list" where
  "limit_questions u v = take 3 (filter (\<lambda>q. q \<noteq> []) (map (strip u) v))"

definition at_most :: "nat \<Rightarrow> 'a list \<Rightarrow> 'a list option" where
  "at_most n xs = (if length xs \<le> n then Some xs else None)"

definition read_dialogue_turn :: "unicode \<Rightarrow> pydantic \<Rightarrow> json \<Rightarrow> DialogueTurnV1 option" where
  "read_dialogue_turn u pd = object_of [''assistant_message'', ''focus'', ''questions'', ''background_notes'',
       ''emotional_intensity'', ''safety_flags''] (\<lambda>m. do {
     a \<leftarrow> required m ''assistant_message'' (\<lambda>v. pd_str pd v \<bind> reject_authoritarian_language u);
     b \<leftarrow> optional m ''focus'' (\<lambda>v. list_of (pd_str pd) v \<bind> at_most 3) [];
     c \<leftarrow> optional m ''questions'' (\<lambda>v. list_of (pd_str pd) v \<bind> at_most 3 \<bind> (\<lambda>q. Some (limit_questions u q))) [];
     d \<leftarrow> optional m ''background_notes'' (\<lambda>v. Some (normalize_background_notes pd v)) [];
     e \<leftarrow> optional m ''emotional_intensity'' (pd_float pd) (Fin (1 / 2));
     check (unit_interval e);
     f \<leftarrow> optional m ''safety_flags'' (list_of (pd_str pd)) [];
     Some \<lparr>dt_assistant_message = a, dt_focus = b, dt_questions = c, dt_background_notes = d,
           dt_emotional_intensity = e, dt_safety_flags = f\<rparr> })"

definition dialogue_model_validate :: "unicode \<Rightarrow> pydantic \<Rightarrow> (ustr \<times> json) list \<Rightarrow> exn + DialogueTurnV1" where
  "dialogue_model_validate u pd payload =
     (case read_dialogue_turn u pd (JObj payload) of
        None \<Rightarrow> Inl (ValidationError [Lit ''DialogueTurnV1'']) | Some a \<Rightarrow> Inr a)"

subsection \<open>\<open>StructuredDreamMemoryV1\<close>\<close>

record DreamFigureV1 =
  fi_name :: ustr
  fi_role_hint :: ustr
  fi_emotional_charge :: ustr

record AmplificationCandidateV1 =
  am_symbol :: ustr
  am_personal :: ustr
  am_cultural :: ustr
  am_archetypal :: ustr

record StructuredDreamMemoryV1 =
  me_dream_details :: "ustr list"
  me_dream_ego_activity :: "ustr list"
  me_figures :: "DreamFigureV1 list"
  me_emotional_field :: "ustr list"
  me_personal_context_questions :: "ustr list"
  me_amplification_candidates :: "AmplificationCandidateV1 list"
  me_compensation_hypotheses :: "ustr list"
  me_open_questions :: "ustr list"
  me_recurring_motifs :: "ustr list"
  me_uncertainty_notes :: "ustr list"

definition read_figure :: "pydantic \<Rightarrow> json \<Rightarrow> DreamFigureV1 option" where
  "read_figure pd = object_of [''name'', ''role_hint'', ''emotional_charge''] (\<lambda>m. do {
     a \<leftarrow> required m ''name'' (pd_str pd);
     b \<leftarrow> optional m ''role_hint'' (pd_str pd) [];
     c \<leftarrow> optional m ''emotional_charge'' (pd_str pd) [];
     Some \<lparr>fi_name = a, fi_role_hint = b, fi_emotional_charge = c\<rparr> })"

definition read_candidate :: "pydantic \<Rightarrow> json \<Rightarrow> AmplificationCandidateV1 option" where
  "read_candidate pd = object_of [''symbol'', ''personal'', ''cultural'', ''archetypal''] (\<lambda>m. do {
     a \<leftarrow> required m ''symbol'' (pd_str pd);
     b \<leftarrow> optional m ''personal'' (pd_str pd) [];
     c \<leftarrow> optional m ''cultural'' (pd_str pd) [];
     d \<leftarrow> optional m ''archetypal'' (pd_str pd) [];
     Some \<lparr>am_symbol = a, am_personal = b, am_cultural = c, am_archetypal = d\<rparr> })"

definition read_memory :: "pydantic \<Rightarrow> json \<Rightarrow> StructuredDreamMemoryV1 option" where
  "read_memory pd = object_of [''dream_details'', ''dream_ego_activity'', ''figures'', ''emotional_field'',
       ''personal_context_questions'', ''amplification_candidates'', ''compensation_hypotheses'', ''open_questions'',
       ''recurring_motifs'', ''uncertainty_notes''] (\<lambda>m. do {
     a \<leftarrow> optional m ''dream_details'' (list_of (pd_str pd)) [];
     b \<leftarrow> optional m ''dream_ego_activity'' (list_of (pd_str pd)) [];
     c \<leftarrow> optional m ''figures'' (list_of (read_figure pd)) [];
     d \<leftarrow> optional m ''emotional_field'' (list_of (pd_str pd)) [];
     e \<leftarrow> optional m ''personal_context_questions'' (list_of (pd_str pd)) [];
     f \<leftarrow> optional m ''amplification_candidates'' (list_of (read_candidate pd)) [];
     g \<leftarrow> optional m ''compensation_hypotheses'' (list_of (pd_str pd)) [];
     h \<leftarrow> optional m ''open_questions'' (list_of (pd_str pd)) [];
     i \<leftarrow> optional m ''recurring_motifs'' (list_of (pd_str pd)) [];
     j \<leftarrow> optional m ''uncertainty_notes'' (list_of (pd_str pd)) [];
     Some \<lparr>me_dream_details = a, me_dream_ego_activity = b, me_figures = c, me_emotional_field = d,
       me_personal_context_questions = e, me_amplification_candidates = f, me_compensation_hypotheses = g,
       me_open_questions = h, me_recurring_motifs = i, me_uncertainty_notes = j\<rparr> })"

definition memory_model_validate :: "pydantic \<Rightarrow> (ustr \<times> json) list \<Rightarrow> exn + StructuredDreamMemoryV1" where
  "memory_model_validate pd payload =
     (case read_memory pd (JObj payload) of
        None \<Rightarrow> Inl (ValidationError [Lit ''StructuredDreamMemoryV1'']) | Some a \<Rightarrow> Inr a)"

definition dump_figure :: "DreamFigureV1 \<Rightarrow> json" where
  "dump_figure x = JObj [(ascii ''name'', JStr (fi_name x)), (ascii ''role_hint'', JStr (fi_role_hint x)),
     (ascii ''emotional_charge'', JStr (fi_emotional_charge x))]"

definition dump_candidate :: "AmplificationCandidateV1 \<Rightarrow> json" where
  "dump_candidate x = JObj [(ascii ''symbol'', JStr (am_symbol x)), (ascii ''personal'', JStr (am_personal x)),
     (ascii ''cultural'', JStr (am_cultural x)), (ascii ''archetypal'', JStr (am_archetypal x))]"

definition dump_memory :: "StructuredDreamMemoryV1 \<Rightarrow> json" where
  "dump_memory x = JObj [(ascii ''dream_details'', strs (me_dream_details x)),
     (ascii ''dream_ego_activity'', strs (me_dream_ego_activity x)),
     (ascii ''figures'', JList (map dump_figure (me_figures x))),
     (ascii ''emotional_field'', strs (me_emotional_field x)),
     (ascii ''personal_context_questions'', strs (me_personal_context_questions x)),
     (ascii ''amplification_candidates'', JList (map dump_candidate (me_amplification_candidates x))),
     (ascii ''compensation_hypotheses'', strs (me_compensation_hypotheses x)),
     (ascii ''open_questions'', strs (me_open_questions x)),
     (ascii ''recurring_motifs'', strs (me_recurring_motifs x)),
     (ascii ''uncertainty_notes'', strs (me_uncertainty_notes x))]"

subsection \<open>Validated output survives storage\<close>

lemma bind_check [simp]: "(check b \<bind> f) = (if b then f () else None)"
  by (simp add: check_def)

lemma those_map_Some: "(\<And>x. x \<in> set xs \<Longrightarrow> f x = Some (g x)) \<Longrightarrow> those (map f xs) = Some (map g xs)"
  by (induction xs) auto

lemma list_of_map: "(\<And>x. r (d x) = Some x) \<Longrightarrow> list_of r (JList (map d xs)) = Some xs"
  by (simp add: list_of_def comp_def those_map_Some [where g = id, simplified])

lemma length_those: "those xs = Some ys \<Longrightarrow> length ys = length xs"
  by (induction xs arbitrary: ys) (auto split: option.splits)

lemma list_of_dump: "(\<And>x. x \<in> set xs \<Longrightarrow> r (d x) = Some x) \<Longrightarrow> list_of r (JList (map d xs)) = Some xs"
  by (simp add: list_of_def comp_def those_map_Some [where g = id, simplified])

text \<open>What the code relies on from pydantic: a string and a float are read as themselves.\<close>

locale pydantic_laws =
  fixes pd :: pydantic
  assumes str_self: "pd_str pd (JStr s) = Some s"
    and float_self: "pd_float pd (JFloat f) = Some f"
begin

lemma list_strs: "list_of (pd_str pd) (strs xs) = Some xs"
  unfolding strs_def by (rule list_of_map) (rule str_self)

lemma read_dump_symbol: "read_symbol pd (dump_symbol x) = Some x"
  by (simp add: read_symbol_def dump_symbol_def object_of_def required_def str_self ascii_def)

lemma read_dump_emotional_state:
  "unit_interval (em_intensity x) \<Longrightarrow> read_emotional_state pd (dump_emotional_state x) = Some x"
  by (simp add: read_emotional_state_def dump_emotional_state_def object_of_def required_def str_self float_self ascii_def)

lemma read_dump_jungian: "read_jungian pd (dump_jungian x) = Some x"
  by (simp add: read_jungian_def dump_jungian_def object_of_def required_def str_self list_strs ascii_def)

lemma read_dump_dream:
  assumes "unit_interval (em_intensity (da_emotional_state a))" and "symbols_required_when_interpretation_exists u a"
  shows "read_dream_analysis u pd (dump_dream_analysis a) = Some a"
  using assms read_dump_emotional_state read_dump_jungian
  by (simp add: read_dream_analysis_def dump_dream_analysis_def object_of_def required_def str_self list_strs
      list_of_map [OF read_dump_symbol] ascii_def symbols_required_when_interpretation_exists_def)

lemma read_dump_figure: "read_figure pd (dump_figure x) = Some x"
  by (simp add: read_figure_def dump_figure_def object_of_def required_def optional_def str_self ascii_def)

lemma read_dump_candidate: "read_candidate pd (dump_candidate x) = Some x"
  by (simp add: read_candidate_def dump_candidate_def object_of_def required_def optional_def str_self ascii_def)

lemma read_dump_memory: "read_memory pd (dump_memory x) = Some x"
  by (simp add: read_memory_def dump_memory_def object_of_def optional_def list_strs
      list_of_map [OF read_dump_figure] list_of_map [OF read_dump_candidate] ascii_def)

end

definition basic_pydantic :: pydantic where
  "basic_pydantic = \<lparr>pd_str = (\<lambda>v. case v of JStr s \<Rightarrow> Some s | _ \<Rightarrow> None),
     pd_float = (\<lambda>v. case v of JFloat f \<Rightarrow> Some f | JInt i \<Rightarrow> Some (Fin (of_int i)) | _ \<Rightarrow> None),
     py_number_str = (\<lambda>v. [])\<rparr>"

interpretation basic_pd: pydantic_laws basic_pydantic
  by unfold_locales (simp_all add: basic_pydantic_def)

lemma object_of_Some: "object_of keys r v = Some x \<longleftrightarrow>
    (\<exists>m. v = JObj m \<and> list_all (\<lambda>(k, _). k \<in> ascii ` set keys) m \<and> r m = Some x)"
  by (auto simp: object_of_def split: json.splits)

lemma read_emotional_state_unit: "read_emotional_state pd v = Some x \<Longrightarrow> unit_interval (em_intensity x)"
  by (auto simp: read_emotional_state_def object_of_Some bind_eq_Some_conv split: if_splits)

lemma required_Some: "required m k r = Some x \<Longrightarrow> \<exists>v. r v = Some x"
  by (auto simp: required_def split: option.splits)

lemma optional_Some: "optional m k r d = Some x \<longleftrightarrow>
    (\<exists>v. lookup (ascii k) m = Some v \<and> r v = Some x) \<or> lookup (ascii k) m = None \<and> x = d"
  by (auto simp: optional_def split: option.splits)

lemma read_dream_ok:
  assumes "read_dream_analysis u pd v = Some a"
  shows "unit_interval (em_intensity (da_emotional_state a)) \<and> symbols_required_when_interpretation_exists u a"
  using assms
  by (auto simp: read_dream_analysis_def object_of_Some bind_eq_Some_conv Let_def split: if_splits
      dest!: required_Some dest: read_emotional_state_unit)

text \<open>C25. What has passed validation can be stored and read back: dumping a validated analysis and
  validating the dump gives the analysis again, and the same for a structured memory. So an analysis
  that was accepted once can always be presented.\<close>

theorem stored_analysis_reads_back:
  assumes "\<forall>s. pd_str pd (JStr s) = Some s" and "\<forall>f. pd_float pd (JFloat f) = Some f"
    and "validate_analysis_output u pd payload = Inr a"
  shows "dream_model_validate u pd (dump_dream_analysis a) = Inr a
    \<and> memory_model_validate pd (case dump_memory x of JObj m \<Rightarrow> m) = Inr x"
proof -
  have laws: "pydantic_laws pd" using assms(1, 2) by unfold_locales auto
  have "read_dream_analysis u pd (JObj payload) = Some a"
    using assms(3) by (auto simp: validate_analysis_output_def dream_model_validate_def split: option.splits)
  then have "read_dream_analysis u pd (dump_dream_analysis a) = Some a"
    using pydantic_laws.read_dump_dream [OF laws] read_dream_ok by blast
  moreover have "JObj (case dump_memory x of JObj m \<Rightarrow> m) = dump_memory x" by (simp add: dump_memory_def)
  ultimately show ?thesis
    using pydantic_laws.read_dump_memory [OF laws, of x]
    by (simp add: dream_model_validate_def memory_model_validate_def)
qed

text \<open>Every companion turn that is accepted has a message of at least twenty characters, the stripped
  form of a text without any of the forbidden phrases, at most three focus points and questions, no blank
  question, and an intensity between zero and one.\<close>

theorem accepted_turn_is_bounded:
  assumes "dialogue_model_validate u pd payload = Inr t"
  shows "20 \<le> length (dt_assistant_message t)
    \<and> (\<exists>raw. dt_assistant_message t = strip u raw \<and> (\<forall>p \<in> set FORBIDDEN_PHRASES. \<not> contains (uc_lower u raw) p))
    \<and> length (dt_focus t) \<le> 3 \<and> length (dt_questions t) \<le> 3 \<and> [] \<notin> set (dt_questions t)
    \<and> unit_interval (dt_emotional_intensity t)"
proof -
  have q: "length (limit_questions u q) \<le> 3" "[] \<notin> set (limit_questions u q)" for q
    by (auto simp: limit_questions_def dest: in_set_takeD)
  have "read_dialogue_turn u pd (JObj payload) = Some t"
    using assms by (auto simp: dialogue_model_validate_def split: option.splits)
  then obtain a b c where
      a: "required payload ''assistant_message'' (\<lambda>v. pd_str pd v \<bind> reject_authoritarian_language u) = Some a"
      and b: "optional payload ''focus'' (\<lambda>v. list_of (pd_str pd) v \<bind> at_most 3) [] = Some b"
      and c: "optional payload ''questions'' (\<lambda>v. list_of (pd_str pd) v \<bind> at_most 3 \<bind> (\<lambda>q. Some (limit_questions u q))) [] = Some c"
      and e: "unit_interval (dt_emotional_intensity t)"
      and t: "dt_assistant_message t = a" "dt_focus t = b" "dt_questions t = c"
    by (auto simp: read_dialogue_turn_def object_of_Some bind_eq_Some_conv split: if_splits)
  obtain raw where "reject_authoritarian_language u raw = Some a"
    using a by (auto simp: bind_eq_Some_conv dest!: required_Some)
  then have "20 \<le> length a \<and> (\<exists>raw. a = strip u raw \<and> (\<forall>p \<in> set FORBIDDEN_PHRASES. \<not> contains (uc_lower u raw) p))"
    by (auto simp: reject_authoritarian_language_def Let_def split: if_splits)
  moreover have "length b \<le> 3"
    using b by (auto simp: optional_Some bind_eq_Some_conv at_most_def split: if_splits)
  moreover have "length c \<le> 3 \<and> [] \<notin> set c"
    using c q by (auto simp: optional_Some bind_eq_Some_conv)
  ultimately show ?thesis using e t by simp
qed

text \<open>More than three questions are not cut down to three: the bound on the field rejects the whole
  turn before the validator that would shorten the list is reached.\<close>

theorem fourth_question_rejects_turn:
  assumes "lookup (ascii ''questions'') payload = Some (JList qs)" and "3 < length qs"
  shows "dialogue_model_validate u pd payload = Inl (ValidationError [Lit ''DialogueTurnV1''])"
proof -
  have n: "(list_of (pd_str pd) (JList qs) \<bind> at_most 3) = None"
  proof (cases "those (map (pd_str pd) qs)")
    case (Some ys)
    then have "3 < length ys" using length_those [OF Some] assms(2) by simp
    then show ?thesis by (simp add: list_of_def at_most_def Some)
  qed (simp add: list_of_def)
  have "optional payload ''questions'' (\<lambda>v. list_of (pd_str pd) v \<bind> at_most 3 \<bind> (\<lambda>q. Some (limit_questions u q))) [] = None"
    by (simp only: optional_def assms(1) option.case n Option.bind.simps)
  then have "read_dialogue_turn u pd (JObj payload) \<noteq> Some t" for t
    by (auto simp: read_dialogue_turn_def object_of_Some bind_eq_Some_conv)
  then show ?thesis by (auto simp: dialogue_model_validate_def split: option.splits)
qed

subsection \<open>Concrete payloads\<close>

definition sample_analysis_payload :: "(ustr \<times> json) list" where
  "sample_analysis_payload =
     [(ascii ''summary'', JStr (ascii ''s'')),
      (ascii ''symbols'', JList [JObj [(ascii ''symbol'', JStr (ascii ''bridge'')), (ascii ''meaning'', JStr (ascii ''m'')),
         (ascii ''emotional_charge'', JStr (ascii ''c''))]]),
      (ascii ''emotional_state'', JObj [(ascii ''primary'', JStr (ascii ''p'')), (ascii ''secondary'', JStr []), (ascii ''intensity'', JInt 1)]),
      (ascii ''jungian_interpretation'', JObj [(ascii ''archetypes'', JList [JStr (ascii ''shadow'')]), (ascii ''shadow_elements'', JList []),
         (ascii ''anima_animus_signals'', JList []), (ascii ''individuation_hint'', JStr [])]),
      (ascii ''narrative_interpretation'', JStr (ascii ''n'')), (ascii ''key_insight'', JStr []),
      (ascii ''uncertainty_notes'', JList [])]"

definition sample_analysis :: DreamAnalysisV1 where
  "sample_analysis = \<lparr>da_summary = ascii ''s'',
     da_symbols = [\<lparr>sy_symbol = ascii ''bridge'', sy_meaning = ascii ''m'', sy_emotional_charge = ascii ''c''\<rparr>],
     da_emotional_state = \<lparr>em_primary = ascii ''p'', em_secondary = [], em_intensity = Fin 1\<rparr>,
     da_jungian_interpretation = \<lparr>ju_archetypes = [ascii ''shadow''], ju_shadow_elements = [], ju_anima_animus_signals = [],
       ju_individuation_hint = []\<rparr>,
     da_narrative_interpretation = ascii ''n'', da_key_insight = [], da_uncertainty_notes = []\<rparr>"

lemma sample_analysis_valid: "validate_analysis_output basic_unicode basic_pydantic sample_analysis_payload = Inr sample_analysis"
  by (simp add: validate_analysis_output_def dream_model_validate_def read_dream_analysis_def sample_analysis_payload_def
      sample_analysis_def object_of_def required_def list_of_def read_symbol_def read_emotional_state_def read_jungian_def
      basic_pydantic_def ascii_def unit_interval_def symbols_required_when_interpretation_exists_def)

definition empty_memory :: StructuredDreamMemoryV1 where
  "empty_memory = \<lparr>me_dream_details = [], me_dream_ego_activity = [], me_figures = [], me_emotional_field = [],
     me_personal_context_questions = [], me_amplification_candidates = [], me_compensation_hypotheses = [],
     me_open_questions = [], me_recurring_motifs = [], me_uncertainty_notes = []\<rparr>"

theorem stored_analysis_reads_back_witness:
  "dream_model_validate basic_unicode basic_pydantic (dump_dream_analysis sample_analysis) = Inr sample_analysis
    \<and> memory_model_validate basic_pydantic (case dump_memory empty_memory of JObj m \<Rightarrow> m) = Inr empty_memory"
  by (rule stored_analysis_reads_back [OF _ _ sample_analysis_valid]) (simp_all add: basic_pd.str_self basic_pd.float_self)

definition sample_turn_payload :: "nat \<Rightarrow> (ustr \<times> json) list" where
  "sample_turn_payload n = [(ascii ''assistant_message'', JStr (ascii ''What do you feel now? '')),
     (ascii ''questions'', JList (replicate n (JStr (ascii ''Why?''))))]"

lemma sample_turn_accepted:
  "\<exists>t. dialogue_model_validate basic_unicode basic_pydantic (sample_turn_payload 2) = Inr t"
proof -
  have "reject_authoritarian_language basic_unicode (ascii ''What do you feel now? '') =
      Some (ascii ''What do you feel now?'')"
    by code_simp
  then show ?thesis
    by (simp add: dialogue_model_validate_def read_dialogue_turn_def sample_turn_payload_def object_of_def required_def
        optional_def basic_pydantic_def list_of_def at_most_def numeral_2_eq_2 ascii_def unit_interval_def)
qed

theorem accepted_turn_is_bounded_witness:
  "\<exists>t. dialogue_model_validate basic_unicode basic_pydantic (sample_turn_payload 2) = Inr t
    \<and> 20 \<le> length (dt_assistant_message t) \<and> length (dt_questions t) \<le> 3"
  using sample_turn_accepted accepted_turn_is_bounded by blast

theorem fourth_question_rejects_turn_witness:
  "dialogue_model_validate basic_unicode basic_pydantic (sample_turn_payload 4) = Inl (ValidationError [Lit ''DialogueTurnV1''])"
  by (rule fourth_question_rejects_turn [where qs = "replicate 4 (JStr (ascii ''Why?''))"])
    (simp_all add: sample_turn_payload_def ascii_def)

end
