(* ===== verification/Datetimes.thy ===== *)
theory Datetimes
  imports Store
begin

text \<open>
  Python's \<open>datetime\<close>, naive or aware, as the services convert it (\<open>services/analysis_policy.py\<close>,
  \<open>_naive_now\<close> of \<open>services/runtime/analysis_job_service.py\<close>). Wall-clock readings and offsets are in
  microseconds. \<open>replace(tzinfo=None)\<close> keeps the wall clock and forgets the offset; \<open>astimezone\<close>
  keeps the instant.
\<close>

datatype pydatetime =
    Naive time
  | Aware time int    \<comment> \<open>wall clock, offset from UTC\<close>

fun drop_tzinfo :: "pydatetime \<Rightarrow> time" where
  "drop_tzinfo (Naive t) = t"
| "drop_tzinfo (Aware t off) = t"

fun instant :: "pydatetime \<Rightarrow> time option" where
  "instant (Naive t) = None"
| "instant (Aware t off) = Some (t - off)"

definition ensure_utc :: "pydatetime \<Rightarrow> pydatetime" where
  "ensure_utc dt = (case dt of Naive t \<Rightarrow> Aware t 0 | Aware t off \<Rightarrow> Aware (t - off) 0)"

text \<open>\<open>datetime.now(timezone.utc)\<close>.\<close>

definition utc_now :: "pydatetime db" where
  "utc_now = bindM utcnow (\<lambda>t. returnM (Aware t 0))"

definition naive_now :: "pydatetime option \<Rightarrow> time db" where
  "naive_now now = bindM (case now of Some d \<Rightarrow> returnM d | None \<Rightarrow> utc_now) (\<lambda>d. returnM (drop_tzinfo d))"

lemma drop_ensure_utc_Naive [simp]: "drop_tzinfo (ensure_utc (Naive t)) = t"
  and drop_ensure_utc_Aware [simp]: "drop_tzinfo (ensure_utc (Aware t off)) = t - off"
  by (simp_all add: ensure_utc_def)

lemma ensure_utc_idem [simp]: "ensure_utc (ensure_utc d) = ensure_utc d"
  by (cases d) (simp_all add: ensure_utc_def)

lemma instant_ensure_utc: "instant (ensure_utc d) = Some (drop_tzinfo (ensure_utc d))"
  by (cases d) (simp_all add: ensure_utc_def)

text \<open>The time an operation uses, and the state it leaves: a reading of the clock if none was given.\<close>

definition now_of :: "pydatetime option \<Rightarrow> world \<Rightarrow> time" where
  "now_of now s = (case now of Some d \<Rightarrow> drop_tzinfo d | None \<Rightarrow> clock s 0)"

definition now_state :: "pydatetime option \<Rightarrow> world \<Rightarrow> world" where
  "now_state now s = (case now of Some d \<Rightarrow> s | None \<Rightarrow> s\<lparr>clock := \<lambda>n. clock s (Suc n)\<rparr>)"

lemma naive_now_run [run]: "naive_now now s = (Inr (now_of now s), now_state now s)"
  by (cases now) (simp_all add: naive_now_def utc_now_def now_of_def now_state_def run)

lemma utc_now_run [run]: "utc_now s = (Inr (Aware (clock s 0) 0), s\<lparr>clock := \<lambda>n. clock s (Suc n)\<rparr>)"
  by (simp add: utc_now_def run)

lemma now_state_tables [simp]:
  "sessions (now_state now s) = sessions s" "jobs (now_state now s) = jobs s"
  "threads (now_state now s) = threads s" "analyses (now_state now s) = analyses s"
  "dreams (now_state now s) = dreams s" "turns (now_state now s) = turns s"
  "uuids (now_state now s) = uuids s" "row_locked (now_state now s) = row_locked s"
  "redis (now_state now s) = redis s" "sent (now_state now s) = sent s"
  "tx_now (now_state now s) = tx_now s" "rivals (now_state now s) = rivals s"
  "rivals_pending (now_state now s) = rivals_pending s"
  by (simp_all add: now_state_def split: option.split)

lemma preserves_naive_now: "(\<And>s g. I s \<Longrightarrow> I (s\<lparr>clock := g\<rparr>)) \<Longrightarrow> preserves I (naive_now now)"
  by (auto simp: preserves_def naive_now_run now_state_def split: option.split)

lemma preserves_utc_now: "(\<And>s g. I s \<Longrightarrow> I (s\<lparr>clock := g\<rparr>)) \<Longrightarrow> preserves I utc_now"
  by (auto simp: preserves_def utc_now_run)

lemma keeps_now [keep]:
  "(\<And>s g. f (s\<lparr>clock := g\<rparr>) = f s) \<Longrightarrow> keeps f (naive_now now)"
  "(\<And>s g. f (s\<lparr>clock := g\<rparr>) = f s) \<Longrightarrow> keeps f utc_now"
  by (auto simp: keeps_def naive_now_run utc_now_run now_state_def split: option.split)

lemma raises_now [raise]: "raises_only E (naive_now now)" "raises_only E utc_now"
  by (simp_all add: raises_only_def run)

end
