(* ===== verification/Sessions.thy ===== *)
theory Sessions
  imports Store Text
begin

text \<open>
  Session lifecycle (\<open>services/session_service.py\<close>), storing a dream (\<open>services/dream_service.py\<close>)
  and the conversation log (\<open>services/conversation/conversation_turn_service.py\<close>). The invariant is
  \<open>one_active\<close>: a user has at most one active session.
\<close>

subsection \<open>\<open>session_service\<close>\<close>

definition INACTIVITY_THRESHOLD :: time where
  "INACTIVITY_THRESHOLD = 72 * 3600 * 1000000"

definition SESSION_ACTIVE :: string where "SESSION_ACTIVE = ''active''"
definition SESSION_CLOSED :: string where "SESSION_CLOSED = ''closed''"

lemma session_status_distinct [simp]: "SESSION_ACTIVE \<noteq> SESSION_CLOSED" "SESSION_CLOSED \<noteq> SESSION_ACTIVE"
  by (simp_all add: SESSION_ACTIVE_def SESSION_CLOSED_def)

definition update_session_activity :: "uuid \<Rightarrow> unit db" where
  "update_session_activity sid = modifyM (\<lambda>s. s\<lparr>sessions :=
     update_where (\<lambda>r. ds_id r = sid) (\<lambda>r. r\<lparr>ds_last_activity_at := tx_now s\<rparr>) (sessions s)\<rparr>)"

definition close_session :: "uuid \<Rightarrow> unit db" where
  "close_session sid = modifyM (\<lambda>s. s\<lparr>sessions :=
     update_where (\<lambda>r. ds_id r = sid) (\<lambda>r. r\<lparr>ds_status := SESSION_CLOSED\<rparr>) (sessions s)\<rparr>)"

definition active_of :: "int \<Rightarrow> dream_session \<Rightarrow> bool" where
  "active_of uid r \<longleftrightarrow> ds_user_id r = uid \<and> ds_status r = SESSION_ACTIVE"

definition get_active_session_raw :: "int \<Rightarrow> dream_session option db" where
  "get_active_session_raw uid = getsM (\<lambda>s.
     first_row (sort_key (\<lambda>r. - ds_created_at r) (filter (active_of uid) (sessions s))))"

definition ensure_active_session :: "int \<Rightarrow> dream_session option db" where
  "ensure_active_session uid =
     bindM (get_active_session_raw uid) (\<lambda>session.
       case session of
         None \<Rightarrow> returnM None
       | Some x \<Rightarrow> bindM utcnow (\<lambda>now.
           if ds_last_activity_at x < now - INACTIVITY_THRESHOLD
           then thenM (close_session (ds_id x)) (returnM None)
           else returnM (Some x)))"

definition create_session :: "int \<Rightarrow> dream_session db" where
  "create_session uid =
     bindM utcnow (\<lambda>now.
     bindM uuid4 (\<lambda>i.
     bindM (getsM tx_now) (\<lambda>t.
     let x = \<lparr>ds_id = i, ds_user_id = uid, ds_status = SESSION_ACTIVE, ds_created_at = t,
              ds_updated_at = t, ds_last_activity_at = now\<rparr>
     in thenM (modifyM (\<lambda>s. s\<lparr>sessions := sessions s @ [x]\<rparr>)) (returnM x))))"

definition get_or_create_active_session :: "int \<Rightarrow> dream_session db" where
  "get_or_create_active_session uid =
     bindM (ensure_active_session uid) (\<lambda>session.
       case session of Some x \<Rightarrow> returnM x | None \<Rightarrow> create_session uid)"

lemmas session_defs = update_session_activity_def close_session_def get_active_session_raw_def
  ensure_active_session_def create_session_def get_or_create_active_session_def

subsection \<open>\<open>dream_service\<close> and \<open>conversation_turn_service\<close>\<close>

definition create_dream :: "int \<Rightarrow> ustr \<Rightarrow> uuid \<Rightarrow> dream db" where
  "create_dream uid text sid =
     bindM next_dream_id (\<lambda>i.
     bindM (getsM tx_now) (\<lambda>t.
     let x = \<lparr>dr_id = i, dr_user_id = uid, dr_text = text, dr_created_at = t, dr_session_id = sid\<rparr>
     in thenM (modifyM (\<lambda>s. s\<lparr>dreams := dreams s @ [x]\<rparr>)) (returnM x)))"

definition append_turn ::
  "int \<Rightarrow> uuid \<Rightarrow> string \<Rightarrow> string \<Rightarrow> ustr \<Rightarrow> int option \<Rightarrow> string \<Rightarrow> json option \<Rightarrow> conversation_turn db" where
  "append_turn uid sid role turn_type text dream_id source metadata =
     bindM uuid4 (\<lambda>i.
     bindM (getsM tx_now) (\<lambda>t.
     let x = \<lparr>ct_id = i, ct_user_id = uid, ct_session_id = sid, ct_dream_id = dream_id, ct_role = role,
              ct_turn_type = turn_type, ct_source = source, ct_text = text, ct_metadata_json = metadata,
              ct_created_at = t\<rparr>
     in thenM (modifyM (\<lambda>s. s\<lparr>turns := turns s @ [x]\<rparr>)) (returnM x)))"

definition append_user_turn :: "int \<Rightarrow> uuid \<Rightarrow> ustr \<Rightarrow> string \<Rightarrow> int option \<Rightarrow> conversation_turn db" where
  "append_user_turn uid sid text turn_type dream_id =
     append_turn uid sid TURN_ROLE_USER turn_type text dream_id ''telegram'' None"

definition append_assistant_turn ::
  "int \<Rightarrow> uuid \<Rightarrow> ustr \<Rightarrow> string \<Rightarrow> int option \<Rightarrow> json option \<Rightarrow> conversation_turn db" where
  "append_assistant_turn uid sid text turn_type dream_id metadata =
     append_turn uid sid TURN_ROLE_ASSISTANT turn_type text dream_id ''telegram'' metadata"

text \<open>Newest first: \<open>created_at DESC, id DESC\<close>.\<close>

definition turns_newest_first :: "(conversation_turn \<Rightarrow> bool) \<Rightarrow> world \<Rightarrow> conversation_turn list" where
  "turns_newest_first P s = sort_key (\<lambda>r. (- ct_created_at r, - int (ct_id r))) (filter P (turns s))"

definition get_previous_user_message_at :: "uuid \<Rightarrow> time option db" where
  "get_previous_user_message_at sid = getsM (\<lambda>s.
     let rows = map ct_created_at
           (take 2 (turns_newest_first (\<lambda>r. ct_session_id r = sid \<and> ct_role r = TURN_ROLE_USER) s))
     in if length rows < 2 then None else Some (rows ! 1))"

definition list_recent_turns :: "uuid \<Rightarrow> nat \<Rightarrow> conversation_turn list db" where
  "list_recent_turns sid limit = getsM (\<lambda>s.
     rev (take limit (turns_newest_first (\<lambda>r. ct_session_id r = sid) s)))"

lemmas turn_op_defs = append_turn_def append_user_turn_def append_assistant_turn_def

subsection \<open>What the session operations touch\<close>

lemma ensure_active_session_run:
  "ensure_active_session uid s =
     (case first_row (sort_key (\<lambda>r. - ds_created_at r) (filter (active_of uid) (sessions s))) of
        None \<Rightarrow> (Inr None, s)
      | Some x \<Rightarrow>
          let s1 = s\<lparr>clock := \<lambda>n. clock s (Suc n)\<rparr> in
          if ds_last_activity_at x < clock s 0 - INACTIVITY_THRESHOLD
          then (Inr None, s1\<lparr>sessions := update_where (\<lambda>r. ds_id r = ds_id x)
                  (\<lambda>r. r\<lparr>ds_status := SESSION_CLOSED\<rparr>) (sessions s)\<rparr>)
          else (Inr (Some x), s1))"
  by (simp add: session_defs run Let_def split: option.split)

lemma create_session_run:
  "create_session uid s =
     (let x = \<lparr>ds_id = uuids s 0, ds_user_id = uid, ds_status = SESSION_ACTIVE, ds_created_at = tx_now s,
               ds_updated_at = tx_now s, ds_last_activity_at = clock s 0\<rparr>
      in (Inr x, s\<lparr>clock := \<lambda>n. clock s (Suc n), uuids := \<lambda>n. uuids s (Suc n), sessions := sessions s @ [x]\<rparr>))"
  by (simp add: session_defs run Let_def)

lemma get_or_create_run:
  "get_or_create_active_session uid s =
     (case ensure_active_session uid s of
        (Inl e, s') \<Rightarrow> (Inl e, s')
      | (Inr None, s') \<Rightarrow> create_session uid s'
      | (Inr (Some x), s') \<Rightarrow> (Inr x, s'))"
  by (simp add: get_or_create_active_session_def run split: prod.split sum.split option.split)

text \<open>
  Session operations change the session table and the environment streams only: \<open>other_tables\<close> lists
  what stays.
\<close>

definition other_tables :: "world \<Rightarrow> world \<Rightarrow> bool" where
  "other_tables s t \<longleftrightarrow> dreams t = dreams s \<and> jobs t = jobs s \<and> threads t = threads s \<and> analyses t = analyses s
     \<and> turns t = turns s \<and> traces t = traces s \<and> memories t = memories s \<and> summaries t = summaries s
     \<and> prompt_versions t = prompt_versions s \<and> players t = players s \<and> tx_now t = tx_now s
     \<and> dream_seq t = dream_seq s \<and> row_locked t = row_locked s \<and> rivals t = rivals s
     \<and> rivals_pending t = rivals_pending s \<and> redis t = redis s \<and> sent t = sent s"

lemma other_tables_refl [simp]: "other_tables s s"
  by (simp add: other_tables_def)

lemma ensure_active_session_frame:
  "ensure_active_session uid s = (r, s') \<Longrightarrow> other_tables s s'"
  by (auto simp: ensure_active_session_run Let_def other_tables_def split: option.splits if_splits)

lemma create_session_frame: "create_session uid s = (r, s') \<Longrightarrow> other_tables s s'"
  by (auto simp: create_session_run Let_def other_tables_def)

lemma get_or_create_frame: "get_or_create_active_session uid s = (r, s') \<Longrightarrow> other_tables s s'"
  by (auto simp: get_or_create_run ensure_active_session_run create_session_run Let_def other_tables_def
      split: option.splits if_splits)

subsection \<open>At most one active session per user\<close>

definition one_active :: "world \<Rightarrow> bool" where
  "one_active s \<longleftrightarrow> (\<forall>u. length (filter (active_of u) (sessions s)) \<le> 1)"

lemma active_of_simps [simp]:
  "\<not> active_of u (r\<lparr>ds_status := SESSION_CLOSED\<rparr>)"
  "active_of u (r\<lparr>ds_last_activity_at := t\<rparr>) = active_of u r"
  by (simp_all add: active_of_def)

lemma one_active_env [simp]:
  "one_active (s\<lparr>clock := c\<rparr>) = one_active s" "one_active (s\<lparr>uuids := g\<rparr>) = one_active s"
  "one_active (s\<lparr>dream_seq := n\<rparr>) = one_active s" "one_active (s\<lparr>dreams := d\<rparr>) = one_active s"
  "one_active (s\<lparr>turns := t\<rparr>) = one_active s" "one_active (s\<lparr>traces := p\<rparr>) = one_active s"
  "one_active (s\<lparr>jobs := j\<rparr>) = one_active s"
  by (simp_all add: one_active_def)

lemma filter_active_close:
  "filter (active_of u) (update_where P (\<lambda>r. r\<lparr>ds_status := SESSION_CLOSED\<rparr>) xs) =
   filter (active_of u) (filter (\<lambda>r. \<not> P r) xs)"
  by (induction xs) auto

lemma filter_active_touch:
  "filter (active_of u) (update_where P (\<lambda>r. r\<lparr>ds_last_activity_at := t\<rparr>) xs) =
   update_where P (\<lambda>r. r\<lparr>ds_last_activity_at := t\<rparr>) (filter (active_of u) xs)"
  by (induction xs) auto

lemma preserves_update_session_activity [pres]: "preserves one_active (update_session_activity sid)"
  by (auto simp: session_defs one_active_def filter_active_touch intro!: pres)

lemma preserves_close_session [pres]: "preserves one_active (close_session sid)"
  unfolding close_session_def
  by (rule preserves_modify)
    (auto simp: one_active_def filter_active_close intro: le_trans [OF length_filter_conj_le])

lemma active_session_unique:
  assumes "one_active s" and "first_row (sort_key k (filter (active_of uid) (sessions s))) = Some x"
  shows "filter (active_of uid) (sessions s) = [x]" and "x \<in> set (sessions s)" and "active_of uid x"
proof -
  show x: "x \<in> set (sessions s)" and a: "active_of uid x"
    using first_row_Some [OF assms(2)] by auto
  show "filter (active_of uid) (sessions s) = [x]"
    using assms(1) x a by (intro filter_singletonD) (auto simp: one_active_def)
qed

lemma first_row_singleton: "filter P xs = [x] \<Longrightarrow> first_row (sort_key k (filter P xs)) = Some x"
  by simp

text \<open>The three ways a session is obtained.\<close>

definition new_session :: "int \<Rightarrow> uuid \<Rightarrow> time \<Rightarrow> time \<Rightarrow> dream_session" where
  "new_session uid i t now = \<lparr>ds_id = i, ds_user_id = uid, ds_status = SESSION_ACTIVE, ds_created_at = t,
     ds_updated_at = t, ds_last_activity_at = now\<rparr>"

lemma new_session_sel [simp]:
  "ds_id (new_session u i t n) = i" "ds_user_id (new_session u i t n) = u"
  "ds_status (new_session u i t n) = SESSION_ACTIVE" "ds_last_activity_at (new_session u i t n) = n"
  "active_of v (new_session u i t n) \<longleftrightarrow> v = u"
  by (auto simp: new_session_def active_of_def)

definition close_row :: "uuid \<Rightarrow> dream_session list \<Rightarrow> dream_session list" where
  "close_row sid = update_where (\<lambda>r. ds_id r = sid) (\<lambda>r. r\<lparr>ds_status := SESSION_CLOSED\<rparr>)"

lemma get_or_create_none:
  assumes "filter (active_of uid) (sessions s) = []"
  shows "get_or_create_active_session uid s =
    (let x = new_session uid (uuids s 0) (tx_now s) (clock s 0)
     in (Inr x, s\<lparr>clock := \<lambda>n. clock s (Suc n), uuids := \<lambda>n. uuids s (Suc n), sessions := sessions s @ [x]\<rparr>))"
  using assms by (simp add: get_or_create_run ensure_active_session_run create_session_run new_session_def Let_def)

lemma get_or_create_recent:
  assumes "filter (active_of uid) (sessions s) = [x]"
    and "clock s 0 - INACTIVITY_THRESHOLD \<le> ds_last_activity_at x"
  shows "get_or_create_active_session uid s = (Inr x, s\<lparr>clock := \<lambda>n. clock s (Suc n)\<rparr>)"
  using assms by (simp add: get_or_create_run ensure_active_session_run Let_def)

lemma get_or_create_stale:
  assumes "filter (active_of uid) (sessions s) = [x]"
    and "ds_last_activity_at x < clock s 0 - INACTIVITY_THRESHOLD"
  shows "get_or_create_active_session uid s =
    (let y = new_session uid (uuids s 0) (tx_now s) (clock s 1)
     in (Inr y, s\<lparr>clock := \<lambda>n. clock s (Suc (Suc n)), uuids := \<lambda>n. uuids s (Suc n),
                 sessions := close_row (ds_id x) (sessions s) @ [y]\<rparr>))"
  using assms by (simp add: get_or_create_run ensure_active_session_run create_session_run new_session_def
      close_row_def Let_def)

lemma one_active_cases:
  assumes "one_active s"
  obtains (none) "filter (active_of uid) (sessions s) = []"
    | (recent) x where "filter (active_of uid) (sessions s) = [x]"
        "clock s 0 - INACTIVITY_THRESHOLD \<le> ds_last_activity_at x"
    | (stale) x where "filter (active_of uid) (sessions s) = [x]"
        "ds_last_activity_at x < clock s 0 - INACTIVITY_THRESHOLD"
proof -
  have "length (filter (active_of uid) (sessions s)) \<le> 1" using assms by (simp add: one_active_def)
  then consider "filter (active_of uid) (sessions s) = []" | x where "filter (active_of uid) (sessions s) = [x]"
    by (cases "filter (active_of uid) (sessions s)") auto
  then show thesis by cases (use none recent stale in \<open>force simp: not_le\<close>)+
qed

lemma filter_active_close_row:
  assumes "filter (active_of uid) xs = [x]"
  shows "filter (active_of uid) (close_row (ds_id x) xs) = []"
proof -
  have "filter (active_of uid) (close_row (ds_id x) xs) = filter (\<lambda>r. ds_id r \<noteq> ds_id x) (filter (active_of uid) xs)"
    by (simp add: close_row_def filter_active_close conj_commute)
  then show ?thesis by (simp add: assms)
qed

lemma one_active_close_row:
  "one_active s \<Longrightarrow> length (filter (active_of u) (close_row sid (sessions s))) \<le> 1"
  by (auto simp: one_active_def close_row_def filter_active_close intro: le_trans [OF length_filter_conj_le])

lemma get_or_create_result:
  assumes "one_active s"
  obtains x s' where "get_or_create_active_session uid s = (Inr x, s')" and "one_active s'"
    and "filter (active_of uid) (sessions s') = [x]"
    and "ds_last_activity_at x \<ge> clock s 0 - INACTIVITY_THRESHOLD \<or> ds_last_activity_at x \<in> {clock s 0, clock s 1}"
  using assms
proof (cases rule: one_active_cases [where uid = uid])
  case none
  then show thesis
    using assms by (intro that [OF get_or_create_none [OF none, unfolded Let_def]]) (auto simp: one_active_def)
next
  case (recent x)
  then show thesis using assms by (intro that [OF get_or_create_recent [OF recent]]) auto
next
  case (stale x)
  then show thesis using one_active_close_row [OF assms]
    by (intro that [OF get_or_create_stale [OF stale, unfolded Let_def]])
      (auto simp: filter_active_close_row one_active_def)
qed

lemma preserves_get_or_create [pres]: "preserves one_active (get_or_create_active_session uid)"
  by (rule preservesI) (metis get_or_create_result snd_conv)

subsection \<open>The contract of the session gate\<close>

text \<open>
  What the callers of the gate (ingress, dream intake) rely on: it always yields an active session of
  the user, keeps the invariant, touches nothing but sessions, and gives the same session again while
  that session is recent.
\<close>

locale session_gate =
  fixes gate :: "int \<Rightarrow> dream_session db" and inv :: "world \<Rightarrow> bool"
  assumes yields: "inv s \<Longrightarrow> \<exists>x s'. gate uid s = (Inr x, s') \<and> x \<in> set (sessions s') \<and> active_of uid x \<and> inv s'"
    and frame: "gate uid s = (r, s') \<Longrightarrow> other_tables s s'"
    and again: "inv s \<Longrightarrow> gate uid s = (Inr x, s') \<Longrightarrow>
      clock s' 0 - INACTIVITY_THRESHOLD \<le> ds_last_activity_at x \<Longrightarrow>
      gate uid s' = (Inr x, s'\<lparr>clock := \<lambda>n. clock s' (Suc n)\<rparr>)"
begin

lemma gate_keeps: "preserves inv (gate uid)"
  by (rule preservesI) (metis yields snd_conv)

lemma gate_never_raises: "inv s \<Longrightarrow> gate uid s \<noteq> (Inl e, s')"
  by (metis yields Pair_inject sum.distinct(1))

lemma gate_twice:
  assumes "inv s" and "gate uid s = (Inr x, s')"
    and "clock s' 0 - INACTIVITY_THRESHOLD \<le> ds_last_activity_at x"
  shows "bindM (gate uid) (\<lambda>a. bindM (gate uid) (\<lambda>b. returnM (a, b))) s =
    (Inr (x, x), s'\<lparr>clock := \<lambda>n. clock s' (Suc n)\<rparr>)"
  using again [OF assms] by (simp add: run assms(2))

end

interpretation sg: session_gate get_or_create_active_session one_active
proof unfold_locales
  show "\<exists>x s'. get_or_create_active_session uid s = (Inr x, s') \<and> x \<in> set (sessions s') \<and> active_of uid x \<and> one_active s'"
    if "one_active s" for uid s
  proof (rule get_or_create_result [OF that, of uid])
    fix x s' assume "get_or_create_active_session uid s = (Inr x, s')" "one_active s'"
      and f: "filter (active_of uid) (sessions s') = [x]"
    then show ?thesis using filter_eq_singletonD [OF f] by auto
  qed
  show "get_or_create_active_session uid s' = (Inr x, s'\<lparr>clock := \<lambda>n. clock s' (Suc n)\<rparr>)"
    if "one_active s" and "get_or_create_active_session uid s = (Inr x, s')"
      and "clock s' 0 - INACTIVITY_THRESHOLD \<le> ds_last_activity_at x" for uid s x s'
    by (rule get_or_create_result [OF that(1), of uid]) (use that(2, 3) get_or_create_recent in auto)
qed (rule get_or_create_frame)

text \<open>C11. Asking for a user's session always succeeds: the result is a stored, active session of that
  user which was used within the last 72 hours or has just been opened, and the user has at most one
  active session before and after.\<close>

theorem get_or_create_active_session_spec:
  assumes "one_active s"
  shows "\<exists>x s'. get_or_create_active_session uid s = (Inr x, s') \<and> x \<in> set (sessions s')
    \<and> ds_user_id x = uid \<and> ds_status x = SESSION_ACTIVE \<and> one_active s'
    \<and> (clock s 0 - INACTIVITY_THRESHOLD \<le> ds_last_activity_at x \<or> ds_last_activity_at x \<in> {clock s 0, clock s 1})"
proof -
  obtain x s' where g: "get_or_create_active_session uid s = (Inr x, s')" "one_active s'"
    and f: "filter (active_of uid) (sessions s') = [x]"
    and t: "ds_last_activity_at x \<ge> clock s 0 - INACTIVITY_THRESHOLD \<or> ds_last_activity_at x \<in> {clock s 0, clock s 1}"
    using get_or_create_result [OF assms] .
  then show ?thesis using g t filter_eq_singletonD [OF f] by (auto simp: active_of_def)
qed

definition sample_session :: dream_session where
  "sample_session = \<lparr>ds_id = 7, ds_user_id = 1, ds_status = SESSION_ACTIVE, ds_created_at = 0,
     ds_updated_at = 0, ds_last_activity_at = 500000\<rparr>"

definition sample_world :: world where
  "sample_world = empty_world\<lparr>sessions := [sample_session]\<rparr>"

lemma sample_world_one_active: "one_active sample_world"
  by (simp add: one_active_def sample_world_def)

theorem get_or_create_active_session_spec_witness:
  "\<exists>x s'. get_or_create_active_session 1 sample_world = (Inr x, s') \<and> x \<in> set (sessions s')
    \<and> ds_user_id x = 1 \<and> ds_status x = SESSION_ACTIVE \<and> one_active s'
    \<and> (clock sample_world 0 - INACTIVITY_THRESHOLD \<le> ds_last_activity_at x
       \<or> ds_last_activity_at x \<in> {clock sample_world 0, clock sample_world 1})"
  by (rule get_or_create_active_session_spec [OF sample_world_one_active])

text \<open>A session that has been idle for more than 72 hours is closed, not reused and not changed in
  any other field, and a fresh session with a new identifier takes its place; all other sessions stay
  as they are.\<close>

theorem stale_session_is_replaced:
  assumes "one_active s" and "supplies s (ds_id ` set (sessions s))"
    and "x \<in> set (sessions s)" and "active_of uid x"
    and "ds_last_activity_at x < clock s 0 - INACTIVITY_THRESHOLD"
  shows "\<exists>y s'. get_or_create_active_session uid s = (Inr y, s') \<and> ds_id y \<noteq> ds_id x
    \<and> x\<lparr>ds_status := SESSION_CLOSED\<rparr> \<in> set (sessions s')
    \<and> (\<forall>r \<in> set (sessions s). ds_id r \<noteq> ds_id x \<longrightarrow> r \<in> set (sessions s'))
    \<and> length (sessions s') = length (sessions s) + 1"
proof -
  have f: "filter (active_of uid) (sessions s) = [x]"
    using assms by (intro filter_singletonD) (auto simp: one_active_def)
  have "uuids s 0 \<noteq> ds_id x"
    using supplies_draw(1) [OF assms(2)] assms(3) by auto
  then show ?thesis
    using assms(3) by (auto simp: get_or_create_stale [OF f assms(5)] Let_def close_row_def set_update_where)
qed

theorem stale_session_is_replaced_witness:
  "\<exists>y s'. get_or_create_active_session 1 (sample_world\<lparr>clock := \<lambda>n. 10 ^ 12 + int n\<rparr>) = (Inr y, s')
    \<and> ds_id y \<noteq> ds_id sample_session
    \<and> sample_session\<lparr>ds_status := SESSION_CLOSED\<rparr> \<in> set (sessions s')
    \<and> length (sessions s') = length (sessions (sample_world\<lparr>clock := \<lambda>n. 10 ^ 12 + int n\<rparr>)) + 1"
proof -
  let ?s = "sample_world\<lparr>clock := \<lambda>n. 10 ^ 12 + int n\<rparr>"
  have "\<exists>y s'. get_or_create_active_session 1 ?s = (Inr y, s') \<and> ds_id y \<noteq> ds_id sample_session
    \<and> sample_session\<lparr>ds_status := SESSION_CLOSED\<rparr> \<in> set (sessions s')
    \<and> (\<forall>r \<in> set (sessions ?s). ds_id r \<noteq> ds_id sample_session \<longrightarrow> r \<in> set (sessions s'))
    \<and> length (sessions s') = length (sessions ?s) + 1"
    by (rule stale_session_is_replaced)
      (simp_all add: sample_world_one_active,
       auto simp: sample_world_def empty_world_def sample_session_def supplies_def
        inj_def active_of_def INACTIVITY_THRESHOLD_def)
  then show ?thesis by blast
qed

subsection \<open>The order of the conversation log\<close>

text \<open>The user's message and the answer to it are stored in one transaction, so they carry the same
  \<open>created_at\<close>; the log then orders the pair by its random identifiers, and shows the answer before the
  question whenever the answer happened to draw the smaller one.\<close>

theorem turn_pair_order_is_by_uuid:
  assumes "\<forall>t \<in> set (turns s). ct_session_id t = sid \<longrightarrow> ct_created_at t < tx_now s" and "2 \<le> limit"
    and "append_user_turn uid sid question kind did s = (Inr a, s1)"
    and "append_assistant_turn uid sid answer kind did' md s1 = (Inr b, s2)"
  shows "\<exists>older. list_recent_turns sid limit s2 =
    (Inr (older @ (if uuids s 0 < uuids s 1 then [a, b] else [b, a])), s2)"
proof -
  have a: "ct_id a = uuids s 0" "ct_created_at a = tx_now s" "ct_session_id a = sid"
    and b: "ct_id b = uuids s 1" "ct_created_at b = tx_now s" "ct_session_id b = sid"
    and t: "turns s2 = turns s @ [a, b]"
    using assms(3, 4) by (auto simp: turn_op_defs run Let_def)
  let ?k = "\<lambda>r. (- ct_created_at r, - int (ct_id r))"
  have ab: "filter (\<lambda>r. ct_session_id r = sid) [a, b] = [a, b]"
    using a b by simp
  have "turns_newest_first (\<lambda>r. ct_session_id r = sid) s2 =
      sort_key ?k [a, b] @ sort_key ?k (filter (\<lambda>r. ct_session_id r = sid) (turns s))"
    unfolding turns_newest_first_def t filter_append ab
    by (rule sort_key_append_less) (use a b assms(1) in auto)
  then have "turns_newest_first (\<lambda>r. ct_session_id r = sid) s2 =
      (if uuids s 0 < uuids s 1 then [b, a] else [a, b])
        @ sort_key ?k (filter (\<lambda>r. ct_session_id r = sid) (turns s))"
    using a b by (auto simp: insort_key.simps)
  moreover obtain n where "limit = Suc (Suc n)"
    using assms(2) by (metis Suc_le_D numeral_2_eq_2 Suc_le_mono)
  ultimately show ?thesis by (auto simp: list_recent_turns_def run)
qed

theorem turn_pair_order_is_by_uuid_witness:
  "\<exists>a s1 b s2 older. append_user_turn 1 7 (ascii ''hi'') TURN_TYPE_DIALOGUE None (sample_world\<lparr>uuids := \<lambda>n. 100 - n\<rparr>) = (Inr a, s1)
    \<and> append_assistant_turn 1 7 (ascii ''hello'') TURN_TYPE_DIALOGUE None None s1 = (Inr b, s2)
    \<and> list_recent_turns 7 10 s2 = (Inr (older @ [b, a]), s2)"
proof -
  let ?s = "sample_world\<lparr>uuids := \<lambda>n. 100 - n\<rparr>"
  obtain a s1 where a: "append_user_turn 1 7 (ascii ''hi'') TURN_TYPE_DIALOGUE None ?s = (Inr a, s1)"
    by (simp add: turn_op_defs run Let_def)
  obtain b s2 where b: "append_assistant_turn 1 7 (ascii ''hello'') TURN_TYPE_DIALOGUE None None s1 = (Inr b, s2)"
    by (simp add: turn_op_defs run Let_def)
  have "\<exists>older. list_recent_turns 7 10 s2 =
      (Inr (older @ (if uuids ?s 0 < uuids ?s 1 then [a, b] else [b, a])), s2)"
    by (rule turn_pair_order_is_by_uuid [OF _ _ a b]) (simp_all add: sample_world_def empty_world_def)
  then show ?thesis using a b by auto
qed

end
