(* ===== verification/Machine.thy ===== *)
theory Machine
  imports Datetimes Sessions
begin

text \<open>
  The analysis state machine: \<open>services/analysis_state_machine_types.py\<close>,
  \<open>services/analysis_state_machine_service.py\<close>, \<open>services/analysis_policy.py\<close>. The decision is a pure
  function of two snapshots, the requested mode and the time; a decision expands to a fixed list of
  transition commands, which theory Threads executes.
\<close>

subsection \<open>Types\<close>

datatype DecisionAction = A_CONTINUE | A_CREATE_NEW | A_MARK_IDLE | A_CLOSE_AND_CREATE_NEW

datatype TransitionCommandType = C_CONTINUE | C_CREATE_NEW | C_MARK_IDLE | C_CLOSE_THREAD

datatype AnalysisModeRequest = M_auto | M_new | M_continue

datatype AnalysisModeDecision = New_thread | Continue_thread

record SessionSnapshot =
  sn_session_id :: uuid
  sn_status :: string
  sn_last_activity_at :: "pydatetime option"

record ThreadSnapshot =
  tn_thread_id :: "uuid option"
  tn_status :: "string option"
  tn_last_activity_at :: "pydatetime option"
  tn_created_at :: "pydatetime option"

record DecisionDTO =
  dd_action :: DecisionAction
  dd_target_thread_id :: "uuid option"
  dd_metadata :: "(string \<times> string) list"
  dd_confidence :: rat

text \<open>\<open>__post_init__\<close>: a decision with another confidence cannot be built.\<close>

definition decision_dto :: "DecisionAction \<Rightarrow> uuid option \<Rightarrow> (string \<times> string) list \<Rightarrow> rat \<Rightarrow> exn + DecisionDTO" where
  "decision_dto action target metadata confidence =
     (if confidence \<noteq> 1
      then Inl (ValueError [Lit ''DecisionDTO.confidence must be 1.0 for deterministic state machine''])
      else Inr \<lparr>dd_action = action, dd_target_thread_id = target, dd_metadata = metadata, dd_confidence = confidence\<rparr>)"

record TransitionCommand =
  tc_command_type :: TransitionCommandType
  tc_thread_id :: "uuid option"

record NormalizedTransition =
  nt_action :: DecisionAction
  nt_target_thread_id :: "uuid option"
  nt_commands :: "TransitionCommand list"

subsection \<open>\<open>analysis_policy\<close>\<close>

definition is_session_closed :: "SessionSnapshot \<Rightarrow> bool" where
  "is_session_closed x \<longleftrightarrow> sn_status x \<noteq> ''active''"

definition is_thread_closed :: "ThreadSnapshot \<Rightarrow> bool" where
  "is_thread_closed x \<longleftrightarrow> tn_status x = Some ''closed''"

definition is_thread_idle :: "ThreadSnapshot \<Rightarrow> bool" where
  "is_thread_idle x \<longleftrightarrow> tn_status x = Some ''idle''"

definition thread_activity_at :: "ThreadSnapshot \<Rightarrow> pydatetime option" where
  "thread_activity_at x =
     (case tn_last_activity_at x of
        Some t \<Rightarrow> Some (ensure_utc t)
      | None \<Rightarrow> (case tn_created_at x of Some t \<Rightarrow> Some (ensure_utc t) | None \<Rightarrow> None))"

text \<open>Both sides of the subtraction are in UTC, so it is the difference of the wall clocks.\<close>

definition is_thread_fresh :: "ThreadSnapshot \<Rightarrow> pydatetime \<Rightarrow> time \<Rightarrow> bool" where
  "is_thread_fresh x now threshold =
     (case thread_activity_at x of
        None \<Rightarrow> False
      | Some activity \<Rightarrow> drop_tzinfo (ensure_utc now) - drop_tzinfo activity \<le> threshold)"

subsection \<open>The decision\<close>

definition the_decision :: "DecisionAction \<Rightarrow> uuid option \<Rightarrow> string \<Rightarrow> DecisionDTO" where
  "the_decision action target rule = \<lparr>dd_action = action, dd_target_thread_id = target,
     dd_metadata = [(''rule'', rule)], dd_confidence = 1\<rparr>"

lemma the_decision_built: "decision_dto action target [(''rule'', rule)] 1 = Inr (the_decision action target rule)"
  by (simp add: decision_dto_def the_decision_def)

definition resolve_thread_decision ::
  "SessionSnapshot \<Rightarrow> ThreadSnapshot \<Rightarrow> AnalysisModeRequest \<Rightarrow> pydatetime \<Rightarrow> DecisionDTO" where
  "resolve_thread_decision session thread mode now =
     (let now_utc = ensure_utc now; target = tn_thread_id thread in
      if is_session_closed session then the_decision A_CLOSE_AND_CREATE_NEW target ''session_closed''
      else if tn_thread_id thread = None then the_decision A_CREATE_NEW None ''missing_thread''
      else if is_thread_closed thread then the_decision A_CREATE_NEW target ''thread_closed''
      else if is_thread_idle thread then the_decision A_CREATE_NEW target ''thread_idle''
      else if \<not> is_thread_fresh thread now_utc INACTIVITY_THRESHOLD then the_decision A_MARK_IDLE target ''stale_thread''
      else if mode = M_new then the_decision A_CREATE_NEW target ''mode_new''
      else the_decision A_CONTINUE target ''continue_allowed'')"

fun ACTION_COMMAND_MAP :: "DecisionAction \<Rightarrow> TransitionCommandType list" where
  "ACTION_COMMAND_MAP A_CONTINUE = [C_CONTINUE]"
| "ACTION_COMMAND_MAP A_CREATE_NEW = [C_CREATE_NEW]"
| "ACTION_COMMAND_MAP A_MARK_IDLE = [C_MARK_IDLE, C_CREATE_NEW]"
| "ACTION_COMMAND_MAP A_CLOSE_AND_CREATE_NEW = [C_CLOSE_THREAD, C_CREATE_NEW]"

definition normalized_transition :: "DecisionDTO \<Rightarrow> NormalizedTransition" where
  "normalized_transition d = \<lparr>nt_action = dd_action d, nt_target_thread_id = dd_target_thread_id d,
     nt_commands = map (\<lambda>c. \<lparr>tc_command_type = c,
        tc_thread_id = (if c \<in> {C_CONTINUE, C_MARK_IDLE, C_CLOSE_THREAD} then dd_target_thread_id d else None)\<rparr>)
       (ACTION_COMMAND_MAP (dd_action d))\<rparr>"

definition decision_to_mode :: "DecisionAction \<Rightarrow> AnalysisModeDecision" where
  "decision_to_mode a = (if a = A_CONTINUE then Continue_thread else New_thread)"

lemma the_decision_sel [simp]:
  "dd_action (the_decision a t r) = a" "dd_target_thread_id (the_decision a t r) = t"
  by (simp_all add: the_decision_def)

text \<open>The state machine continues a thread exactly when the session is open, there is a thread
  that is neither idle nor closed and was used within the last 72 hours, and the caller did not ask
  for a new one; asking to continue never makes a difference. In every other case its commands end in
  creating a thread, and a stale thread is put to idle first.\<close>

theorem continue_iff_fresh:
  "(dd_action (resolve_thread_decision s t m now) = A_CONTINUE \<longleftrightarrow>
     sn_status s = ''active'' \<and> (\<exists>i. tn_thread_id t = Some i) \<and> tn_status t \<notin> {Some ''closed'', Some ''idle''}
     \<and> (\<exists>a. thread_activity_at t = Some a \<and> drop_tzinfo (ensure_utc now) \<le> drop_tzinfo a + INACTIVITY_THRESHOLD)
     \<and> m \<noteq> M_new)
   \<and> resolve_thread_decision s t M_continue now = resolve_thread_decision s t M_auto now
   \<and> (dd_action (resolve_thread_decision s t m now) \<noteq> A_CONTINUE \<longleftrightarrow>
     (\<exists>cs. nt_commands (normalized_transition (resolve_thread_decision s t m now)) =
        cs @ [\<lparr>tc_command_type = C_CREATE_NEW, tc_thread_id = None\<rparr>]))"
  by (auto simp: resolve_thread_decision_def Let_def is_thread_fresh_def normalized_transition_def
      is_session_closed_def is_thread_closed_def is_thread_idle_def split: option.splits)

end
