(* ===== verification/Threads.thy ===== *)
theory Threads
  imports Machine
begin

text \<open>
  Analysis threads: the executor of the state machine's commands and the persistence of analyses
  (\<open>services/analysis_thread_service.py\<close>), the snapshots (\<open>services/analysis_snapshot_service.py\<close>) and the
  bounded re-resolve (\<open>services/analysis_continuation_service.py\<close>). Invariants: \<open>threads_ok\<close> (a session has
  at most one active thread) and \<open>analyses_ok\<close> (a thread has at most one latest analysis).
\<close>

subsection \<open>Commands on threads\<close>

definition active_thread_of :: "uuid \<Rightarrow> analysis_thread \<Rightarrow> bool" where
  "active_thread_of sid t \<longleftrightarrow> th_session_id t = sid \<and> th_status t = THREAD_STATUS_ACTIVE"

definition idle_thread :: "time \<Rightarrow> analysis_thread \<Rightarrow> analysis_thread" where
  "idle_thread now t = t\<lparr>th_status := THREAD_STATUS_IDLE, th_updated_at := now\<rparr>"

definition new_thread :: "uuid \<Rightarrow> uuid \<Rightarrow> time \<Rightarrow> analysis_thread" where
  "new_thread i sid now = \<lparr>th_id = i, th_session_id = sid, th_status = THREAD_STATUS_ACTIVE, th_created_at = now,
     th_updated_at = now, th_last_activity_at = None, th_last_analysis_id = None\<rparr>"

text \<open>
  \<open>db.flush()\<close> of a new active thread: the partial unique index rejects the row if a rival transaction
  has committed an active thread of the same session in between. What the rival did becomes visible
  when our savepoint is rolled back.
\<close>

definition flush_thread :: "analysis_thread \<Rightarrow> unit db" where
  "flush_thread x s =
     (let s1 = s\<lparr>rivals := \<lambda>n. rivals s (Suc n)\<rparr> in
      case rivals s 0 of
        Some r \<Rightarrow>
          if active_thread_of (th_session_id x) r
          then (Inl IntegrityError, s1\<lparr>rivals_pending := rivals_pending s @ [r]\<rparr>)
          else (Inr (), s1\<lparr>threads := threads s @ [x]\<rparr>)
      | None \<Rightarrow> (Inr (), s1\<lparr>threads := threads s @ [x]\<rparr>))"

definition create_thread :: "uuid \<Rightarrow> analysis_thread db" where
  "create_thread sid =
     thenM (modifyM (\<lambda>s. s\<lparr>threads := update_where (active_thread_of sid) (idle_thread (tx_now s)) (threads s)\<rparr>)) (
     bindM uuid4 (\<lambda>i.
     bindM (getsM tx_now) (\<lambda>now.
     let x = new_thread i sid now in
     thenM (catchM (flush_thread x)
       (\<lambda>e. if e = IntegrityError
            then throwM (StateMachineConcurrencyError [Lit ''Failed to create active thread due to concurrent update''])
            else throwM e))
       (returnM x))))"

definition newest_thread :: "(analysis_thread \<Rightarrow> bool) \<Rightarrow> world \<Rightarrow> analysis_thread option" where
  "newest_thread P s = first_row (sort_key (\<lambda>t. (- th_created_at t, - int (th_id t))) (filter P (threads s)))"

definition get_active_thread :: "uuid \<Rightarrow> analysis_thread option db" where
  "get_active_thread sid = getsM (newest_thread (active_thread_of sid))"

definition mark_idle :: "uuid \<Rightarrow> unit db" where
  "mark_idle i = modifyM (\<lambda>s. s\<lparr>threads := update_where (\<lambda>t. th_id t = i) (idle_thread (tx_now s)) (threads s)\<rparr>)"

definition close_thread :: "uuid \<Rightarrow> unit db" where
  "close_thread i = modifyM (\<lambda>s. s\<lparr>threads := update_where (\<lambda>t. th_id t = i)
     (\<lambda>t. t\<lparr>th_status := THREAD_STATUS_CLOSED, th_updated_at := tx_now s\<rparr>) (threads s)\<rparr>)"

definition get_thread :: "uuid \<Rightarrow> analysis_thread option db" where
  "get_thread i = getsM (\<lambda>s. find (\<lambda>t. th_id t = i) (threads s))"

definition required :: "string \<Rightarrow> uuid option \<Rightarrow> uuid db" where
  "required what i = (case i of None \<Rightarrow> throwM (ValueError [Lit (what @ '' requires thread_id'')]) | Some i \<Rightarrow> returnM i)"

definition apply_command :: "uuid \<Rightarrow> TransitionCommand \<Rightarrow> analysis_thread option \<Rightarrow> analysis_thread option db" where
  "apply_command sid c thread =
     (case tc_command_type c of
        C_CONTINUE \<Rightarrow> bindM (required ''CONTINUE'' (tc_thread_id c)) (\<lambda>i.
          bindM (get_thread i) (\<lambda>t.
          case t of
            None \<Rightarrow> throwM (StateMachineConcurrencyError [Lit ''Thread '', Uid i, Lit '' not found''])
          | Some t \<Rightarrow> returnM (Some t)))
      | C_MARK_IDLE \<Rightarrow> bindM (required ''MARK_IDLE'' (tc_thread_id c)) (\<lambda>i. thenM (mark_idle i) (returnM thread))
      | C_CLOSE_THREAD \<Rightarrow> bindM (required ''CLOSE_THREAD'' (tc_thread_id c)) (\<lambda>i. thenM (close_thread i) (returnM thread))
      | C_CREATE_NEW \<Rightarrow> bindM (create_thread sid) (\<lambda>t. returnM (Some t)))"

primrec apply_commands :: "uuid \<Rightarrow> TransitionCommand list \<Rightarrow> analysis_thread option \<Rightarrow> analysis_thread option db" where
  "apply_commands sid [] thread = returnM thread"
| "apply_commands sid (c # cs) thread = bindM (apply_command sid c thread) (apply_commands sid cs)"

definition apply_transition_tx :: "NormalizedTransition \<Rightarrow> uuid \<Rightarrow> analysis_thread db" where
  "apply_transition_tx transition sid =
     bindM (apply_commands sid (nt_commands transition) None) (\<lambda>thread.
     case thread of
       None \<Rightarrow> throwM (ValueError [Lit ''Transition did not resolve to a thread''])
     | Some t \<Rightarrow> returnM t)"

subsection \<open>Snapshots\<close>

definition build_session_snapshot :: "uuid \<Rightarrow> SessionSnapshot db" where
  "build_session_snapshot sid =
     bindM (getsM (\<lambda>s. find (\<lambda>r. ds_id r = sid) (sessions s))) (\<lambda>session.
     case session of
       None \<Rightarrow> throwM (ValueError [Lit ''Session '', Uid sid, Lit '' not found''])
     | Some r \<Rightarrow> returnM \<lparr>sn_session_id = ds_id r, sn_status = ds_status r,
         sn_last_activity_at = Some (ensure_utc (Naive (ds_last_activity_at r)))\<rparr>)"

definition thread_snapshot :: "analysis_thread option \<Rightarrow> ThreadSnapshot" where
  "thread_snapshot t =
     (case t of
        None \<Rightarrow> \<lparr>tn_thread_id = None, tn_status = None, tn_last_activity_at = None, tn_created_at = None\<rparr>
      | Some t \<Rightarrow> \<lparr>tn_thread_id = Some (th_id t), tn_status = Some (th_status t),
          tn_last_activity_at = map_option (\<lambda>a. ensure_utc (Naive a)) (th_last_activity_at t),
          tn_created_at = Some (ensure_utc (Naive (th_created_at t)))\<rparr>)"

definition build_thread_snapshot :: "uuid \<Rightarrow> ThreadSnapshot db" where
  "build_thread_snapshot sid = bindM (get_active_thread sid) (\<lambda>t. returnM (thread_snapshot t))"

subsection \<open>The bounded re-resolve\<close>

definition snapshot_decision :: "uuid \<Rightarrow> AnalysisModeRequest \<Rightarrow> pydatetime \<Rightarrow> DecisionDTO db" where
  "snapshot_decision sid mode now =
     bindM (build_session_snapshot sid) (\<lambda>ss.
     bindM (build_thread_snapshot sid) (\<lambda>ts.
     returnM (resolve_thread_decision ss ts mode now)))"

definition attempt_transition ::
  "uuid \<Rightarrow> DecisionDTO \<Rightarrow> (analysis_thread \<times> AnalysisModeDecision) db" where
  "attempt_transition sid d =
     bindM (atomically (apply_transition_tx (normalized_transition d) sid)) (\<lambda>t.
     returnM (t, decision_to_mode (dd_action d)))"

function resolve_loop ::
  "bool \<Rightarrow> uuid \<Rightarrow> AnalysisModeRequest \<Rightarrow> pydatetime \<Rightarrow> (analysis_thread \<times> AnalysisModeDecision) db" where
  "resolve_loop reresolve_used sid mode now =
     bindM (snapshot_decision sid mode now) (\<lambda>d.
     catchM (attempt_transition sid d) (\<lambda>e.
       case e of
         StateMachineConcurrencyError m \<Rightarrow> if reresolve_used then throwM e else resolve_loop True sid mode now
       | _ \<Rightarrow> throwM e))"
  by pat_completeness auto
termination
  by (relation "measure (\<lambda>(used, _). if used then 0 else 1)") auto

declare resolve_loop.simps [simp del]

definition resolve_thread_for_analysis ::
  "uuid \<Rightarrow> AnalysisModeRequest \<Rightarrow> pydatetime option \<Rightarrow> (analysis_thread \<times> AnalysisModeDecision) db" where
  "resolve_thread_for_analysis sid mode now =
     bindM (case now of Some t \<Rightarrow> returnM t | None \<Rightarrow> utc_now) (resolve_loop False sid mode)"

definition decide_analysis_mode :: "uuid \<Rightarrow> AnalysisModeDecision db" where
  "decide_analysis_mode sid =
     bindM (build_session_snapshot sid) (\<lambda>ss.
     bindM (build_thread_snapshot sid) (\<lambda>ts.
     bindM utc_now (\<lambda>now.
     returnM (decision_to_mode (dd_action (resolve_thread_decision ss ts M_auto now))))))"

definition resolve_analysis_mode :: "uuid \<Rightarrow> AnalysisModeRequest \<Rightarrow> AnalysisModeDecision db" where
  "resolve_analysis_mode sid requested =
     bindM (build_session_snapshot sid) (\<lambda>ss.
     bindM (build_thread_snapshot sid) (\<lambda>ts.
     bindM utc_now (\<lambda>now.
     returnM (decision_to_mode (dd_action (resolve_thread_decision ss ts requested now))))))"

definition prepare_thread_for_mode :: "uuid \<Rightarrow> AnalysisModeDecision \<Rightarrow> analysis_thread db" where
  "prepare_thread_for_mode sid mode =
     bindM (resolve_thread_for_analysis sid (case mode of Continue_thread \<Rightarrow> M_continue | New_thread \<Rightarrow> M_new) None)
       (\<lambda>(t, _). returnM t)"

definition resolve_thread_result ::
  "uuid \<Rightarrow> AnalysisModeRequest \<Rightarrow> pydatetime option \<Rightarrow> (uuid \<times> AnalysisModeDecision) db" where
  "resolve_thread_result sid mode now =
     bindM (resolve_thread_for_analysis sid mode now) (\<lambda>(t, m). returnM (th_id t, m))"

definition get_latest_analysis_for_session :: "uuid \<Rightarrow> session_analysis option db" where
  "get_latest_analysis_for_session sid = getsM (\<lambda>s.
     first_row (sort_key (\<lambda>a. (- sa_created_at a, - int (sa_id a))) (filter (\<lambda>a. sa_session_id a = sid) (analyses s))))"

subsection \<open>Executing a decision\<close>

definition conflict :: "uuid \<Rightarrow> world \<Rightarrow> bool" where
  "conflict sid s \<longleftrightarrow> (case rivals s 0 of Some r \<Rightarrow> active_thread_of sid r | None \<Rightarrow> False)"

text \<open>The state after a lost race, once the savepoint is rolled back.\<close>

definition lost_race :: "world \<Rightarrow> world" where
  "lost_race s = s\<lparr>threads := commit_rival (the (rivals s 0)) (threads s),
     uuids := \<lambda>n. uuids s (Suc n), rivals := \<lambda>n. rivals s (Suc n)\<rparr>"

definition with_new_thread :: "uuid \<Rightarrow> analysis_thread list \<Rightarrow> world \<Rightarrow> world" where
  "with_new_thread sid ts s = s\<lparr>
     threads := update_where (active_thread_of sid) (idle_thread (tx_now s)) ts @ [new_thread (uuids s 0) sid (tx_now s)],
     uuids := \<lambda>n. uuids s (Suc n), rivals := \<lambda>n. rivals s (Suc n)\<rparr>"

lemma new_thread_sel [simp]:
  "th_id (new_thread i sid t) = i" "th_session_id (new_thread i sid t) = sid"
  "active_thread_of v (new_thread i sid t) \<longleftrightarrow> v = sid" "th_status (new_thread i sid t) = THREAD_STATUS_ACTIVE"
  "th_created_at (new_thread i sid t) = t" "th_last_activity_at (new_thread i sid t) = None"
  by (auto simp: new_thread_def active_thread_of_def)

lemma create_thread_conflict:
  assumes "conflict sid s"
  shows "create_thread sid s =
    (Inl (StateMachineConcurrencyError [Lit ''Failed to create active thread due to concurrent update'']),
     s\<lparr>threads := update_where (active_thread_of sid) (idle_thread (tx_now s)) (threads s),
       uuids := \<lambda>n. uuids s (Suc n), rivals := \<lambda>n. rivals s (Suc n),
       rivals_pending := rivals_pending s @ [the (rivals s 0)]\<rparr>)"
  using assms by (auto simp: create_thread_def run flush_thread_def conflict_def Let_def split: option.splits)

lemma create_thread_free:
  assumes "\<not> conflict sid s"
  shows "create_thread sid s = (Inr (new_thread (uuids s 0) sid (tx_now s)), with_new_thread sid (threads s) s)"
  using assms by (auto simp: create_thread_def run flush_thread_def conflict_def with_new_thread_def Let_def
      split: option.splits)

text \<open>What the commands before \<open>CREATE_NEW\<close> do to the threads.\<close>

fun retire :: "DecisionAction \<Rightarrow> uuid option \<Rightarrow> time \<Rightarrow> analysis_thread list \<Rightarrow> analysis_thread list" where
  "retire A_MARK_IDLE (Some i) now ts = update_where (\<lambda>t. th_id t = i) (idle_thread now) ts"
| "retire A_CLOSE_AND_CREATE_NEW (Some i) now ts =
     update_where (\<lambda>t. th_id t = i) (\<lambda>t. t\<lparr>th_status := THREAD_STATUS_CLOSED, th_updated_at := now\<rparr>) ts"
| "retire a i now ts = ts"

definition executable :: "DecisionDTO \<Rightarrow> bool" where
  "executable d \<longleftrightarrow> (dd_action d \<in> {A_MARK_IDLE, A_CLOSE_AND_CREATE_NEW} \<longrightarrow> dd_target_thread_id d \<noteq> None)"

lemma conflict_env [simp]: "conflict sid (s\<lparr>threads := ts\<rparr>) = conflict sid s"
  by (simp add: conflict_def)

lemma apply_creating:
  assumes "dd_action d \<noteq> A_CONTINUE" and "executable d"
  shows "apply_transition_tx (normalized_transition d) sid s =
    create_thread sid (s\<lparr>threads := retire (dd_action d) (dd_target_thread_id d) (tx_now s) (threads s)\<rparr>)"
  using assms
  by (cases "dd_action d"; cases "dd_target_thread_id d")
    (auto simp: apply_transition_tx_def normalized_transition_def apply_command_def required_def run mark_idle_def
      close_thread_def executable_def split: prod.split sum.split)

lemma rollback_lost_race:
  assumes "rivals_pending s = []"
  shows "rollback_to s (s\<lparr>threads := ts, uuids := \<lambda>n. uuids s (Suc n), rivals := \<lambda>n. rivals s (Suc n),
     rivals_pending := [the (rivals s 0)]\<rparr>) = lost_race s"
  by (rule world.equality) (simp_all add: rollback_to_def lost_race_def assms)

lemma attempt_conflict:
  assumes "dd_action d \<noteq> A_CONTINUE" and "executable d" and "conflict sid s" and "rivals_pending s = []"
  shows "attempt_transition sid d s =
    (Inl (StateMachineConcurrencyError [Lit ''Failed to create active thread due to concurrent update'']), lost_race s)"
  using rollback_lost_race [OF assms(4)]
  by (simp add: attempt_transition_def run atomically_def apply_creating [OF assms(1, 2)]
      create_thread_conflict assms(3, 4))

lemma attempt_free:
  assumes "dd_action d \<noteq> A_CONTINUE" and "executable d" and "\<not> conflict sid s"
  shows "attempt_transition sid d s = (Inr (new_thread (uuids s 0) sid (tx_now s), New_thread),
    with_new_thread sid (retire (dd_action d) (dd_target_thread_id d) (tx_now s) (threads s)) s)"
  by (simp add: attempt_transition_def run atomically_def apply_creating [OF assms(1, 2)]
      create_thread_free assms(3) with_new_thread_def decision_to_mode_def assms(1))

lemma attempt_continue:
  assumes "dd_action d = A_CONTINUE" and "dd_target_thread_id d = Some i" and "find (\<lambda>t. th_id t = i) (threads s) = Some t"
  shows "attempt_transition sid d s = (Inr (t, Continue_thread), s)"
  using assms by (simp add: attempt_transition_def run atomically_def apply_transition_tx_def normalized_transition_def
      apply_command_def required_def get_thread_def decision_to_mode_def)

subsection \<open>The invariant: one active thread per session\<close>

definition one_active_thread :: "analysis_thread list \<Rightarrow> bool" where
  "one_active_thread ts \<longleftrightarrow> (\<forall>sid. length (filter (active_thread_of sid) ts) \<le> 1)"

definition rival_ids :: "world \<Rightarrow> uuid set" where
  "rival_ids s = {th_id r | r. \<exists>n. rivals s n = Some r}"

text \<open>
  \<open>threads_ok\<close> adds that identifiers are unique: those stored, those our own draws will produce, and
  those of the rivals still to come.
\<close>

definition threads_ok :: "world \<Rightarrow> bool" where
  "threads_ok s \<longleftrightarrow> one_active_thread (threads s) \<and> rivals_pending s = [] \<and> distinct (map th_id (threads s))
     \<and> supplies s (th_id ` set (threads s) \<union> rival_ids s) \<and> rival_ids s \<inter> th_id ` set (threads s) = {}
     \<and> (\<forall>m n r r'. rivals s m = Some r \<longrightarrow> rivals s n = Some r' \<longrightarrow> th_id r = th_id r' \<longrightarrow> m = n)"

lemma active_thread_of_idle [simp]: "\<not> active_thread_of sid (idle_thread now t)"
  "\<not> active_thread_of sid (t\<lparr>th_status := THREAD_STATUS_IDLE\<rparr>)"
  "\<not> active_thread_of sid (t\<lparr>th_status := THREAD_STATUS_CLOSED, th_updated_at := now\<rparr>)"
  by (simp_all add: active_thread_of_def idle_thread_def)

lemma idle_thread_sel [simp]: "th_id (idle_thread now t) = th_id t" "th_session_id (idle_thread now t) = th_session_id t"
  by (simp_all add: idle_thread_def)

lemma filter_active_update:
  "(\<And>t. \<not> active_thread_of sid (f t)) \<Longrightarrow>
   filter (active_thread_of sid) (update_where P f ts) = filter (active_thread_of sid) (filter (\<lambda>t. \<not> P t) ts)"
  by (induction ts) auto

lemma one_active_update:
  "one_active_thread ts \<Longrightarrow> (\<And>sid t. \<not> active_thread_of sid (f t)) \<Longrightarrow> one_active_thread (update_where P f ts)"
  unfolding one_active_thread_def
  by (auto simp: filter_active_update intro: le_trans [OF length_filter_conj_le])

lemma one_active_append:
  assumes "one_active_thread ts" and "\<And>t sid. \<not> active_thread_of sid (f t)" and "th_session_id r = sid"
  shows "one_active_thread (update_where (active_thread_of sid) f ts @ [r])"
  unfolding one_active_thread_def
proof
  fix v
  show "length (filter (active_thread_of v) (update_where (active_thread_of sid) f ts @ [r])) \<le> 1"
  proof (cases "v = sid")
    case True
    have "filter (active_thread_of v) (update_where (active_thread_of sid) f ts) = []"
      using True by (simp add: filter_active_update [OF assms(2)])
    then show ?thesis by simp
  next
    case False
    then have "\<not> active_thread_of v r" using assms(3) by (auto simp: active_thread_of_def)
    moreover have "length (filter (active_thread_of v) (update_where (active_thread_of sid) f ts)) \<le> 1"
      using one_active_update [OF assms(1, 2)] by (simp add: one_active_thread_def)
    ultimately show ?thesis by simp
  qed
qed

lemma commit_rival_alt:
  "commit_rival r ts = update_where (active_thread_of (th_session_id r)) (\<lambda>t. t\<lparr>th_status := THREAD_STATUS_IDLE\<rparr>) ts @ [r]"
  unfolding commit_rival_def by (rule arg_cong [where f = "\<lambda>xs. xs @ [r]"]) (simp add: active_thread_of_def update_where_def)

lemma one_active_rival: "one_active_thread ts \<Longrightarrow> one_active_thread (commit_rival r ts)"
  by (simp add: commit_rival_alt one_active_append)

lemma ids_commit_rival [simp]: "map th_id (commit_rival r ts) = map th_id ts @ [th_id r]"
  by (simp add: commit_rival_alt map_update_where)

lemma one_active_retire: "one_active_thread ts \<Longrightarrow> one_active_thread (retire a i now ts)"
  by (cases "(a, i, now, ts)" rule: retire.cases) (simp_all add: one_active_update)

lemma ids_retire [simp]: "map th_id (retire a i now ts) = map th_id ts"
  by (cases "(a, i, now, ts)" rule: retire.cases) (simp_all add: map_update_where)

lemma ids_set: "map th_id ts = map th_id ts' \<Longrightarrow> th_id ` set ts = th_id ` set ts'"
  by (metis set_map)

lemma rival_ids_shift: "rival_ids (s\<lparr>rivals := \<lambda>n. rivals s (Suc n)\<rparr>) \<subseteq> rival_ids s"
  by (auto simp: rival_ids_def)

text \<open>One more thread, with a new identifier, after a draw and a flush.\<close>

lemma threads_ok_extend:
  assumes ok: "threads_ok s" and ids: "map th_id ts = map th_id (threads s) @ [i]" and one: "one_active_thread ts"
    and i: "i = uuids s 0 \<or> (\<exists>r. rivals s 0 = Some r \<and> i = th_id r)"
  shows "threads_ok (s\<lparr>threads := ts, uuids := \<lambda>n. uuids s (Suc n), rivals := \<lambda>n. rivals s (Suc n)\<rparr>)" (is "threads_ok ?t")
proof -
  let ?I = "th_id ` set (threads s)"
  have set_ids: "th_id ` set ts = insert i ?I" using arg_cong [OF ids, of set] by auto
  have sup: "supplies s (?I \<union> rival_ids s)" and dis: "rival_ids s \<inter> ?I = {}" and d: "distinct (map th_id (threads s))"
    and inj: "\<And>m n r r'. rivals s m = Some r \<Longrightarrow> rivals s n = Some r' \<Longrightarrow> th_id r = th_id r' \<Longrightarrow> m = n"
    using ok unfolding threads_ok_def by blast+
  have r: "rival_ids ?t \<subseteq> rival_ids s" by (auto simp: rival_ids_def)
  have u: "uuids s 0 \<notin> ?I \<union> rival_ids s"
    "supplies (s\<lparr>uuids := \<lambda>n. uuids s (Suc n)\<rparr>) (insert (uuids s 0) (?I \<union> rival_ids s))"
    using supplies_draw [OF sup] by auto
  have i_new: "i \<notin> ?I" using i
  proof (elim disjE exE conjE)
    fix r assume r: "rivals s 0 = Some r" "i = th_id r"
    then have "i \<in> rival_ids s" unfolding rival_ids_def by blast
    then show ?thesis using dis by blast
  qed (use u(1) in simp)
  have i_in: "i \<in> insert (uuids s 0) (rival_ids s)" using i by (auto simp: rival_ids_def)
  have i_rest: "i \<notin> rival_ids ?t"
  proof
    assume "i \<in> rival_ids ?t"
    then obtain n x where x: "rivals s (Suc n) = Some x" "i = th_id x" by (auto simp: rival_ids_def)
    then have "i \<in> rival_ids s" unfolding rival_ids_def by blast
    then obtain r where "rivals s 0 = Some r" "i = th_id r" using i u(1) by auto
    then have "0 = Suc n" using inj x by blast
    then show False by simp
  qed
  have "supplies ?t (th_id ` set ts \<union> rival_ids ?t)"
    using u(2) i_in r unfolding supplies_def set_ids by auto
  moreover have "rival_ids ?t \<inter> th_id ` set ts = {}"
    using dis r i_rest unfolding set_ids by blast
  moreover have "distinct (map th_id ts)"
    using d i_new by (simp add: ids)
  moreover have "\<forall>m n x x'. rivals ?t m = Some x \<longrightarrow> rivals ?t n = Some x' \<longrightarrow> th_id x = th_id x' \<longrightarrow> m = n"
    using inj by fastforce
  moreover have "rivals_pending ?t = []" using ok by (simp add: threads_ok_def)
  ultimately show ?thesis using one unfolding threads_ok_def by simp
qed

lemma threads_ok_lost_race: "threads_ok s \<Longrightarrow> conflict sid s \<Longrightarrow> threads_ok (lost_race s)"
  unfolding lost_race_def
  by (rule threads_ok_extend [where i = "th_id (the (rivals s 0))"])
    (auto simp: threads_ok_def conflict_def one_active_rival split: option.splits)

lemma threads_ok_new: "threads_ok s \<Longrightarrow> threads_ok (with_new_thread sid (retire a i now (threads s)) s)"
  unfolding with_new_thread_def
  by (rule threads_ok_extend [where i = "uuids s 0"])
    (simp_all add: map_update_where threads_ok_def one_active_append one_active_retire)

subsection \<open>One attempt, and the loop\<close>

definition session_snapshot :: "dream_session \<Rightarrow> SessionSnapshot" where
  "session_snapshot r = \<lparr>sn_session_id = ds_id r, sn_status = ds_status r,
     sn_last_activity_at = Some (ensure_utc (Naive (ds_last_activity_at r)))\<rparr>"

definition decision_at :: "dream_session \<Rightarrow> AnalysisModeRequest \<Rightarrow> pydatetime \<Rightarrow> world \<Rightarrow> DecisionDTO" where
  "decision_at r mode now s = resolve_thread_decision (session_snapshot r)
     (thread_snapshot (newest_thread (active_thread_of (ds_id r)) s)) mode now"

lemma snapshot_decision_run:
  assumes "find (\<lambda>r. ds_id r = sid) (sessions s) = Some r"
  shows "snapshot_decision sid mode now s = (Inr (decision_at r mode now s), s)"
proof -
  have "ds_id r = sid" using find_SomeD [OF assms] by simp
  then show ?thesis
    by (simp add: snapshot_decision_def build_session_snapshot_def build_thread_snapshot_def get_active_thread_def
        run assms decision_at_def session_snapshot_def)
qed

lemma newest_thread_SomeD:
  "newest_thread P s = Some t \<Longrightarrow> t \<in> set (threads s) \<and> P t"
  by (auto simp: newest_thread_def dest: first_row_Some)

lemma newest_thread_None: "newest_thread P s = None \<longleftrightarrow> (\<forall>t \<in> set (threads s). \<not> P t)"
  unfolding newest_thread_def first_row_None
  by (metis (no_types, lifting) filter_empty_conv set_empty set_sort)

lemma threads_ok_find: "threads_ok s \<Longrightarrow> t \<in> set (threads s) \<Longrightarrow> find (\<lambda>x. th_id x = th_id t) (threads s) = Some t"
  by (simp add: threads_ok_def find_distinct_key)

lemma thread_snapshot_sel [simp]:
  "tn_thread_id (thread_snapshot x) = map_option th_id x" "tn_status (thread_snapshot x) = map_option th_status x"
  by (cases x; simp add: thread_snapshot_def)+

lemma decision_target: "dd_target_thread_id (decision_at r mode now s) = map_option th_id (newest_thread (active_thread_of (ds_id r)) s)"
  by (simp add: decision_at_def resolve_thread_decision_def Let_def)

lemma decision_continue_thread:
  "dd_action (decision_at r mode now s) = A_CONTINUE \<Longrightarrow> \<exists>t. newest_thread (active_thread_of (ds_id r)) s = Some t"
  by (auto simp: decision_at_def resolve_thread_decision_def Let_def split: if_splits)

lemma decision_executable:
  "ds_status r = SESSION_ACTIVE \<or> newest_thread (active_thread_of (ds_id r)) s \<noteq> None \<Longrightarrow> executable (decision_at r mode now s)"
  by (auto simp: executable_def decision_at_def resolve_thread_decision_def Let_def is_session_closed_def
      session_snapshot_def SESSION_ACTIVE_def)

lemma attempt_cases:
  assumes ok: "threads_ok s" and ex: "executable (decision_at r mode now s)" and sid: "ds_id r = sid"
  obtains (continued) t where "dd_action (decision_at r mode now s) = A_CONTINUE"
      "newest_thread (active_thread_of sid) s = Some t" "t \<in> set (threads s)" "active_thread_of sid t"
      "attempt_transition sid (decision_at r mode now s) s = (Inr (t, Continue_thread), s)"
    | (created) t s' where "dd_action (decision_at r mode now s) \<noteq> A_CONTINUE" "\<not> conflict sid s"
      "t = new_thread (uuids s 0) sid (tx_now s)" "t \<in> set (threads s')" "threads_ok s'"
      "s' = with_new_thread sid (retire (dd_action (decision_at r mode now s)) (dd_target_thread_id (decision_at r mode now s)) (tx_now s) (threads s)) s"
      "attempt_transition sid (decision_at r mode now s) s = (Inr (t, New_thread), s')"
    | (lost) "dd_action (decision_at r mode now s) \<noteq> A_CONTINUE" "conflict sid s" "threads_ok (lost_race s)"
      "attempt_transition sid (decision_at r mode now s) s =
        (Inl (StateMachineConcurrencyError [Lit ''Failed to create active thread due to concurrent update'']), lost_race s)"
proof -
  let ?d = "decision_at r mode now s"
  show thesis
  proof (cases "dd_action ?d = A_CONTINUE")
    case True
    then obtain t where t: "newest_thread (active_thread_of sid) s = Some t"
      using decision_continue_thread sid by blast
    then have in_s: "t \<in> set (threads s)" "active_thread_of sid t" using newest_thread_SomeD by blast+
    moreover have "attempt_transition sid ?d s = (Inr (t, Continue_thread), s)"
      by (rule attempt_continue [OF True _ threads_ok_find [OF ok in_s(1)]]) (simp add: decision_target sid t)
    ultimately show thesis using continued True t by blast
  next
    case False
    show thesis
    proof (cases "conflict sid s")
      case True
      then show thesis
        using lost [OF False True threads_ok_lost_race [OF ok True]] attempt_conflict [OF False ex True] ok
        by (simp add: threads_ok_def)
    next
      case free: False
      show thesis
        by (rule created [OF False free refl _ threads_ok_new [OF ok] refl attempt_free [OF False ex free]])
          (simp add: with_new_thread_def)
    qed
  qed
qed

lemma sessions_lost_race [simp]: "sessions (lost_race s) = sessions s" and tx_now_lost_race [simp]: "tx_now (lost_race s) = tx_now s"
  by (simp_all add: lost_race_def)

lemma lost_race_has_thread:
  assumes "threads_ok s" and "conflict sid s"
  shows "\<exists>r. rivals s 0 = Some r \<and> newest_thread (active_thread_of sid) (lost_race s) = Some r"
proof -
  obtain r where r: "rivals s 0 = Some r" "active_thread_of sid r"
    using assms(2) by (auto simp: conflict_def split: option.splits)
  have "filter (active_thread_of sid) (threads (lost_race s)) = [r]"
    using r by (simp add: lost_race_def commit_rival_alt filter_active_update active_thread_of_def)
  then show ?thesis using r by (simp add: newest_thread_def)
qed

lemma resolve_loop_run:
  assumes "find (\<lambda>r. ds_id r = sid) (sessions s) = Some r"
  shows "resolve_loop used sid mode now s =
    (case attempt_transition sid (decision_at r mode now s) s of
       (Inr y, s') \<Rightarrow> (Inr y, s')
     | (Inl e, s') \<Rightarrow>
         (case e of
            StateMachineConcurrencyError m \<Rightarrow> if used then (Inl e, s') else resolve_loop True sid mode now s'
          | _ \<Rightarrow> (Inl e, s')))"
  by (subst resolve_loop.simps)
    (simp add: run snapshot_decision_run [OF assms] split: prod.split sum.split exn.split)

lemma active_unique:
  "threads_ok s \<Longrightarrow> t \<in> set (threads s) \<Longrightarrow> active_thread_of sid t \<Longrightarrow> filter (active_thread_of sid) (threads s) = [t]"
  by (rule filter_singletonD) (simp_all add: threads_ok_def one_active_thread_def)

definition resolved :: "uuid \<Rightarrow> world \<Rightarrow> exn + analysis_thread \<times> AnalysisModeDecision \<Rightarrow> world \<Rightarrow> bool" where
  "resolved sid s res s' \<longleftrightarrow> threads_ok s' \<and>
     (case res of
        Inr (t, m) \<Rightarrow> filter (active_thread_of sid) (threads s') = [t]
      | Inl e \<Rightarrow> conflict sid s \<and> conflict sid (lost_race s) \<and> (\<exists>m. e = StateMachineConcurrencyError m))"

lemma resolve_loop_resolved:
  assumes ok: "threads_ok s" and f: "find (\<lambda>r. ds_id r = sid) (sessions s) = Some r"
    and ex: "ds_status r = SESSION_ACTIVE \<or> newest_thread (active_thread_of sid) s \<noteq> None"
    and run: "resolve_loop False sid mode now s = (res, s')"
  shows "resolved sid s res s'"
proof -
  have sid: "ds_id r = sid" using find_SomeD [OF f] by simp
  have e1: "executable (decision_at r mode now s)" using ex sid by (simp add: decision_executable)
  from ok e1 sid show ?thesis
  proof (cases rule: attempt_cases)
    case (continued t)
    then show ?thesis using run ok by (auto simp: resolve_loop_run [OF f] resolved_def active_unique)
  next
    case (created t u)
    then have "active_thread_of sid t" by simp
    then show ?thesis using run created by (auto simp: resolve_loop_run [OF f] resolved_def active_unique)
  next
    case lost
    let ?u = "lost_race s"
    have fu: "find (\<lambda>r. ds_id r = sid) (sessions ?u) = Some r" by (simp add: f)
    have "executable (decision_at r mode now ?u)"
      using lost_race_has_thread [OF ok lost(2)] sid by (auto intro!: decision_executable)
    from lost(3) this sid show ?thesis
    proof (cases rule: attempt_cases)
      case (continued t)
      then show ?thesis using run lost
        by (auto simp: resolve_loop_run [OF f] resolve_loop_run [OF fu] resolved_def active_unique)
    next
      case (created t u)
      then have "active_thread_of sid t" by simp
      then show ?thesis using run created lost
        by (auto simp: resolve_loop_run [OF f] resolve_loop_run [OF fu] resolved_def active_unique)
    next
      case lost2: lost
      then show ?thesis using run lost
        by (auto simp: resolve_loop_run [OF f] resolve_loop_run [OF fu] resolved_def)
    qed
  qed
qed

lemma threads_ok_clock [simp]:
  "threads_ok (s\<lparr>clock := c\<rparr>) = threads_ok s" "conflict sid (s\<lparr>clock := c\<rparr>) = conflict sid s"
  "lost_race (s\<lparr>clock := c\<rparr>) = (lost_race s)\<lparr>clock := c\<rparr>"
  "newest_thread P (s\<lparr>clock := c\<rparr>) = newest_thread P s"
  by (simp_all add: threads_ok_def conflict_def lost_race_def supplies_def rival_ids_def newest_thread_def)


text \<open>The loser of the race joins the winner: if another request committed a thread first and that
  thread is fresh, the re-resolve continues it instead of opening a second one, unless a new thread
  was asked for.\<close>

theorem race_loser_joins_winner:
  assumes "threads_ok s" and "find (\<lambda>r. ds_id r = sid) (sessions s) = Some r" and "ds_status r = SESSION_ACTIVE"
    and "rivals s 0 = Some w" and "active_thread_of sid w" and "mode \<noteq> M_new"
    and "dd_action (decision_at r mode now s) \<noteq> A_CONTINUE"
    and "drop_tzinfo (ensure_utc now) \<le>
      (case th_last_activity_at w of Some t \<Rightarrow> t | None \<Rightarrow> th_created_at w) + INACTIVITY_THRESHOLD"
  shows "resolve_thread_for_analysis sid mode (Some now) s = (Inr (w, Continue_thread), lost_race s)"
proof -
  have sid: "ds_id r = sid" using find_SomeD [OF assms(2)] by simp
  have c: "conflict sid s" using assms(4, 5) by (simp add: conflict_def)
  let ?u = "lost_race s"
  have ok: "threads_ok ?u" by (rule threads_ok_lost_race [OF assms(1) c])
  have fu: "find (\<lambda>r. ds_id r = sid) (sessions ?u) = Some r" by (simp add: assms(2))
  have new: "newest_thread (active_thread_of sid) ?u = Some w"
    using lost_race_has_thread [OF assms(1) c] assms(4) by auto
  have a1: "attempt_transition sid (decision_at r mode now s) s =
      (Inl (StateMachineConcurrencyError [Lit ''Failed to create active thread due to concurrent update'']), ?u)"
    using assms(1, 3, 7) sid by (intro attempt_conflict c decision_executable) (simp_all add: threads_ok_def)
  have "dd_action (decision_at r mode now ?u) = A_CONTINUE"
    using assms(3, 5, 6, 8) sid new
    by (cases "th_last_activity_at w") (auto simp: decision_at_def resolve_thread_decision_def Let_def is_session_closed_def
        session_snapshot_def SESSION_ACTIVE_def is_thread_closed_def is_thread_idle_def is_thread_fresh_def
        thread_activity_at_def thread_snapshot_def active_thread_of_def thread_status_defs)
  then have a2: "attempt_transition sid (decision_at r mode now ?u) ?u = (Inr (w, Continue_thread), ?u)"
    using newest_thread_SomeD [OF new]
    by (intro attempt_continue [OF _ _ threads_ok_find [OF ok]]) (simp_all add: decision_target sid new)
  show ?thesis
    by (simp add: resolve_thread_for_analysis_def run resolve_loop_run [OF assms(2)] a1 resolve_loop_run [OF fu] a2)
qed

text \<open>A closed session that has no active thread: the mode is announced as a new thread, but
  resolving it raises, since the command that closes the missing thread comes first. Such a session
  cannot be analysed any more.\<close>

theorem closed_session_without_thread_raises:
  assumes "find (\<lambda>r. ds_id r = sid) (sessions s) = Some r" and "ds_status r \<noteq> SESSION_ACTIVE"
    and "filter (active_thread_of sid) (threads s) = []" and "rivals_pending s = []"
  shows "resolve_analysis_mode sid mode s = (Inr New_thread, s\<lparr>clock := \<lambda>n. clock s (Suc n)\<rparr>)
    \<and> resolve_thread_for_analysis sid mode (Some now) s = (Inl (ValueError [Lit ''CLOSE_THREAD requires thread_id'']), s)"
proof -
  have sid: "ds_id r = sid" using find_SomeD [OF assms(1)] by simp
  have none: "newest_thread (active_thread_of sid) s = None" by (simp add: newest_thread_def assms(3))
  have d: "resolve_thread_decision (session_snapshot r) (thread_snapshot None) m t = the_decision A_CLOSE_AND_CREATE_NEW None ''session_closed''"
    for m t
    using assms(2) by (simp add: resolve_thread_decision_def Let_def is_session_closed_def session_snapshot_def
        SESSION_ACTIVE_def thread_snapshot_def)
  have "rollback_to s s = s" by (rule world.equality) (simp_all add: rollback_to_def assms(4))
  then have "attempt_transition sid (decision_at r mode now s) s = (Inl (ValueError [Lit ''CLOSE_THREAD requires thread_id'']), s)"
    by (simp add: decision_at_def sid none d attempt_transition_def run atomically_def apply_transition_tx_def
        normalized_transition_def apply_command_def required_def)
  then show ?thesis
    by (simp add: resolve_thread_for_analysis_def resolve_analysis_mode_def run resolve_loop_run [OF assms(1)]
        build_session_snapshot_def assms(1) sid build_thread_snapshot_def get_active_thread_def none
        d [unfolded session_snapshot_def sid] decision_to_mode_def)
qed

subsection \<open>Persisting analyses\<close>

record SessionAnalysisPrepareResult =
  pr_thread :: analysis_thread
  pr_session_id :: uuid
  pr_user_id :: int
  pr_provider :: ustr
  pr_model :: ustr
  pr_prompt_version :: string
  pr_analysis_version :: string
  pr_analysis_json :: json
  pr_raw_response :: "ustr option"

definition next_continuation_index :: "uuid \<Rightarrow> nat db" where
  "next_continuation_index tid = getsM (\<lambda>s. length (filter (\<lambda>a. sa_thread_id a = tid) (analyses s)))"

definition clear_latest_for_thread :: "uuid \<Rightarrow> unit db" where
  "clear_latest_for_thread tid = modifyM (\<lambda>s. s\<lparr>analyses :=
     update_where (\<lambda>a. sa_thread_id a = tid \<and> sa_is_latest a) (\<lambda>a. a\<lparr>sa_is_latest := False\<rparr>) (analyses s)\<rparr>)"

text \<open>The row gets its \<open>created_at\<close> from the server when it is inserted, in the same transaction.\<close>

definition build_session_analysis_row :: "SessionAnalysisPrepareResult \<Rightarrow> session_analysis db" where
  "build_session_analysis_row p =
     bindM (next_continuation_index (th_id (pr_thread p))) (\<lambda>idx.
     bindM uuid4 (\<lambda>i.
     bindM (getsM tx_now) (\<lambda>now.
     returnM \<lparr>sa_id = i, sa_session_id = pr_session_id p, sa_thread_id = th_id (pr_thread p),
       sa_user_id = pr_user_id p, sa_provider = pr_provider p, sa_model = pr_model p,
       sa_prompt_version = pr_prompt_version p, sa_analysis_version = pr_analysis_version p,
       sa_analysis_json = pr_analysis_json p, sa_raw_response = pr_raw_response p, sa_is_latest = True,
       sa_continuation_index = idx, sa_analysis_job_id = None, sa_created_at = now\<rparr>)))"

definition with_job_id :: "uuid \<Rightarrow> session_analysis \<Rightarrow> exn + session_analysis" where
  "with_job_id job a =
     (case sa_analysis_job_id a of
        None \<Rightarrow> Inr (a\<lparr>sa_analysis_job_id := Some job\<rparr>)
      | Some j \<Rightarrow>
          if j \<noteq> job
          then Inl (ValueError [Lit ''analysis_job_id already bound to '', Uid j, Lit '', cannot bind to '', Uid job])
          else Inr a)"

definition touch_thread :: "uuid \<Rightarrow> uuid \<Rightarrow> time \<Rightarrow> unit db" where
  "touch_thread tid aid t = modifyM (\<lambda>s. s\<lparr>threads := update_where (\<lambda>x. th_id x = tid)
     (\<lambda>x. x\<lparr>th_last_analysis_id := Some aid, th_last_activity_at := Some t, th_updated_at := tx_now s\<rparr>) (threads s)\<rparr>)"

definition persist_session_analysis_in_thread :: "analysis_thread \<Rightarrow> session_analysis \<Rightarrow> session_analysis db" where
  "persist_session_analysis_in_thread thread a =
     (if sa_thread_id a \<noteq> th_id thread
      then throwM (ValueError [Lit ''assembled analysis thread_id does not match target thread''])
      else if sa_session_id a \<noteq> th_session_id thread
      then throwM (ValueError [Lit ''assembled analysis session_id does not match target thread session''])
      else
        thenM (clear_latest_for_thread (th_id thread)) (
        thenM (modifyM (\<lambda>s. s\<lparr>analyses := analyses s @ [a]\<rparr>)) (
        bindM utc_now (\<lambda>now.
        thenM (touch_thread (th_id thread) (sa_id a) (drop_tzinfo now)) (returnM a)))))"

definition save_analysis_in_thread :: "SessionAnalysisPrepareResult \<Rightarrow> session_analysis db" where
  "save_analysis_in_thread p =
     bindM (build_session_analysis_row p) (persist_session_analysis_in_thread (pr_thread p))"

definition attach_analysis :: "uuid \<Rightarrow> uuid \<Rightarrow> session_analysis db" where
  "attach_analysis tid aid =
     bindM (getsM (\<lambda>s. find (\<lambda>a. sa_id a = aid) (analyses s))) (\<lambda>analysis.
     case analysis of
       None \<Rightarrow> throwM (ValueError [Lit ''Analysis '', Uid aid, Lit '' not found''])
     | Some a0 \<Rightarrow>
       bindM (get_thread tid) (\<lambda>thread.
       case thread of
         None \<Rightarrow> throwM (ValueError [Lit ''Thread '', Uid tid, Lit '' not found''])
       | Some t \<Rightarrow>
         thenM (clear_latest_for_thread tid) (
         bindM (if sa_continuation_index a0 = 0 \<and> sa_thread_id a0 \<noteq> tid
                then next_continuation_index tid else returnM (sa_continuation_index a0)) (\<lambda>idx.
         let a = a0\<lparr>sa_continuation_index := idx, sa_thread_id := tid, sa_is_latest := True\<rparr> in
         thenM (modifyM (\<lambda>s. s\<lparr>analyses := update_where (\<lambda>x. sa_id x = aid) (\<lambda>_. a) (analyses s)\<rparr>)) (
         bindM utc_now (\<lambda>now.
         thenM (touch_thread tid aid (drop_tzinfo now)) (returnM a)))))))"

definition of_thread :: "uuid \<Rightarrow> session_analysis \<Rightarrow> bool" where
  "of_thread tid a \<longleftrightarrow> sa_thread_id a = tid"

definition latest_of :: "uuid \<Rightarrow> session_analysis \<Rightarrow> bool" where
  "latest_of tid a \<longleftrightarrow> sa_thread_id a = tid \<and> sa_is_latest a"

definition unlatest :: "uuid \<Rightarrow> session_analysis list \<Rightarrow> session_analysis list" where
  "unlatest tid = update_where (latest_of tid) (\<lambda>a. a\<lparr>sa_is_latest := False\<rparr>)"

definition analyses_ok :: "world \<Rightarrow> bool" where
  "analyses_ok s \<longleftrightarrow> (\<forall>tid. length (filter (latest_of tid) (analyses s)) \<le> 1
     \<and> map sa_continuation_index (filter (of_thread tid) (analyses s)) = [0..<length (filter (of_thread tid) (analyses s))])"

lemma filter_latest_unlatest [simp]: "filter (latest_of tid) (unlatest tid xs) = []"
  by (induction xs) (auto simp: unlatest_def latest_of_def)

lemma filter_latest_unlatest_other: "v \<noteq> tid \<Longrightarrow> filter (latest_of v) (unlatest tid xs) = filter (latest_of v) xs"
  unfolding unlatest_def by (rule filter_update_where_other) (auto simp: latest_of_def)

lemma filter_of_thread_unlatest: "filter (of_thread v) (unlatest tid xs) = unlatest tid (filter (of_thread v) xs)"
  by (induction xs) (auto simp: unlatest_def of_thread_def latest_of_def)

lemma index_unlatest [simp]: "map sa_continuation_index (unlatest tid xs) = map sa_continuation_index xs"
  by (simp add: unlatest_def map_update_where)

lemma length_unlatest [simp]: "length (unlatest tid xs) = length xs"
  by (simp add: unlatest_def)

lemma unlatest_other: "v \<noteq> tid \<Longrightarrow> unlatest tid (filter (of_thread v) xs) = filter (of_thread v) xs"
  unfolding unlatest_def by (rule update_where_id) (auto simp: latest_of_def of_thread_def)

definition built_row :: "SessionAnalysisPrepareResult \<Rightarrow> nat \<Rightarrow> uuid \<Rightarrow> time \<Rightarrow> session_analysis" where
  "built_row p idx i now = \<lparr>sa_id = i, sa_session_id = pr_session_id p, sa_thread_id = th_id (pr_thread p),
       sa_user_id = pr_user_id p, sa_provider = pr_provider p, sa_model = pr_model p,
       sa_prompt_version = pr_prompt_version p, sa_analysis_version = pr_analysis_version p,
       sa_analysis_json = pr_analysis_json p, sa_raw_response = pr_raw_response p, sa_is_latest = True,
       sa_continuation_index = idx, sa_analysis_job_id = None, sa_created_at = now\<rparr>"

lemma built_row_sel [simp]:
  "sa_thread_id (built_row p idx i now) = th_id (pr_thread p)" "sa_is_latest (built_row p idx i now)"
  "sa_continuation_index (built_row p idx i now) = idx" "sa_session_id (built_row p idx i now) = pr_session_id p"
  "sa_id (built_row p idx i now) = i" "sa_analysis_job_id (built_row p idx i now) = None"
  by (simp_all add: built_row_def)

lemma build_row_run:
  "build_session_analysis_row p s =
    (Inr (built_row p (length (filter (of_thread (th_id (pr_thread p))) (analyses s))) (uuids s 0) (tx_now s)),
     s\<lparr>uuids := \<lambda>n. uuids s (Suc n)\<rparr>)"
  by (simp add: build_session_analysis_row_def next_continuation_index_def run built_row_def of_thread_def [abs_def])

lemma persist_run:
  assumes "sa_thread_id a = th_id thread" and "sa_session_id a = th_session_id thread"
  shows "\<exists>s'. persist_session_analysis_in_thread thread a s = (Inr a, s')
    \<and> analyses s' = unlatest (th_id thread) (analyses s) @ [a]
    \<and> threads s' = update_where (\<lambda>x. th_id x = th_id thread)
        (\<lambda>x. x\<lparr>th_last_analysis_id := Some (sa_id a), th_last_activity_at := Some (clock s 0), th_updated_at := tx_now s\<rparr>) (threads s)"
  using assms
  by (simp add: persist_session_analysis_in_thread_def clear_latest_for_thread_def touch_thread_def run
      unlatest_def latest_of_def [abs_def])

lemma analyses_ok_append:
  assumes "analyses_ok s" and "latest_of tid a" and "sa_continuation_index a = length (filter (of_thread tid) (analyses s))"
    and "analyses s' = unlatest tid (analyses s) @ [a]"
  shows "analyses_ok s'" and "filter (latest_of tid) (analyses s') = [a]"
proof -
  have tid: "of_thread v a \<longleftrightarrow> v = tid" "latest_of v a \<longleftrightarrow> v = tid" for v
    using assms(2) by (auto simp: latest_of_def of_thread_def)
  show "filter (latest_of tid) (analyses s') = [a]" by (simp add: assms(4) tid)
  show "analyses_ok s'"
    unfolding analyses_ok_def
  proof
    fix v
    have "length (filter (latest_of v) (analyses s)) \<le> 1"
      and "map sa_continuation_index (filter (of_thread v) (analyses s)) = [0..<length (filter (of_thread v) (analyses s))]"
      using assms(1) by (simp_all add: analyses_ok_def)
    then show "length (filter (latest_of v) (analyses s')) \<le> 1
     \<and> map sa_continuation_index (filter (of_thread v) (analyses s')) = [0..<length (filter (of_thread v) (analyses s'))]"
      by (cases "v = tid")
        (simp_all add: assms(3, 4) tid filter_latest_unlatest_other filter_of_thread_unlatest)
  qed
qed

text \<open>C13. Saving an analysis appends it as the thread's one latest analysis, numbered by how many the
  thread had; the earlier analyses of the thread only lose the flag, those of other threads are
  untouched, and the thread records the analysis as its last and the time of the saving.\<close>

theorem save_analysis_spec:
  assumes "analyses_ok s" and "th_session_id (pr_thread p) = pr_session_id p"
  shows "\<exists>a s'. save_analysis_in_thread p s = (Inr a, s') \<and> analyses_ok s'
    \<and> filter (latest_of (th_id (pr_thread p))) (analyses s') = [a]
    \<and> sa_continuation_index a = length (filter (of_thread (th_id (pr_thread p))) (analyses s))
    \<and> analyses s' = unlatest (th_id (pr_thread p)) (analyses s) @ [a]
    \<and> threads s' = update_where (\<lambda>x. th_id x = th_id (pr_thread p))
        (\<lambda>x. x\<lparr>th_last_analysis_id := Some (sa_id a), th_last_activity_at := Some (clock s 0), th_updated_at := tx_now s\<rparr>) (threads s)"
proof -
  let ?tid = "th_id (pr_thread p)"
  define a where "a = built_row p (length (filter (of_thread ?tid) (analyses s))) (uuids s 0) (tx_now s)"
  define u where "u = s\<lparr>uuids := \<lambda>n. uuids s (Suc n)\<rparr>"
  have u: "analyses u = analyses s" "threads u = threads s" "clock u = clock s" "tx_now u = tx_now s"
    by (simp_all add: u_def)
  obtain s' where s': "persist_session_analysis_in_thread (pr_thread p) a u = (Inr a, s')"
    "analyses s' = unlatest ?tid (analyses s) @ [a]"
    "threads s' = update_where (\<lambda>x. th_id x = ?tid)
        (\<lambda>x. x\<lparr>th_last_analysis_id := Some (sa_id a), th_last_activity_at := Some (clock s 0), th_updated_at := tx_now s\<rparr>) (threads s)"
    using persist_run [of a "pr_thread p" u] assms(2) by (auto simp: a_def u)
  have "save_analysis_in_thread p s = (Inr a, s')"
    by (simp add: save_analysis_in_thread_def run build_row_run s'(1) flip: a_def u_def)
  moreover have "latest_of ?tid a" "sa_continuation_index a = length (filter (of_thread ?tid) (analyses s))"
    by (simp_all add: a_def latest_of_def)
  ultimately show ?thesis
    using analyses_ok_append [OF assms(1) _ _ s'(2)] s' by blast
qed

subsection \<open>Concrete worlds\<close>

definition rival_thread :: analysis_thread where
  "rival_thread = new_thread 50 7 900000"

text \<open>An open session without threads, and a rival that creates one first.\<close>

definition race_world :: world where
  "race_world = sample_world\<lparr>rivals := \<lambda>n. if n = 0 then Some rival_thread else None\<rparr>"

lemma race_world_sel [simp]:
  "threads race_world = []" "sessions race_world = [sample_session]" "analyses race_world = []"
  "rivals race_world = (\<lambda>n. if n = 0 then Some rival_thread else None)" "rivals_pending race_world = []"
  "uuids race_world = (\<lambda>n. 100 + n)" "tx_now race_world = 1000000"
  by (simp_all add: race_world_def sample_world_def empty_world_def)

lemma sample_session_sel [simp]: "ds_id sample_session = 7" "ds_status sample_session = SESSION_ACTIVE"
  by (simp_all add: sample_session_def)

lemma rival_thread_sel [simp]: "th_id rival_thread = 50" "active_thread_of sid rival_thread \<longleftrightarrow> sid = 7"
  "th_last_activity_at rival_thread = None" "th_created_at rival_thread = 900000"
  by (simp_all add: rival_thread_def)

lemma race_world_ok: "threads_ok race_world"
  by (auto simp: threads_ok_def one_active_thread_def rival_ids_def supplies_def inj_def split: if_splits)

lemma race_world_find: "find (\<lambda>r. ds_id r = 7) (sessions race_world) = Some sample_session"
  by simp


theorem race_loser_joins_winner_witness:
  "resolve_thread_for_analysis 7 M_auto (Some (Naive 1000000)) race_world =
     (Inr (rival_thread, Continue_thread), lost_race race_world)"
  by (rule race_loser_joins_winner [OF race_world_ok race_world_find])
    (simp_all add: decision_at_def newest_thread_def resolve_thread_decision_def is_session_closed_def
      session_snapshot_def SESSION_ACTIVE_def thread_snapshot_def ensure_utc_def INACTIVITY_THRESHOLD_def)

definition closed_world :: world where
  "closed_world = race_world\<lparr>sessions := [sample_session\<lparr>ds_status := SESSION_CLOSED\<rparr>]\<rparr>"

theorem closed_session_without_thread_raises_witness:
  "resolve_analysis_mode 7 M_auto closed_world = (Inr New_thread, closed_world\<lparr>clock := \<lambda>n. clock closed_world (Suc n)\<rparr>)
    \<and> resolve_thread_for_analysis 7 M_auto (Some (Naive 1000000)) closed_world =
        (Inl (ValueError [Lit ''CLOSE_THREAD requires thread_id'']), closed_world)"
  by (rule closed_session_without_thread_raises [where r = "sample_session\<lparr>ds_status := SESSION_CLOSED\<rparr>"])
    (simp_all add: closed_world_def)

definition sample_prepared :: SessionAnalysisPrepareResult where
  "sample_prepared = \<lparr>pr_thread = rival_thread, pr_session_id = 7, pr_user_id = 1, pr_provider = ascii ''mock'',
     pr_model = ascii ''m'', pr_prompt_version = ''v1'', pr_analysis_version = ''dream_v1'', pr_analysis_json = JObj [],
     pr_raw_response = None\<rparr>"

theorem save_analysis_spec_witness:
  "\<exists>a s'. save_analysis_in_thread sample_prepared race_world = (Inr a, s') \<and> analyses_ok s'
    \<and> filter (latest_of 50) (analyses s') = [a] \<and> sa_continuation_index a = 0"
proof -
  have "analyses_ok race_world" by (simp add: analyses_ok_def)
  moreover have "th_session_id (pr_thread sample_prepared) = pr_session_id sample_prepared" "th_id (pr_thread sample_prepared) = 50"
    by (simp_all add: sample_prepared_def rival_thread_def)
  ultimately show ?thesis using save_analysis_spec [of race_world sample_prepared] by auto
qed

end
