(* ===== verification/Summary.thy ===== *)
theory Summary
  imports Sessions "HOL-Library.List_Lexorder"
begin

text \<open>
  Session summaries: \<open>services/session_summary_service.py\<close> and the loading of the analysis input,
  \<open>services/analysis_input_service.py\<close>. A Python \<open>Counter\<close> is only used through its sorted items, so it is
  modelled by the list that is counted.
\<close>

subsection \<open>Words\<close>

definition MAX_KEY_SYMBOLS :: nat where "MAX_KEY_SYMBOLS = 10"
definition RAW_TEXT_DREAM_LIMIT :: nat where "RAW_TEXT_DREAM_LIMIT = 5"
definition RAW_TEXT_CHAR_LIMIT :: nat where "RAW_TEXT_CHAR_LIMIT = 1000"

text \<open>The English and the Russian stop words.\<close>

definition STOPWORDS :: "ustr list" where
  "STOPWORDS =
    [ascii ''a'', ascii ''an'', ascii ''and'', ascii ''are'', ascii ''as'', ascii ''at'', ascii ''be'', 
     ascii ''but'', ascii ''by'', ascii ''for'', ascii ''from'', ascii ''had'', ascii ''has'', 
     ascii ''have'', ascii ''he'', ascii ''her'', ascii ''his'', ascii ''i'', ascii ''in'', ascii ''is'', 
     ascii ''it'', ascii ''my'', ascii ''of'', ascii ''on'', ascii ''or'', ascii ''she'', ascii ''that'', 
     ascii ''the'', ascii ''to'', ascii ''was'', ascii ''were'', ascii ''with'', ascii ''you'',
     [1072], [1074], [1074, 1086], [1080], [1082], [1082, 1072, 1082], [1082, 1086], [1084, 1085, 1077], 
     [1084, 1086, 1081], [1085, 1072], [1085, 1077], [1085, 1086], [1086], [1086, 1085], 
     [1086, 1085, 1072], [1086, 1090], [1087, 1086], [1089], [1089, 1086], [1090, 1086], [1091], 
     [1095, 1090, 1086], [1103]]"

text \<open>A character of \<open>[a-ya]\<close> in Russian or Latin, compared under \<open>re.IGNORECASE\<close>.\<close>

definition token_letter :: "unicode \<Rightarrow> nat \<Rightarrow> bool" where
  "token_letter u c = list_ex (\<lambda>b. uc_ieq u b c) ([97..<123] @ [1072..<1104] @ [1105])"

definition word_opt :: "unicode \<Rightarrow> nat option \<Rightarrow> bool" where
  "word_opt u c = (case c of None \<Rightarrow> False | Some c \<Rightarrow> uc_word u c)"

definition head_opt :: "ustr \<Rightarrow> nat option" where
  "head_opt s = (case s of [] \<Rightarrow> None | c # _ \<Rightarrow> Some c)"

text \<open>
  \<open>_TOKEN_PATTERN.findall\<close>: at a word boundary, the longest run of letters, kept if it ends at a word
  boundary too. A shorter run would end between two letters, which are word characters.
\<close>

function find_tokens :: "unicode \<Rightarrow> nat option \<Rightarrow> ustr \<Rightarrow> ustr list" where
  "find_tokens u prev s =
     (case s of
        [] \<Rightarrow> []
      | c # cs \<Rightarrow>
          let letters = takeWhile (token_letter u) (c # cs); rest = dropWhile (token_letter u) (c # cs) in
          if token_letter u c \<and> word_opt u prev \<noteq> uc_word u c \<and> uc_word u (last letters) \<noteq> word_opt u (head_opt rest)
          then letters # find_tokens u (Some (last letters)) rest
          else find_tokens u (Some c) cs)"
  by pat_completeness auto
termination
proof (relation "measure (\<lambda>(u, prev, s). length s)")
  fix u prev s c cs letters rest
  assume "s = c # cs" and "rest = dropWhile (token_letter u) (c # cs)"
    and "token_letter u c \<and> word_opt u prev \<noteq> uc_word u c \<and> uc_word u (last letters) \<noteq> word_opt u (head_opt rest)"
  then show "((u, Some (last letters), rest), u, prev, s) \<in> measure (\<lambda>(u, prev, s). length s)"
    by (simp add: le_imp_less_Suc length_dropWhile_le)
qed simp_all

declare find_tokens.simps [simp del]

definition tokenize :: "unicode \<Rightarrow> ustr \<Rightarrow> ustr list" where
  "tokenize u text = filter (\<lambda>t. t \<notin> set STOPWORDS) (map (uc_lower u) (find_tokens u None text))"

text \<open>\<open>_rank_words\<close> of a counter with the counts \<open>n\<close> over the words \<open>ws\<close>.\<close>

definition rank_words :: "(ustr \<Rightarrow> nat) \<Rightarrow> ustr list \<Rightarrow> ustr list" where
  "rank_words n ws = sort_key (\<lambda>w. (- int (n w), w)) (remdups ws)"

subsection \<open>Building and saving\<close>

definition session_dreams :: "uuid \<Rightarrow> world \<Rightarrow> dream list" where
  "session_dreams sid s = sort_key (\<lambda>d. (dr_created_at d, dr_id d)) (filter (\<lambda>d. dr_session_id d = sid) (dreams s))"

definition summary_of :: "unicode \<Rightarrow> uuid \<Rightarrow> dream_session \<Rightarrow> time \<Rightarrow> dream list \<Rightarrow> session_summary" where
  "summary_of u i session now ds =
     (let per_dream = map (\<lambda>d. tokenize u (dr_text d)) ds;
          all_tokens = concat per_dream;
          in_dreams = (\<lambda>w. length (filter (\<lambda>ts. w \<in> set ts) per_dream));
          sample = join [SP] (map dr_text (take RAW_TEXT_DREAM_LIMIT ds))
      in \<lparr>ss_id = i, ss_session_id = ds_id session, ss_user_id = ds_user_id session, ss_dream_count = length ds,
          ss_key_symbols = take MAX_KEY_SYMBOLS (rank_words (count_list all_tokens) all_tokens),
          ss_recurring_words = rank_words (count_list all_tokens) (filter (\<lambda>w. in_dreams w > 1) all_tokens),
          ss_raw_text_sample = (if sample \<noteq> [] then Some (take RAW_TEXT_CHAR_LIMIT sample) else None),
          ss_created_at = now\<rparr>)"

definition find_session :: "uuid \<Rightarrow> dream_session option db" where
  "find_session sid = getsM (\<lambda>s. find (\<lambda>r. ds_id r = sid) (sessions s))"

definition build_session_summary :: "unicode \<Rightarrow> uuid \<Rightarrow> session_summary db" where
  "build_session_summary u sid =
     bindM (find_session sid) (\<lambda>session.
     case session of
       None \<Rightarrow> throwM (HTTPException 404 [Lit ''Session not found''])
     | Some r \<Rightarrow>
         bindM (getsM (session_dreams sid)) (\<lambda>ds.
         bindM uuid4 (\<lambda>i.
         bindM (getsM tx_now) (\<lambda>now.
         returnM (summary_of u i r now ds)))))"

definition get_session_summary :: "uuid \<Rightarrow> session_summary option db" where
  "get_session_summary sid = getsM (\<lambda>s. find (\<lambda>x. ss_session_id x = sid) (summaries s))"

text \<open>\<open>INSERT .. ON CONFLICT (session_id) DO UPDATE\<close>: the row keeps its identifier and creation time.\<close>

definition upsert_summary :: "session_summary \<Rightarrow> session_summary list \<Rightarrow> session_summary list" where
  "upsert_summary x rows =
     (if \<exists>y \<in> set rows. ss_session_id y = ss_session_id x
      then update_where (\<lambda>y. ss_session_id y = ss_session_id x)
        (\<lambda>y. y\<lparr>ss_user_id := ss_user_id x, ss_dream_count := ss_dream_count x, ss_key_symbols := ss_key_symbols x,
           ss_recurring_words := ss_recurring_words x, ss_raw_text_sample := ss_raw_text_sample x\<rparr>) rows
      else rows @ [x])"

definition save_session_summary :: "session_summary \<Rightarrow> session_summary db" where
  "save_session_summary x =
     thenM (modifyM (\<lambda>s. s\<lparr>summaries := upsert_summary x (summaries s)\<rparr>)) (
     bindM (get_session_summary (ss_session_id x)) (\<lambda>saved.
     case saved of
       None \<Rightarrow> throwM (RuntimeError [Lit ''Failed to save session summary''])
     | Some y \<Rightarrow> returnM y))"

subsection \<open>\<open>load_analysis_input\<close>\<close>

record AnalysisInputContext =
  ai_session :: dream_session
  ai_session_summary :: session_summary
  ai_dreams :: "dream list"

definition load_analysis_input :: "unicode \<Rightarrow> uuid \<Rightarrow> AnalysisInputContext db" where
  "load_analysis_input u sid =
     bindM (find_session sid) (\<lambda>session.
     case session of
       None \<Rightarrow> throwM (HTTPException 404 [Lit ''Session not found''])
     | Some r \<Rightarrow>
         bindM (get_session_summary sid) (\<lambda>found.
         bindM (case found of
             Some x \<Rightarrow> returnM x
           | None \<Rightarrow> bindM (build_session_summary u sid) save_session_summary) (\<lambda>summary.
         bindM (getsM (session_dreams sid)) (\<lambda>ds.
         returnM \<lparr>ai_session = r, ai_session_summary = summary, ai_dreams = ds\<rparr>))))"

subsection \<open>What a summary says\<close>

definition session_words :: "unicode \<Rightarrow> dream list \<Rightarrow> ustr list" where
  "session_words u ds = concat (map (\<lambda>d. tokenize u (dr_text d)) ds)"

lemma set_rank_words [simp]: "set (rank_words n ws) = set ws"
  by (simp add: rank_words_def)

lemma distinct_rank_words [simp]: "distinct (rank_words n ws)"
  by (simp add: rank_words_def)

lemma rank_words_best:
  assumes "w \<in> set (take k (rank_words n ws))" and "v \<in> set ws" and "v \<notin> set (take k (rank_words n ws))"
  shows "(n v < n w \<or> n v = n w \<and> w \<le> v) \<and> length (take k (rank_words n ws)) = k"
proof -
  have "(- int (n w), w) \<le> (- int (n v), v)" and "k \<le> length (remdups ws)"
    using take_sorted_le [of w k "\<lambda>w. (- int (n w), w)" "remdups ws" v] assms by (simp_all add: rank_words_def)
  then show ?thesis by (auto simp: less_eq_prod_def rank_words_def)
qed

lemma rank_words_sorted: "sorted_wrt (\<lambda>w v. n v < n w \<or> n v = n w \<and> w \<le> v) (rank_words n ws)"
proof -
  have "sorted (map (\<lambda>w. (- int (n w), w)) (rank_words n ws))" by (simp add: rank_words_def)
  then show ?thesis unfolding sorted_map
    by (rule sorted_wrt_mono_rel [rotated]) (auto simp: less_eq_prod_def)
qed

text \<open>C39. The summary of a session counts its dreams; its key symbols are at most ten different words of
  the dreams, no stop word among them, ordered by frequency and then alphabetically, and no word left out
  is more frequent; its recurring words are exactly those that occur in more than one dream; the sample
  is cut at a thousand characters.\<close>

theorem session_summary_spec:
  assumes "find (\<lambda>r. ds_id r = sid) (sessions s) = Some r" and "ds = session_dreams sid s" and "ws = session_words u ds"
  shows "\<exists>x. build_session_summary u sid s = (Inr x, s\<lparr>uuids := \<lambda>n. uuids s (Suc n)\<rparr>)
    \<and> ss_session_id x = sid \<and> ss_user_id x = ds_user_id r \<and> ss_dream_count x = length ds
    \<and> length (ss_key_symbols x) \<le> 10 \<and> distinct (ss_key_symbols x)
    \<and> set (ss_key_symbols x) \<subseteq> set ws - set STOPWORDS
    \<and> sorted_wrt (\<lambda>w v. count_list ws v < count_list ws w \<or> count_list ws v = count_list ws w \<and> w \<le> v) (ss_key_symbols x)
    \<and> (\<forall>w \<in> set (ss_key_symbols x). \<forall>v \<in> set ws - set (ss_key_symbols x).
         count_list ws v \<le> count_list ws w \<and> length (ss_key_symbols x) = 10)
    \<and> distinct (ss_recurring_words x)
    \<and> set (ss_recurring_words x) = {w. 1 < length (filter (\<lambda>d. w \<in> set (tokenize u (dr_text d))) ds)}
    \<and> (case ss_raw_text_sample x of None \<Rightarrow> True | Some t \<Rightarrow> t \<noteq> [] \<and> length t \<le> 1000)"
proof -
  define x where "x = summary_of u (uuids s 0) r (tx_now s) ds"
  have sid: "ds_id r = sid" using find_SomeD [OF assms(1)] by simp
  have run: "build_session_summary u sid s = (Inr x, s\<lparr>uuids := \<lambda>n. uuids s (Suc n)\<rparr>)"
    by (simp add: build_session_summary_def find_session_def run assms(1, 2) x_def)
  have ws: "concat (map (\<lambda>d. tokenize u (dr_text d)) ds) = ws" by (simp add: assms(3) session_words_def)
  have key: "ss_key_symbols x = take 10 (rank_words (count_list ws) ws)"
    by (simp add: x_def summary_of_def Let_def ws MAX_KEY_SYMBOLS_def)
  have stop: "set ws \<inter> set STOPWORDS = {}" by (auto simp: ws [symmetric] tokenize_def)
  have in_dreams: "length (filter (\<lambda>ts. w \<in> set ts) (map (\<lambda>d. tokenize u (dr_text d)) ds)) =
      length (filter (\<lambda>d. w \<in> set (tokenize u (dr_text d))) ds)" for w
    by (simp add: filter_map comp_def)
  have rec_set: "set (ss_recurring_words x) = {w \<in> set ws. 1 < length (filter (\<lambda>d. w \<in> set (tokenize u (dr_text d))) ds)}"
    by (simp add: x_def summary_of_def Let_def ws in_dreams [unfolded filter_map length_map] filter_map comp_def)
  have "w \<in> set ws" if "1 < length (filter (\<lambda>d. w \<in> set (tokenize u (dr_text d))) ds)" for w
  proof -
    have "filter (\<lambda>d. w \<in> set (tokenize u (dr_text d))) ds \<noteq> []" using that by auto
    then show ?thesis unfolding ws [symmetric] by (auto simp: filter_empty_conv)
  qed
  then have recurring: "set (ss_recurring_words x) = {w. 1 < length (filter (\<lambda>d. w \<in> set (tokenize u (dr_text d))) ds)}"
    unfolding rec_set by blast
  have sub: "set (ss_key_symbols x) \<subseteq> set ws - set STOPWORDS"
    using stop set_take_subset [of 10 "rank_words (count_list ws) ws"] unfolding key by auto
  have best: "\<forall>w \<in> set (ss_key_symbols x). \<forall>v \<in> set ws - set (ss_key_symbols x).
         count_list ws v \<le> count_list ws w \<and> length (ss_key_symbols x) = 10"
    using rank_words_best [of _ 10 "count_list ws" ws] unfolding key by fastforce
  have sorted: "sorted_wrt (\<lambda>w v. count_list ws v < count_list ws w \<or> count_list ws v = count_list ws w \<and> w \<le> v) (ss_key_symbols x)"
    unfolding key by (rule sorted_wrt_take) (rule rank_words_sorted)
  have rest: "ss_session_id x = sid" "ss_user_id x = ds_user_id r" "ss_dream_count x = length ds"
    "distinct (ss_recurring_words x)" "distinct (ss_key_symbols x)" "length (ss_key_symbols x) \<le> 10"
    "case ss_raw_text_sample x of None \<Rightarrow> True | Some t \<Rightarrow> t \<noteq> [] \<and> length t \<le> 1000"
    by (simp_all add: key, simp_all add: x_def summary_of_def Let_def sid RAW_TEXT_CHAR_LIMIT_def)
  show ?thesis using run rest recurring sub best sorted by blast
qed

definition summaries_ok :: "world \<Rightarrow> bool" where
  "summaries_ok s \<longleftrightarrow> distinct (map ss_session_id (summaries s))"

text \<open>Saving a summary inserts it or replaces the content of the session's one summary, keeping that
  row's identity: afterwards there is still one summary per session, it has the saved content, and the
  summaries of other sessions are untouched.\<close>

theorem saved_summary_is_unique:
  assumes "summaries_ok s"
  shows "\<exists>y s'. save_session_summary x s = (Inr y, s') \<and> summaries_ok s'
    \<and> filter (\<lambda>z. ss_session_id z = ss_session_id x) (summaries s') = [y]
    \<and> filter (\<lambda>z. ss_session_id z \<noteq> ss_session_id x) (summaries s') = filter (\<lambda>z. ss_session_id z \<noteq> ss_session_id x) (summaries s)
    \<and> ss_dream_count y = ss_dream_count x \<and> ss_key_symbols y = ss_key_symbols x
    \<and> ss_recurring_words y = ss_recurring_words x \<and> ss_raw_text_sample y = ss_raw_text_sample x
    \<and> (case find (\<lambda>z. ss_session_id z = ss_session_id x) (summaries s) of
         None \<Rightarrow> y = x | Some z \<Rightarrow> ss_id y = ss_id z \<and> ss_created_at y = ss_created_at z)"
proof -
  let ?k = "ss_session_id x"
  let ?P = "\<lambda>z. ss_session_id z = ?k"
  let ?f = "\<lambda>y. y\<lparr>ss_user_id := ss_user_id x, ss_dream_count := ss_dream_count x, ss_key_symbols := ss_key_symbols x,
           ss_recurring_words := ss_recurring_words x, ss_raw_text_sample := ss_raw_text_sample x\<rparr>"
  have d: "distinct (map ss_session_id (summaries s))" using assms by (simp add: summaries_ok_def)
  have one: "length (filter ?P ys) \<le> 1" if "distinct (map ss_session_id ys)" for ys
    using that by (induction ys) (auto simp: filter_empty_conv image_iff)
  show ?thesis
  proof (cases "find ?P (summaries s)")
    case None
    then have nin: "\<forall>z \<in> set (summaries s). ss_session_id z \<noteq> ?k" by (auto simp: find_None_iff)
    then have "find ?P (summaries s @ [x]) = Some x" by (simp add: find_append_None None)
    moreover have "upsert_summary x (summaries s) = summaries s @ [x]" using nin by (auto simp: upsert_summary_def)
    moreover have "filter ?P (summaries s) = []" using nin by (simp add: filter_empty_conv)
    ultimately show ?thesis
      using d nin None by (auto simp: save_session_summary_def get_session_summary_def run summaries_ok_def)
  next
    case (Some z)
    then have z: "z \<in> set (summaries s)" "?P z" by (auto dest: find_SomeD)
    let ?new = "update_where ?P ?f (summaries s)"
    have up: "upsert_summary x (summaries s) = ?new" using z by (auto simp: upsert_summary_def)
    have keys: "map ss_session_id ?new = map ss_session_id (summaries s)" by (rule map_update_where) simp
    have f: "find ?P ?new = Some (?f z)"
      using find_update_where_key [of ?P ss_session_id ?f ?k "summaries s"] Some z by simp
    have in_new: "?f z \<in> set ?new" using find_SomeD [OF f] by simp
    have "filter ?P ?new = [?f z]"
      by (rule filter_singletonD [OF one in_new]) (simp_all add: keys d z)
    moreover have "filter (\<lambda>z. \<not> ?P z) ?new = filter (\<lambda>z. \<not> ?P z) (summaries s)"
      by (rule filter_update_where_other) simp
    ultimately show ?thesis
      using d keys f Some by (auto simp: save_session_summary_def get_session_summary_def run up summaries_ok_def)
  qed
qed

text \<open>The input of an analysis takes the stored summary as it is: it is not rebuilt for dreams that
  were added after it was saved, while the list of dreams is current, so the two can contradict each
  other in one prompt.\<close>

theorem stored_summary_is_not_refreshed:
  assumes "find (\<lambda>r. ds_id r = sid) (sessions s) = Some r" and "find (\<lambda>x. ss_session_id x = sid) (summaries s) = Some x"
  shows "load_analysis_input u sid (s\<lparr>dreams := dreams s @ new\<rparr>) =
      (Inr \<lparr>ai_session = r, ai_session_summary = x, ai_dreams = session_dreams sid (s\<lparr>dreams := dreams s @ new\<rparr>)\<rparr>,
       s\<lparr>dreams := dreams s @ new\<rparr>)
    \<and> length (session_dreams sid (s\<lparr>dreams := dreams s @ new\<rparr>)) =
        length (session_dreams sid s) + length (filter (\<lambda>d. dr_session_id d = sid) new)"
  by (simp add: load_analysis_input_def find_session_def get_session_summary_def run assms session_dreams_def)

subsection \<open>A concrete session\<close>

definition sample_dream :: "int \<Rightarrow> string \<Rightarrow> dream" where
  "sample_dream i t = \<lparr>dr_id = i, dr_user_id = 1, dr_text = ascii t, dr_created_at = 0, dr_session_id = 7\<rparr>"

definition dream_world :: world where
  "dream_world = sample_world\<lparr>dreams := [sample_dream 1 ''Bridge'', sample_dream 2 ''my bridge'']\<rparr>"

lemma token_letter_basic: "token_letter basic_unicode c \<longleftrightarrow>
    (97 \<le> lower_cp c \<and> lower_cp c < 123) \<or> (1072 \<le> lower_cp c \<and> lower_cp c < 1104) \<or> lower_cp c = 1105"
proof -
  have "(\<exists>b \<in> {97..<123}. lower_cp b = lower_cp c) \<longleftrightarrow> 97 \<le> lower_cp c \<and> lower_cp c < 123"
    and "(\<exists>b \<in> {1072..<1104}. lower_cp b = lower_cp c) \<longleftrightarrow> 1072 \<le> lower_cp c \<and> lower_cp c < 1104"
    by (auto simp: lower_cp_def)
  moreover have "lower_cp 1105 = 1105" by (simp add: lower_cp_def)
  ultimately show ?thesis
    by (simp only: token_letter_def list_ex_iff set_append set_upt bex_Un list.set bex_simps basic_unicode_def unicode.simps)
      (metis (full_types))
qed

lemmas find_tokens_eval = find_tokens.simps [of u p "[]" for u p] find_tokens.simps [of u p "c # cs" for u p c cs]

lemma sample_tokens:
  "tokenize basic_unicode (ascii ''Bridge'') = [ascii ''bridge'']"
  "tokenize basic_unicode (ascii ''my bridge'') = [ascii ''bridge'']"
  by (simp_all add: tokenize_def find_tokens_eval token_letter_basic word_opt_def head_opt_def ascii_def lower_cp_def
      STOPWORDS_def basic_unicode_def [THEN arg_cong [where f = uc_word]] basic_unicode_def [THEN arg_cong [where f = uc_lower]])

lemma dream_world_sel [simp]: "sessions dream_world = [sample_session]" "summaries dream_world = []"
  "dreams dream_world = [sample_dream 1 ''Bridge'', sample_dream 2 ''my bridge'']"
  by (simp_all add: dream_world_def sample_world_def empty_world_def)

lemma dream_world_dreams: "session_dreams 7 dream_world = [sample_dream 1 ''Bridge'', sample_dream 2 ''my bridge'']"
  by (simp add: session_dreams_def sample_dream_def)

theorem session_summary_spec_witness:
  "\<exists>x s'. build_session_summary basic_unicode 7 dream_world = (Inr x, s') \<and> ss_dream_count x = 2
    \<and> length (ss_key_symbols x) \<le> 10 \<and> distinct (ss_key_symbols x) \<and> set (ss_recurring_words x) = {ascii ''bridge''}"
proof -
  have f: "find (\<lambda>r. ds_id r = 7) (sessions dream_world) = Some sample_session" by (simp add: sample_session_def)
  have "{w. 1 < length (filter (\<lambda>d. w \<in> set (tokenize basic_unicode (dr_text d))) (session_dreams 7 dream_world))} = {ascii ''bridge''}"
    by (simp add: dream_world_dreams sample_dream_def sample_tokens)
  then show ?thesis
    using session_summary_spec [OF f refl refl, of basic_unicode] by (auto simp: dream_world_dreams)
qed

theorem saved_summary_is_unique_witness:
  "\<exists>y s'. save_session_summary (summary_of basic_unicode 5 sample_session 0 []) dream_world = (Inr y, s')
    \<and> summaries_ok s' \<and> ss_dream_count y = 0"
proof -
  have "summaries_ok dream_world" by (simp add: summaries_ok_def)
  from saved_summary_is_unique [OF this, of "summary_of basic_unicode 5 sample_session 0 []"]
  obtain y s' where "save_session_summary (summary_of basic_unicode 5 sample_session 0 []) dream_world = (Inr y, s')"
    "summaries_ok s'" "ss_dream_count y = ss_dream_count (summary_of basic_unicode 5 sample_session 0 [])" by blast
  then show ?thesis by (simp add: summary_of_def Let_def)
qed

definition old_summary :: session_summary where
  "old_summary = summary_of basic_unicode 5 sample_session 0 []"

theorem stored_summary_is_not_refreshed_witness:
  "\<exists>c s'. load_analysis_input basic_unicode 7 (dream_world\<lparr>summaries := [old_summary], dreams := dreams dream_world @ [sample_dream 3 ''Sea'']\<rparr>) = (Inr c, s')
    \<and> ss_dream_count (ai_session_summary c) = 0 \<and> length (ai_dreams c) = 3"
proof -
  let ?s = "dream_world\<lparr>summaries := [old_summary]\<rparr>"
  have a: "find (\<lambda>r. ds_id r = 7) (sessions ?s) = Some sample_session"
    and b: "find (\<lambda>x. ss_session_id x = 7) (summaries ?s) = Some old_summary"
    by (simp_all add: sample_session_def old_summary_def summary_of_def Let_def)
  have "length (session_dreams 7 ?s) = 2" by (simp add: session_dreams_def sample_dream_def)
  then show ?thesis
    using stored_summary_is_not_refreshed [OF a b, of basic_unicode "[sample_dream 3 ''Sea'']"]
    by (auto simp: old_summary_def summary_of_def Let_def sample_dream_def)
qed

end
