(* ===== verification/Prompts.thy ===== *)
theory Prompts
  imports Summary
begin

text \<open>
  Prompt construction: \<open>services/prompts/contracts.py\<close>, \<open>compiler.py\<close>, \<open>memory/builder.py\<close> and
  \<open>services/memory/memory_prompt_builder.py\<close>. Russian texts are given by their code points. The texts of
  the Markdown assets and the standard library's formatting of identifiers and times are parameters
  (records \<open>prompt_assets\<close> and \<open>formats\<close>).
\<close>

subsection \<open>Formatting\<close>

record formats =
  str_uuid :: "uuid \<Rightarrow> ustr"
  strftime :: "time \<Rightarrow> ustr"
  isoformat_utc :: "time \<Rightarrow> ustr"
  isoformat_utc_seconds :: "time \<Rightarrow> ustr"

record prompt_assets =
  as_instructions :: "ustr list"
  as_framework :: "ustr list"
  as_output_format :: "ustr list"
  as_memory_body :: ustr

abbreviation NL :: nat where "NL \<equiv> 10"

fun digits_of :: "nat \<Rightarrow> ustr" where
  "digits_of n = (if n < 10 then [48 + n] else digits_of (n div 10) @ [48 + n mod 10])"

declare digits_of.simps [simp del]

definition str_int :: "int \<Rightarrow> ustr" where
  "str_int i = (if i < 0 then 45 # digits_of (nat (- i)) else digits_of (nat i))"

definition not_available :: ustr where
  "not_available = ascii ''N/A''"

definition format_datetime :: "formats \<Rightarrow> time option \<Rightarrow> ustr" where
  "format_datetime f v = (case v of None \<Rightarrow> not_available | Some t \<Rightarrow> strftime f t)"

text \<open>\<open>int(total_seconds())\<close> truncates towards zero; the duration is in microseconds.\<close>

definition trunc_seconds :: "int \<Rightarrow> int" where
  "trunc_seconds d = (if d < 0 then - (- d div 1000000) else d div 1000000)"

definition format_duration :: "int option \<Rightarrow> ustr" where
  "format_duration duration =
     (case duration of
        None \<Rightarrow> not_available
      | Some d \<Rightarrow>
          let total = trunc_seconds d in
          if total < 0 then not_available
          else let hours = total div 3600; remainder = total mod 3600;
                   minutes = remainder div 60; seconds = remainder mod 60
               in str_int hours @ ascii ''h '' @ str_int minutes @ ascii ''m '' @ str_int seconds @ ascii ''s'')"

definition format_list :: "ustr list \<Rightarrow> ustr" where
  "format_list xs = (if xs = [] then ascii ''[]'' else ascii ''['' @ join (ascii '', '') xs @ ascii '']'')"

subsection \<open>The contract\<close>

record SectionSpec =
  se_number :: nat
  se_heading :: ustr
  se_fields :: "string list"
  se_dream_entry :: bool

record PromptContract =
  pc_version :: string
  pc_prefix :: ustr
  pc_sections :: "SectionSpec list"
  pc_required_instruction_anchors :: "ustr list"
  pc_required_framework_items :: "ustr list"
  pc_required_instruction_lines :: "ustr list"
  pc_required_output_format_lines :: "ustr list"
  pc_forbidden_phrases :: "ustr list"

definition SECTION_HEADINGS :: "ustr list" where
  "SECTION_HEADINGS =
     [[35, 35, 32, 49, 46, 32, 1050, 1054, 1053, 1058, 1045, 1050, 1057, 1058, 32, 1057, 1045, 1057,
       1057, 1048, 1048, 32, 40, 1060, 1040, 1050, 1058, 1067, 41],
      [35, 35, 32, 50, 46, 32, 1046, 1059, 1056, 1053, 1040, 1051, 32, 1057, 1053, 1054, 1042, 32, 40,
       1044, 1054, 1057, 1051, 1054, 1042, 1053, 1054, 41],
      [35, 35, 32, 51, 46, 32, 1057, 1042, 1054, 1044, 1050, 1040, 32, 1057, 1045, 1057, 1057, 1048,
       1048, 32, 40, 1057, 1058, 1056, 1059, 1050, 1058, 1059, 1056, 1040, 41],
      [35, 35, 32, 52, 46, 32, 1055, 1056, 1040, 1042, 1048, 1051, 1040, 32, 1056, 1045, 1060, 1051,
       1045, 1050, 1057, 1048, 1048],
      [35, 35, 32, 53, 46, 32, 1040, 1053, 1040, 1051, 1048, 1058, 1048, 1063, 1045, 1057, 1050, 1048,
       1049, 32, 1060, 1054, 1050, 1059, 1057],
      [35, 35, 32, 54, 46, 32, 1060, 1054, 1056, 1052, 1040, 1058, 32, 1054, 1058, 1042, 1045, 1058,
       1040, 32, 40, 74, 83, 79, 78, 41]]"

definition section_spec :: "nat \<Rightarrow> string list \<Rightarrow> bool \<Rightarrow> SectionSpec" where
  "section_spec n names entry = \<lparr>se_number = n, se_heading = SECTION_HEADINGS ! (n - 1), se_fields = names, se_dream_entry = entry\<rparr>"

definition JUNGIAN_PROMPT_CONTRACT_V2 :: PromptContract where
  "JUNGIAN_PROMPT_CONTRACT_V2 = \<lparr>pc_version = ''v2'', pc_prefix = ascii ''[CONTROLLED JUNGIAN PROMPT v2]'',
     pc_sections =
      [section_spec 1 [''session_id'', ''user_id'', ''dream_count'', ''session_duration'', ''last_activity_at''] False,
       section_spec 2 [] True,
       section_spec 3 [''key_symbols'', ''recurring_words'', ''raw_text_sample''] False,
       section_spec 4 [] False, section_spec 5 [] False, section_spec 6 [] False],
     pc_required_instruction_anchors =
      [[1089, 1086, 1085, 32, 1085, 1077, 32, 1080, 1084, 1077, 1077, 1090, 32, 1092, 1080, 1082, 1089,
       1080, 1088, 1086, 1074, 1072, 1085, 1085, 1086, 1075, 1086, 32, 1079, 1085, 1072, 1095, 1077,
       1085, 1080, 1103],
       [1084, 1099, 32, 1080, 1089, 1089, 1083, 1077, 1076, 1091, 1077, 1084, 44, 32, 1072, 32, 1085,
       1077, 32, 1080, 1085, 1090, 1077, 1088, 1087, 1088, 1077, 1090, 1080, 1088, 1091, 1077, 1084, 32,
       1086, 1082, 1086, 1085, 1095, 1072, 1090, 1077, 1083, 1100, 1085, 1086],
       [1074, 1086, 1079, 1084, 1086, 1078, 1085, 1099, 1077, 32, 1075, 1080, 1087, 1086, 1090, 1077,
       1079, 1099],
       [1074, 1086, 1087, 1088, 1086, 1089, 1099, 32, 1074, 1072, 1078, 1085, 1077, 1077, 32, 1074, 1099,
       1074, 1086, 1076, 1086, 1074],
       [1085, 1077, 32, 1080, 1089, 1087, 1086, 1083, 1100, 1079, 1091, 1081, 1090, 1077, 32, 1091, 1090,
       1074, 1077, 1088, 1078, 1076, 1077, 1085, 1080, 1103, 32, 1090, 1080, 1087, 1072, 32, 171, 1101,
       1090, 1086, 32, 1086, 1079, 1085, 1072, 1095, 1072, 1077, 1090, 187]],
     pc_required_framework_items =
      [[49, 46, 32, 1050, 1083, 1102, 1095, 1077, 1074, 1099, 1077, 32, 1084, 1086, 1090, 1080, 1074,
       1099, 32, 1080, 32, 1086, 1073, 1088, 1072, 1079, 1099],
       [50, 46, 32, 1069, 1084, 1086, 1094, 1080, 1086, 1085, 1072, 1083, 1100, 1085, 1099, 1081, 32,
       1090, 1086, 1085, 32, 1080, 32, 1076, 1080, 1085, 1072, 1084, 1080, 1082, 1072],
       [51, 46, 32, 1055, 1086, 1074, 1090, 1086, 1088, 1103, 1102, 1097, 1080, 1077, 1089, 1103, 32,
       1089, 1080, 1084, 1074, 1086, 1083, 1099],
       [52, 46, 32, 1042, 1086, 1079, 1084, 1086, 1078, 1085, 1099, 1077, 32, 1072, 1088, 1093, 1077,
       1090, 1080, 1087, 1080, 1095, 1077, 1089, 1082, 1080, 1077, 32, 1075, 1080, 1087, 1086, 1090,
       1077, 1079, 1099, 32, 40, 49, 45, 51, 44, 32, 1090, 1086, 1083, 1100, 1082, 1086, 32, 1087, 1088,
       1080, 32, 1086, 1087, 1086, 1088, 1077, 32, 1085, 1072, 32, 1084, 1072, 1090, 1077, 1088, 1080,
       1072, 1083, 41],
       [53, 46, 32, 1042, 1085, 1091, 1090, 1088, 1077, 1085, 1085, 1080, 1077, 32, 1085, 1072, 1087,
       1088, 1103, 1078, 1077, 1085, 1080, 1103, 32, 47, 32, 1082, 1086, 1085, 1092, 1083, 1080, 1082,
       1090],
       [54, 46, 32, 1054, 1090, 1082, 1088, 1099, 1090, 1099, 1077, 32, 1074, 1086, 1087, 1088, 1086,
       1089, 1099, 32, 1076, 1083, 1103, 32, 1076, 1072, 1083, 1100, 1085, 1077, 1081, 1096, 1077, 1075,
       1086, 32, 1080, 1089, 1089, 1083, 1077, 1076, 1086, 1074, 1072, 1085, 1080, 1103]],
     pc_required_instruction_lines =
      [[1042, 1099, 32, 8212, 32, 1072, 1085, 1072, 1083, 1080, 1090, 1080, 1095, 1077, 1089, 1082, 1080,
       1081, 32, 1084, 1086, 1076, 1091, 1083, 1100, 32, 1102, 1085, 1075, 1080, 1072, 1085, 1089, 1082,
       1086, 1081, 32, 1088, 1077, 1092, 1083, 1077, 1082, 1089, 1080, 1080, 46],
       [1055, 1088, 1072, 1074, 1080, 1083, 1072, 58],
       [45, 32, 1057, 1086, 1085, 32, 1085, 1077, 32, 1080, 1084, 1077, 1077, 1090, 32, 1092, 1080, 1082,
       1089, 1080, 1088, 1086, 1074, 1072, 1085, 1085, 1086, 1075, 1086, 32, 1079, 1085, 1072, 1095,
       1077, 1085, 1080, 1103, 46]],
     pc_required_output_format_lines =
      [[1042, 1077, 1088, 1085, 1080, 1090, 1077, 32, 1090, 1086, 1083, 1100, 1082, 1086, 32, 1086, 1076,
       1080, 1085, 32, 74, 83, 79, 78, 45, 1086, 1073, 1098, 1077, 1082, 1090, 46],
       [1054, 1073, 1103, 1079, 1072, 1090, 1077, 1083, 1100, 1085, 1099, 1077, 32, 74, 83, 79, 78, 45,
       1082, 1083, 1102, 1095, 1080, 58]],
     pc_forbidden_phrases =
      [[1101, 1090, 1086, 32, 1086, 1079, 1085, 1072, 1095, 1072, 1077, 1090, 44, 32, 1095, 1090, 1086],
       [1074, 1072, 1096, 32, 1089, 1086, 1085, 32, 1075, 1086, 1074, 1086, 1088, 1080, 1090, 44, 32,
       1095, 1090, 1086],
       [1074, 1099, 32, 1090, 1086, 1095, 1085, 1086],
       [1075, 1083, 1072, 1074, 1085, 1099, 1081, 32, 1089, 1084, 1099, 1089, 1083, 32, 1089, 1085, 1072],
       [1086, 1089, 1085, 1086, 1074, 1085, 1086, 1077, 32, 1079, 1085, 1072, 1095, 1077, 1085, 1080,
       1077, 32, 1089, 1085, 1072]]\<rparr>"

subsection \<open>The compiler\<close>

record ContextBlock =
  cb_session_id :: uuid
  cb_user_id :: int
  cb_dream_count :: nat
  cb_session_duration :: ustr
  cb_last_activity_at :: ustr

record DreamEntry =
  de_index :: nat
  de_text :: ustr
  de_timestamp :: ustr

record SessionSummaryBlock =
  sb_key_symbols :: "ustr list"
  sb_recurring_words :: "ustr list"
  sb_raw_text_sample :: ustr

record CompiledJungianPrompt =
  cp_context :: ContextBlock
  cp_dreams :: "DreamEntry list"
  cp_summary :: SessionSummaryBlock

definition sort_dreams :: "dream list \<Rightarrow> dream list" where
  "sort_dreams ds = sort_key (\<lambda>d. (dr_created_at d, dr_id d)) ds"

definition compile_jungian_prompt ::
  "formats \<Rightarrow> session_summary \<Rightarrow> dream list \<Rightarrow> time option \<Rightarrow> time option \<Rightarrow> CompiledJungianPrompt" where
  "compile_jungian_prompt f summary ds last_activity created =
     (let duration = (case (last_activity, created) of (Some a, Some c) \<Rightarrow> Some (a - c) | _ \<Rightarrow> None);
          sorted = sort_dreams ds
      in \<lparr>cp_context = \<lparr>cb_session_id = ss_session_id summary, cb_user_id = ss_user_id summary,
            cb_dream_count = ss_dream_count summary, cb_session_duration = format_duration duration,
            cb_last_activity_at = format_datetime f last_activity\<rparr>,
          cp_dreams = map (\<lambda>(i, d). \<lparr>de_index = i, de_text = dr_text d, de_timestamp = format_datetime f (Some (dr_created_at d))\<rparr>)
            (zip [1..<Suc (length sorted)] sorted),
          cp_summary = \<lparr>sb_key_symbols = ss_key_symbols summary, sb_recurring_words = ss_recurring_words summary,
            sb_raw_text_sample = (case ss_raw_text_sample summary of None \<Rightarrow> not_available | Some t \<Rightarrow> t)\<rparr>\<rparr>)"

definition heading :: "PromptContract \<Rightarrow> nat \<Rightarrow> ustr" where
  "heading c i = se_heading (pc_sections c ! i)"

definition dream_lines :: "DreamEntry list \<Rightarrow> ustr list" where
  "dream_lines es =
     (if es = [] then [ascii ''(no dreams provided)'']
      else concat (map (\<lambda>e. [ascii ''[DREAM '' @ digits_of (de_index e) @ ascii '']'', ascii ''text: '' @ de_text e,
             ascii ''timestamp: '' @ de_timestamp e, []]) es))"

definition prompt_lines :: "formats \<Rightarrow> prompt_assets \<Rightarrow> CompiledJungianPrompt \<Rightarrow> PromptContract \<Rightarrow> ustr list" where
  "prompt_lines f a p c =
     [pc_prefix c, [], heading c 0,
      ascii ''session_id: '' @ str_uuid f (cb_session_id (cp_context p)),
      ascii ''user_id: '' @ str_int (cb_user_id (cp_context p)),
      ascii ''dream_count: '' @ digits_of (cb_dream_count (cp_context p)),
      ascii ''session_duration: '' @ cb_session_duration (cp_context p),
      ascii ''last_activity_at: '' @ cb_last_activity_at (cp_context p), [], heading c 1]
     @ dream_lines (cp_dreams p)
     @ [heading c 2, ascii ''key_symbols: '' @ format_list (sb_key_symbols (cp_summary p)),
        ascii ''recurring_words: '' @ format_list (sb_recurring_words (cp_summary p)),
        ascii ''raw_text_sample: '' @ sb_raw_text_sample (cp_summary p), [], heading c 3]
     @ as_instructions a @ [[], heading c 4] @ as_framework a @ [[], heading c 5] @ as_output_format a"

definition render_compiled_prompt :: "formats \<Rightarrow> prompt_assets \<Rightarrow> CompiledJungianPrompt \<Rightarrow> PromptContract \<Rightarrow> ustr" where
  "render_compiled_prompt f a p c = join [NL] (prompt_lines f a p c)"

definition build_jungian_prompt ::
  "formats \<Rightarrow> prompt_assets \<Rightarrow> session_summary \<Rightarrow> dream list \<Rightarrow> time option \<Rightarrow> time option \<Rightarrow> ustr" where
  "build_jungian_prompt f a summary ds last_activity created =
     render_compiled_prompt f a (compile_jungian_prompt f summary ds last_activity created) JUNGIAN_PROMPT_CONTRACT_V2"

subsection \<open>The memory prompt\<close>

definition CORE_FACTUAL_RULES :: "ustr list" where
  "CORE_FACTUAL_RULES =
     [[1056, 1072, 1073, 1086, 1090, 1072, 1081, 1090, 1077, 32, 1090, 1086, 1083, 1100, 1082, 1086, 32,
       1089, 32, 1092, 1072, 1082, 1090, 1072, 1084, 1080, 44, 32, 1103, 1074, 1085, 1086, 32, 1087,
       1088, 1080, 1089, 1091, 1090, 1089, 1090, 1074, 1091, 1102, 1097, 1080, 1084, 1080, 32, 1074, 32,
       1090, 1077, 1082, 1089, 1090, 1077, 32, 1089, 1085, 1072, 46],
      [1045, 1089, 1083, 1080, 32, 1092, 1072, 1082, 1090, 32, 1085, 1077, 32, 1091, 1082, 1072, 1079,
       1072, 1085, 32, 1085, 1072, 1087, 1088, 1103, 1084, 1091, 1102, 44, 32, 1085, 1077, 32, 1076,
       1086, 1073, 1072, 1074, 1083, 1103, 1081, 1090, 1077, 32, 1077, 1075, 1086, 46],
      [1053, 1077, 32, 1080, 1089, 1087, 1086, 1083, 1100, 1079, 1091, 1081, 1090, 1077, 32, 1080, 1085,
       1090, 1077, 1088, 1087, 1088, 1077, 1090, 1072, 1094, 1080, 1102, 44, 32, 1089, 1080, 1084, 1074,
       1086, 1083, 1080, 1095, 1077, 1089, 1082, 1080, 1077, 32, 1079, 1085, 1072, 1095, 1077, 1085,
       1080, 1103, 32, 1080, 32, 1087, 1089, 1080, 1093, 1086, 1083, 1086, 1075, 1080, 1095, 1077, 1089,
       1082, 1080, 1077, 32, 1076, 1080, 1072, 1075, 1085, 1086, 1079, 1099, 46]]"

definition MEMORY_SPECIFIC_RULES :: "ustr list" where
  "MEMORY_SPECIFIC_RULES =
     [[1048, 1079, 1074, 1083, 1077, 1082, 1072, 1081, 1090, 1077, 32, 1087, 1086, 1089, 1083, 1077,
       1076, 1086, 1074, 1072, 1090, 1077, 1083, 1100, 1085, 1086, 1089, 1090, 1100, 32, 1089, 1086,
       1073, 1099, 1090, 1080, 1081, 32, 1080, 32, 1091, 1095, 1072, 1089, 1090, 1085, 1080, 1082, 1086,
       1074, 46],
      [1054, 1090, 1084, 1077, 1095, 1072, 1081, 1090, 1077, 32, 1085, 1077, 1086, 1087, 1088, 1077,
       1076, 1077, 1083, 1077, 1085, 1085, 1086, 1089, 1090, 1100, 32, 1090, 1086, 1083, 1100, 1082,
       1086, 32, 1077, 1089, 1083, 1080, 32, 1086, 1085, 1072, 32, 1103, 1074, 1085, 1086, 32, 1074,
       1099, 1088, 1072, 1078, 1077, 1085, 1072, 32, 1074, 1086, 32, 1074, 1093, 1086, 1076, 1077, 46],
      [1057, 1086, 1093, 1088, 1072, 1085, 1103, 1081, 1090, 1077, 32, 1085, 1077, 1081, 1090, 1088,
       1072, 1083, 1100, 1085, 1099, 1081, 32, 1086, 1087, 1080, 1089, 1072, 1090, 1077, 1083, 1100,
       1085, 1099, 1081, 32, 1089, 1090, 1080, 1083, 1100, 32, 1073, 1077, 1079, 32, 1075, 1080, 1087,
       1086, 1090, 1077, 1079, 32, 1086, 32, 1089, 1084, 1099, 1089, 1083, 1077, 46]]"

definition build_memory_prompt_rules :: ustr where
  "build_memory_prompt_rules = join [NL]
     ([[35, 35, 32, 1054, 1073, 1097, 1080, 1077, 32, 1087, 1088, 1072, 1074, 1080, 1083, 1072, 32, 102,
       97, 99, 116, 117, 97, 108, 32, 101, 120, 116, 114, 97, 99, 116, 105, 111, 110]]
      @ map (\<lambda>r. ascii ''- '' @ r) CORE_FACTUAL_RULES @ [[]]
      @ [[35, 35, 32, 1057, 1087, 1077, 1094, 1080, 1092, 1080, 1095, 1077, 1089, 1082, 1080, 1077, 32,
       1087, 1088, 1072, 1074, 1080, 1083, 1072, 32, 109, 101, 109, 111, 114, 121, 32, 101, 120, 116,
       114, 97, 99, 116, 105, 111, 110]]
      @ map (\<lambda>r. ascii ''- '' @ r) MEMORY_SPECIFIC_RULES)"

definition build_memory_prompt_sections :: "unicode \<Rightarrow> ustr list \<Rightarrow> ustr" where
  "build_memory_prompt_sections u sections = join [NL, NL] (map (strip u) (filter (\<lambda>s. strip u s \<noteq> []) sections))"

record MemoryPromptInput =
  mi_session_id :: uuid
  mi_user_id :: int
  mi_dream_id :: int
  mi_dream_text :: ustr
  mi_session_created_at :: "time option"
  mi_session_last_activity_at :: "time option"
  mi_dream_created_at :: "time option"

definition format_utc :: "formats \<Rightarrow> time option \<Rightarrow> ustr" where
  "format_utc f v = (case v of None \<Rightarrow> ascii ''null'' | Some t \<Rightarrow> isoformat_utc f t)"

definition build_memory_prompt :: "unicode \<Rightarrow> formats \<Rightarrow> prompt_assets \<Rightarrow> MemoryPromptInput \<Rightarrow> ustr" where
  "build_memory_prompt u f a p =
     (let metadata = join [NL] [ascii ''## Metadata'', ascii ''session_id: '' @ str_uuid f (mi_session_id p),
            ascii ''user_id: '' @ str_int (mi_user_id p), ascii ''dream_id: '' @ str_int (mi_dream_id p),
            ascii ''session_created_at_utc: '' @ format_utc f (mi_session_created_at p),
            ascii ''session_last_activity_at_utc: '' @ format_utc f (mi_session_last_activity_at p),
            ascii ''dream_created_at_utc: '' @ format_utc f (mi_dream_created_at p)];
          text = strip u (mi_dream_text p);
          dream_input = join [NL] [ascii ''## Dream Input (raw text)'', if text = [] then ascii ''(empty)'' else text]
      in build_memory_prompt_sections u [ascii ''## Memory Extraction Mode'', build_memory_prompt_rules,
           as_memory_body a, metadata, dream_input])"

subsection \<open>What the prompt depends on\<close>

lemma sort_dreams_mset:
  assumes "mset ds = mset ds'" and "distinct (map dr_id ds)"
  shows "sort_dreams ds = sort_dreams ds'"
proof -
  let ?k = "\<lambda>d. (dr_created_at d, dr_id d)"
  have inj: "inj_on ?k (set (sort_dreams ds) \<union> set (sort_dreams ds'))"
    using assms(2) mset_eq_setD [OF assms(1)] by (auto simp: inj_on_def distinct_map sort_dreams_def)
  have "mset (map ?k (sort_dreams ds)) = mset (map ?k (sort_dreams ds'))"
    by (simp add: sort_dreams_def assms(1))
  moreover have "sorted (map ?k (sort_dreams ds))" "sorted (map ?k (sort_dreams ds'))"
    by (simp_all add: sort_dreams_def)
  ultimately have "map ?k (sort_dreams ds) = map ?k (sort_dreams ds')"
    by (metis properties_for_sort)
  then show ?thesis using inj by (simp add: inj_on_map_eq_map)
qed

text \<open>The analysis prompt is deterministic: it does not depend on the order in which the dreams are
  handed over, only on the dreams themselves, the summary and the times of the session.\<close>

theorem prompt_ignores_dream_order:
  assumes "mset ds = mset ds'" and "distinct (map dr_id ds)"
  shows "build_jungian_prompt f a summary ds last_activity created = build_jungian_prompt f a summary ds' last_activity created"
  by (simp add: build_jungian_prompt_def compile_jungian_prompt_def sort_dreams_mset [OF assms] Let_def)

definition plain_formats :: formats where
  "plain_formats = \<lparr>str_uuid = digits_of, strftime = str_int, isoformat_utc = str_int,
     isoformat_utc_seconds = (\<lambda>t. str_int (t div 1000000))\<rparr>"

definition no_assets :: prompt_assets where
  "no_assets = \<lparr>as_instructions = [], as_framework = [], as_output_format = [], as_memory_body = []\<rparr>"

theorem prompt_ignores_dream_order_witness:
  "build_jungian_prompt plain_formats no_assets old_summary [sample_dream 1 ''Sea'', sample_dream 2 ''Sky''] (Some 5) (Some 0) =
   build_jungian_prompt plain_formats no_assets old_summary [sample_dream 2 ''Sky'', sample_dream 1 ''Sea''] (Some 5) (Some 0)"
  by (rule prompt_ignores_dream_order) (simp_all add: sample_dream_def)

end
