(* ===== verification/Presentation.thy ===== *)
theory Presentation
  imports Contract Threads Prompts
begin

text \<open>
  What users see of an analysis: the reflection (\<open>services/reflection/dream_reflection_transformer.py\<close>), the
  Telegram text (\<open>format_analysis_message\<close>), the legacy mapping (\<open>services/analysis/dto\<close>,
  \<open>services/analysis/presentation_service.py\<close>) and the history of a session
  (\<open>services/session_analysis_service.py\<close>). Russian texts are given by their code points.
\<close>

subsection \<open>Reflection\<close>

text \<open>The pairs of \<open>_REPLACEMENTS\<close>; every pattern is a phrase between two word boundaries.\<close>

definition REPLACEMENTS :: "(ustr \<times> ustr) list" where
  "REPLACEMENTS = [
     ([1101, 1090, 1086, 32, 1079, 1085, 1072, 1095, 1080, 1090],
      [1101, 1090, 1086, 32, 1084, 1086, 1078, 1077, 1090, 32, 1073, 1099, 1090, 1100, 32, 1089, 1074,
       1103, 1079, 1072, 1085, 1086, 32, 1089]),
     ([1086, 1079, 1085, 1072, 1095, 1072, 1077, 1090],
      [1084, 1086, 1078, 1077, 1090, 32, 1073, 1099, 1090, 1100, 32, 1089, 1074, 1103, 1079, 1072, 1085,
       1086, 32, 1089]),
     ([1089, 1080, 1084, 1074, 1086, 1083, 1080, 1079, 1080, 1088, 1091, 1077, 1090],
      [1084, 1086, 1078, 1077, 1090, 32, 1073, 1099, 1090, 1100, 32, 1089, 1074, 1103, 1079, 1072, 1085,
       1086, 32, 1089]),
     ([1076, 1086, 1082, 1072, 1079, 1099, 1074, 1072, 1077, 1090],
      [1084, 1086, 1078, 1077, 1090, 32, 1091, 1082, 1072, 1079, 1099, 1074, 1072, 1090, 1100, 32, 1085,
       1072]),
     ([1091, 1082, 1072, 1079, 1099, 1074, 1072, 1077, 1090, 32, 1085, 1072],
      [1084, 1086, 1078, 1077, 1090, 32, 1073, 1099, 1090, 1100, 32, 1089, 1074, 1103, 1079, 1072, 1085,
       1086, 32, 1089]),
     ([1075, 1083, 1072, 1074, 1085, 1099, 1081, 32, 1089, 1084, 1099, 1089, 1083, 32, 1089, 1085, 1072],
      [1086, 1076, 1080, 1085, 32, 1080, 1079, 32, 1074, 1086, 1079, 1084, 1086, 1078, 1085, 1099, 1093,
       32, 1088, 1072, 1082, 1091, 1088, 1089, 1086, 1074]),
     ([1086, 1089, 1085, 1086, 1074, 1085, 1086, 1077, 32, 1079, 1085, 1072, 1095, 1077, 1085, 1080,
       1077],
      [1086, 1076, 1080, 1085, 32, 1080, 1079, 32, 1074, 1086, 1079, 1084, 1086, 1078, 1085, 1099, 1093,
       32, 1088, 1072, 1082, 1091, 1088, 1089, 1086, 1074])]"

fun ci_prefix :: "unicode \<Rightarrow> ustr \<Rightarrow> ustr \<Rightarrow> bool" where
  "ci_prefix u [] s = True"
| "ci_prefix u (p # ps) [] = False"
| "ci_prefix u (p # ps) (c # s) = (uc_ieq u p c \<and> ci_prefix u ps s)"

definition boundary :: "unicode \<Rightarrow> nat option \<Rightarrow> nat option \<Rightarrow> bool" where
  "boundary u a b \<longleftrightarrow> word_opt u a \<noteq> word_opt u b"

text \<open>\<open>re.sub(r"\bphrase\b", by, text, flags=re.IGNORECASE)\<close>, for a phrase that is not empty.\<close>

function re_sub :: "unicode \<Rightarrow> ustr \<Rightarrow> ustr \<Rightarrow> nat option \<Rightarrow> ustr \<Rightarrow> ustr" where
  "re_sub u p by_text prev s =
     (case s of
        [] \<Rightarrow> []
      | c # cs \<Rightarrow>
          if p \<noteq> [] \<and> ci_prefix u p (c # cs) \<and> boundary u prev (Some c)
             \<and> boundary u (Some (last (take (length p) (c # cs)))) (head_opt (drop (length p) (c # cs)))
          then by_text @ re_sub u p by_text (Some (last (take (length p) (c # cs)))) (drop (length p) (c # cs))
          else c # re_sub u p by_text (Some c) cs)"
  by pat_completeness auto
termination
  by (relation "measure (\<lambda>(u, p, b, prev, s). length s)") auto

declare re_sub.simps [simp del]

definition sanitize_text :: "unicode \<Rightarrow> ustr \<Rightarrow> ustr" where
  "sanitize_text u text =
     (let result = strip u text in
      if result = [] then []
      else strip u (normalize_ws u (fold (\<lambda>(p, by_text) t. re_sub u p by_text None t) REPLACEMENTS result)))"

definition as_question :: "unicode \<Rightarrow> ustr \<Rightarrow> ustr" where
  "as_question u text =
     (let v = rev (dropWhile (\<lambda>c. c \<in> {46, 33}) (rev (strip u text))) in
      if v = [] then [] else if ends_with v [63] then v else v @ [63])"

definition build_structure :: "unicode \<Rightarrow> DreamAnalysisV1 \<Rightarrow> ustr list" where
  "build_structure u a =
     (let summary = sanitize_text u (da_summary a);
          names = join (ascii '', '') (filter (\<lambda>t. strip u t \<noteq> []) (map sy_symbol (da_symbols a)));
          primary = strip u (em_primary (da_emotional_state a));
          secondary = strip u (em_secondary (da_emotional_state a));
          archetypes = filter (\<lambda>t. t \<noteq> []) (map (strip u) (ju_archetypes (da_jungian_interpretation a)));
          lines = (if summary \<noteq> [] then [[45, 32, 1050, 1083, 1102, 1095, 1077, 1074, 1099, 1077, 32, 1086, 1073, 1088, 1072, 1079, 1099,
       32, 1080, 32, 1089, 1094, 1077, 1085, 1099, 58, 32] @ summary] else [])
            @ (if da_symbols a \<noteq> [] \<and> names \<noteq> []
               then [[45, 32, 1054, 1090, 1084, 1077, 1095, 1077, 1085, 1085, 1099, 1077, 32, 1086, 1073, 1088, 1072,
       1079, 1099, 58, 32] @ names @ ascii ''.''] else [])
            @ (if primary = [] then []
               else if secondary \<noteq> []
               then [[45, 32, 1069, 1084, 1086, 1094, 1080, 1086, 1085, 1072, 1083, 1100, 1085, 1099, 1081, 32, 1092,
       1086, 1085, 58, 32] @ primary
                 @ [59, 32, 1088, 1103, 1076, 1086, 1084, 32, 1084, 1086, 1078, 1077, 1090, 32, 1079, 1074, 1091,
       1095, 1072, 1090, 1100, 32] @ secondary @ ascii ''.'']
               else [[45, 32, 1069, 1084, 1086, 1094, 1080, 1086, 1085, 1072, 1083, 1100, 1085, 1099, 1081, 32, 1092,
       1086, 1085, 58, 32] @ primary @ ascii ''.''])
            @ (if archetypes \<noteq> []
               then [[45, 32, 1054, 1090, 1084, 1077, 1095, 1077, 1085, 1085, 1099, 1077, 32, 1084, 1086, 1090, 1080,
       1074, 1099, 32, 1074, 32, 1079, 1072, 1087, 1080, 1089, 1080, 58, 32] @ join (ascii '', '') archetypes @ ascii ''.''] else [])
      in if lines \<noteq> [] then lines
         else [[45, 32, 1042, 32, 1090, 1077, 1082, 1091, 1097, 1077, 1081, 32, 1079, 1072, 1087, 1080, 1089,
       1080, 32, 1087, 1086, 1082, 1072, 32, 1085, 1077, 1076, 1086, 1089, 1090, 1072, 1090, 1086, 1095,
       1085, 1086, 32, 1089, 1090, 1088, 1091, 1082, 1090, 1091, 1088, 1085, 1099, 1093, 32, 1076, 1077,
       1090, 1072, 1083, 1077, 1081, 32, 1076, 1083, 1103, 32, 1074, 1099, 1074, 1086, 1076, 1072, 46]])"

fun number_directions :: "nat \<Rightarrow> ustr list \<Rightarrow> ustr list" where
  "number_directions idx [] = []"
| "number_directions idx (t # ts) =
     ((if idx = 0 then [45, 32, 1052, 1086, 1078, 1085, 1086, 32, 1088, 1072, 1089, 1089, 1084, 1086, 1090, 1088, 1077,
       1090, 1100, 58, 32]
       else if idx = 1 then [45, 32, 1052, 1086, 1078, 1077, 1090, 32, 1073, 1099, 1090, 1100, 32, 1089, 1074, 1103, 1079,
       1072, 1085, 1086, 32, 1089, 32, 1090, 1077, 1084, 44, 32, 1095, 1090, 1086, 58, 32]
       else [45, 32, 1048, 1085, 1086, 1075, 1076, 1072, 32, 1090, 1072, 1082, 1080, 1077, 32, 1086, 1073,
       1088, 1072, 1079, 1099, 32, 1087, 1086, 1103, 1074, 1083, 1103, 1102, 1090, 1089, 1103, 32, 1082,
       1086, 1075, 1076, 1072, 58, 32]) @ t)
     # number_directions (Suc idx) ts"

definition build_directions :: "unicode \<Rightarrow> DreamAnalysisV1 \<Rightarrow> ustr list" where
  "build_directions u a =
     (let candidates = filter (\<lambda>t. t \<noteq> []) (map (sanitize_text u)
            ([da_narrative_interpretation a, da_key_insight a, ju_individuation_hint (da_jungian_interpretation a)]
             @ map sy_meaning (da_symbols a)));
          directions = number_directions 0 (take 3 candidates)
      in if directions \<noteq> [] then directions
         else [[45, 32, 1052, 1086, 1078, 1085, 1086, 32, 1088, 1072, 1089, 1089, 1084, 1086, 1090, 1088, 1077,
       1090, 1100, 44, 32, 1082, 1072, 1082, 1080, 1077, 32, 1087, 1077, 1088, 1077, 1078, 1080, 1074,
       1072, 1085, 1080, 1103, 32, 1074, 32, 1101, 1090, 1086, 1084, 32, 1089, 1085, 1077, 32, 1082,
       1072, 1078, 1091, 1090, 1089, 1103, 32, 1085, 1072, 1080, 1073, 1086, 1083, 1077, 1077, 32, 1078,
       1080, 1074, 1099, 1084, 1080, 46],
               [45, 32, 1052, 1086, 1078, 1077, 1090, 32, 1073, 1099, 1090, 1100, 32, 1089, 1074, 1103, 1079,
       1072, 1085, 1086, 32, 1089, 32, 1090, 1077, 1082, 1091, 1097, 1080, 1084, 1080, 32, 1074, 1085,
       1091, 1090, 1088, 1077, 1085, 1085, 1080, 1084, 1080, 32, 1087, 1088, 1086, 1090, 1080, 1074,
       1086, 1088, 1077, 1095, 1080, 1103, 1084, 1080, 44, 32, 1077, 1089, 1083, 1080, 32, 1101, 1090,
       1086, 32, 1086, 1090, 1082, 1083, 1080, 1082, 1072, 1077, 1090, 1089, 1103, 46]])"

fun add_fallbacks :: "bool \<Rightarrow> ustr list \<Rightarrow> ustr list \<Rightarrow> ustr list" where
  "add_fallbacks has_notes questions [] = questions"
| "add_fallbacks has_notes questions (f # fs) =
     (if length questions \<ge> 4 then questions
      else if length questions \<ge> 2 \<and> has_notes then questions
      else add_fallbacks has_notes (questions @ [f]) fs)"

definition fallback_pool :: "ustr \<Rightarrow> ustr list" where
  "fallback_pool symbol =
     [[1063, 1090, 1086, 32, 1074, 32, 1101, 1090, 1086, 1084, 32, 1089, 1085, 1077, 32, 1089, 1077,
       1081, 1095, 1072, 1089, 32, 1086, 1090, 1082, 1083, 1080, 1082, 1072, 1077, 1090, 1089, 1103, 32,
       1089, 1080, 1083, 1100, 1085, 1077, 1077, 32, 1074, 1089, 1077, 1075, 1086, 63],
      [1050, 1072, 1082, 1072, 1103, 32, 1095, 1072, 1089, 1090, 1100, 32, 1089, 1085, 1072, 32, 1074,
       1099, 1079, 1099, 1074, 1072, 1077, 1090, 32, 1073, 1086, 1083, 1100, 1096, 1077, 32, 1085, 1072,
       1087, 1088, 1103, 1078, 1077, 1085, 1080, 1103, 32, 1080, 1083, 1080, 32, 1080, 1085, 1090, 1077,
       1088, 1077, 1089, 1072, 63],
      (if symbol \<noteq> [] then [1057, 32, 1095, 1077, 1084, 32, 1091, 32, 1074, 1072, 1089, 32, 1089, 1077, 1081, 1095, 1072,
       1089, 32, 1084, 1086, 1078, 1077, 1090, 32, 1072, 1089, 1089, 1086, 1094, 1080, 1080, 1088, 1086,
       1074, 1072, 1090, 1100, 1089, 1103, 32, 1086, 1073, 1088, 1072, 1079, 32, 171] @ symbol @ [187, 63]
       else [1050, 1072, 1082, 1080, 1077, 32, 1086, 1073, 1088, 1072, 1079, 1099, 32, 1080, 1079, 32, 1089,
       1085, 1072, 32, 1093, 1086, 1095, 1077, 1090, 1089, 1103, 32, 1080, 1089, 1089, 1083, 1077, 1076,
       1086, 1074, 1072, 1090, 1100, 32, 1076, 1072, 1083, 1100, 1096, 1077, 63]),
      [1050, 1072, 1082, 1086, 1081, 32, 1074, 1086, 1087, 1088, 1086, 1089, 32, 1082, 32, 1089, 1077,
       1073, 1077, 32, 1093, 1086, 1095, 1077, 1090, 1089, 1103, 32, 1086, 1089, 1090, 1072, 1074, 1080,
       1090, 1100, 32, 1086, 1090, 1082, 1088, 1099, 1090, 1099, 1084, 32, 1087, 1086, 1089, 1083, 1077,
       32, 1101, 1090, 1086, 1075, 1086, 32, 1089, 1085, 1072, 63]]"

definition build_questions :: "unicode \<Rightarrow> DreamAnalysisV1 \<Rightarrow> ustr list" where
  "build_questions u a =
     (let questions = filter (\<lambda>q. q \<noteq> []) (map (\<lambda>n. as_question u (sanitize_text u n)) (da_uncertainty_notes a));
          symbol = (case da_symbols a of [] \<Rightarrow> [] | x # _ \<Rightarrow> strip u (sy_symbol x))
      in take 4 (add_fallbacks (da_uncertainty_notes a \<noteq> []) questions (fallback_pool symbol)))"

definition build_context :: "DreamAnalysisV1 \<Rightarrow> ustr list" where
  "build_context a = [[45, 32, 1055, 1086, 1082, 1072, 32, 1085, 1077, 1090, 32, 1089, 1086, 1093, 1088, 1072, 1085,
       1105, 1085, 1085, 1099, 1093, 32, 1087, 1086, 1074, 1090, 1086, 1088, 1103, 1102, 1097, 1080,
       1093, 1089, 1103, 32, 1084, 1086, 1090, 1080, 1074, 1086, 1074, 32, 1074, 32, 1101, 1090, 1086,
       1081, 32, 1089, 1077, 1089, 1089, 1080, 1080, 46]]"

record DreamReflectionResponse =
  rf_dream_structure :: "ustr list"
  rf_reflection_directions :: "ustr list"
  rf_questions :: "ustr list"
  rf_dream_context :: "ustr list"

definition transform :: "unicode \<Rightarrow> DreamAnalysisV1 \<Rightarrow> DreamReflectionResponse" where
  "transform u a = \<lparr>rf_dream_structure = build_structure u a, rf_reflection_directions = build_directions u a,
     rf_questions = build_questions u a, rf_dream_context = build_context a\<rparr>"

subsection \<open>The Telegram text\<close>

definition render_lines :: "ustr list \<Rightarrow> ustr" where
  "render_lines xs = (if xs \<noteq> [] then join [NL] xs else [8212])"

definition format_analysis_message :: "unicode \<Rightarrow> pydantic \<Rightarrow> session_analysis \<Rightarrow> exn + ustr" where
  "format_analysis_message u pd x =
     (case dream_model_validate u pd (sa_analysis_json x) of
        Inl e \<Rightarrow> Inl e
      | Inr a \<Rightarrow>
          let r = transform u a in
          Inr ([129504, 32, 1040, 1085, 1072, 1083, 1080, 1079, 32, 1089, 1085, 1072] @ [NL, NL]
            @ [49, 41, 32, 1057, 1090, 1088, 1091, 1082, 1090, 1091, 1088, 1072, 32, 1089, 1085, 1072] @ [NL] @ render_lines (rf_dream_structure r) @ [NL, NL]
            @ [50, 41, 32, 1042, 1086, 1079, 1084, 1086, 1078, 1085, 1099, 1077, 32, 1085, 1072, 1087, 1088,
       1072, 1074, 1083, 1077, 1085, 1080, 1103, 32, 1086, 1089, 1084, 1099, 1089, 1083, 1077, 1085,
       1080, 1103] @ [NL] @ render_lines (rf_reflection_directions r) @ [NL, NL]
            @ [51, 41, 32, 1042, 1086, 1087, 1088, 1086, 1089, 1099, 32, 1087, 1086, 1083, 1100, 1079, 1086,
       1074, 1072, 1090, 1077, 1083, 1102] @ [NL] @ render_lines (map (\<lambda>q. ascii ''- '' @ q) (rf_questions r)) @ [NL, NL]
            @ [52, 41, 32, 1050, 1086, 1085, 1090, 1077, 1082, 1089, 1090, 32, 1089, 1085, 1072] @ [NL] @ render_lines (rf_dream_context r)))"

subsection \<open>Legacy presentation\<close>

record LegacyAnalysisPayload =
  lg_interpretation :: ustr
  lg_themes :: "ustr list"
  lg_questions_for_user :: "ustr list"

text \<open>\<open>list(dict.fromkeys(xs))\<close>: first occurrences, in order.\<close>

definition from_keys :: "'a list \<Rightarrow> 'a list" where
  "from_keys xs = rev (remdups (rev xs))"

definition legacy_map :: "unicode \<Rightarrow> DreamAnalysisV1 \<Rightarrow> LegacyAnalysisPayload" where
  "legacy_map u a =
     (let narrative = strip u (da_narrative_interpretation a);
          i1 = (if narrative \<noteq> [] then narrative else strip u (da_summary a));
          interpretation = (if i1 = [] then strip u (da_key_insight a) else i1);
          themes = from_keys (map sy_symbol (da_symbols a) @ ju_archetypes (da_jungian_interpretation a));
          notes = da_uncertainty_notes a;
          questions = (if notes = [] \<and> strip u (da_key_insight a) \<noteq> [] then [strip u (da_key_insight a)] else notes)
      in \<lparr>lg_interpretation = interpretation, lg_themes = themes, lg_questions_for_user = questions\<rparr>)"

definition to_legacy_presentation :: "unicode \<Rightarrow> pydantic \<Rightarrow> json \<Rightarrow> exn + LegacyAnalysisPayload" where
  "to_legacy_presentation u pd v = (case dream_model_validate u pd v of Inl e \<Rightarrow> Inl e | Inr a \<Rightarrow> Inr (legacy_map u a))"

subsection \<open>The history of a session\<close>

record SessionAnalysisSchema =
  as_id :: uuid
  as_session_id :: uuid
  as_thread_id :: uuid
  as_user_id :: int
  as_provider :: ustr
  as_model :: ustr
  as_prompt_version :: string
  as_analysis_version :: string
  as_analysis_json :: LegacyAnalysisPayload
  as_raw_response :: "ustr option"
  as_is_latest :: bool
  as_continuation_index :: nat
  as_created_at :: time

record SessionAnalysisItemSchema =
  it_id :: uuid
  it_created_at :: time
  it_is_latest :: bool
  it_continuation_index :: nat
  it_provider :: ustr
  it_model :: ustr
  it_prompt_version :: string
  it_analysis_version :: string
  it_analysis_json :: LegacyAnalysisPayload
  it_raw_response :: "ustr option"

record SessionAnalysisThreadGroupSchema =
  gr_thread_id :: uuid
  gr_status :: string
  gr_analyses :: "SessionAnalysisItemSchema list"

record SessionAnalysisHistorySchema =
  hi_session_id :: uuid
  hi_threads :: "SessionAnalysisThreadGroupSchema list"

definition build_session_analysis_schema :: "unicode \<Rightarrow> pydantic \<Rightarrow> session_analysis \<Rightarrow> exn + SessionAnalysisSchema" where
  "build_session_analysis_schema u pd a =
     bindE (to_legacy_presentation u pd (sa_analysis_json a)) (\<lambda>l.
     Inr \<lparr>as_id = sa_id a, as_session_id = sa_session_id a, as_thread_id = sa_thread_id a, as_user_id = sa_user_id
       a, as_provider = sa_provider a, as_model = sa_model a, as_prompt_version = sa_prompt_version a,
       as_analysis_version = sa_analysis_version a, as_analysis_json = l, as_raw_response = sa_raw_response a,
       as_is_latest = sa_is_latest a, as_continuation_index = sa_continuation_index a, as_created_at =
       sa_created_at a\<rparr>)"

definition build_session_analysis_item_schema :: "unicode \<Rightarrow> pydantic \<Rightarrow> session_analysis \<Rightarrow> exn + SessionAnalysisItemSchema" where
  "build_session_analysis_item_schema u pd a =
     bindE (to_legacy_presentation u pd (sa_analysis_json a)) (\<lambda>l.
     Inr \<lparr>it_id = sa_id a, it_created_at = sa_created_at a, it_is_latest = sa_is_latest a,
       it_continuation_index = sa_continuation_index a, it_provider = sa_provider a, it_model = sa_model a,
       it_prompt_version = sa_prompt_version a, it_analysis_version = sa_analysis_version a,
       it_analysis_json = l, it_raw_response = sa_raw_response a\<rparr>)"

definition get_session_analysis :: "uuid \<Rightarrow> session_analysis option db" where
  "get_session_analysis sid = getsM (\<lambda>s. first_row (sort_key
     (\<lambda>a. (- sa_created_at a, - int (sa_continuation_index a), - int (sa_id a)))
     (filter (\<lambda>a. sa_session_id a = sid) (analyses s))))"

definition list_session_analyses :: "uuid \<Rightarrow> session_analysis list db" where
  "list_session_analyses sid = getsM (\<lambda>s. sort_key (\<lambda>a. (sa_thread_id a, sa_created_at a))
     (filter (\<lambda>a. sa_session_id a = sid) (analyses s)))"

definition list_session_threads :: "uuid \<Rightarrow> analysis_thread list db" where
  "list_session_threads sid = getsM (\<lambda>s. sort_key th_created_at (filter (\<lambda>t. th_session_id t = sid) (threads s)))"

text \<open>\<open>grouped\<close>: a dictionary in insertion order; \<open>thread_status.get(thread_id, ..)\<close>: the last thread of that id.\<close>

definition grouped :: "session_analysis list \<Rightarrow> (uuid \<times> session_analysis list) list" where
  "grouped xs = map (\<lambda>k. (k, filter (\<lambda>a. sa_thread_id a = k) xs)) (from_keys (map sa_thread_id xs))"

definition thread_status :: "analysis_thread list \<Rightarrow> uuid \<Rightarrow> string" where
  "thread_status ts k = (case find (\<lambda>t. th_id t = k) (rev ts) of None \<Rightarrow> THREAD_STATUS_ACTIVE | Some t \<Rightarrow> th_status t)"

definition build_group ::
  "unicode \<Rightarrow> pydantic \<Rightarrow> analysis_thread list \<Rightarrow> uuid \<times> session_analysis list \<Rightarrow> exn + (time \<times> SessionAnalysisThreadGroupSchema)" where
  "build_group u pd ts g =
     (let rows = sort_key sa_created_at (snd g) in
      bindE (mapE (build_session_analysis_item_schema u pd) rows) (\<lambda>items.
      Inr (sa_created_at (last rows), \<lparr>gr_thread_id = fst g, gr_status = thread_status ts (fst g), gr_analyses = items\<rparr>)))"

definition get_session_analysis_history ::
  "unicode \<Rightarrow> pydantic \<Rightarrow> uuid \<Rightarrow> SessionAnalysisHistorySchema db" where
  "get_session_analysis_history u pd sid =
     bindM (list_session_analyses sid) (\<lambda>xs.
     bindM (list_session_threads sid) (\<lambda>ts.
     bindM (liftM (mapE (build_group u pd ts) (grouped xs))) (\<lambda>groups.
     returnM \<lparr>hi_session_id = sid, hi_threads = map snd (sort_key (\<lambda>g. - fst g) groups)\<rparr>)))"

subsection \<open>Properties\<close>

lemma from_keys_set [simp]: "set (from_keys xs) = set xs" and distinct_from_keys [simp]: "distinct (from_keys xs)"
  by (simp_all add: from_keys_def)

lemma length_number_directions [simp]: "length (number_directions i xs) = length xs"
  by (induction xs arbitrary: i) simp_all

lemma add_fallbacks_two: "2 \<le> length q + length fs \<Longrightarrow> 2 \<le> length (add_fallbacks b q fs)"
  by (induction fs arbitrary: q) auto

lemma add_fallbacks_four: "4 \<le> length q + length fs \<Longrightarrow> 4 \<le> length (add_fallbacks False q fs)"
  by (induction fs arbitrary: q) auto

lemma add_fallbacks_set: "set (add_fallbacks b q fs) \<subseteq> set q \<union> set fs"
proof (induction fs arbitrary: q)
  case (Cons f fs)
  from Cons.IH [of "q @ [f]"] show ?case by auto
qed simp

lemma as_question_ends: "as_question u t \<noteq> [] \<Longrightarrow> ends_with (as_question u t) [63]"
proof -
  define v where "v = rev (dropWhile (\<lambda>c. c \<in> {46, 33}) (rev (strip u t)))"
  have "as_question u t = (if v = [] then [] else if ends_with v [63] then v else v @ [63])"
    by (simp only: as_question_def Let_def v_def)
  then show "as_question u t \<noteq> [] \<Longrightarrow> ends_with (as_question u t) [63]"
    by (auto simp: ends_with_def split: if_splits)
qed

lemma fallback_pool_ends: "set (fallback_pool t) \<subseteq> {q. ends_with q [63]}"
  by (auto simp: fallback_pool_def ends_with_def)

text \<open>C40. Whatever the model answered, a reflection is complete: it has a structure, one to three
  directions, two to four questions (exactly four if the analysis names no uncertainty), and every
  question ends with a question mark.\<close>

theorem reflection_is_complete:
  "rf_dream_structure (transform u a) \<noteq> []
    \<and> length (rf_reflection_directions (transform u a)) \<in> {1..3}
    \<and> length (rf_questions (transform u a)) \<in> (if da_uncertainty_notes a = [] then {4} else {2..4})
    \<and> set (rf_questions (transform u a)) \<subseteq> {q. ends_with q [63]}"
proof -
  let ?notes = "filter (\<lambda>q. q \<noteq> []) (map (\<lambda>n. as_question u (sanitize_text u n)) (da_uncertainty_notes a))"
  let ?all = "\<lambda>t. add_fallbacks (da_uncertainty_notes a \<noteq> []) ?notes (fallback_pool t)"
  have pool: "length (fallback_pool t) = 4" for t by (simp add: fallback_pool_def)
  have two: "2 \<le> length (?all t)" for t by (rule add_fallbacks_two) (simp add: pool)
  have four: "4 \<le> length (?all t)" if "da_uncertainty_notes a = []" for t
    using add_fallbacks_four [of ?notes "fallback_pool t"] that pool by simp
  have "set ?notes \<subseteq> {q. ends_with q [63]}" using as_question_ends by auto
  then have ends: "set (take 4 (?all t)) \<subseteq> {q. ends_with q [63]}" for t
    using set_take_subset [of 4 "?all t"] add_fallbacks_set [of "da_uncertainty_notes a \<noteq> []" ?notes "fallback_pool t"]
      fallback_pool_ends [of t] by blast
  have "build_structure u a \<noteq> []" by (simp add: build_structure_def Let_def)
  moreover have "length (build_directions u a) \<in> {1..3}"
    by (auto simp: build_directions_def Let_def Suc_le_eq)
  moreover have "length (build_questions u a) \<in> (if da_uncertainty_notes a = [] then {4} else {2..4})"
    using two four by (cases "da_uncertainty_notes a = []") (simp_all add: build_questions_def Let_def)
  moreover have "set (build_questions u a) \<subseteq> {q. ends_with q [63]}"
    using ends by (simp add: build_questions_def Let_def)
  ultimately show ?thesis by (simp add: transform_def)
qed

lemma item_Inr:
  "build_session_analysis_item_schema u pd a = Inr i \<Longrightarrow> it_id i = sa_id a \<and> it_created_at i = sa_created_at a"
  by (auto simp: build_session_analysis_item_schema_def bindE_Inr)

lemma items_Inr:
  "mapE (build_session_analysis_item_schema u pd) rows = Inr items \<Longrightarrow>
    map it_id items = map sa_id rows \<and> map it_created_at items = map sa_created_at rows"
  by (induction rows arbitrary: items) (auto simp: bindE_Inr dest: item_Inr)

lemma mset_partition:
  assumes "distinct ks" and "f ` set xs \<subseteq> set ks"
  shows "mset (concat (map (\<lambda>k. filter (\<lambda>a. f a = k) xs) ks)) = mset xs"
  using assms(2)
proof (induction xs)
  case Nil
  have "concat (map (\<lambda>k. filter (\<lambda>a. f a = k) []) ks) = []" by (induction ks) simp_all
  then show ?case by simp
next
  case (Cons x xs)
  have split: "mset (concat (map (\<lambda>k. filter (\<lambda>a. f a = k) ys) ks)) = (\<Sum>k \<in> set ks. mset (filter (\<lambda>a. f a = k) ys))" for ys
    using assms(1) by (simp add: mset_concat comp_def sum_list_distinct_conv_sum_set)
  have "mset (concat (map (\<lambda>k. filter (\<lambda>a. f a = k) (x # xs)) ks))
      = (\<Sum>k \<in> set ks. mset (filter (\<lambda>a. f a = k) (x # xs)))"
    by (rule split)
  also have "\<dots> = (\<Sum>k \<in> set ks. (if f x = k then {#x#} else {#}) + mset (filter (\<lambda>a. f a = k) xs))"
    by (rule sum.cong) auto
  also have "\<dots> = {#x#} + (\<Sum>k \<in> set ks. mset (filter (\<lambda>a. f a = k) xs))"
    using Cons.prems by (simp add: sum.distrib)
  also have "(\<Sum>k \<in> set ks. mset (filter (\<lambda>a. f a = k) xs)) = mset xs"
    unfolding split [symmetric] by (rule Cons.IH) (use Cons.prems in simp)
  also have "{#x#} + mset xs = mset (x # xs)" by simp
  finally show ?case .
qed

lemma sum_list_image_mset:
  "sum_list (map (\<lambda>g. mset (map f (snd g))) gs) = image_mset f (mset (concat (map snd gs)))"
  by (induction gs) simp_all

lemma mset_grouped: "mset (concat (map snd (grouped xs))) = mset xs"
  using mset_partition [of "from_keys (map sa_thread_id xs)" sa_thread_id xs] by (simp add: grouped_def comp_def)

lemma build_group_Inr:
  assumes "build_group u pd ts g = Inr (t, gr)"
  shows "gr_thread_id gr = fst g" and "mset (map it_id (gr_analyses gr)) = mset (map sa_id (snd g))"
    and "map it_created_at (gr_analyses gr) = map sa_created_at (sort_key sa_created_at (snd g))"
    and "t = sa_created_at (last (sort_key sa_created_at (snd g)))"
proof -
  obtain items where items: "mapE (build_session_analysis_item_schema u pd) (sort_key sa_created_at (snd g)) = Inr items"
    and gr: "t = sa_created_at (last (sort_key sa_created_at (snd g)))" "gr_thread_id gr = fst g" "gr_analyses gr = items"
    using assms by (auto simp: build_group_def Let_def bindE_Inr)
  note eqs = items_Inr [OF items]
  show "gr_thread_id gr = fst g" "t = sa_created_at (last (sort_key sa_created_at (snd g)))"
    "map it_created_at (gr_analyses gr) = map sa_created_at (sort_key sa_created_at (snd g))"
    using gr eqs by simp_all
  show "mset (map it_id (gr_analyses gr)) = mset (map sa_id (snd g))"
    using eqs gr(3) by (metis mset_map mset_sort)
qed

text \<open>The history of a session shows every stored analysis of the session exactly once and nothing
  else, without changing anything: one group per thread, within a group from the oldest to the newest
  analysis, the groups from the one with the newest analysis downwards.\<close>

theorem history_lists_every_analysis_once:
  assumes "get_session_analysis_history u pd sid s = (Inr h, s')"
  shows "s' = s
    \<and> mset (map it_id (concat (map gr_analyses (hi_threads h)))) = mset (map sa_id (filter (\<lambda>a. sa_session_id a = sid) (analyses s)))
    \<and> distinct (map gr_thread_id (hi_threads h))
    \<and> (\<forall>g \<in> set (hi_threads h). gr_analyses g \<noteq> [] \<and> sorted (map it_created_at (gr_analyses g))
        \<and> it_id ` set (gr_analyses g) \<subseteq> sa_id ` {a \<in> set (analyses s). sa_session_id a = sid \<and> sa_thread_id a = gr_thread_id g})
    \<and> sorted (map (\<lambda>g. - it_created_at (last (gr_analyses g))) (hi_threads h))"
proof -
  let ?rows = "filter (\<lambda>a. sa_session_id a = sid) (analyses s)"
  define xs where "xs = sort_key (\<lambda>a. (sa_thread_id a, sa_created_at a)) ?rows"
  define ts where "ts = sort_key th_created_at (filter (\<lambda>t. th_session_id t = sid) (threads s))"
  obtain groups where groups: "mapE (build_group u pd ts) (grouped xs) = Inr groups"
    and h: "hi_threads h = map snd (sort_key (\<lambda>g. - fst g) groups)" and s': "s' = s"
    using assms
    by (auto simp: get_session_analysis_history_def list_session_analyses_def list_session_threads_def run xs_def ts_def
        split: sum.splits)
  have all2: "list_all2 (\<lambda>g p. build_group u pd ts g = Inr p) (grouped xs) groups"
    using groups by (simp add: mapE_Inr)
  have ids: "map (gr_thread_id \<circ> snd) groups = map fst (grouped xs)"
    and items: "map (\<lambda>p. mset (map it_id (gr_analyses (snd p)))) groups = map (\<lambda>g. mset (map sa_id (snd g))) (grouped xs)"
    using all2 by (induction rule: list_all2_induct) (auto dest: build_group_Inr)
  have sorted_mset: "mset (map snd (sort_key (\<lambda>g. - fst g) groups)) = mset (map snd groups)" by simp
  have each: "gr_analyses gr \<noteq> [] \<and> sorted (map it_created_at (gr_analyses gr)) \<and> t = it_created_at (last (gr_analyses gr))
      \<and> it_id ` set (gr_analyses gr) \<subseteq> sa_id ` {a \<in> set (analyses s). sa_session_id a = sid \<and> sa_thread_id a = gr_thread_id gr}"
    if mem: "(t, gr) \<in> set groups" for t gr
  proof -
    obtain g where g: "g \<in> set (grouped xs)" "build_group u pd ts g = Inr (t, gr)"
      using list_all2_rightD [OF all2 mem] by blast
    note gr = build_group_Inr [OF g(2)]
    have snd_g: "snd g = filter (\<lambda>a. sa_thread_id a = fst g) xs" "fst g \<in> sa_thread_id ` set xs"
      using g(1) by (auto simp: grouped_def)
    then have ne: "sort_key sa_created_at (snd g) \<noteq> []"
      by (metis (mono_tags, lifting) filter_empty_conv imageE length_0_conv length_sort)
    then have ne': "gr_analyses gr \<noteq> []" using gr(3) by (metis map_is_Nil_conv)
    moreover have "sorted (map it_created_at (gr_analyses gr))" by (simp add: gr(3))
    moreover have "t = it_created_at (last (gr_analyses gr))"
      using gr(3, 4) ne ne' by (metis last_map)
    moreover have "it_id ` set (gr_analyses gr) = sa_id ` set (snd g)"
      using arg_cong [OF gr(2), of set_mset] by simp
    moreover have "set (snd g) \<subseteq> {a \<in> set (analyses s). sa_session_id a = sid \<and> sa_thread_id a = gr_thread_id gr}"
      using snd_g gr(1) by (auto simp: xs_def)
    ultimately show ?thesis by blast
  qed
  have "mset (map it_id (concat (map gr_analyses gs))) = sum_mset (image_mset (\<lambda>g. mset (map it_id (gr_analyses g))) (mset gs))" for gs
    by (induction gs) simp_all
  then have "mset (map it_id (concat (map gr_analyses (hi_threads h)))) = sum_mset (image_mset (\<lambda>g. mset (map it_id (gr_analyses g))) (mset (hi_threads h)))" .
  also have "mset (hi_threads h) = mset (map snd groups)" by (simp only: h sorted_mset)
  also have "sum_mset (image_mset (\<lambda>g. mset (map it_id (gr_analyses g))) (mset (map snd groups)))
      = sum_list (map (\<lambda>p. mset (map it_id (gr_analyses (snd p)))) groups)"
    by (induction groups) simp_all
  also have "\<dots> = image_mset sa_id (mset (concat (map snd (grouped xs))))"
    unfolding items by (rule sum_list_image_mset)
  finally have "mset (map it_id (concat (map gr_analyses (hi_threads h)))) = mset (map sa_id ?rows)"
    by (simp add: mset_grouped xs_def)
  moreover have "distinct (map gr_thread_id (hi_threads h))"
  proof -
    have "distinct (map (gr_thread_id \<circ> snd) groups)" unfolding ids by (simp add: grouped_def comp_def)
    moreover have "mset (map gr_thread_id (hi_threads h)) = mset (map (gr_thread_id \<circ> snd) groups)"
      by (simp add: h multiset.map_comp)
    ultimately show ?thesis using mset_eq_imp_distinct_iff by blast
  qed
  moreover have "sorted (map (\<lambda>g. - it_created_at (last (gr_analyses g))) (hi_threads h))"
  proof -
    have "map (\<lambda>g. - it_created_at (last (gr_analyses g))) (hi_threads h) = map (\<lambda>g. - fst g) (sort_key (\<lambda>g. - fst g) groups)"
      unfolding h map_map by (rule map_cong) (use each in auto)
    then show ?thesis by simp
  qed
  moreover have "gr_analyses g \<noteq> [] \<and> sorted (map it_created_at (gr_analyses g))
        \<and> it_id ` set (gr_analyses g) \<subseteq> sa_id ` {a \<in> set (analyses s). sa_session_id a = sid \<and> sa_thread_id a = gr_thread_id g}"
    if g: "g \<in> set (hi_threads h)" for g
  proof -
    obtain t where "(t, g) \<in> set groups" using g by (auto simp: h)
    then show ?thesis using each by blast
  qed
  ultimately show ?thesis using s' by blast
qed

definition shown_world :: world where
  "shown_world = empty_world\<lparr>analyses := [built_row (sample_prepared\<lparr>pr_analysis_json := dump_dream_analysis sample_analysis\<rparr>) 0 5 10]\<rparr>"

lemma sample_analysis_presented:
  "to_legacy_presentation basic_unicode basic_pydantic (dump_dream_analysis sample_analysis) = Inr (legacy_map basic_unicode sample_analysis)"
proof -
  have "unit_interval (em_intensity (da_emotional_state sample_analysis))" by code_simp
  moreover have "symbols_required_when_interpretation_exists basic_unicode sample_analysis" by code_simp
  ultimately show ?thesis
    by (simp add: to_legacy_presentation_def dream_model_validate_def basic_pd.read_dump_dream)
qed

theorem history_lists_every_analysis_once_witness:
  "\<exists>h. get_session_analysis_history basic_unicode basic_pydantic 7 shown_world = (Inr h, shown_world)
    \<and> map it_id (concat (map gr_analyses (hi_threads h))) = [5]"
proof -
  let ?row = "built_row (sample_prepared\<lparr>pr_analysis_json := dump_dream_analysis sample_analysis\<rparr>) 0 5 10"
  have json: "sa_analysis_json ?row = dump_dream_analysis sample_analysis" and sid: "sa_session_id ?row = 7"
    by (simp_all add: built_row_def sample_prepared_def)
  have rows: "filter (\<lambda>a. sa_session_id a = 7) (analyses shown_world) = [?row]" "threads shown_world = []"
    by (simp_all add: shown_world_def empty_world_def sid del: built_row_sel)
  obtain h s' where h: "get_session_analysis_history basic_unicode basic_pydantic 7 shown_world = (Inr h, s')"
    by (simp add: get_session_analysis_history_def list_session_analyses_def list_session_threads_def run rows grouped_def
        from_keys_def build_group_def build_session_analysis_item_schema_def json sample_analysis_presented bindE_def)
  from history_lists_every_analysis_once [OF h]
  have s': "s' = shown_world" and m: "mset (map it_id (concat (map gr_analyses (hi_threads h)))) = mset [5]"
    by (simp_all add: rows del: mset_map)
  have "map it_id (concat (map gr_analyses (hi_threads h))) = [5]"
    using m unfolding mset.simps by (rule mset_single_iff [THEN iffD1])
  with h [unfolded s'] show ?thesis by (intro exI [of _ h] conjI)
qed

end
