(* ===== verification/Dumps.thy ===== *)
theory Dumps
  imports Parser Prompts
begin

text \<open>
  \<open>json.dumps\<close> without escaping of non-ASCII characters, which serialises the answers of the mock provider
  (\<open>services/llm_providers/mock_provider.py\<close>). \<open>repr\<close> of a finite float is a parameter on rationals. Printing is
  proved inverse to the decoder of theory Parser.
\<close>

subsection \<open>\<open>json.dumps(.., ensure_ascii=False)\<close>\<close>

definition hex_char :: "nat \<Rightarrow> nat" where
  "hex_char n = (if n < 10 then 48 + n else 87 + n)"

definition escape_char :: "nat \<Rightarrow> ustr" where
  "escape_char c =
     (if c = 34 then [92, 34] else if c = 92 then [92, 92] else if c = 10 then [92, 110] else if c = 13 then [92, 114]
      else if c = 9 then [92, 116] else if c = 12 then [92, 102] else if c = 8 then [92, 98]
      else if c < 32 then [92, 117, 48, 48, hex_char (c div 16), hex_char (c mod 16)] else [c])"

definition json_string :: "ustr \<Rightarrow> ustr" where
  "json_string s = 34 # concat (map escape_char s) @ [34]"

fun dumps :: "(rat \<Rightarrow> ustr) \<Rightarrow> json \<Rightarrow> ustr"
  and dump_items :: "(rat \<Rightarrow> ustr) \<Rightarrow> json list \<Rightarrow> ustr"
  and dump_members :: "(rat \<Rightarrow> ustr) \<Rightarrow> (ustr \<times> json) list \<Rightarrow> ustr"
where
  "dumps rp JNull = ascii ''null''"
| "dumps rp (JBool b) = (if b then ascii ''true'' else ascii ''false'')"
| "dumps rp (JInt i) = str_int i"
| "dumps rp (JFloat (Fin q)) = rp q"
| "dumps rp (JFloat NaN) = ascii ''NaN''"
| "dumps rp (JFloat PosInf) = ascii ''Infinity''"
| "dumps rp (JFloat NegInf) = ascii ''-Infinity''"
| "dumps rp (JStr s) = json_string s"
| "dumps rp (JList xs) = 91 # dump_items rp xs @ [93]"
| "dumps rp (JObj m) = 123 # dump_members rp m @ [125]"
| "dump_items rp [] = []"
| "dump_items rp [v] = dumps rp v"
| "dump_items rp (v # w # vs) = dumps rp v @ [44, 32] @ dump_items rp (w # vs)"
| "dump_members rp [] = []"
| "dump_members rp [(k, v)] = json_string k @ [58, 32] @ dumps rp v"
| "dump_members rp ((k, v) # p # m) = json_string k @ [58, 32] @ dumps rp v @ [44, 32] @ dump_members rp (p # m)"

subsection \<open>Strings read back\<close>

lemma hex_digit_char: "n < 16 \<Longrightarrow> hex_digit (hex_char n) = Some n"
  by (simp add: hex_digit_def hex_char_def)

lemma scan_escaped: "scan_string (escape_char c @ s) = map_option (\<lambda>(t, r). (c # t, r)) (scan_string s)"
proof -
  have "unicode_escape (48 # 48 # hex_char (c div 16) # hex_char (c mod 16) # s) = Some (c, s)" if "c < 32"
  proof -
    have "hex_digit 48 = Some 0" by (simp add: hex_digit_def)
    then have "hex4 (48 # 48 # hex_char (c div 16) # hex_char (c mod 16) # s) = Some (c, s)"
      using that by (simp add: hex_digit_char)
    then show ?thesis using that by (simp add: unicode_escape_def)
  qed
  then show ?thesis by (auto simp: escape_char_def scan_string.simps [of "_ # _"] simple_escape_def)
qed

lemma scan_json_string: "scan_string (concat (map escape_char s) @ 34 # r) = Some (s, r)"
  by (induction s) (simp_all add: scan_escaped scan_string.simps [of "34 # r"])

lemma string_read: "stringP (json_string s @ r) = Some (s, r)"
  by (simp add: stringP_def json_string_def seqP_def tokP_def scan_json_string)

subsection \<open>Numbers read back\<close>

definition delimiter :: "ustr \<Rightarrow> bool" where
  "delimiter r \<longleftrightarrow> r = [] \<or> hd r \<in> {44, 93, 125}"

lemma delimiter_simps [simp]: "delimiter []" "delimiter (44 # r)" "delimiter (93 # r)" "delimiter (125 # r)"
  by (simp_all add: delimiter_def)

lemma digits_of_digits: "list_all is_digit (digits_of n)"
proof (induction n rule: digits_of.induct)
  case (1 n)
  have "is_digit (48 + d)" if "d < 10" for d using that by (simp add: is_digit_def)
  then show ?case using 1 by (subst digits_of.simps) simp
qed

lemma digits_of_value: "digits_value (digits_of n) = int n"
proof (induction n rule: digits_of.induct)
  case (1 n)
  have "int (n div 10) * 10 + int (n mod 10) = int n" by presburger
  then show ?case using 1 by (subst digits_of.simps) (simp add: digits_value_def)
qed

lemma digits_of_head: "0 < n \<Longrightarrow> \<exists>c cs. digits_of n = c # cs \<and> c \<noteq> 48 \<and> c \<noteq> 45 \<and> is_digit c"
proof (induction n rule: digits_of.induct)
  case (1 n)
  show ?case
  proof (cases "n < 10")
    case False
    then have "0 < n div 10" by simp
    then obtain c cs where "digits_of (n div 10) = c # cs" "c \<noteq> 48" "c \<noteq> 45" "is_digit c" using "1.IH" [OF False] by blast
    then show ?thesis using False by (subst digits_of.simps) simp
  qed (use 1 in \<open>subst digits_of.simps, simp add: is_digit_def\<close>)
qed

lemma digits_append: "list_all is_digit ds \<Longrightarrow> r = [] \<or> \<not> is_digit (hd r) \<Longrightarrow> digits (ds @ r) = (ds, r)"
  by (induction ds) (cases r; auto simp: digits_def)+

lemma delimiter_ends: "delimiter r \<Longrightarrow> (r = [] \<or> \<not> is_digit (hd r)) \<and> scan_frac r = ([], r) \<and> scan_exp r = ([], r)"
  by (cases r) (auto simp: delimiter_def is_digit_def scan_frac_def scan_exp_def)

lemma scan_integer_digits:
  assumes "r = [] \<or> \<not> is_digit (hd r)"
  shows "scan_integer (digits_of n @ r) = Some (digits_of n, r)"
proof (cases "n = 0")
  case False
  then obtain c cs where c: "digits_of n = c # cs" "c \<noteq> 48" "is_digit c" using digits_of_head by blast
  then show ?thesis using digits_append [OF digits_of_digits assms, of n] by (simp add: scan_integer_def)
qed (simp add: scan_integer_def digits_of.simps)

lemma digits_of_no_sign: "scan_sign (digits_of n @ r) = ([], digits_of n @ r)"
  using digits_of_head [of n] by (cases "n = 0") (auto simp: scan_sign_def digits_of.simps [of 0])

lemma int_read: "delimiter r \<Longrightarrow> scan_number fl (str_int i @ r) = Some (JInt i, r)"
proof -
  assume r: "delimiter r"
  note e = delimiter_ends [OF r]
  show ?thesis
  proof (cases "i < 0")
    case True
    then have "scan_sign (str_int i @ r) = ([45], digits_of (nat (- i)) @ r)" by (simp add: str_int_def scan_sign_def)
    then show ?thesis using True e by (simp add: scan_number_def scan_integer_digits digits_of_value)
  next
    case False
    then show ?thesis using e
      by (simp add: str_int_def scan_number_def digits_of_no_sign scan_integer_digits digits_of_value)
  qed
qed

text \<open>\<open>repr\<close> of a finite float prints a decimal fraction that \<open>float()\<close> reads back.\<close>

definition decimal :: "ustr \<Rightarrow> bool" where
  "decimal t \<longleftrightarrow> (\<exists>sg n f. t = sg @ digits_of n @ 46 # f \<and> sg \<in> {[], [45]} \<and> f \<noteq> [] \<and> list_all is_digit f)"

definition float_reads_back :: "(ustr \<Rightarrow> pyfloat option) \<Rightarrow> (rat \<Rightarrow> ustr) \<Rightarrow> rat \<Rightarrow> bool" where
  "float_reads_back fl rp q \<longleftrightarrow> decimal (rp q) \<and> fl (rp q) = Some (Fin q)"

lemma float_read:
  assumes "float_reads_back fl rp q" and "delimiter r"
  shows "scan_number fl (rp q @ r) = Some (JFloat (Fin q), r)"
proof -
  obtain sg n f where t: "rp q = sg @ digits_of n @ 46 # f" "sg \<in> {[], [45]}" "f \<noteq> []" "list_all is_digit f"
    using assms(1) by (auto simp: float_reads_back_def decimal_def)
  note e = delimiter_ends [OF assms(2)]
  have "scan_sign (rp q @ r) = (sg, digits_of n @ 46 # f @ r)"
    using t(2) digits_of_no_sign [of n "46 # f @ r"] by (elim insertE emptyE) (simp_all add: t(1), simp add: scan_sign_def)
  moreover have "scan_integer (digits_of n @ 46 # f @ r) = Some (digits_of n, 46 # f @ r)"
    by (rule scan_integer_digits) (simp add: is_digit_def)
  moreover have "scan_frac (46 # f @ r) = (46 # f, r)"
    using digits_append [OF t(4), of r] e t(3) by (simp add: scan_frac_def)
  ultimately show ?thesis
    using assms(1) e t(3) by (simp add: scan_number_def t(1) float_reads_back_def)
qed

subsection \<open>Values read back\<close>

fun printable :: "(ustr \<Rightarrow> pyfloat option) \<Rightarrow> (rat \<Rightarrow> ustr) \<Rightarrow> json \<Rightarrow> bool" where
  "printable fl rp (JFloat (Fin q)) = float_reads_back fl rp q"
| "printable fl rp (JList xs) = (\<forall>v \<in> set xs. printable fl rp v)"
| "printable fl rp (JObj m) = (distinct (map fst m) \<and> (\<forall>p \<in> set m. printable fl rp (snd p)))"
| "printable fl rp v = True"

lemma decimal_head: "decimal t \<Longrightarrow> \<exists>c cs. t = c # cs \<and> (is_digit c \<or> c = 45)"
proof -
  assume "decimal t"
  then obtain sg n f where t: "t = sg @ digits_of n @ 46 # f" "sg \<in> {[], [45]}" by (auto simp: decimal_def)
  have "\<exists>c cs. digits_of n = c # cs \<and> is_digit c"
    using digits_of_head [of n] by (cases "n = 0") (auto simp: digits_of.simps [of 0] is_digit_def)
  then show ?thesis using t by auto
qed

lemma str_int_head: "\<exists>c cs. str_int i = c # cs \<and> (is_digit c \<or> c = 45)"
proof -
  have "\<exists>c cs. digits_of n = c # cs \<and> is_digit c" for n
    using digits_of_head [of n] by (cases "n = 0") (auto simp: digits_of.simps [of 0] is_digit_def)
  from this [of "nat i"] this [of "nat (- i)"] show ?thesis by (auto simp: str_int_def)
qed

lemma atom_number:
  assumes "t = c # cs" and "is_digit c \<or> c = 45" and "scan_number fl (t @ r) = Some x" and "0 < n"
  shows "scan fl n (t @ r) = Some x"
proof -
  have "scan_atom fl (t @ r) = Some x"
    using assms(1-3) by (auto simp: scan_atom_def literal_def starts_with_def ascii_def is_digit_def first_of_def)
  then show ?thesis using assms by (cases n) (auto simp: headP_def is_digit_def)
qed

lemma atoms_read:
  assumes "0 < n"
  shows "scan fl n (ascii ''null'' @ r) = Some (JNull, r)" "scan fl n (ascii ''true'' @ r) = Some (JBool True, r)"
    "scan fl n (ascii ''false'' @ r) = Some (JBool False, r)" "scan fl n (ascii ''NaN'' @ r) = Some (JFloat NaN, r)"
    "scan fl n (ascii ''Infinity'' @ r) = Some (JFloat PosInf, r)" "scan fl n (ascii ''-Infinity'' @ r) = Some (JFloat NegInf, r)"
  using assms
  by (cases n; simp add: headP_def scan_atom_def literal_def starts_with_def ascii_def first_of_def scan_number_def scan_sign_def
      scan_integer_def is_digit_def)+

lemma dumps_head:
  assumes "printable fl rp v"
  shows "\<exists>c cs. dumps rp v = c # cs \<and> \<not> json_ws c \<and> c \<notin> {93, 125, 65279}"
proof (cases v)
  case (JInt i)
  then show ?thesis using str_int_head [of i] by (auto simp: is_digit_def json_ws_def)
next
  case (JFloat f)
  then show ?thesis
    using assms by (cases f) (auto simp: float_reads_back_def is_digit_def json_ws_def ascii_def dest!: decimal_head)
qed (auto simp: ascii_def json_ws_def json_string_def)

lemma put_new: "k \<notin> fst ` set m \<Longrightarrow> put k v m = m @ [(k, v)]"
  by (induction m) auto

lemma skip_ws_stop: "\<not> json_ws c \<Longrightarrow> skip_ws (c # cs) = c # cs"
  by (simp add: skip_ws_def)


lemma items_head:
  "\<forall>v \<in> set vs. printable fl rp v \<Longrightarrow> vs \<noteq> [] \<Longrightarrow> \<exists>c cs. dump_items rp vs = c # cs \<and> \<not> json_ws c \<and> c \<noteq> 93"
  using dumps_head [of fl rp "hd vs"] by (cases "(rp, vs)" rule: dump_items.cases) auto

lemma members_head: "m \<noteq> [] \<Longrightarrow> \<exists>cs. dump_members rp m = 34 # cs"
  by (cases "(rp, m)" rule: dump_members.cases) (auto simp: json_string_def)

lemma no_ws [simp]: "\<not> json_ws 34" "\<not> json_ws 44" "\<not> json_ws 58" "\<not> json_ws 93" "\<not> json_ws 125" "json_ws 32"
  by (simp_all add: json_ws_def)

lemmas scanner_defs = seqP_def wsP_def tokP_def headP_def mapP_def skip_ws_stop

lemma skip_blank: "\<not> json_ws c \<Longrightarrow> skip_ws (32 # c # cs) = c # cs"
  by (simp add: skip_ws_def)

lemma string_scan: "0 < n \<Longrightarrow> scan fl n (json_string s @ r) = Some (JStr s, r)"
proof -
  assume "0 < n"
  then obtain k where k: "n = Suc k" by (cases n) auto
  obtain t where "json_string s @ r = 34 # t" by (simp add: json_string_def)
  then show ?thesis using string_read [of s r] by (simp add: k headP_def mapP_def)
qed

lemma length_ascii: "length (ascii s) = length s"
  by (simp add: ascii_def)

lemma dumps_read:
  "printable fl rp v \<Longrightarrow> \<forall>n r. 2 * length (dumps rp v) \<le> n \<longrightarrow> delimiter r \<longrightarrow> scan fl n (dumps rp v @ r) = Some (v, r)"
  "\<forall>v \<in> set vs. printable fl rp v \<Longrightarrow> vs \<noteq> [] \<Longrightarrow> \<forall>n acc r. 2 * length (dump_items rp vs) + 1 \<le> n \<longrightarrow>
     elements fl n acc (dump_items rp vs @ 93 # r) = Some (JList (acc @ vs), r)"
  "\<forall>p \<in> set m. printable fl rp (snd p) \<Longrightarrow> m \<noteq> [] \<Longrightarrow> \<forall>n acc r. 2 * length (dump_members rp m) + 1 \<le> n \<longrightarrow>
     distinct (map fst (acc @ m)) \<longrightarrow> members fl n acc (dump_members rp m @ 125 # r) = Some (JObj (acc @ m), r)"
proof (induction rp v and rp vs and rp m rule: dumps_dump_items_dump_members.induct)
  case (3 rp i)
  obtain c cs where "str_int i = c # cs" "is_digit c \<or> c = 45" using str_int_head by blast
  then show ?case using atom_number [OF _ _ int_read] by fastforce
next
  case (4 rp q)
  then have f: "float_reads_back fl rp q" by simp
  then obtain c cs where "rp q = c # cs" "is_digit c \<or> c = 45" using decimal_head [of "rp q"] by (auto simp: float_reads_back_def)
  then show ?case using atom_number [OF _ _ float_read [OF f]] by fastforce
next
  case (9 rp xs)
  show ?case
  proof (intro allI impI)
    fix n r assume n: "2 * length (dumps rp (JList xs)) \<le> n"
    then obtain k where k: "n = Suc k" "2 * length (dump_items rp xs) + 1 \<le> k" by (cases n) auto
    show "scan fl n (dumps rp (JList xs) @ r) = Some (JList xs, r)"
    proof (cases "xs = []")
      case False
      then obtain c cs where c: "dump_items rp xs = c # cs" "\<not> json_ws c" "c \<noteq> 93" using items_head [of xs fl rp] 9 by auto
      have "elements fl k [] (dump_items rp xs @ 93 # r) = Some (JList ([] @ xs), r)" using 9 False k(2) by simp
      then show ?thesis using c by (simp add: k(1) scanner_defs)
    qed (simp add: k(1) scanner_defs)
  qed
next
  case (10 rp m)
  show ?case
  proof (intro allI impI)
    fix n r assume n: "2 * length (dumps rp (JObj m)) \<le> n"
    then obtain k where k: "n = Suc k" "2 * length (dump_members rp m) + 1 \<le> k" by (cases n) auto
    show "scan fl n (dumps rp (JObj m) @ r) = Some (JObj m, r)"
    proof (cases "m = []")
      case False
      then obtain cs where c: "dump_members rp m = 34 # cs" using members_head by blast
      have "members fl k [] (dump_members rp m @ 125 # r) = Some (JObj ([] @ m), r)" using 10 False k(2) by simp
      then show ?thesis using c by (simp add: k(1) scanner_defs)
    qed (simp add: k(1) scanner_defs)
  qed
next
  case (12 rp v)
  show ?case
  proof (intro allI impI)
    fix n acc r assume "2 * length (dump_items rp [v]) + 1 \<le> n"
    then obtain k where k: "n = Suc k" "2 * length (dumps rp v) \<le> k" by (cases n) auto
    then have "scan fl k (dumps rp v @ 93 # r) = Some (v, 93 # r)" using 12 by simp
    then show "elements fl n acc (dump_items rp [v] @ 93 # r) = Some (JList (acc @ [v]), r)" by (simp add: k(1) scanner_defs)
  qed
next
  case (13 rp v w vs)
  let ?ws = "w # vs"
  show ?case
  proof (intro allI impI)
    fix n acc r assume "2 * length (dump_items rp (v # ?ws)) + 1 \<le> n"
    then obtain k where k: "n = Suc k" "2 * length (dumps rp v) \<le> k" "2 * length (dump_items rp ?ws) + 1 \<le> k" by (cases n) auto
    let ?rest = "dump_items rp ?ws @ 93 # r"
    have v: "scan fl k (dumps rp v @ 44 # 32 # ?rest) = Some (v, 44 # 32 # ?rest)" using 13 k(2) by simp
    have "elements fl k (acc @ [v]) ?rest = Some (JList ((acc @ [v]) @ ?ws), r)" using 13 k(3) by simp
    moreover obtain c cs where c: "dump_items rp ?ws = c # cs" "\<not> json_ws c" using items_head [of ?ws fl rp] 13 by auto
    then have "skip_ws (32 # ?rest) = ?rest" by (simp add: skip_blank)
    ultimately show "elements fl n acc (dump_items rp (v # ?ws) @ 93 # r) = Some (JList (acc @ v # ?ws), r)"
      using v by (simp add: k(1) scanner_defs)
  qed
next
  case (15 rp key v)
  show ?case
  proof (intro allI impI)
    fix n acc r assume n: "2 * length (dump_members rp [(key, v)]) + 1 \<le> n" and d: "distinct (map fst (acc @ [(key, v)]))"
    then obtain k where k: "n = Suc k" "2 * length (dumps rp v) \<le> k" by (cases n) auto
    then have v: "scan fl k (dumps rp v @ 125 # r) = Some (v, 125 # r)" using 15 by simp
    obtain c cs where "dumps rp v = c # cs" "\<not> json_ws c" using dumps_head [of fl rp v] 15 by auto
    then have "skip_ws (32 # dumps rp v @ 125 # r) = dumps rp v @ 125 # r" by (simp add: skip_blank)
    then show "members fl n acc (dump_members rp [(key, v)] @ 125 # r) = Some (JObj (acc @ [(key, v)]), r)"
      using v d by (simp add: k(1) scanner_defs string_read put_new)
  qed
next
  case (16 rp key v p m)
  let ?ps = "p # m"
  show ?case
  proof (intro allI impI)
    fix n acc r assume n: "2 * length (dump_members rp ((key, v) # ?ps)) + 1 \<le> n" and d: "distinct (map fst (acc @ (key, v) # ?ps))"
    then obtain k where k: "n = Suc k" "2 * length (dumps rp v) \<le> k" "2 * length (dump_members rp ?ps) + 1 \<le> k" by (cases n) auto
    let ?rest = "dump_members rp ?ps @ 125 # r"
    have v: "scan fl k (dumps rp v @ 44 # 32 # ?rest) = Some (v, 44 # 32 # ?rest)" using 16 k(2) by simp
    have "distinct (map fst ((acc @ [(key, v)]) @ ?ps))" using d by simp
    moreover have "\<forall>p \<in> set ?ps. printable fl rp (snd p)" "?ps \<noteq> []" using 16 by simp_all
    ultimately have "members fl k (acc @ [(key, v)]) ?rest = Some (JObj ((acc @ [(key, v)]) @ ?ps), r)"
      using "16.IH"(2) k(3) by blast
    moreover obtain c cs where "dumps rp v = c # cs" "\<not> json_ws c" using dumps_head [of fl rp v] 16 by auto
    then have "skip_ws (32 # dumps rp v @ 44 # 32 # ?rest) = dumps rp v @ 44 # 32 # ?rest" by (simp add: skip_blank)
    moreover obtain cs where "dump_members rp ?ps = 34 # cs" using members_head by blast
    then have "skip_ws (32 # ?rest) = ?rest" by (simp add: skip_blank)
    ultimately show "members fl n acc (dump_members rp ((key, v) # ?ps) @ 125 # r) = Some (JObj (acc @ (key, v) # ?ps), r)"
      using v d by (simp add: k(1) scanner_defs string_read put_new)
  qed
next
  case (8 rp s)
  have "0 < n" if "2 * length (dumps rp (JStr s)) \<le> n" for n using that by (simp add: json_string_def)
  then show ?case by (simp add: string_scan)
qed (auto simp: atoms_read length_ascii)

lemma loads_dumps:
  assumes "printable fl rp v"
  shows "loads fl (dumps rp v) = Some v"
proof -
  obtain c cs where c: "dumps rp v = c # cs" "\<not> json_ws c" "c \<noteq> 65279" using dumps_head [OF assms] by auto
  have "raw_decode fl (dumps rp v) = Some (v, [])"
    using dumps_read(1) [OF assms, rule_format, of "2 * length (dumps rp v) + 2" "[]"] by (simp add: raw_decode_def)
  then show ?thesis using c by (simp add: loads_def starts_with_def skip_ws_stop) (simp add: skip_ws_def)
qed


end
