(* ===== verification/Pipeline.thy ===== *)
theory Pipeline
  imports Provider Presentation Dumps
begin

text \<open>
  From a stored session to a stored analysis or memory: \<open>services/analysis_orchestrator.py\<close> and the memory
  enrichment of \<open>services/memory\<close>. What the code gets from outside (the Unicode tables, pydantic's
  coercions, \<open>float()\<close>, date formats, prompt assets and the provider) is the record \<open>environment\<close>.
\<close>

record environment =
  en_unicode :: unicode
  en_pydantic :: pydantic
  en_float :: "ustr \<Rightarrow> pyfloat option"
  en_formats :: formats
  en_assets :: prompt_assets
  en_provider :: "exn + world LLMProvider"    \<comment> \<open>what \<open>get_provider()\<close> gives\<close>
  en_llm_max_attempts :: int

definition DEFAULT_PROMPT_VERSION :: string where "DEFAULT_PROMPT_VERSION = ''v2''"
definition DREAM_ANALYSIS_VERSION :: string where "DREAM_ANALYSIS_VERSION = ''dream_v1''"
definition MEMORY_PROMPT_VERSION :: string where "MEMORY_PROMPT_VERSION = ''memory_v1''"
definition MEMORY_TEMPERATURE :: pyfloat where "MEMORY_TEMPERATURE = Fin 0"
definition MEMORY_VERSION :: string where "MEMORY_VERSION = ''structured_dream_v1''"

subsection \<open>Errors of the pipeline\<close>

fun classify_provider_error :: "exn \<Rightarrow> exn" where
  "classify_provider_error (ProviderTransportError m) = RetryableAnalysisError m"
| "classify_provider_error (ProviderTerminalError m) = NonRetryableAnalysisError m"
| "classify_provider_error (SDKUnexpectedError m) = NonRetryableAnalysisError m"
| "classify_provider_error e = e"

fun parse_error_terminal :: "exn \<Rightarrow> exn" where
  "parse_error_terminal (ResponseParseError m) = NonRetryableAnalysisError m"
| "parse_error_terminal e = e"

fun contract_error_terminal :: "exn \<Rightarrow> exn" where
  "contract_error_terminal (AnalysisValidationError m) = NonRetryableAnalysisError m"
| "contract_error_terminal e = e"

definition generate_classified ::
  "environment \<Rightarrow> world LLMProvider \<Rightarrow> ustr \<Rightarrow> string \<Rightarrow> pyfloat option \<Rightarrow> ProviderRawResponse db" where
  "generate_classified e llm prompt version temperature =
     catchM (generate_with_retry (en_llm_max_attempts e) llm prompt version temperature)
       (\<lambda>x. throwM (classify_provider_error x))"

definition parse_payload :: "environment \<Rightarrow> ustr \<Rightarrow> (ustr \<times> json) list db" where
  "parse_payload e t =
     catchM (liftM (bindE (extract_json (en_unicode e) (en_float e) t) (parse_json (en_float e))))
       (\<lambda>x. throwM (parse_error_terminal x))"

definition or_get_provider :: "environment \<Rightarrow> world LLMProvider option \<Rightarrow> world LLMProvider db" where
  "or_get_provider e provider = (case provider of Some llm \<Rightarrow> returnM llm | None \<Rightarrow> liftM (en_provider e))"

subsection \<open>The analysis of a session\<close>

definition prepare_session_analysis ::
  "environment \<Rightarrow> uuid + AnalysisInputContext \<Rightarrow> AnalysisModeRequest \<Rightarrow> world LLMProvider option \<Rightarrow> string
    \<Rightarrow> SessionAnalysisPrepareResult db" where
  "prepare_session_analysis e input mode provider version =
     bindM (case input of Inr c \<Rightarrow> returnM c | Inl sid \<Rightarrow> load_analysis_input (en_unicode e) sid) (\<lambda>c.
     bindM (or_get_provider e provider) (\<lambda>llm.
     let prompt = build_jungian_prompt (en_formats e) (en_assets e) (ai_session_summary c) (ai_dreams c)
           (Some (ds_last_activity_at (ai_session c))) (Some (ds_created_at (ai_session c))) in
     bindM (generate_classified e llm prompt version None) (\<lambda>raw.
     bindM (parse_payload e (raw_text raw)) (\<lambda>payload.
     bindM (catchM (liftM (validate_analysis_output (en_unicode e) (en_pydantic e) payload))
       (\<lambda>x. throwM (contract_error_terminal x))) (\<lambda>validated.
     bindM (resolve_thread_for_analysis (ds_id (ai_session c)) mode None) (\<lambda>(thread, resolved_mode).
     returnM \<lparr>pr_thread = thread, pr_session_id = ds_id (ai_session c), pr_user_id = ds_user_id (ai_session c),
       pr_provider = pm_provider (raw_meta raw), pr_model = pm_model (raw_meta raw), pr_prompt_version = version,
       pr_analysis_version = DREAM_ANALYSIS_VERSION, pr_analysis_json = dump_dream_analysis validated,
       pr_raw_response = Some (raw_text raw)\<rparr>))))))"

definition run_session_analysis ::
  "environment \<Rightarrow> uuid + AnalysisInputContext \<Rightarrow> AnalysisModeRequest \<Rightarrow> world LLMProvider option \<Rightarrow> string
    \<Rightarrow> session_analysis db" where
  "run_session_analysis e input mode provider version =
     bindM (prepare_session_analysis e input mode provider version) (\<lambda>p.
     bindM (build_session_analysis_row p) (\<lambda>a.
     persist_session_analysis_in_thread (pr_thread p) a))"

subsection \<open>Structured memory of a dream\<close>

definition FORBIDDEN_INTERPRETIVE_MARKERS :: "ustr list" where
  "FORBIDDEN_INTERPRETIVE_MARKERS = [
     [1072, 1088, 1093, 1077, 1090, 1080, 1087], [1090, 1077, 1085, 1100],
     [1089, 1080, 1084, 1074, 1086, 1083, 1080, 1079], [1086, 1079, 1085, 1072, 1095, 1072],
     [1089, 1082, 1088, 1099, 1090, 1099, 1081, 32, 1089, 1084, 1099, 1089, 1083], [1102, 1085, 1075, 1080, 1072, 1085]]"

record MemoryInputContext =
  mc_session :: dream_session
  mc_dream :: dream

text \<open>\<open>select(Dream).where(Dream.id == dream_id, Dream.session_id == session_id)\<close>.\<close>

definition find_dream :: "uuid \<Rightarrow> int \<Rightarrow> dream option db" where
  "find_dream sid did = getsM (\<lambda>s. find (\<lambda>d. dr_id d = did \<and> dr_session_id d = sid) (dreams s))"

definition prepare_memory_input :: "uuid \<Rightarrow> int \<Rightarrow> MemoryInputContext db" where
  "prepare_memory_input sid did =
     bindM (find_session sid) (\<lambda>session.
     case session of
       None \<Rightarrow> throwM (NonRetryableAnalysisError [Lit ''Session '', Uid sid, Lit '' not found''])
     | Some r \<Rightarrow>
         bindM (find_dream sid did) (\<lambda>found.
         case found of
           None \<Rightarrow> throwM (NonRetryableAnalysisError [Lit ''Dream '', Num did, Lit '' not found for session '', Uid sid])
         | Some d \<Rightarrow> returnM \<lparr>mc_session = r, mc_dream = d\<rparr>))"

text \<open>\<open>_iter_strings\<close>: the strings among the values, the keys of the dictionaries excepted.\<close>

fun iter_strings :: "json \<Rightarrow> ustr list" where
  "iter_strings (JStr t) = [t]"
| "iter_strings (JObj m) = concat (map (\<lambda>kv. iter_strings (snd kv)) m)"
| "iter_strings (JList xs) = concat (map iter_strings xs)"
| "iter_strings v = []"

definition interpretive :: "unicode \<Rightarrow> ustr \<Rightarrow> bool" where
  "interpretive u t \<longleftrightarrow> (\<exists>m \<in> set FORBIDDEN_INTERPRETIVE_MARKERS. contains (uc_lower u t) m)"

definition sanitize_memory :: "unicode \<Rightarrow> StructuredDreamMemoryV1 \<Rightarrow> exn + StructuredDreamMemoryV1" where
  "sanitize_memory u memory =
     (if \<exists>t \<in> set (iter_strings (dump_memory memory)). interpretive u t
      then Inl (NonRetryableAnalysisError [Lit ''Memory payload contains interpretive markers'']) else Inr memory)"

definition extract_memory ::
  "environment \<Rightarrow> uuid \<Rightarrow> int \<Rightarrow> world LLMProvider option \<Rightarrow> StructuredDreamMemoryV1 db" where
  "extract_memory e sid did provider =
     bindM (prepare_memory_input sid did) (\<lambda>c.
     let prompt = build_memory_prompt (en_unicode e) (en_formats e) (en_assets e)
           \<lparr>mi_session_id = ds_id (mc_session c), mi_user_id = ds_user_id (mc_session c), mi_dream_id = dr_id (mc_dream c),
            mi_dream_text = dr_text (mc_dream c), mi_session_created_at = Some (ds_created_at (mc_session c)),
            mi_session_last_activity_at = Some (ds_last_activity_at (mc_session c)),
            mi_dream_created_at = Some (dr_created_at (mc_dream c))\<rparr> in
     bindM (or_get_provider e provider) (\<lambda>llm.
     bindM (generate_classified e llm prompt MEMORY_PROMPT_VERSION (Some MEMORY_TEMPERATURE)) (\<lambda>raw.
     bindM (parse_payload e (raw_text raw)) (\<lambda>payload.
     bindM (liftM (memory_model_validate (en_pydantic e) payload)) (\<lambda>memory.
     liftM (sanitize_memory (en_unicode e) memory))))))"

definition get_dream_memory :: "int \<Rightarrow> dream_memory option db" where
  "get_dream_memory did = getsM (\<lambda>s. find (\<lambda>m. dm_dream_id m = did) (memories s))"

text \<open>The ORM writes the row only if an attribute has changed; then \<open>onupdate\<close> sets \<open>updated_at\<close>.\<close>

definition update_memory ::
  "StructuredDreamMemoryV1 \<Rightarrow> uuid option \<Rightarrow> time \<Rightarrow> dream_memory \<Rightarrow> dream_memory" where
  "update_memory memory job now m =
     (let m' = m\<lparr>dm_memory_json := dump_memory memory, dm_memory_version := MEMORY_VERSION,
            dm_analysis_job_id := (case job of Some j \<Rightarrow> Some j | None \<Rightarrow> dm_analysis_job_id m)\<rparr>
      in if m' = m then m else m'\<lparr>dm_updated_at := now\<rparr>)"

definition new_memory ::
  "uuid \<Rightarrow> int \<Rightarrow> uuid \<Rightarrow> int \<Rightarrow> StructuredDreamMemoryV1 \<Rightarrow> uuid option \<Rightarrow> time \<Rightarrow> dream_memory" where
  "new_memory i did sid uid memory job now = \<lparr>dm_id = i, dm_dream_id = did, dm_session_id = sid, dm_user_id = uid,
     dm_memory_version = MEMORY_VERSION, dm_memory_json = dump_memory memory, dm_analysis_job_id = job,
     dm_created_at = now, dm_updated_at = now\<rparr>"

definition upsert_dream_memory ::
  "int \<Rightarrow> uuid \<Rightarrow> int \<Rightarrow> StructuredDreamMemoryV1 \<Rightarrow> uuid option \<Rightarrow> dream_memory db" where
  "upsert_dream_memory did sid uid memory job =
     bindM (get_dream_memory did) (\<lambda>existing.
     bindM (getsM tx_now) (\<lambda>now.
     case existing of
       None \<Rightarrow>
         bindM uuid4 (\<lambda>i.
         let row = new_memory i did sid uid memory job now in
         thenM (modifyM (\<lambda>s. s\<lparr>memories := memories s @ [row]\<rparr>)) (returnM row))
     | Some m \<Rightarrow>
         thenM (modifyM (\<lambda>s. s\<lparr>memories := update_where (\<lambda>x. dm_dream_id x = did) (update_memory memory job now) (memories s)\<rparr>))
           (returnM (update_memory memory job now m))))"

text \<open>A memory without details gets the first 500 characters of the dream itself.\<close>

definition with_details :: "dream \<Rightarrow> StructuredDreamMemoryV1 \<Rightarrow> StructuredDreamMemoryV1" where
  "with_details d memory = (if me_dream_details memory = [] then memory\<lparr>me_dream_details := [take 500 (dr_text d)]\<rparr> else memory)"

definition enrich_dream_memory :: "environment \<Rightarrow> uuid \<Rightarrow> int \<Rightarrow> int \<Rightarrow> uuid option \<Rightarrow> unit db" where
  "enrich_dream_memory e sid did uid job =
     bindM (find_dream sid did) (\<lambda>found.
     case found of
       None \<Rightarrow> throwM (NonRetryableAnalysisError [Lit ''Dream '', Num did, Lit '' not found for session '', Uid sid])
     | Some d \<Rightarrow>
         bindM (extract_memory e sid did None) (\<lambda>memory.
         thenM (upsert_dream_memory did sid uid (with_details d memory) job) (returnM ())))"

subsection \<open>What the pipeline leaves alone\<close>

text \<open>What is documented of a provider: its calls do not touch the database.\<close>

definition outside_provider :: "world LLMProvider \<Rightarrow> bool" where
  "outside_provider llm \<longleftrightarrow> (\<forall>p v t. calls_outside (generate llm p v t))"

definition outside_environment :: "environment \<Rightarrow> bool" where
  "outside_environment e \<longleftrightarrow> (\<forall>llm. en_provider e = Inr llm \<longrightarrow> outside_provider llm)"

lemma calls_outside_retry:
  assumes "calls_outside call" shows "calls_outside (retry_loop call n)"
proof (induction n)
  case 0
  have "snd (throwM x s) = s\<lparr>clock := clock s\<rparr>" for x and s :: world by (simp add: run)
  then show ?case unfolding calls_outside_def retry_loop.simps by blast
next
  case (Suc n)
  show ?case
    unfolding calls_outside_def
  proof
    fix s
    obtain r c where c: "call s = (r, s\<lparr>clock := c\<rparr>)"
      using assms unfolding calls_outside_def by (metis surjective_pairing)
    show "\<exists>c. snd (retry_loop call (Suc n) s) = s\<lparr>clock := c\<rparr>"
    proof (cases "\<exists>x. r = Inl x \<and> is_transport x \<and> n \<noteq> 0")
      case True
      then have "retry_loop call (Suc n) s = retry_loop call n (s\<lparr>clock := c\<rparr>)"
        by (auto simp: run c)
      then show ?thesis
        using Suc.IH unfolding calls_outside_def by (metis (no_types, lifting) world.update_convs(13) world.surjective)
    next
      case False
      then have "snd (retry_loop call (Suc n) s) = s\<lparr>clock := c\<rparr>"
        by (auto simp: run c split: sum.split)
      then show ?thesis by blast
    qed
  qed
qed

text \<open>All of the state but the threads, the summaries and the supplies.\<close>

definition beside_threads :: "world \<Rightarrow> _" where
  "beside_threads s = (sessions s, dreams s, jobs s, analyses s, turns s, traces s, memories s, prompt_versions s,
     players s, tx_now s, row_locked s, redis s, sent s)"

lemma beside_threads_simps [simp]:
  "beside_threads (s\<lparr>threads := a\<rparr>) = beside_threads s" "beside_threads (s\<lparr>summaries := b\<rparr>) = beside_threads s"
  "beside_threads (s\<lparr>uuids := c\<rparr>) = beside_threads s" "beside_threads (s\<lparr>clock := d\<rparr>) = beside_threads s"
  "beside_threads (s\<lparr>rivals := g\<rparr>) = beside_threads s" "beside_threads (s\<lparr>rivals_pending := h\<rparr>) = beside_threads s"
  by (simp_all add: beside_threads_def)

lemma keeps_generate:
  assumes "outside_provider llm" and "\<And>s c. f (s\<lparr>clock := c\<rparr>) = f s"
  shows "keeps f (generate_classified e llm p v t)"
  using assms unfolding generate_classified_def generate_with_retry_def outside_provider_def
  by (intro keep keeps_outside calls_outside_retry) auto

lemma keeps_parse [keep]: "keeps f (parse_payload e t)"
  unfolding parse_payload_def by (intro keep)

lemma keeps_or_get [keep]: "keeps f (or_get_provider e p)"
  unfolding or_get_provider_def by (intro keep)

lemma keeps_load [keep]: "keeps beside_threads (load_analysis_input u sid)"
  unfolding load_analysis_input_def find_session_def get_session_summary_def build_session_summary_def
    save_session_summary_def
  by (intro keep) simp_all

lemma keeps_create_thread [keep]: "keeps beside_threads (create_thread sid)"
  unfolding create_thread_def Let_def
  by (intro keep) (simp_all add: keeps_def flush_thread_def Let_def split: option.split)

lemma keeps_apply_transition [keep]: "keeps beside_threads (apply_transition_tx tr sid)"
proof -
  have one: "keeps beside_threads (apply_command sid c th)" for c th
    unfolding apply_command_def required_def get_thread_def mark_idle_def close_thread_def
    by (cases "tc_command_type c") (auto intro!: keep)
  have "keeps beside_threads (apply_commands sid cs th)" for cs th
    by (induction cs arbitrary: th) (auto intro!: keep one)
  then show ?thesis unfolding apply_transition_tx_def by (intro keep)
qed

lemma keeps_resolve_loop: "keeps beside_threads (resolve_loop used sid mode now)"
proof -
  have attempt: "keeps beside_threads (attempt_transition sid d)" for d
    unfolding attempt_transition_def by (intro keep) (simp add: beside_threads_def)
  have decision: "keeps beside_threads (snapshot_decision sid mode now)"
    unfolding snapshot_decision_def build_session_snapshot_def build_thread_snapshot_def get_active_thread_def
    by (intro keep)
  have second: "keeps beside_threads (resolve_loop True sid mode now)"
    by (subst resolve_loop.simps) (auto intro!: keep attempt decision split: exn.split)
  show ?thesis
    by (cases used, simp add: second, subst resolve_loop.simps)
      (auto intro!: keep attempt decision second split: exn.split)
qed

lemma keeps_resolve [keep]: "keeps beside_threads (resolve_thread_for_analysis sid mode now)"
  unfolding resolve_thread_for_analysis_def
  by (intro keep keeps_resolve_loop) simp

lemma or_get_provider_outside:
  assumes "outside_environment e" and "\<forall>llm. provider = Some llm \<longrightarrow> outside_provider llm"
    and "or_get_provider e provider s = (Inr llm, t)"
  shows "outside_provider llm"
  using assms by (auto simp: or_get_provider_def run outside_environment_def split: option.splits)

lemma keeps_bind_result:
  "keeps f m \<Longrightarrow> (\<And>s x t. m s = (Inr x, t) \<Longrightarrow> keeps f (k x)) \<Longrightarrow> keeps f (bindM m k)"
  unfolding keeps_def bindM_def
  by (auto split: prod.split sum.split) (metis snd_conv)+

text \<open>The providers a call may use: the one handed over, or the configured one.\<close>

definition outside_providers :: "environment \<Rightarrow> world LLMProvider option \<Rightarrow> bool" where
  "outside_providers e provider \<longleftrightarrow> outside_environment e \<and> (\<forall>llm. provider = Some llm \<longrightarrow> outside_provider llm)"

lemma keeps_prepare:
  assumes "outside_providers e provider"
  shows "keeps beside_threads (prepare_session_analysis e input mode provider version)"
  unfolding prepare_session_analysis_def Let_def
  by (intro keep keeps_bind_result [where m = "or_get_provider e provider"] keeps_generate)
    (use assms or_get_provider_outside in \<open>auto simp: outside_providers_def\<close>)

text \<open>What a prepared result says: its payload is the dump of an analysis that passed validation.\<close>

definition prepared_ok :: "environment \<Rightarrow> string \<Rightarrow> SessionAnalysisPrepareResult \<Rightarrow> bool" where
  "prepared_ok e version p \<longleftrightarrow> pr_analysis_version p = DREAM_ANALYSIS_VERSION \<and> pr_prompt_version p = version
     \<and> (\<exists>raw t payload v. pr_raw_response p = Some raw \<and> extract_json (en_unicode e) (en_float e) raw = Inr t
         \<and> parse_json (en_float e) t = Inr payload \<and> validate_analysis_output (en_unicode e) (en_pydantic e) payload = Inr v
         \<and> pr_analysis_json p = dump_dream_analysis v)"

lemma parse_payload_Inr: "parse_payload e t s = (Inr m, s') \<longleftrightarrow> s' = s \<and>
    (\<exists>j. extract_json (en_unicode e) (en_float e) t = Inr j \<and> parse_json (en_float e) j = Inr m)"
  by (auto simp: parse_payload_def run bindE_def split: sum.splits)

lemma catch_lift_Inr: "catchM (liftM r) (\<lambda>x. throwM (g x)) s = (Inr y, t) \<longleftrightarrow> r = Inr y \<and> t = s"
  by (cases r) (auto simp: run)

lemma prepare_ok:
  "prepare_session_analysis e input mode provider version s = (Inr p, t) \<Longrightarrow> prepared_ok e version p"
  unfolding prepare_session_analysis_def Let_def bindM_eq_Inr case_prod_beta catch_lift_Inr parse_payload_Inr
  by (auto simp: returnM_def prepared_ok_def)

lemma load_input_session:
  "load_analysis_input u sid s = (Inr c, t) \<Longrightarrow> ds_id (ai_session c) = sid"
  unfolding load_analysis_input_def bindM_eq_Inr
  by (auto simp: find_session_def run bindM_eq_Inr split: option.splits sum.splits prod.splits dest: find_SomeD)

lemma prepare_session:
  assumes "prepare_session_analysis e (Inl sid) mode provider version s = (Inr p, t)"
  shows "pr_session_id p = sid"
  using assms load_input_session
  unfolding prepare_session_analysis_def Let_def bindM_eq_Inr case_prod_beta catch_lift_Inr parse_payload_Inr
  by (auto simp: returnM_def)

lemma keeps_build_row [keep]: "(\<And>s g. f (s\<lparr>uuids := g\<rparr>) = f s) \<Longrightarrow> keeps f (build_session_analysis_row p)"
  unfolding build_session_analysis_row_def next_continuation_index_def by (intro keep)

subsection \<open>What the memory enrichment leaves alone\<close>

definition beside_memories :: "world \<Rightarrow> _" where
  "beside_memories s = (sessions s, dreams s, jobs s, threads s, analyses s, turns s, traces s, summaries s,
     prompt_versions s, players s, tx_now s, row_locked s, redis s, sent s)"

lemma beside_memories_simps [simp]:
  "beside_memories (s\<lparr>memories := a\<rparr>) = beside_memories s" "beside_memories (s\<lparr>uuids := c\<rparr>) = beside_memories s"
  "beside_memories (s\<lparr>clock := d\<rparr>) = beside_memories s"
  by (simp_all add: beside_memories_def)

lemma keeps_prepare_memory [keep]: "keeps f (prepare_memory_input sid did)"
  unfolding prepare_memory_input_def find_session_def find_dream_def by (intro keep)

lemma keeps_extract:
  assumes "outside_providers e provider" and "\<And>s c. f (s\<lparr>clock := c\<rparr>) = f s"
  shows "keeps f (extract_memory e sid did provider)"
  unfolding extract_memory_def Let_def
  by (intro keep keeps_bind_result [where m = "or_get_provider e provider"] keeps_generate)
    (use assms or_get_provider_outside in \<open>auto simp: outside_providers_def\<close>)

lemma keeps_upsert [keep]: "keeps beside_memories (upsert_dream_memory did sid uid memory job)"
  unfolding upsert_dream_memory_def get_dream_memory_def Let_def by (intro keep) simp_all

lemma keeps_enrich:
  assumes "outside_environment e" shows "keeps beside_memories (enrich_dream_memory e sid did uid job)"
  unfolding enrich_dream_memory_def find_dream_def
  by (intro keep keeps_extract) (simp_all add: assms outside_providers_def)

subsection \<open>What is stored of a dream\<close>

definition memories_ok :: "world \<Rightarrow> bool" where
  "memories_ok s \<longleftrightarrow> distinct (map dm_dream_id (memories s))"

lemma update_memory_sel [simp]:
  "dm_dream_id (update_memory memory job now m) = dm_dream_id m" "dm_memory_json (update_memory memory job now m) = dump_memory memory"
  "dm_memory_version (update_memory memory job now m) = MEMORY_VERSION"
  by (cases m; simp add: update_memory_def Let_def)+

lemma update_memory_job: "dm_analysis_job_id (update_memory memory (Some j) now m) = Some j"
  by (cases m) (simp add: update_memory_def Let_def)

lemma upsert_run:
  assumes "memories_ok s"
  shows "\<exists>m t. upsert_dream_memory did sid uid memory (Some j) s = (Inr m, t) \<and> memories_ok t
    \<and> filter (\<lambda>x. dm_dream_id x = did) (memories t) = [m] \<and> dm_memory_json m = dump_memory memory
    \<and> dm_analysis_job_id m = Some j
    \<and> filter (\<lambda>x. dm_dream_id x \<noteq> did) (memories t) = filter (\<lambda>x. dm_dream_id x \<noteq> did) (memories s)"
proof (cases "find (\<lambda>m. dm_dream_id m = did) (memories s)")
  case None
  then have "did \<notin> dm_dream_id ` set (memories s)" by (auto simp: find_None_iff)
  then show ?thesis
    using assms None
    by (simp add: upsert_dream_memory_def get_dream_memory_def run Let_def memories_ok_def new_memory_def filter_empty_conv)
      force
next
  case (Some m)
  let ?f = "update_where (\<lambda>x. dm_dream_id x = did) (update_memory memory (Some j) (tx_now s))"
  have m: "m \<in> set (memories s)" "dm_dream_id m = did" using find_SomeD [OF Some] by simp_all
  have one: "filter (\<lambda>x. dm_dream_id x = did) (memories s) = [m]"
    using assms distinct_key_filter [of dm_dream_id "memories s" m] m by (simp add: memories_ok_def)
  have "filter (\<lambda>x. dm_dream_id x = did) (?f (memories s)) = [update_memory memory (Some j) (tx_now s) m]"
    by (simp add: filter_key_update one)
  moreover have "filter (\<lambda>x. dm_dream_id x \<noteq> did) (?f (memories s)) = filter (\<lambda>x. dm_dream_id x \<noteq> did) (memories s)"
    by (rule filter_update_where_other) simp
  moreover have "map dm_dream_id (?f (memories s)) = map dm_dream_id (memories s)"
    by (rule map_update_where) simp
  ultimately show ?thesis
    using assms by (simp add: upsert_dream_memory_def get_dream_memory_def run Some memories_ok_def update_memory_job)
qed

text \<open>The strings of a memory that the fallback does not add are those the filter has seen.\<close>

lemma with_details_strings:
  "set (iter_strings (dump_memory (with_details d m))) \<subseteq> set (iter_strings (dump_memory m)) \<union> {take 500 (dr_text d)}"
  by (auto simp: with_details_def dump_memory_def strs_def)

lemma extract_clean:
  assumes "extract_memory e sid did provider s = (Inr m, t)"
  shows "\<forall>w \<in> set (iter_strings (dump_memory m)). \<not> interpretive (en_unicode e) w"
  using assms unfolding extract_memory_def Let_def bindM_eq_Inr
  by (auto simp: liftM_def sanitize_memory_def split: if_splits)

text \<open>C10. What the enrichment stores about a dream: one memory per dream, replaced and never duplicated,
  bound to the job that made it, with at least one detail; every string in it is free of the
  interpretive markers, except possibly the first 500 characters of the dream itself, which stand in
  when the model found no detail and are not filtered. If the enrichment fails, nothing at all is
  stored, and in no case is any other table touched.\<close>

theorem enriched_memory_is_factual:
  assumes "outside_environment e" and "memories_ok s"
    and "enrich_dream_memory e sid did uid (Some j) s = (r, t)"
  shows "memories_ok t \<and> beside_memories t = beside_memories s
    \<and> (case r of
         Inl x \<Rightarrow> memories t = memories s
       | Inr _ \<Rightarrow> (\<exists>d m memory. dr_id d = did \<and> d \<in> set (dreams s)
           \<and> filter (\<lambda>x. dm_dream_id x = did) (memories t) = [m] \<and> dm_memory_json m = dump_memory memory
           \<and> dm_analysis_job_id m = Some j \<and> me_dream_details memory \<noteq> []
           \<and> (\<forall>w \<in> set (iter_strings (dump_memory memory)). interpretive (en_unicode e) w \<longrightarrow> w = take 500 (dr_text d))
           \<and> filter (\<lambda>x. dm_dream_id x \<noteq> did) (memories t) = filter (\<lambda>x. dm_dream_id x \<noteq> did) (memories s)))"
proof -
  have frame: "beside_memories t = beside_memories s"
    by (rule keepsD [OF keeps_enrich [OF assms(1)] assms(3)])
  show ?thesis
  proof (cases "find (\<lambda>d. dr_id d = did \<and> dr_session_id d = sid) (dreams s)")
    case None
    then show ?thesis using assms frame by (auto simp: enrich_dream_memory_def find_dream_def run)
  next
    case (Some d)
    then have d: "d \<in> set (dreams s)" "dr_id d = did" using find_SomeD by fastforce+
    obtain q u where q: "extract_memory e sid did None s = (q, u)" by fastforce
    have "keeps memories (extract_memory e sid did None)"
      by (rule keeps_extract) (simp_all add: assms(1) outside_providers_def)
    from keepsD [OF this q] have u: "memories u = memories s" .
    show ?thesis
    proof (cases q)
      case (Inl x)
      then show ?thesis using assms(2, 3) frame u Some q
        by (auto simp: enrich_dream_memory_def find_dream_def run memories_ok_def)
    next
      case (Inr memory)
      let ?m = "with_details d memory"
      have "memories_ok u" using assms(2) u by (simp add: memories_ok_def)
      from upsert_run [OF this, of did sid uid ?m j] obtain m v where
        m: "upsert_dream_memory did sid uid ?m (Some j) u = (Inr m, v)" "memories_ok v"
          "filter (\<lambda>x. dm_dream_id x = did) (memories v) = [m]" "dm_memory_json m = dump_memory ?m"
          "dm_analysis_job_id m = Some j"
          "filter (\<lambda>x. dm_dream_id x \<noteq> did) (memories v) = filter (\<lambda>x. dm_dream_id x \<noteq> did) (memories u)" by blast
      have r: "r = Inr ()" "t = v"
        using assms(3) Some q Inr m(1) by (simp_all add: enrich_dream_memory_def find_dream_def run)
      have "me_dream_details ?m \<noteq> []" by (simp add: with_details_def)
      moreover have "interpretive (en_unicode e) w \<longrightarrow> w = take 500 (dr_text d)"
        if "w \<in> set (iter_strings (dump_memory ?m))" for w
        using that with_details_strings extract_clean [OF q [unfolded Inr]] by fastforce
      ultimately show ?thesis using d m u r frame by (simp only: sum.case) metis
    qed
  qed
qed

subsection \<open>Which failures are worth another attempt\<close>

definition not_retryable :: "exn \<Rightarrow> bool" where
  "not_retryable e \<longleftrightarrow> (\<forall>m. e \<noteq> RetryableAnalysisError m)"

lemma not_retryable_simps [simp]:
  "not_retryable (ValueError m)" "not_retryable (RuntimeError m)" "not_retryable (StateMachineConcurrencyError m)"
  "not_retryable IntegrityError" "not_retryable (ResponseParseError m)" "not_retryable (AnalysisValidationError m)"
  "not_retryable (NonRetryableAnalysisError m)" "not_retryable (ValidationError m)" "not_retryable (HTTPException c m)"
  "\<not> not_retryable (RetryableAnalysisError m)"
  by (simp_all add: not_retryable_def)

lemma raises_onlyI: "(\<And>s e t. m s = (Inl e, t) \<Longrightarrow> E e) \<Longrightarrow> raises_only E m"
  unfolding raises_only_def by (metis prod.collapse sum.case_eq_if sum.collapse(1))

lemma raises_retry: "raises_only E call \<Longrightarrow> E (RuntimeError [Lit ''Unreachable retry state'']) \<Longrightarrow> raises_only E (retry_loop call n)"
  by (induction n) (auto intro!: raise raises_catch)

lemma raises_parse [raise]: "raises_only not_retryable (parse_payload e t)"
proof -
  have "not_retryable x" if "bindE (extract_json (en_unicode e) (en_float e) t) (parse_json (en_float e)) = Inl x" for x
    using that by (auto simp: bindE_def extract_json_def parse_json_def Let_def split: sum.splits if_splits option.splits json.splits)
  then have "raises_only not_retryable (liftM (bindE (extract_json (en_unicode e) (en_float e) t) (parse_json (en_float e))))"
    by (rule raises_lift)
  moreover have "not_retryable (parse_error_terminal x)" if "not_retryable x" for x using that by (cases x) simp_all
  ultimately show ?thesis unfolding parse_payload_def
    by (intro raises_catch [where D = not_retryable]) (auto intro: raise)
qed

lemma raises_contract: "raises_only not_retryable (catchM (liftM (validate_analysis_output u pd payload)) (\<lambda>x. throwM (contract_error_terminal x)))"
proof -
  have "not_retryable x" if "validate_analysis_output u pd payload = Inl x" for x
    using that by (auto simp: validate_analysis_output_def dream_model_validate_def split: option.splits)
  then have "raises_only not_retryable (liftM (validate_analysis_output u pd payload))" by (rule raises_lift)
  moreover have "not_retryable (contract_error_terminal x)" if "not_retryable x" for x using that by (cases x) simp_all
  ultimately show ?thesis by (intro raises_catch [where D = not_retryable]) (auto intro: raise)
qed

lemma raises_resolve [raise]: "raises_only not_retryable (resolve_thread_for_analysis sid mode now)"
proof -
  have flush: "raises_only not_retryable (flush_thread x)" for x
    by (simp add: raises_only_def flush_thread_def Let_def split: option.split)
  have create: "raises_only not_retryable (create_thread sid)" for sid
    unfolding create_thread_def Let_def by (intro raise raises_catch [OF flush]) (auto intro: raise)
  have one: "raises_only not_retryable (apply_command sid c th)" for sid c th
    unfolding apply_command_def required_def get_thread_def mark_idle_def close_thread_def
    by (cases "tc_command_type c") (auto intro!: raise create)
  have "raises_only not_retryable (apply_commands sid cs th)" for sid cs th
    by (induction cs arbitrary: th) (auto intro!: raise one)
  then have attempt: "raises_only not_retryable (attempt_transition sid d)" for sid d
    unfolding attempt_transition_def apply_transition_tx_def by (auto intro!: raise)
  have decision: "raises_only not_retryable (snapshot_decision sid mode now)" for now
    unfolding snapshot_decision_def build_session_snapshot_def build_thread_snapshot_def get_active_thread_def
    by (intro raise) simp
  have second: "raises_only not_retryable (resolve_loop True sid mode now)" for now
    by (subst resolve_loop.simps) (auto intro!: raise raises_catch [OF attempt] decision split: exn.split)
  have "raises_only not_retryable (resolve_loop False sid mode now)" for now
    by (subst resolve_loop.simps) (auto intro!: raise raises_catch [OF attempt] decision second split: exn.split)
  then show ?thesis unfolding resolve_thread_for_analysis_def by (intro raise)
qed

text \<open>C28. A session analysis asks for another attempt exactly when the provider itself failed in transport, with
  the provider's message, after its own repetitions. Nothing else the pipeline does, unreadable answers,
  rejected payloads and lost races for the thread included, is ever reported as retryable.\<close>

theorem only_transport_is_retryable:
  assumes "\<And>p v t s m u. generate llm p v t s \<noteq> (Inl (RetryableAnalysisError m), u)"
  shows "(\<exists>t. prepare_session_analysis e (Inr c) mode (Some llm) version s = (Inl (RetryableAnalysisError m), t)) \<longleftrightarrow>
    (\<exists>t. generate_with_retry (en_llm_max_attempts e) llm
       (build_jungian_prompt (en_formats e) (en_assets e) (ai_session_summary c) (ai_dreams c)
         (Some (ds_last_activity_at (ai_session c))) (Some (ds_created_at (ai_session c)))) version None s
       = (Inl (ProviderTransportError m), t))"
proof -
  let ?prompt = "build_jungian_prompt (en_formats e) (en_assets e) (ai_session_summary c) (ai_dreams c)
         (Some (ds_last_activity_at (ai_session c))) (Some (ds_created_at (ai_session c)))"
  let ?gen = "generate_with_retry (en_llm_max_attempts e) llm ?prompt version None"
  let ?rest = "\<lambda>raw. bindM (parse_payload e (raw_text raw)) (\<lambda>payload.
     bindM (catchM (liftM (validate_analysis_output (en_unicode e) (en_pydantic e) payload))
       (\<lambda>x. throwM (contract_error_terminal x))) (\<lambda>validated.
     bindM (resolve_thread_for_analysis (ds_id (ai_session c)) mode None) (\<lambda>(thread, resolved_mode).
     returnM \<lparr>pr_thread = thread, pr_session_id = ds_id (ai_session c), pr_user_id = ds_user_id (ai_session c),
       pr_provider = pm_provider (raw_meta raw), pr_model = pm_model (raw_meta raw), pr_prompt_version = version,
       pr_analysis_version = DREAM_ANALYSIS_VERSION, pr_analysis_json = dump_dream_analysis validated,
       pr_raw_response = Some (raw_text raw)\<rparr>)))"
  have run: "prepare_session_analysis e (Inr c) mode (Some llm) version s = bindM (generate_classified e llm ?prompt version None) ?rest s"
    by (simp add: prepare_session_analysis_def or_get_provider_def Let_def bindM_def returnM_def)
  have rest: "raises_only not_retryable (?rest raw)" for raw
    by (intro raise raises_contract)
  have "raises_only not_retryable (generate llm ?prompt version None)"
    by (rule raises_onlyI) (auto simp: not_retryable_def assms)
  then have "raises_only not_retryable ?gen"
    unfolding generate_with_retry_def by (rule raises_retry) simp
  then have gen: "?gen s \<noteq> (Inl (RetryableAnalysisError m), t)" for m t
    using raises_onlyD by fastforce
  obtain q u where q: "?gen s = (q, u)" by fastforce
  show ?thesis
  proof (cases q)
    case (Inl x)
    then have "prepare_session_analysis e (Inr c) mode (Some llm) version s = (Inl (classify_provider_error x), u)"
      by (simp add: run generate_classified_def catchM_def bindM_def throwM_def q)
    moreover have "classify_provider_error x = RetryableAnalysisError m \<longleftrightarrow> x = ProviderTransportError m"
      using gen q Inl by (cases x) auto
    ultimately show ?thesis using q Inl by auto
  next
    case (Inr raw)
    have "prepare_session_analysis e (Inr c) mode (Some llm) version s = ?rest raw u"
      by (simp add: run generate_classified_def catchM_def bindM_def q Inr)
    moreover have "?rest raw u \<noteq> (Inl (RetryableAnalysisError m), t)" for t
    proof
      assume "?rest raw u = (Inl (RetryableAnalysisError m), t)"
      from raises_onlyD [OF rest this] show False by simp
    qed
    ultimately show ?thesis using q Inr by simp
  qed
qed

subsection \<open>A concrete environment\<close>

definition sample_provider :: "ustr \<Rightarrow> world LLMProvider" where
  "sample_provider answer = \<lparr>provider_name = ascii ''mock'', model_name = ascii ''m'',
     generate = (\<lambda>p v t. returnM (sample_response\<lparr>raw_text := answer\<rparr>))\<rparr>"

definition sample_environment :: "ustr \<Rightarrow> environment" where
  "sample_environment answer = \<lparr>en_unicode = basic_unicode, en_pydantic = basic_pydantic, en_float = no_floats,
     en_formats = plain_formats, en_assets = no_assets, en_provider = Inr (sample_provider answer), en_llm_max_attempts = 2\<rparr>"

lemma calls_outside_return: "calls_outside (returnM x)"
  unfolding calls_outside_def
proof
  fix s :: world
  show "\<exists>c. snd (returnM x s) = s\<lparr>clock := c\<rparr>"
    by (rule exI [of _ "clock s"]) (simp add: run)
qed

lemma sample_environment_outside: "outside_environment (sample_environment answer)"
  by (simp add: outside_environment_def outside_provider_def sample_environment_def sample_provider_def calls_outside_return)

lemma sample_generate:
  "generate_classified (sample_environment a) (sample_provider answer) p v t s = (Inr (sample_response\<lparr>raw_text := answer\<rparr>), s)"
  by (simp add: generate_classified_def generate_with_retry_def sample_environment_def sample_provider_def run
      numeral_2_eq_2)

text \<open>A model that finds nothing: the memory then holds the dream itself.\<close>

lemma empty_answer:
  "extract_json basic_unicode no_floats (ascii ''{}'') = Inr (ascii ''{}'')"
  "parse_json no_floats (ascii ''{}'') = Inr []"
  "memory_model_validate basic_pydantic [] = Inr empty_memory"
  "sanitize_memory u empty_memory = Inr empty_memory"
proof -
  have "strip basic_unicode (ascii ''{}'') = ascii ''{}''" by code_simp
  moreover have "braced (ascii ''{}'')" by code_simp
  ultimately show "extract_json basic_unicode no_floats (ascii ''{}'') = Inr (ascii ''{}'')"
    by (simp add: extract_json_def Let_def)
  have "raw_decode no_floats (ascii ''{}'') = Some (JObj [], [])" by code_simp
  moreover have "skip_ws (ascii ''{}'') = ascii ''{}''" by code_simp
  moreover have "\<not> starts_with (ascii ''{}'') [65279]" by (simp add: starts_with_def ascii_def)
  moreover have "skip_ws [] = []" by code_simp
  ultimately show "parse_json no_floats (ascii ''{}'') = Inr []" by (simp add: parse_json_def loads_def)
  show "memory_model_validate basic_pydantic [] = Inr empty_memory"
    by (simp add: memory_model_validate_def read_memory_def object_of_def optional_def empty_memory_def)
  show "sanitize_memory u empty_memory = Inr empty_memory"
    by (simp add: sanitize_memory_def dump_memory_def empty_memory_def strs_def)
qed

lemma sample_extract:
  assumes "find (\<lambda>r. ds_id r = sid) (sessions s) = Some r"
    and "find (\<lambda>d. dr_id d = did \<and> dr_session_id d = sid) (dreams s) = Some d"
  shows "extract_memory (sample_environment (ascii ''{}'')) sid did None s = (Inr empty_memory, s)"
  using assms
  by (simp add: extract_memory_def prepare_memory_input_def find_session_def find_dream_def run Let_def or_get_provider_def
      sample_environment_def [THEN arg_cong [where f = en_provider]] sample_generate parse_payload_def
      sample_environment_def [THEN arg_cong [where f = en_unicode]] sample_environment_def [THEN arg_cong [where f = en_float]]
      sample_environment_def [THEN arg_cong [where f = en_pydantic]] empty_answer bindE_def)

theorem enriched_memory_is_factual_witness:
  "\<exists>t m. enrich_dream_memory (sample_environment (ascii ''{}'')) 7 1 1 (Some 3) dream_world = (Inr (), t)
    \<and> filter (\<lambda>x. dm_dream_id x = 1) (memories t) = [m] \<and> dm_analysis_job_id m = Some 3"
proof -
  let ?e = "sample_environment (ascii ''{}'')"
  obtain r d where r: "find (\<lambda>r. ds_id r = 7) (sessions dream_world) = Some r"
    and d: "find (\<lambda>d. dr_id d = 1 \<and> dr_session_id d = 7) (dreams dream_world) = Some d"
    by (simp add: dream_world_def sample_world_def sample_session_def sample_dream_def)
  have ok: "memories_ok dream_world"
    by (simp add: memories_ok_def dream_world_def sample_world_def empty_world_def)
  obtain t where t: "enrich_dream_memory ?e 7 1 1 (Some 3) dream_world = (Inr (), t)"
    using upsert_run [OF ok, of 1 7 1 "with_details d empty_memory" 3]
    by (auto simp: enrich_dream_memory_def find_dream_def run d sample_extract [OF r d] simp del: dream_world_sel)
  from enriched_memory_is_factual [OF sample_environment_outside ok t] t show ?thesis by auto
qed

text \<open>A model that answers with an analysis.\<close>

definition sample_payload :: "(ustr \<times> json) list" where
  "sample_payload = [(ascii ''summary'', JStr (ascii ''s'')), (ascii ''symbols'', JList []),
     (ascii ''emotional_state'', JObj [(ascii ''primary'', JStr []), (ascii ''secondary'', JStr []), (ascii ''intensity'', JInt 1)]),
     (ascii ''jungian_interpretation'', JObj [(ascii ''archetypes'', JList []), (ascii ''shadow_elements'', JList []),
        (ascii ''anima_animus_signals'', JList []), (ascii ''individuation_hint'', JStr [])]),
     (ascii ''narrative_interpretation'', JStr []), (ascii ''key_insight'', JStr []), (ascii ''uncertainty_notes'', JList [])]"

definition sample_answer :: ustr where
  "sample_answer = dumps (\<lambda>q. []) (JObj sample_payload)"

lemma sample_answer_parsed:
  "extract_json basic_unicode no_floats sample_answer = Inr sample_answer"
  "parse_json no_floats sample_answer = Inr sample_payload"
proof -
  have "strip basic_unicode sample_answer = sample_answer" by code_simp
  moreover have "braced sample_answer" by code_simp
  ultimately show "extract_json basic_unicode no_floats sample_answer = Inr sample_answer"
    by (simp add: extract_json_def Let_def)
  have "printable no_floats (\<lambda>q. []) (JObj sample_payload)"
    by (simp add: sample_payload_def ascii_def)
  from loads_dumps [OF this] show "parse_json no_floats sample_answer = Inr sample_payload"
    by (simp add: parse_json_def sample_answer_def)
qed

lemma sample_payload_valid: "\<exists>v. validate_analysis_output basic_unicode basic_pydantic sample_payload = Inr v"
  by (simp add: validate_analysis_output_def dream_model_validate_def read_dream_analysis_def sample_payload_def
      object_of_def Contract.required_def list_of_def read_symbol_def read_emotional_state_def read_jungian_def
      basic_pydantic_def ascii_def unit_interval_def symbols_required_when_interpretation_exists_def strip_def lstrip_def rstrip_def)

lemma sample_environment_sel [simp]:
  "en_unicode (sample_environment a) = basic_unicode" "en_pydantic (sample_environment a) = basic_pydantic"
  "en_float (sample_environment a) = no_floats" "en_provider (sample_environment a) = Inr (sample_provider a)"
  by (simp_all add: sample_environment_def)

text \<open>On an open session without threads such an answer is prepared in a new thread.\<close>

lemma prepare_sample:
  assumes "load_analysis_input basic_unicode sid s = (Inr c, t)" and "threads_ok t"
    and "find (\<lambda>r. ds_id r = sid) (sessions t) = Some r" and "ds_status r = SESSION_ACTIVE" and "ds_id (ai_session c) = sid"
    and "rivals t = (\<lambda>_. None)"
  shows "\<exists>p u. prepare_session_analysis (sample_environment sample_answer) (Inl sid) mode None version s = (Inr p, u)
    \<and> th_session_id (pr_thread p) = sid \<and> pr_session_id p = sid"
proof -
  obtain v where v: "validate_analysis_output basic_unicode basic_pydantic sample_payload = Inr v"
    using sample_payload_valid by blast
  let ?t = "t\<lparr>clock := \<lambda>n. clock t (Suc n)\<rparr>"
  obtain res u where run_loop: "resolve_loop False sid mode (Aware (clock t 0) 0) ?t = (res, u)" by fastforce
  have "resolved sid ?t res u"
    by (rule resolve_loop_resolved [where r = r, OF _ _ _ run_loop]) (use assms(2-4) in simp_all)
  then obtain th m where th: "res = Inr (th, m)" "filter (active_thread_of sid) (threads u) = [th]"
    using assms(6) by (cases res) (auto simp: resolved_def conflict_def)
  have "active_thread_of sid th" using filter_eq_singletonD [OF th(2)] by blast
  moreover have "resolve_thread_for_analysis sid mode None t = (Inr (th, m), u)"
    using run_loop th(1) by (simp add: resolve_thread_for_analysis_def run)
  moreover have "parse_payload (sample_environment sample_answer) sample_answer t = (Inr sample_payload, t)"
    by (simp add: parse_payload_Inr sample_answer_parsed)
  ultimately show ?thesis
    using assms(1, 5)
    by (simp add: prepare_session_analysis_def Let_def bindM_def or_get_provider_def liftM_def sample_generate catchM_def v
        returnM_def active_thread_of_def)
qed

definition dead_provider :: "world LLMProvider" where
  "dead_provider = \<lparr>provider_name = ascii ''dead'', model_name = ascii ''m'',
     generate = (\<lambda>p v t. throwM (ProviderTransportError [Lit ''down'']))\<rparr>"

theorem only_transport_is_retryable_witness:
  "\<exists>t. prepare_session_analysis (sample_environment []) (Inr \<lparr>ai_session = sample_session, ai_session_summary = old_summary, ai_dreams = []\<rparr>)
     M_auto (Some dead_provider) ''v2'' dream_world = (Inl (RetryableAnalysisError [Lit ''down'']), t)"
  by (rule only_transport_is_retryable [THEN iffD2])
    (simp_all add: dead_provider_def run generate_with_retry_def sample_environment_def numeral_2_eq_2)

end
