(* ===== verification/Assets.thy ===== *)
theory Assets
  imports Text
begin

text \<open>
  Prompt assets: the registry (\<open>services/prompts/registry.py\<close>), loading (\<open>services/prompts/assets.py\<close>) and
  the fixed responses of \<open>services/prompts/jungian\<close>. The content of the files below \<open>assets/\<close> is a
  parameter: \<open>files p\<close> is the text of the file at path \<open>p\<close>, or None where there is no file.
\<close>

type_synonym asset_files = "string \<Rightarrow> ustr option"

record PromptId =
  pid_prompt_type :: string
  pid_version :: string
  pid_language :: string
  pid_name :: string

definition prompt_id :: "string \<Rightarrow> string \<Rightarrow> string \<Rightarrow> string \<Rightarrow> PromptId" where
  "prompt_id t v l n = \<lparr>pid_prompt_type = t, pid_version = v, pid_language = l, pid_name = n\<rparr>"

lemma prompt_id_eq [simp]: "prompt_id t v l n = prompt_id t' v' l' n' \<longleftrightarrow> t = t' \<and> v = v' \<and> l = l' \<and> n = n'"
  by (simp add: prompt_id_def)

type_synonym prompt_registry = "(PromptId \<times> string) list"

definition build_registry :: prompt_registry where
  "build_registry =
    [(prompt_id ''dialogue'' ''v1'' ''ru'' ''companion_style_anchor'', ''dialogue/companion_style_anchor_ru.md''),
     (prompt_id ''dialogue'' ''v1'' ''ru'' ''dialogue_turn'', ''dialogue/dialogue_turn_v1_ru.md''),
     (prompt_id ''reflection'' ''v2'' ''ru'' ''dream_analysis'', ''reflection/dream_analysis_v2_ru.md''),
     (prompt_id ''fixed'' ''v1'' ''ru'' ''clarification'', ''fixed/clarification_ru.md''),
     (prompt_id ''fixed'' ''v1'' ''ru'' ''session_continue'', ''fixed/session_continue_ru.md''),
     (prompt_id ''fixed'' ''v1'' ''ru'' ''safety'', ''fixed/safety_ru.md'')]"

definition path_for :: "prompt_registry \<Rightarrow> PromptId \<Rightarrow> exn + string" where
  "path_for registry i =
     (case map_of registry i of
        None \<Rightarrow> Inl (KeyError [Lit ''Prompt asset is not registered: '', Lit (pid_name i)])
      | Some p \<Rightarrow> Inr p)"

definition read_prompt_asset :: "unicode \<Rightarrow> asset_files \<Rightarrow> PromptId \<Rightarrow> string \<Rightarrow> exn + ustr" where
  "read_prompt_asset u files i p =
     (case files p of
        None \<Rightarrow> Inl (PromptAssetNotFound [Lit ''Prompt asset file is missing for '', Lit (pid_name i), Lit '': '', Lit p])
      | Some t \<Rightarrow>
          let content = strip u t in
          if content = [] then Inl (PromptAssetNotFound [Lit ''Prompt asset file is empty for '', Lit (pid_name i), Lit '': '', Lit p])
          else Inr content)"

definition load_prompt_asset_text :: "unicode \<Rightarrow> asset_files \<Rightarrow> PromptId \<Rightarrow> exn + ustr" where
  "load_prompt_asset_text u files i =
     (case path_for build_registry i of
        Inl e \<Rightarrow> Inl (PromptAssetNotFound (exn_message e))
      | Inr p \<Rightarrow> read_prompt_asset u files i p)"

subsection \<open>The fixed responses\<close>

definition SAFETY_PROMPT :: PromptId where "SAFETY_PROMPT = prompt_id ''fixed'' ''v1'' ''ru'' ''safety''"
definition CLARIFICATION_PROMPT :: PromptId where "CLARIFICATION_PROMPT = prompt_id ''fixed'' ''v1'' ''ru'' ''clarification''"
definition SESSION_CONTINUE_PROMPT :: PromptId where
  "SESSION_CONTINUE_PROMPT = prompt_id ''fixed'' ''v1'' ''ru'' ''session_continue''"
definition COMPANION_STYLE_PROMPT :: PromptId where
  "COMPANION_STYLE_PROMPT = prompt_id ''dialogue'' ''v1'' ''ru'' ''companion_style_anchor''"
definition DIALOGUE_TURN_PROMPT :: PromptId where
  "DIALOGUE_TURN_PROMPT = prompt_id ''dialogue'' ''v1'' ''ru'' ''dialogue_turn''"

text \<open>
  The modules read the fixed texts once, when they are imported; a missing file stops the program from
  starting. Afterwards the builders return the constant.
\<close>

record fixed_responses =
  SAFETY_RESPONSE_RU :: ustr
  CLARIFICATION_RESPONSE_RU :: ustr
  SESSION_CONTINUE_RESPONSE_RU :: ustr

definition load_fixed_responses :: "unicode \<Rightarrow> asset_files \<Rightarrow> exn + fixed_responses" where
  "load_fixed_responses u files =
     bindE (load_prompt_asset_text u files CLARIFICATION_PROMPT) (\<lambda>c.
     bindE (load_prompt_asset_text u files SESSION_CONTINUE_PROMPT) (\<lambda>sc.
     bindE (load_prompt_asset_text u files SAFETY_PROMPT) (\<lambda>sa.
     Inr \<lparr>SAFETY_RESPONSE_RU = sa, CLARIFICATION_RESPONSE_RU = c, SESSION_CONTINUE_RESPONSE_RU = sc\<rparr>)))"

definition build_safety_response :: "fixed_responses \<Rightarrow> ustr" where
  "build_safety_response = SAFETY_RESPONSE_RU"

definition build_clarification_response :: "fixed_responses \<Rightarrow> ustr" where
  "build_clarification_response = CLARIFICATION_RESPONSE_RU"

lemma load_asset_Inr:
  "load_prompt_asset_text u files i = Inr t \<longleftrightarrow>
    (\<exists>p raw. map_of build_registry i = Some p \<and> files p = Some raw \<and> t = strip u raw \<and> t \<noteq> [])"
  by (auto simp: load_prompt_asset_text_def path_for_def read_prompt_asset_def Let_def split: option.splits sum.splits)

lemma load_asset_Inl: "load_prompt_asset_text u files i = Inl e \<Longrightarrow> \<exists>m. e = PromptAssetNotFound m"
  by (auto simp: load_prompt_asset_text_def read_prompt_asset_def Let_def split: option.splits sum.splits if_splits)

lemma fixed_responses_nonempty:
  "load_fixed_responses u files = Inr r \<Longrightarrow>
    SAFETY_RESPONSE_RU r \<noteq> [] \<and> CLARIFICATION_RESPONSE_RU r \<noteq> [] \<and> SESSION_CONTINUE_RESPONSE_RU r \<noteq> []"
  by (auto simp: load_fixed_responses_def bindE_Inr load_asset_Inr)

end
