(* ===== verification/Dialogue.thy ===== *)
theory Dialogue
  imports Pipeline Sessions Assets
begin

text \<open>
  One turn of the dialogue: the sanitising of the Telegram profile
  (\<open>services/dialogue/user_display_name.py\<close>), the prompt (\<open>dialogue_prompt.py\<close>) and the call of the model
  (\<open>dialogue_orchestrator.py\<close>). Russian texts are given by their code points. The theorems bound what a
  profile can put into the prompt and say which errors leave a turn.
\<close>

subsection \<open>The Telegram profile\<close>

definition MAX_DISPLAY_NAME_LEN :: nat where "MAX_DISPLAY_NAME_LEN = 64"

text \<open>\<open>[\x00-\x1f\x7f]\<close>.\<close>

definition control_char :: "nat \<Rightarrow> bool" where
  "control_char c \<longleftrightarrow> c \<le> 31 \<or> c = 127"

definition sanitize_user_display_name :: "unicode \<Rightarrow> ustr option \<Rightarrow> ustr option" where
  "sanitize_user_display_name u raw =
     (case raw of
        None \<Rightarrow> None
      | Some t \<Rightarrow>
          let first_line = takeWhile (\<lambda>c. c \<noteq> 13) (takeWhile (\<lambda>c. c \<noteq> 10) t);
              cleaned = map (\<lambda>c. if control_char c then SP else c) first_line;
              cleaned = strip u (join [SP] (split_ws u cleaned))
          in if cleaned = [] then None else Some (take MAX_DISPLAY_NAME_LEN cleaned))"

text \<open>
  \<open>^[a-z]{2,3}(-[a-z]{2,8})?$\<close>: a maximal run of letters, and after a hyphen a second one; \<open>$\<close> also
  matches before a newline at the end.
\<close>

definition lower_az :: "nat \<Rightarrow> bool" where
  "lower_az c \<longleftrightarrow> 97 \<le> c \<and> c \<le> 122"

definition at_end :: "ustr \<Rightarrow> bool" where
  "at_end s \<longleftrightarrow> s = [] \<or> s = [NL]"

definition language_code_rx :: "ustr \<Rightarrow> bool" where
  "language_code_rx s =
     (let h = takeWhile lower_az s; r = dropWhile lower_az s in
      2 \<le> length h \<and> length h \<le> 3 \<and>
      (at_end r \<or> (case r of
         [] \<Rightarrow> False
       | c # t \<Rightarrow> c = 45 \<and> (let h2 = takeWhile lower_az t in
           2 \<le> length h2 \<and> length h2 \<le> 8 \<and> at_end (dropWhile lower_az t)))))"

definition sanitize_language_code :: "unicode \<Rightarrow> ustr option \<Rightarrow> ustr option" where
  "sanitize_language_code u raw =
     (case raw of
        None \<Rightarrow> None
      | Some t \<Rightarrow>
          let cleaned = uc_lower u (strip u t) in
          if cleaned = [] \<or> 16 < length cleaned then None
          else if \<not> language_code_rx cleaned then None else Some cleaned)"

subsection \<open>The prompt\<close>

definition USER_PREFIX :: ustr where
  "USER_PREFIX = [1055, 1086, 1083, 1100, 1079, 1086, 1074, 1072, 1090, 1077, 1083, 1100]"

definition COMPANION_PREFIX :: ustr where
  "COMPANION_PREFIX = [1057, 1087, 1091, 1090, 1085, 1080, 1082]"

definition PARTICIPANT_HEADING :: ustr where
  "PARTICIPANT_HEADING = [35, 35, 32, 1059, 1095, 1072, 1089, 1090, 1085, 1080, 1082, 32, 40, 1087, 1088, 1086, 1092, 1080, 1083,
      1100, 32, 84, 101, 108, 101, 103, 114, 97, 109, 41]"

definition NAME_HINT :: ustr where
  "NAME_HINT = [110, 97, 109, 101, 95, 104, 105, 110, 116, 58, 32, 1087, 1086, 1076, 1089, 1082, 1072, 1079, 1082, 1072,
      32, 1080, 1079, 32, 1087, 1088, 1086, 1092, 1080, 1083, 1103, 32, 84, 101, 108, 101, 103, 114, 97, 109,
      59, 32, 1085, 1077, 32, 1086, 1073, 1103, 1079, 1072, 1090, 1077, 1083, 1100, 1085, 1086, 32, 1082, 1086,
      1087, 1080, 1088, 1086, 1074, 1072, 1090, 1100, 32, 1073, 1091, 1082, 1074, 1072, 1083, 1100, 1085, 1086,
      32, 1074, 32, 1086, 1090, 1074, 1077, 1090]"

definition RULES_HEADING :: ustr where
  "RULES_HEADING = [1055, 1088, 1072, 1074, 1080, 1083, 1072, 32, 1086, 1073, 1088, 1072, 1097, 1077, 1085, 1080, 1103, 58]"

definition RULE_SOURCE :: ustr where
  "RULE_SOURCE = [45, 32, 1048, 1084, 1103, 32, 1080, 32, 1103, 1079, 1099, 1082, 32, 8212, 32, 1090, 1086, 1083, 1100,
      1082, 1086, 32, 1080, 1079, 32, 1087, 1088, 1086, 1092, 1080, 1083, 1103, 32, 84, 101, 108, 101, 103,
      114, 97, 109, 44, 32, 1085, 1077, 32, 1080, 1079, 32, 1090, 1077, 1082, 1089, 1090, 1072, 32, 1089, 1086,
      1086, 1073, 1097, 1077, 1085, 1080, 1103, 32, 1087, 1086, 1083, 1100, 1079, 1086, 1074, 1072, 1090, 1077,
      1083, 1103, 46]"

definition RULE_ONCE :: ustr where
  "RULE_ONCE = [45, 32, 48, 8211, 49, 32, 1086, 1073, 1088, 1072, 1097, 1077, 1085, 1080, 1077, 32, 1087, 1086, 32, 1080,
      1084, 1077, 1085, 1080, 32, 1079, 1072, 32, 1086, 1090, 1074, 1077, 1090, 44, 32, 1082, 1086, 1075, 1076,
      1072, 32, 1091, 1084, 1077, 1089, 1090, 1085, 1086, 59, 32, 1085, 1077, 32, 1074, 32, 1082, 1072, 1078,
      1076, 1086, 1084, 32, 1086, 1090, 1074, 1077, 1090, 1077, 46]"

definition RULE_ONE_FORM :: ustr where
  "RULE_ONE_FORM = [45, 32, 1054, 1076, 1085, 1072, 32, 1092, 1086, 1088, 1084, 1072, 32, 1080, 1084, 1077, 1085, 1080, 32,
      1079, 1072, 32, 1086, 1090, 1074, 1077, 1090, 59, 32, 1085, 1077, 32, 1076, 1091, 1073, 1083, 1080, 1088,
      1091, 1081, 1090, 1077, 32, 1080, 32, 1085, 1077, 32, 1089, 1084, 1077, 1096, 1080, 1074, 1072, 1081,
      1090, 1077, 32, 40, 1085, 1077, 32, 171, 65, 110, 100, 114, 101, 121, 44, 32, 1040, 1085, 1076, 1088,
      1077, 1081, 187, 41, 46]"

definition RULE_GREETING :: ustr where
  "RULE_GREETING = [45, 32, 1053, 1077, 32, 1089, 1086, 1095, 1077, 1090, 1072, 1081, 1090, 1077, 32, 1080, 1084, 1103, 32,
      1080, 32, 1087, 1088, 1080, 1074, 1077, 1090, 1089, 1090, 1074, 1080, 1077, 32, 1085, 1077, 1083, 1086,
      1074, 1082, 1086, 32, 40, 1085, 1077, 32, 171, 1048, 1084, 1103, 44, 32, 1087, 1088, 1080, 1074, 1077,
      1090, 187, 41, 46]"

definition RULE_RU :: ustr where
  "RULE_RU = [45, 32, 1055, 1088, 1080, 32, 108, 97, 110, 103, 117, 97, 103, 101, 95, 99, 111, 100, 101, 32, 114, 117,
      32, 1087, 1088, 1077, 1076, 1087, 1086, 1095, 1080, 1090, 1072, 1081, 1090, 1077, 32, 1077, 1089, 1090,
      1077, 1089, 1090, 1074, 1077, 1085, 1085, 1091, 1102, 32, 1088, 1091, 1089, 1089, 1082, 1091, 1102, 32,
      1092, 1086, 1088, 1084, 1091, 32, 1080, 1084, 1077, 1085, 1080, 44, 32, 1077, 1089, 1083, 1080, 32, 1086,
      1085, 1072, 32, 1086, 1095, 1077, 1074, 1080, 1076, 1085, 1072, 32, 40, 65, 110, 100, 114, 101, 121, 32,
      8594, 32, 1040, 1085, 1076, 1088, 1077, 1081, 41, 44, 32, 1074, 1084, 1077, 1089, 1090, 1086, 32, 1073,
      1091, 1082, 1074, 1072, 1083, 1100, 1085, 1086, 1081, 32, 1083, 1072, 1090, 1080, 1085, 1080, 1094, 1099,
      32, 1080, 1079, 32, 1087, 1088, 1086, 1092, 1080, 1083, 1103, 46]"

definition RULE_NAME_ONLY :: ustr where
  "RULE_NAME_ONLY = [45, 32, 1045, 1089, 1083, 1080, 32, 1076, 1080, 1072, 1083, 1086, 1075, 32, 1085, 1072, 32, 1088, 1091,
      1089, 1089, 1082, 1086, 1084, 44, 32, 1084, 1086, 1078, 1085, 1086, 32, 1080, 1089, 1087, 1086, 1083,
      1100, 1079, 1086, 1074, 1072, 1090, 1100, 32, 1077, 1089, 1090, 1077, 1089, 1090, 1074, 1077, 1085, 1085,
      1091, 1102, 32, 1088, 1091, 1089, 1089, 1082, 1091, 1102, 32, 1092, 1086, 1088, 1084, 1091, 32, 1080,
      1084, 1077, 1085, 1080, 32, 1074, 1084, 1077, 1089, 1090, 1086, 32, 1083, 1072, 1090, 1080, 1085, 1080,
      1094, 1099, 32, 1080, 1079, 32, 1087, 1088, 1086, 1092, 1080, 1083, 1103, 44, 32, 1082, 1086, 1075, 1076,
      1072, 32, 1101, 1090, 1086, 32, 1091, 1084, 1077, 1089, 1090, 1085, 1086, 46]"

definition RULE_SHORT :: ustr where
  "RULE_SHORT = [45, 32, 1053, 1072, 32, 1082, 1086, 1088, 1086, 1090, 1082, 1080, 1077, 32, 1088, 1077, 1087, 1083, 1080,
      1082, 1080, 32, 1074, 1088, 1086, 1076, 1077, 32, 171, 1087, 1088, 1080, 1074, 1077, 1090, 187, 32, 1086,
      1090, 1074, 1077, 1095, 1072, 1081, 1090, 1077, 32, 1082, 1088, 1072, 1090, 1082, 1086, 32, 1080, 32,
      1077, 1089, 1090, 1077, 1089, 1090, 1074, 1077, 1085, 1085, 1086, 46]"

definition TEMPORAL_HEADING :: ustr where
  "TEMPORAL_HEADING = [35, 35, 32, 1042, 1088, 1077, 1084, 1077, 1085, 1085, 1086, 1081, 32, 1082, 1086, 1085, 1090, 1077, 1082,
      1089, 1090]"

definition NO_PREVIOUS :: ustr where
  "NO_PREVIOUS = [108, 97, 115, 116, 95, 117, 115, 101, 114, 95, 109, 101, 115, 115, 97, 103, 101, 95, 97, 116, 58, 32,
      1085, 1077, 1090, 32, 1087, 1088, 1077, 1076, 1099, 1076, 1091, 1097, 1077, 1075, 1086, 32, 1089, 1086,
      1086, 1073, 1097, 1077, 1085, 1080, 1103, 32, 1087, 1086, 1083, 1100, 1079, 1086, 1074, 1072, 1090, 1077,
      1083, 1103, 32, 1074, 32, 1101, 1090, 1086, 1081, 32, 1089, 1077, 1089, 1089, 1080, 1080]"

definition FIRST_NOTE :: ustr where
  "FIRST_NOTE = [115, 101, 115, 115, 105, 111, 110, 95, 110, 111, 116, 101, 58, 32, 1087, 1077, 1088, 1074, 1086, 1077,
      32, 1089, 1086, 1086, 1073, 1097, 1077, 1085, 1080, 1077, 32, 1087, 1086, 1083, 1100, 1079, 1086, 1074,
      1072, 1090, 1077, 1083, 1103, 32, 1074, 32, 1101, 1090, 1086, 1081, 32, 1089, 1077, 1089, 1089, 1080,
      1080]"

definition CONTEXT_HEADING :: ustr where
  "CONTEXT_HEADING = [35, 35, 32, 1058, 1077, 1082, 1091, 1097, 1080, 1081, 32, 1082, 1086, 1085, 1090, 1077, 1082, 1089, 1090,
      32, 1089, 1077, 1089, 1089, 1080, 1080]"

definition NO_CONTEXT :: ustr where
  "NO_CONTEXT = [40, 1085, 1077, 1090, 32, 1076, 1086, 1087, 1086, 1083, 1085, 1080, 1090, 1077, 1083, 1100, 1085, 1086,
      1075, 1086, 32, 1082, 1086, 1085, 1090, 1077, 1082, 1089, 1090, 1072, 41]"

definition RECENT_HEADING :: ustr where
  "RECENT_HEADING = [35, 35, 32, 1053, 1077, 1076, 1072, 1074, 1085, 1080, 1081, 32, 1076, 1080, 1072, 1083, 1086, 1075]"

definition NO_RECENT :: ustr where
  "NO_RECENT = [40, 1087, 1077, 1088, 1074, 1086, 1077, 32, 1089, 1086, 1086, 1073, 1097, 1077, 1085, 1080, 1077, 32,
      1074, 32, 1089, 1077, 1089, 1089, 1080, 1080, 41]"

definition MESSAGE_HEADING :: ustr where
  "MESSAGE_HEADING = [35, 35, 32, 1057, 1086, 1086, 1073, 1097, 1077, 1085, 1080, 1077, 32, 1087, 1086, 1083, 1100, 1079, 1086,
      1074, 1072, 1090, 1077, 1083, 1103]"

text \<open>A string is true when it is not empty: \<open>if user_display_name\<close>.\<close>

definition truthy :: "ustr option \<Rightarrow> bool" where
  "truthy x \<longleftrightarrow> x \<noteq> None \<and> x \<noteq> Some []"

definition name_rules :: "ustr option \<Rightarrow> ustr option \<Rightarrow> ustr list" where
  "name_rules name lang =
     [[], RULES_HEADING, RULE_SOURCE, RULE_ONCE, RULE_ONE_FORM, RULE_GREETING]
     @ (if truthy lang \<and> starts_with (the lang) (ascii ''ru'') then [RULE_RU]
        else if truthy name then [RULE_NAME_ONLY] else [])
     @ [RULE_SHORT]"

definition format_participant_section :: "ustr option \<Rightarrow> ustr option \<Rightarrow> ustr" where
  "format_participant_section name lang =
     (if \<not> truthy name \<and> \<not> truthy lang then []
      else join [NL] ([PARTICIPANT_HEADING, ascii ''source: telegram_profile'']
        @ (if truthy name then [ascii ''display_name: '' @ the name, NAME_HINT] else [])
        @ (if truthy lang then [ascii ''language_code: '' @ the lang] else [])
        @ name_rules name lang))"

definition format_temporal_section :: "formats \<Rightarrow> time \<Rightarrow> time option \<Rightarrow> ustr" where
  "format_temporal_section f now last_at =
     join [NL] ([TEMPORAL_HEADING, ascii ''current_time_utc: '' @ isoformat_utc_seconds f now]
       @ (case last_at of
            Some t \<Rightarrow> [ascii ''last_user_message_at: '' @ isoformat_utc_seconds f t]
          | None \<Rightarrow> [NO_PREVIOUS, FIRST_NOTE]))"

definition or_else :: "ustr \<Rightarrow> ustr \<Rightarrow> ustr" where
  "or_else t d = (if t = [] then d else t)"

definition build_dialogue_prompt ::
  "unicode \<Rightarrow> formats \<Rightarrow> asset_files \<Rightarrow> ustr \<Rightarrow> ustr \<Rightarrow> ustr \<Rightarrow> ustr option \<Rightarrow> ustr option \<Rightarrow> time \<Rightarrow> time option \<Rightarrow> exn + ustr" where
  "build_dialogue_prompt u f files user_message session_context recent_dialogue name lang now last_at =
     bindE (load_prompt_asset_text u files COMPANION_STYLE_PROMPT) (\<lambda>style.
     bindE (load_prompt_asset_text u files DIALOGUE_TURN_PROMPT) (\<lambda>instructions.
     Inr (join [NL, NL] (filter (\<lambda>part. part \<noteq> [])
       [style, CONTEXT_HEADING, or_else session_context NO_CONTEXT, RECENT_HEADING, or_else recent_dialogue NO_RECENT,
        format_participant_section name (sanitize_language_code u lang), format_temporal_section f now last_at,
        MESSAGE_HEADING, user_message, instructions]))))"

subsection \<open>The turn\<close>

definition DIALOGUE_PROMPT_VERSION :: string where "DIALOGUE_PROMPT_VERSION = ''dialogue_v1''"

definition format_recent_dialogue :: "conversation_turn list \<Rightarrow> ustr" where
  "format_recent_dialogue xs = join [NL]
     (map (\<lambda>x. (if ct_role x = TURN_ROLE_USER then USER_PREFIX else COMPANION_PREFIX) @ ascii '': '' @ ct_text x) xs)"

text \<open>An em dash stands for an empty list.\<close>

definition joined_or_dash :: "ustr list \<Rightarrow> ustr" where
  "joined_or_dash xs = (if xs = [] then [8212] else join (ascii '', '') xs)"

definition format_session_context :: "session_summary option \<Rightarrow> ustr" where
  "format_session_context summary =
     (case summary of
        None \<Rightarrow> []
      | Some x \<Rightarrow> ascii ''dream_count: '' @ str_int (int (ss_dream_count x)) @ [NL]
          @ ascii ''key_symbols: '' @ joined_or_dash (ss_key_symbols x) @ [NL]
          @ ascii ''recurring_words: '' @ joined_or_dash (ss_recurring_words x))"

fun provider_runtime_error :: "exn \<Rightarrow> exn" where
  "provider_runtime_error (ProviderTransportError m) = RuntimeError m"
| "provider_runtime_error (ProviderTerminalError m) = RuntimeError m"
| "provider_runtime_error (SDKUnexpectedError m) = RuntimeError m"
| "provider_runtime_error e = e"

fun parse_runtime_error :: "exn \<Rightarrow> exn" where
  "parse_runtime_error (ResponseParseError m) = RuntimeError m"
| "parse_runtime_error e = e"

definition generate_dialogue_turn ::
  "environment \<Rightarrow> asset_files \<Rightarrow> uuid \<Rightarrow> ustr \<Rightarrow> ustr option \<Rightarrow> ustr option \<Rightarrow> world LLMProvider option \<Rightarrow> time option
    \<Rightarrow> DialogueTurnV1 db" where
  "generate_dialogue_turn e files sid user_message name lang provider now =
     (let display_name = sanitize_user_display_name (en_unicode e) name;
          language = sanitize_language_code (en_unicode e) lang in
      bindM (case now of Some t \<Rightarrow> returnM t | None \<Rightarrow> utcnow) (\<lambda>current_time.
      bindM (get_previous_user_message_at sid) (\<lambda>previous_user_at.
      bindM (get_session_summary sid) (\<lambda>summary.
      bindM (list_recent_turns sid 10) (\<lambda>recent.
      bindM (liftM (build_dialogue_prompt (en_unicode e) (en_formats e) files user_message (format_session_context summary)
        (format_recent_dialogue recent) display_name language current_time previous_user_at)) (\<lambda>prompt.
      bindM (or_get_provider e provider) (\<lambda>llm.
      bindM (catchM (generate_with_retry (en_llm_max_attempts e) llm prompt DIALOGUE_PROMPT_VERSION None)
        (\<lambda>x. throwM (provider_runtime_error x))) (\<lambda>raw.
      bindM (catchM (liftM (bindE (extract_json (en_unicode e) (en_float e) (raw_text raw)) (parse_json (en_float e))))
        (\<lambda>x. throwM (parse_runtime_error x))) (\<lambda>parsed.
      liftM (dialogue_model_validate (en_unicode e) (en_pydantic e) parsed))))))))))"

subsection \<open>\<open>DialogueTurnV1.model_dump\<close>\<close>

fun dump_note :: "note_value \<Rightarrow> json" where
  "dump_note (NoteStr t) = JStr t"
| "dump_note (NoteList xs) = strs xs"

definition dump_dialogue_turn :: "DialogueTurnV1 \<Rightarrow> (ustr \<times> json) list" where
  "dump_dialogue_turn d =
     [(ascii ''assistant_message'', JStr (dt_assistant_message d)), (ascii ''focus'', strs (dt_focus d)),
      (ascii ''questions'', strs (dt_questions d)),
      (ascii ''background_notes'', JObj (map (\<lambda>(k, v). (k, dump_note v)) (dt_background_notes d))),
      (ascii ''emotional_intensity'', JFloat (dt_emotional_intensity d)), (ascii ''safety_flags'', strs (dt_safety_flags d))]"

text \<open>\<open>metadata.pop("assistant_message")\<close>.\<close>

definition pop_key :: "ustr \<Rightarrow> (ustr \<times> json) list \<Rightarrow> (ustr \<times> json) list" where
  "pop_key k m = filter (\<lambda>kv. fst kv \<noteq> k) m"

subsection \<open>A turn reads the database and asks the model, nothing else\<close>

lemma calls_outside_gets: "(\<And>s. \<exists>c. snd (m s) = s\<lparr>clock := c\<rparr>) \<Longrightarrow> calls_outside m"
  by (simp add: calls_outside_def)

lemma calls_outside_basic:
  "calls_outside (throwM e)" "calls_outside (liftM r)" "calls_outside (getsM f)" "calls_outside utcnow"
proof -
  have same: "\<exists>c. s = s\<lparr>clock := c\<rparr>" for s :: world by (rule exI [of _ "clock s"]) simp
  show "calls_outside (throwM e)" "calls_outside (liftM r)" "calls_outside (getsM f)"
    using same by (simp_all add: calls_outside_def run)
  show "calls_outside utcnow" by (auto simp: calls_outside_def run)
qed

lemma calls_outside_bind:
  assumes m: "calls_outside m" and k: "\<And>s x t. m s = (Inr x, t) \<Longrightarrow> calls_outside (k x)"
  shows "calls_outside (bindM m k)"
  unfolding calls_outside_def
proof
  fix s
  obtain r c where c: "m s = (r, s\<lparr>clock := c\<rparr>)"
    using m unfolding calls_outside_def by (metis surjective_pairing)
  show "\<exists>d. snd (bindM m k s) = s\<lparr>clock := d\<rparr>"
  proof (cases r)
    case (Inr x)
    have "\<exists>d. snd (k x (s\<lparr>clock := c\<rparr>)) = s\<lparr>clock := c\<rparr>\<lparr>clock := d\<rparr>"
      using k [of s x] c Inr unfolding calls_outside_def by blast
    then show ?thesis using c Inr by (auto simp: bindM_def)
  qed (use c in \<open>auto simp: bindM_def\<close>)
qed

lemma calls_outside_catch:
  assumes "calls_outside m" shows "calls_outside (catchM m (\<lambda>x. throwM (h x)))"
  unfolding calls_outside_def
proof
  fix s
  have "snd (catchM m (\<lambda>x. throwM (h x)) s) = snd (m s)"
    by (auto simp: catchM_def throwM_def split: prod.split sum.split)
  then show "\<exists>c. snd (catchM m (\<lambda>x. throwM (h x)) s) = s\<lparr>clock := c\<rparr>"
    using assms by (simp add: calls_outside_def)
qed

lemma calls_outside_or_get: "calls_outside (or_get_provider e provider)"
  by (simp add: or_get_provider_def calls_outside_return calls_outside_basic split: option.split)

lemma turn_calls_outside:
  assumes "outside_providers e provider"
  shows "calls_outside (generate_dialogue_turn e files sid m name lang provider now)"
proof -
  have llm: "calls_outside (generate_with_retry n llm p v t)"
    if "or_get_provider e provider s = (Inr llm, s')" for llm n p v t s s'
  proof -
    have "outside_provider llm"
      using or_get_provider_outside [OF _ _ that] assms by (auto simp: outside_providers_def)
    then show ?thesis unfolding generate_with_retry_def outside_provider_def by (intro calls_outside_retry) blast
  qed
  show ?thesis
    unfolding generate_dialogue_turn_def Let_def get_previous_user_message_at_def get_session_summary_def list_recent_turns_def
    by (intro calls_outside_bind calls_outside_catch calls_outside_basic calls_outside_or_get)
      (auto simp: calls_outside_return calls_outside_basic split: option.split intro: llm)
qed

lemma turn_run:
  assumes "outside_providers e provider"
    and "generate_dialogue_turn e files sid m name lang provider now s = (r, t)"
  shows "\<exists>c. t = s\<lparr>clock := c\<rparr>"
  using turn_calls_outside [OF assms(1)] assms(2) unfolding calls_outside_def by (metis snd_conv)

text \<open>The reply of a turn is an accepted one.\<close>

lemma turn_accepted:
  assumes "generate_dialogue_turn e files sid m name lang provider now s = (Inr d, t)"
  shows "\<exists>payload. dialogue_model_validate (en_unicode e) (en_pydantic e) payload = Inr d"
  using assms unfolding generate_dialogue_turn_def Let_def bindM_eq_Inr by (auto simp: liftM_def)

subsection \<open>What a profile can put into the prompt\<close>

lemma set_split_ws: "w \<in> set (split_ws u s) \<Longrightarrow> set w \<subseteq> set s"
proof (induction u s arbitrary: w rule: split_ws.induct)
  case (1 u s)
  let ?r = "dropWhile (uc_space u) s"
  have sub: "set (takeWhile P ?r) \<subseteq> set s" "set (dropWhile P ?r) \<subseteq> set s" for P
    by (meson set_takeWhileD set_dropWhileD subsetI)+
  show ?case
  proof (cases "?r = []")
    case True
    then show ?thesis using "1.prems" by (subst (asm) split_ws.simps) simp
  next
    case False
    then have "split_ws u s = takeWhile (\<lambda>c. \<not> uc_space u c) ?r # split_ws u (dropWhile (\<lambda>c. \<not> uc_space u c) ?r)"
      by (subst split_ws.simps) (simp only: Let_def if_False)
    then consider "w = takeWhile (\<lambda>c. \<not> uc_space u c) ?r" | "w \<in> set (split_ws u (dropWhile (\<lambda>c. \<not> uc_space u c) ?r))"
      using "1.prems" by auto
    then show ?thesis using "1.IH" [OF refl False] sub by cases blast+
  qed
qed

lemma set_join: "set (join sep ws) \<subseteq> set sep \<union> (\<Union>w \<in> set ws. set w)"
  by (induction sep ws rule: join.induct) auto

lemma set_strip: "set (strip u s) \<subseteq> set s"
  unfolding strip_def rstrip_def lstrip_def by (auto dest!: set_dropWhileD)

text \<open>Whatever a Telegram profile claims as a first name, what reaches the prompt is either nothing or a
  non-empty name of at most 64 characters without line breaks, control characters or white space other than
  single blanks: a profile cannot start a line or a section of its own in the prompt.\<close>

theorem profile_name_stays_on_its_line:
  assumes "sanitize_user_display_name u raw = Some t"
  shows "t \<noteq> [] \<and> length t \<le> 64 \<and> NL \<notin> set t \<and> set t \<subseteq> {c. c = SP \<or> \<not> uc_space u c \<and> \<not> control_char c}"
proof -
  obtain r where r: "raw = Some r" using assms by (auto simp: sanitize_user_display_name_def split: option.splits)
  define m where "m = map (\<lambda>c. if control_char c then SP else c) (takeWhile (\<lambda>c. c \<noteq> 13) (takeWhile (\<lambda>c. c \<noteq> 10) r))"
  define j where "j = join [SP] (split_ws u m)"
  let ?ok = "{c. c = SP \<or> \<not> uc_space u c \<and> \<not> control_char c}"
  have t: "t = take 64 (strip u j)" "strip u j \<noteq> []"
    using assms by (auto simp: r m_def j_def sanitize_user_display_name_def Let_def MAX_DISPLAY_NAME_LEN_def split: if_splits)
  have m: "set m \<subseteq> {c. c = SP \<or> \<not> control_char c}" by (auto simp: m_def)
  have "set w \<subseteq> ?ok" if "w \<in> set (split_ws u m)" for w
  proof -
    have "\<forall>c \<in> set w. \<not> uc_space u c" using split_ws_tokens [OF that] by (simp add: token_def)
    then show ?thesis using set_split_ws [OF that] m by blast
  qed
  then have "set j \<subseteq> ?ok" using set_join [of "[SP]" "split_ws u m"] by (fastforce simp: j_def)
  then have ok: "set t \<subseteq> ?ok" unfolding t(1) using set_strip [of u j] by (meson set_take_subset subset_trans)
  have "NL \<notin> set t" using ok by (auto simp: control_char_def)
  then show ?thesis using ok t by simp
qed

theorem profile_name_stays_on_its_line_witness:
  "sanitize_user_display_name basic_unicode (Some (ascii ''Ann '' @ [9] @ ascii ''B'' @ [10] @ ascii ''## Rules'')) = Some (ascii ''Ann B'')
   \<and> length (ascii ''Ann B'') \<le> 64"
proof -
  have "sanitize_user_display_name basic_unicode (Some (ascii ''Ann '' @ [9] @ ascii ''B'' @ [10] @ ascii ''## Rules'')) = Some (ascii ''Ann B'')"
    by code_simp
  with profile_name_stays_on_its_line [OF this] show ?thesis by blast
qed

end
