(* ===== verification/Jobs.thy ===== *)
theory Jobs
  imports Datetimes
begin

text \<open>
  The analysis-job queue: \<open>services/runtime/analysis_job_service.py\<close>. \<open>jobs_ok\<close> is the invariant of the
  queue; \<open>job_step\<close> lists the ways the queue changes, one constructor per operation, and the life
  cycle of a job is stated over its reachable states.
\<close>

subsection \<open>The operations\<close>

definition new_job :: "uuid \<Rightarrow> uuid \<Rightarrow> ustr \<Rightarrow> ustr \<Rightarrow> int \<Rightarrow> string \<Rightarrow> int option \<Rightarrow> time \<Rightarrow> analysis_job" where
  "new_job i sid provider model max_attempts mode dream_id now =
     \<lparr>job_id = i, job_session_id = sid, job_dream_id = dream_id, job_thread_id = None,
      job_status = QUEUED, job_provider = provider, job_model = model, job_mode = mode,
      job_attempts = 0, job_max_attempts = max 1 max_attempts, job_last_error_class = None,
      job_last_error_message = None, job_retryable = False, job_created_at = now,
      job_updated_at = now, job_available_after = now, job_started_at = None,
      job_completed_at = None, job_locked_by = None, job_locked_at = None\<rparr>"

definition create_job :: "uuid \<Rightarrow> ustr \<Rightarrow> ustr \<Rightarrow> int \<Rightarrow> string \<Rightarrow> int option \<Rightarrow> analysis_job db" where
  "create_job sid provider model max_attempts mode dream_id =
     bindM (naive_now None) (\<lambda>now.
     bindM uuid4 (\<lambda>i.
     let x = new_job i sid provider model max_attempts mode dream_id now
     in thenM (modifyM (\<lambda>s. s\<lparr>jobs := jobs s @ [x]\<rparr>)) (returnM x)))"

definition stale_running :: "world \<Rightarrow> time \<Rightarrow> int \<Rightarrow> analysis_job \<Rightarrow> bool" where
  "stale_running s acquired_at stale_seconds x \<longleftrightarrow> job_status x = RUNNING \<and> \<not> row_locked s (job_id x)
     \<and> (case job_locked_at x of None \<Rightarrow> False | Some t \<Rightarrow> t \<le> acquired_at - stale_seconds * 1000000)"

definition recover_job :: "time \<Rightarrow> int \<Rightarrow> analysis_job \<Rightarrow> analysis_job" where
  "recover_job acquired_at stale_seconds x = x\<lparr>job_status := QUEUED, job_available_after := acquired_at,
     job_updated_at := acquired_at, job_retryable := True,
     job_last_error_class := Some ''StaleRunningRecovery'',
     job_last_error_message := Some [Lit ''Recovered stale running job after '', Num stale_seconds, Lit ''s lock timeout''],
     job_locked_by := None, job_locked_at := None\<rparr>"

definition recover_stale_running_jobs :: "time \<Rightarrow> int \<Rightarrow> unit db" where
  "recover_stale_running_jobs acquired_at stale_seconds = modifyM (\<lambda>s. s\<lparr>jobs :=
     update_where (stale_running s acquired_at stale_seconds) (recover_job acquired_at stale_seconds) (jobs s)\<rparr>)"

definition acquirable :: "world \<Rightarrow> time \<Rightarrow> analysis_job \<Rightarrow> bool" where
  "acquirable s acquired_at x \<longleftrightarrow> job_status x = QUEUED \<and> job_available_after x \<le> acquired_at
     \<and> \<not> row_locked s (job_id x)"

definition queue_key :: "analysis_job \<Rightarrow> time \<times> time \<times> uuid" where
  "queue_key x = (job_available_after x, job_created_at x, job_id x)"

definition lock_job :: "string \<Rightarrow> time \<Rightarrow> analysis_job \<Rightarrow> analysis_job" where
  "lock_job locked_by acquired_at x = x\<lparr>job_status := RUNNING, job_attempts := job_attempts x + 1,
     job_updated_at := acquired_at, job_locked_by := Some locked_by, job_locked_at := Some acquired_at,
     job_started_at := (case job_started_at x of None \<Rightarrow> Some acquired_at | Some t \<Rightarrow> Some t)\<rparr>"

definition picked :: "world \<Rightarrow> time \<Rightarrow> int \<Rightarrow> analysis_job list" where
  "picked s acquired_at limit =
     take (nat limit) (sort_key queue_key (filter (acquirable s acquired_at) (jobs s)))"

definition acquire_available_jobs ::
  "int \<Rightarrow> int \<Rightarrow> string \<Rightarrow> pydatetime option \<Rightarrow> int option \<Rightarrow> analysis_job list db" where
  "acquire_available_jobs default_stale limit locked_by now stale_timeout =
     (if limit \<le> 0 then returnM [] else
      bindM (naive_now now) (\<lambda>acquired_at.
      let stale_seconds = (case stale_timeout of Some t \<Rightarrow> if t = 0 then default_stale else t | None \<Rightarrow> default_stale) in
      thenM (recover_stale_running_jobs acquired_at stale_seconds) (
      bindM (getsM (\<lambda>s. picked s acquired_at limit)) (\<lambda>xs.
      thenM (modifyM (\<lambda>s. s\<lparr>jobs := update_where (\<lambda>x. job_id x \<in> set (map job_id xs)) (lock_job locked_by acquired_at) (jobs s)\<rparr>))
        (returnM (map (lock_job locked_by acquired_at) xs))))))"

definition get_job :: "uuid \<Rightarrow> analysis_job option db" where
  "get_job i = getsM (\<lambda>s. find (\<lambda>x. job_id x = i) (jobs s))"

definition list_session_jobs :: "uuid \<Rightarrow> analysis_job list db" where
  "list_session_jobs sid = getsM (\<lambda>s.
     sort_key (\<lambda>x. (- job_created_at x, - int (job_id x))) (filter (\<lambda>x. job_session_id x = sid) (jobs s)))"

definition require_job :: "uuid \<Rightarrow> analysis_job db" where
  "require_job i = bindM (get_job i) (\<lambda>job.
     case job of
       None \<Rightarrow> throwM (InvalidJobTransitionError [Lit ''Analysis job '', Uid i, Lit '' not found''])
     | Some x \<Rightarrow> returnM x)"

fun status_value :: "job_status \<Rightarrow> string" where
  "status_value QUEUED = ''queued''"
| "status_value RUNNING = ''running''"
| "status_value COMPLETED = ''completed''"
| "status_value FAILED = ''failed''"
| "status_value CANCELLED = ''cancelled''"

text \<open>The three ways a running job is put down differ in the verb of the error and in the fields set.\<close>

definition put_down ::
  "string \<Rightarrow> uuid \<Rightarrow> pydatetime option \<Rightarrow> (time \<Rightarrow> analysis_job \<Rightarrow> analysis_job) \<Rightarrow> analysis_job db" where
  "put_down verb i now f =
     bindM (require_job i) (\<lambda>x.
     if job_status x \<noteq> RUNNING
     then throwM (InvalidJobTransitionError [Lit (''Cannot '' @ verb @ '' job in status '' @ status_value (job_status x))])
     else bindM (naive_now now) (\<lambda>t.
     thenM (modifyM (\<lambda>s. s\<lparr>jobs := update_where (\<lambda>y. job_id y = i) (f t) (jobs s)\<rparr>)) (returnM (f t x))))"

definition complete_job :: "uuid option \<Rightarrow> time \<Rightarrow> analysis_job \<Rightarrow> analysis_job" where
  "complete_job thread_id t x = x\<lparr>job_status := COMPLETED, job_thread_id := thread_id, job_completed_at := Some t,
     job_updated_at := t, job_retryable := False, job_last_error_class := None, job_last_error_message := None,
     job_locked_by := None, job_locked_at := None\<rparr>"

definition fail_job :: "string \<Rightarrow> message \<Rightarrow> bool \<Rightarrow> time \<Rightarrow> analysis_job \<Rightarrow> analysis_job" where
  "fail_job cls msg retryable t x = x\<lparr>job_status := FAILED, job_completed_at := Some t, job_updated_at := t,
     job_retryable := retryable, job_last_error_class := Some cls, job_last_error_message := Some msg,
     job_locked_by := None, job_locked_at := None\<rparr>"

definition requeue_job :: "pydatetime \<Rightarrow> string \<Rightarrow> message \<Rightarrow> time \<Rightarrow> analysis_job \<Rightarrow> analysis_job" where
  "requeue_job available_after cls msg t x = x\<lparr>job_status := QUEUED,
     job_available_after := drop_tzinfo available_after, job_updated_at := t, job_retryable := True,
     job_last_error_class := Some cls, job_last_error_message := Some msg,
     job_locked_by := None, job_locked_at := None\<rparr>"

definition mark_completed :: "uuid \<Rightarrow> uuid option \<Rightarrow> pydatetime option \<Rightarrow> analysis_job db" where
  "mark_completed i thread_id now = put_down ''complete'' i now (complete_job thread_id)"

definition mark_failed :: "uuid \<Rightarrow> string \<Rightarrow> message \<Rightarrow> bool \<Rightarrow> pydatetime option \<Rightarrow> analysis_job db" where
  "mark_failed i cls msg retryable now = put_down ''fail'' i now (fail_job cls msg retryable)"

definition requeue :: "uuid \<Rightarrow> pydatetime \<Rightarrow> string \<Rightarrow> message \<Rightarrow> pydatetime option \<Rightarrow> analysis_job db" where
  "requeue i available_after cls msg now = put_down ''requeue'' i now (requeue_job available_after cls msg)"

lemmas job_row_defs = recover_job_def lock_job_def complete_job_def fail_job_def requeue_job_def
lemmas put_down_defs = mark_completed_def mark_failed_def requeue_def

subsection \<open>The invariant of the queue\<close>

definition terminal :: "analysis_job \<Rightarrow> bool" where
  "terminal x \<longleftrightarrow> job_status x = COMPLETED \<or> job_status x = FAILED"

definition job_ok :: "analysis_job \<Rightarrow> bool" where
  "job_ok x \<longleftrightarrow>
     (job_status x = RUNNING \<longleftrightarrow> job_locked_at x \<noteq> None) \<and> (job_locked_by x = None \<longleftrightarrow> job_locked_at x = None)
     \<and> (terminal x \<longleftrightarrow> job_completed_at x \<noteq> None) \<and> job_status x \<noteq> CANCELLED
     \<and> 0 \<le> job_attempts x \<and> 1 \<le> job_max_attempts x
     \<and> (job_attempts x = 0 \<longleftrightarrow> job_started_at x = None) \<and> (job_status x \<noteq> QUEUED \<longrightarrow> 1 \<le> job_attempts x)
     \<and> (job_status x = QUEUED \<longrightarrow> (job_retryable x \<longleftrightarrow> 1 \<le> job_attempts x))
     \<and> (job_status x = COMPLETED \<longrightarrow> \<not> job_retryable x \<and> job_last_error_class x = None)
     \<and> (job_status x = FAILED \<longrightarrow> job_last_error_class x \<noteq> None)"

definition jobs_ok :: "world \<Rightarrow> bool" where
  "jobs_ok s \<longleftrightarrow> distinct (map job_id (jobs s)) \<and> (\<forall>x \<in> set (jobs s). job_ok x)
     \<and> supplies s (job_id ` set (jobs s))"

lemma job_row_ids [simp]:
  "job_id (recover_job t n x) = job_id x" "job_id (lock_job w t x) = job_id x"
  "job_id (complete_job th t x) = job_id x" "job_id (fail_job c m b t x) = job_id x"
  "job_id (requeue_job d c m t x) = job_id x"
  by (simp_all add: job_row_defs)

lemma job_row_ok:
  "job_ok x \<Longrightarrow> job_status x = RUNNING \<Longrightarrow> job_ok (recover_job t n x)"
  "job_ok x \<Longrightarrow> job_status x = QUEUED \<Longrightarrow> job_ok (lock_job w t x)"
  "job_ok x \<Longrightarrow> job_status x = RUNNING \<Longrightarrow> job_ok (complete_job th t x)"
  "job_ok x \<Longrightarrow> job_status x = RUNNING \<Longrightarrow> job_ok (fail_job c m b t x)"
  "job_ok x \<Longrightarrow> job_status x = RUNNING \<Longrightarrow> job_ok (requeue_job d c m t x)"
  by (auto simp: job_row_defs job_ok_def terminal_def split: option.splits)

lemma supplies_env [simp]:
  "supplies (s\<lparr>clock := c\<rparr>) A = supplies s A" "supplies (s\<lparr>jobs := j\<rparr>) A = supplies s A"
  "supplies (now_state now s) A = supplies s A"
  by (simp_all add: supplies_def)

lemma jobs_ok_update:
  assumes "jobs_ok s" and id: "\<And>x. job_id (f x) = job_id x"
    and ok: "\<And>x. x \<in> set (jobs s) \<Longrightarrow> P x \<Longrightarrow> job_ok x \<Longrightarrow> job_ok (f x)"
  shows "jobs_ok (s\<lparr>jobs := update_where P f (jobs s)\<rparr>)"
proof -
  have "job_id ` set (update_where P f (jobs s)) = job_id ` set (jobs s)"
    using map_update_where [of P job_id f "jobs s"] id by (metis set_map)
  moreover have "map job_id (update_where P f (jobs s)) = map job_id (jobs s)"
    by (rule map_update_where) (rule id)
  ultimately show ?thesis
    using assms(1) ok by (auto simp: jobs_ok_def set_update_where)
qed

lemma jobs_ok_now_state [simp]: "jobs_ok (now_state now s) = jobs_ok s"
  by (simp add: jobs_ok_def)

lemma jobs_ok_same_id: "jobs_ok s \<Longrightarrow> x \<in> set (jobs s) \<Longrightarrow> y \<in> set (jobs s) \<Longrightarrow> job_id x = job_id y \<Longrightarrow> x = y"
  unfolding jobs_ok_def by (metis find_distinct_key option.inject)

subsection \<open>What each operation returns\<close>

lemma create_job_run:
  "create_job sid p m k md d s =
     (let x = new_job (uuids s 0) sid p m k md d (clock s 0)
      in (Inr x, s\<lparr>clock := \<lambda>n. clock s (Suc n), uuids := \<lambda>n. uuids s (Suc n), jobs := jobs s @ [x]\<rparr>))"
  by (simp add: create_job_def run now_of_def now_state_def Let_def)

lemma new_job_ok [simp]: "job_ok (new_job i sid p m k md d t)"
  by (simp add: new_job_def job_ok_def terminal_def)

lemma new_job_sel [simp]:
  "job_id (new_job i sid p m k md d t) = i" "job_status (new_job i sid p m k md d t) = QUEUED"
  "job_attempts (new_job i sid p m k md d t) = 0" "job_max_attempts (new_job i sid p m k md d t) = max 1 k"
  by (simp_all add: new_job_def)

lemma jobs_ok_append:
  assumes "jobs_ok s" and "job_ok x" and "job_id x = uuids s 0"
  shows "jobs_ok (s\<lparr>clock := c, uuids := \<lambda>n. uuids s (Suc n), jobs := jobs s @ [x]\<rparr>)" (is "jobs_ok ?t")
proof -
  have sup: "supplies s (job_id ` set (jobs s))" and d: "distinct (map job_id (jobs s))"
    and ok: "\<forall>y \<in> set (jobs s). job_ok y"
    using assms(1) unfolding jobs_ok_def by blast+
  have "supplies ?t (job_id ` set (jobs ?t))"
    using supplies_draw(2) [OF sup] assms(3) by (simp add: supplies_def)
  moreover have "distinct (map job_id (jobs ?t))"
    using supplies_draw(1) [OF sup] d assms(3) by simp
  moreover have "\<forall>y \<in> set (jobs ?t). job_ok y"
    using ok assms(2) by simp
  ultimately show ?thesis unfolding jobs_ok_def by blast
qed

lemma create_job_ok: "jobs_ok s \<Longrightarrow> jobs_ok (snd (create_job sid p m k md d s))"
  by (simp add: create_job_run Let_def jobs_ok_append)

lemma require_job_run:
  "require_job i s = (case find (\<lambda>x. job_id x = i) (jobs s) of
     None \<Rightarrow> (Inl (InvalidJobTransitionError [Lit ''Analysis job '', Uid i, Lit '' not found'']), s)
   | Some x \<Rightarrow> (Inr x, s))"
  by (simp add: require_job_def get_job_def run split: option.split)

lemma put_down_run:
  "put_down verb i now f s = (case find (\<lambda>x. job_id x = i) (jobs s) of
     None \<Rightarrow> (Inl (InvalidJobTransitionError [Lit ''Analysis job '', Uid i, Lit '' not found'']), s)
   | Some x \<Rightarrow>
       if job_status x \<noteq> RUNNING
       then (Inl (InvalidJobTransitionError [Lit (''Cannot '' @ verb @ '' job in status '' @ status_value (job_status x))]), s)
       else (Inr (f (now_of now s) x), (now_state now s)\<lparr>jobs :=
               update_where (\<lambda>y. job_id y = i) (f (now_of now s)) (jobs s)\<rparr>))"
  by (simp add: put_down_def run require_job_run split: option.split)

lemma put_down_ok:
  assumes "jobs_ok s" and "\<And>t x. job_id (f t x) = job_id x"
    and "\<And>t x. job_ok x \<Longrightarrow> job_status x = RUNNING \<Longrightarrow> job_ok (f t x)"
  shows "jobs_ok (snd (put_down verb i now f s))"
proof (cases "find (\<lambda>x. job_id x = i) (jobs s)")
  case None
  then show ?thesis using assms(1) by (simp add: put_down_run)
next
  case (Some x)
  then have x: "x \<in> set (jobs s)" "job_id x = i" by (auto dest: find_SomeD)
  show ?thesis
  proof (cases "job_status x = RUNNING")
    case True
    have "jobs_ok ((now_state now s)\<lparr>jobs := update_where (\<lambda>y. job_id y = i) (f (now_of now s)) (jobs (now_state now s))\<rparr>)"
    proof (rule jobs_ok_update)
      fix y assume "y \<in> set (jobs (now_state now s))" "job_id y = i" "job_ok y"
      then show "job_ok (f (now_of now s) y)"
        using jobs_ok_same_id [OF assms(1), of y x] x True assms(3) by auto
    qed (simp_all add: assms)
    then show ?thesis using Some True by (simp add: put_down_run)
  qed (simp add: put_down_run Some assms(1))
qed

text \<open>\<open>acquired_state\<close>: the state after the stale jobs are back in the queue, from which jobs are picked.\<close>

definition recovered :: "time \<Rightarrow> int \<Rightarrow> world \<Rightarrow> world" where
  "recovered t stale_seconds s = s\<lparr>jobs := update_where (stale_running s t stale_seconds) (recover_job t stale_seconds) (jobs s)\<rparr>"

definition stale_of :: "int \<Rightarrow> int option \<Rightarrow> int" where
  "stale_of default_stale st = (case st of Some t \<Rightarrow> if t = 0 then default_stale else t | None \<Rightarrow> default_stale)"

definition locked :: "string \<Rightarrow> time \<Rightarrow> analysis_job list \<Rightarrow> analysis_job list \<Rightarrow> analysis_job list" where
  "locked w t xs = update_where (\<lambda>x. job_id x \<in> set (map job_id xs)) (lock_job w t)"

lemma acquire_run:
  "acquire_available_jobs dflt limit w now st s =
     (if limit \<le> 0 then (Inr [], s) else
      let t = now_of now s; r = recovered t (stale_of dflt st) (now_state now s); xs = picked r t limit
      in (Inr (map (lock_job w t) xs), r\<lparr>jobs := locked w t xs (jobs r)\<rparr>))"
  by (simp add: acquire_available_jobs_def recover_stale_running_jobs_def run Let_def recovered_def stale_of_def
      locked_def)

lemma recovered_ok: "jobs_ok s \<Longrightarrow> jobs_ok (recovered t n s)"
  unfolding recovered_def by (rule jobs_ok_update) (auto simp: stale_running_def intro: job_row_ok)

lemma set_picked: "x \<in> set (picked s t limit) \<Longrightarrow> x \<in> set (jobs s) \<and> acquirable s t x"
  by (auto simp: picked_def dest: in_set_takeD)

lemma locked_ok:
  assumes "jobs_ok s" shows "jobs_ok (s\<lparr>jobs := locked w t (picked s t limit) (jobs s)\<rparr>)"
  unfolding locked_def
proof (rule jobs_ok_update [OF assms])
  fix x assume x: "x \<in> set (jobs s)" "job_id x \<in> set (map job_id (picked s t limit))" "job_ok x"
  then obtain y where y: "y \<in> set (picked s t limit)" "job_id x = job_id y" by auto
  then have "x = y"
    using jobs_ok_same_id [OF assms x(1)] set_picked by blast
  then have "job_status x = QUEUED"
    using set_picked [OF y(1)] by (simp add: acquirable_def)
  then show "job_ok (lock_job w t x)"
    by (rule job_row_ok(2) [OF x(3)])
qed simp

lemma acquire_ok: "jobs_ok s \<Longrightarrow> jobs_ok (snd (acquire_available_jobs dflt limit w now st s))"
  by (simp add: acquire_run Let_def locked_ok recovered_ok)

subsection \<open>The life cycle\<close>

text \<open>
  The steps of the queue: every operation of the service, called by anybody at any time with any
  arguments, and anything else that leaves the job table alone (time passing, other transactions).
\<close>

inductive job_step :: "world \<Rightarrow> world \<Rightarrow> bool" where
  create: "create_job sid p m k md d s = (r, t) \<Longrightarrow> job_step s t"
| acquire: "acquire_available_jobs dflt limit w now st s = (r, t) \<Longrightarrow> job_step s t"
| complete: "mark_completed i th now s = (r, t) \<Longrightarrow> job_step s t"
| fail: "mark_failed i c msg b now s = (r, t) \<Longrightarrow> job_step s t"
| retry: "requeue i d c msg now s = (r, t) \<Longrightarrow> job_step s t"
| elsewhere: "jobs t = jobs s \<Longrightarrow> supplies t (job_id ` set (jobs s)) \<Longrightarrow> job_step s t"

inductive_cases job_stepE: "job_step s t"

inductive job_reachable :: "world \<Rightarrow> bool" where
  start: "jobs s = [] \<Longrightarrow> supplies s {} \<Longrightarrow> job_reachable s"
| step: "job_reachable s \<Longrightarrow> job_step s t \<Longrightarrow> job_reachable t"

lemma put_down_ops_ok:
  assumes "jobs_ok s"
  shows "jobs_ok (snd (mark_completed i th now s))" "jobs_ok (snd (mark_failed i c msg b now s))"
    "jobs_ok (snd (requeue i d c msg now s))"
  unfolding put_down_defs by (rule put_down_ok [OF assms]; simp add: job_row_ok)+

lemma job_step_ok: "job_step s t \<Longrightarrow> jobs_ok s \<Longrightarrow> jobs_ok t"
proof (induction rule: job_step.induct)
  case (elsewhere t s)
  then show ?case by (simp add: jobs_ok_def)
qed (metis create_job_ok acquire_ok put_down_ops_ok snd_conv)+

text \<open>How a row may follow another: what never changes, what only grows, and what is final.\<close>

definition follows :: "analysis_job \<Rightarrow> analysis_job \<Rightarrow> bool" where
  "follows x y \<longleftrightarrow> job_id y = job_id x \<and> job_session_id y = job_session_id x \<and> job_dream_id y = job_dream_id x
     \<and> job_mode y = job_mode x \<and> job_max_attempts y = job_max_attempts x \<and> job_created_at y = job_created_at x
     \<and> job_attempts x \<le> job_attempts y
     \<and> (job_started_at x \<noteq> None \<longrightarrow> job_started_at y = job_started_at x) \<and> (terminal x \<longrightarrow> y = x)"

lemma follows_refl [simp]: "follows x x"
  by (simp add: follows_def)

lemma follows_trans: "follows x y \<Longrightarrow> follows y z \<Longrightarrow> follows x z"
  unfolding follows_def by (auto simp: terminal_def)

lemma follows_row:
  "job_status x = RUNNING \<Longrightarrow> follows x (recover_job t n x)"
  "job_status x = QUEUED \<Longrightarrow> follows x (lock_job w t x)"
  "job_status x = RUNNING \<Longrightarrow> follows x (complete_job th t x)"
  "job_status x = RUNNING \<Longrightarrow> follows x (fail_job c m b t x)"
  "job_status x = RUNNING \<Longrightarrow> follows x (requeue_job d c m t x)"
  by (auto simp: job_row_defs follows_def terminal_def)

definition evolves :: "analysis_job list \<Rightarrow> analysis_job list \<Rightarrow> bool" where
  "evolves xs ys \<longleftrightarrow> (\<forall>x \<in> set xs. \<exists>y \<in> set ys. follows x y)"

lemma evolves_refl [simp]: "evolves xs xs"
  unfolding evolves_def using follows_refl by blast

lemma evolves_trans: "evolves xs ys \<Longrightarrow> evolves ys zs \<Longrightarrow> evolves xs zs"
  unfolding evolves_def by (meson follows_trans)

lemma evolves_update:
  assumes "\<And>x. x \<in> set xs \<Longrightarrow> P x \<Longrightarrow> follows x (f x)"
  shows "evolves xs (update_where P f xs)"
  unfolding evolves_def set_update_where
proof
  fix x assume x: "x \<in> set xs"
  show "\<exists>y \<in> (\<lambda>x. if P x then f x else x) ` set xs. follows x y"
    by (rule bexI [OF _ imageI [OF x]]) (simp add: assms x)
qed

lemma evolves_append: "evolves xs (xs @ ys)"
  unfolding evolves_def set_append using follows_refl by blast

lemma put_down_evolves:
  assumes "jobs_ok s" and "\<And>t x. job_status x = RUNNING \<Longrightarrow> follows x (f t x)"
  shows "evolves (jobs s) (jobs (snd (put_down verb i now f s)))"
proof (cases "find (\<lambda>x. job_id x = i) (jobs s)")
  case (Some x)
  then have x: "x \<in> set (jobs s)" "job_id x = i" by (auto dest: find_SomeD)
  have "follows y (f (now_of now s) y)" if "job_status x = RUNNING" "y \<in> set (jobs s)" "job_id y = i" for y
    using jobs_ok_same_id [OF assms(1) that(2) x(1)] that x(2) assms(2) by simp
  then show ?thesis by (simp add: put_down_run Some evolves_update)
qed (simp add: put_down_run)

lemma locked_evolves:
  assumes "jobs_ok s" shows "evolves (jobs s) (locked w t (picked s t limit) (jobs s))"
  unfolding locked_def
proof (rule evolves_update)
  fix x assume x: "x \<in> set (jobs s)" "job_id x \<in> set (map job_id (picked s t limit))"
  then obtain y where y: "y \<in> set (picked s t limit)" "job_id x = job_id y" by auto
  then have "x = y"
    using jobs_ok_same_id [OF assms x(1)] set_picked by blast
  then show "follows x (lock_job w t x)"
    using set_picked [OF y(1)] by (simp add: acquirable_def follows_row)
qed

lemma acquire_evolves:
  assumes "jobs_ok s" shows "evolves (jobs s) (jobs (snd (acquire_available_jobs dflt limit w now st s)))"
proof -
  let ?t = "now_of now s" and ?n = "stale_of dflt st"
  let ?r = "recovered ?t ?n (now_state now s)"
  have "evolves (jobs s) (jobs ?r)"
    unfolding recovered_def by (simp, rule evolves_update) (auto simp: stale_running_def intro: follows_row)
  moreover have "evolves (jobs ?r) (locked w ?t (picked ?r ?t limit) (jobs ?r))"
    using assms by (intro locked_evolves recovered_ok) simp
  ultimately show ?thesis by (auto simp: acquire_run Let_def intro: evolves_trans)
qed

lemma put_down_ops_evolve:
  assumes "jobs_ok s"
  shows "evolves (jobs s) (jobs (snd (mark_completed i th now s)))"
    "evolves (jobs s) (jobs (snd (mark_failed i c msg b now s)))"
    "evolves (jobs s) (jobs (snd (requeue i d c msg now s)))"
  unfolding put_down_defs by (rule put_down_evolves [OF assms]; simp add: follows_row)+

lemma create_evolves: "evolves (jobs s) (jobs (snd (create_job sid p m k md d s)))"
  by (simp add: create_job_run Let_def evolves_append)

lemma job_step_evolves: "job_step s t \<Longrightarrow> jobs_ok s \<Longrightarrow> evolves (jobs s) (jobs t)"
proof (induction rule: job_step.induct)
  case (elsewhere t s)
  then show ?case by simp
qed (metis create_evolves acquire_evolves put_down_ops_evolve snd_conv)+

lemma job_steps: "job_step\<^sup>*\<^sup>* s t \<Longrightarrow> jobs_ok s \<Longrightarrow> jobs_ok t \<and> evolves (jobs s) (jobs t)"
proof (induction rule: rtranclp_induct)
  case (step u v)
  then show ?case using job_step_ok job_step_evolves evolves_trans by blast
qed simp

lemma job_reachable_ok: "job_reachable s \<Longrightarrow> jobs_ok s"
proof (induction rule: job_reachable.induct)
  case (start s)
  then show ?case by (simp add: jobs_ok_def)
qed (rule job_step_ok)

subsection \<open>Properties of the life cycle\<close>

text \<open>C22. Whatever sequence of service calls, by any number of workers, has been made: identifiers are
  unique; exactly the running jobs carry a lock, with an owner; exactly the completed and failed ones
  have a completion time; a job that left the queue has a start time and at least one attempt; a
  completed job carries no error and a failed one does; no job is ever in the status CANCELLED.\<close>

theorem job_queue_invariant:
  assumes "job_reachable s"
  shows "distinct (map job_id (jobs s)) \<and> (\<forall>x \<in> set (jobs s). job_ok x)"
  using job_reachable_ok [OF assms] by (simp add: jobs_ok_def)

text \<open>C23. A job that is completed or failed stays exactly as it is, and no later attempt to complete,
  fail or requeue it succeeds: the first outcome of a job wins, whichever worker reports it and however
  many steps lie between. Every such late report raises and changes nothing.\<close>

theorem first_outcome_wins:
  assumes "job_reachable s" and "x \<in> set (jobs s)" and "terminal x" and "job_step\<^sup>*\<^sup>* s t"
  shows "x \<in> set (jobs t)
    \<and> mark_completed (job_id x) th now t =
        (Inl (InvalidJobTransitionError [Lit (''Cannot complete job in status '' @ status_value (job_status x))]), t)
    \<and> mark_failed (job_id x) c msg b now t =
        (Inl (InvalidJobTransitionError [Lit (''Cannot fail job in status '' @ status_value (job_status x))]), t)
    \<and> requeue (job_id x) d c msg now t =
        (Inl (InvalidJobTransitionError [Lit (''Cannot requeue job in status '' @ status_value (job_status x))]), t)"
proof -
  have t: "jobs_ok t" "evolves (jobs s) (jobs t)"
    using job_steps [OF assms(4) job_reachable_ok [OF assms(1)]] by simp_all
  then have x: "x \<in> set (jobs t)"
    using assms(2, 3) unfolding evolves_def follows_def by metis
  have "find (\<lambda>y. job_id y = job_id x) (jobs t) = Some x"
    using t(1) x by (simp add: jobs_ok_def find_distinct_key)
  moreover have "job_status x \<noteq> RUNNING" using assms(3) by (auto simp: terminal_def)
  ultimately show ?thesis using x by (simp add: put_down_defs put_down_run)
qed

lemma queue_key_lock [simp]: "queue_key (lock_job w t x) = queue_key x"
  by (simp add: queue_key_def lock_job_def)

lemma lock_job_sel [simp]:
  "job_status (lock_job w t x) = RUNNING" "job_locked_by (lock_job w t x) = Some w"
  "job_locked_at (lock_job w t x) = Some t" "job_attempts (lock_job w t x) = job_attempts x + 1"
  "job_max_attempts (lock_job w t x) = job_max_attempts x"
  by (simp_all add: lock_job_def)

lemma recovered_env [simp]:
  "row_locked (recovered t n s) = row_locked s" "clock (recovered t n s) = clock s"
  by (simp_all add: recovered_def)

text \<open>Acquiring hands out at most \<open>limit\<close> jobs, each now running under the caller's name and not held
  by anybody else, in the order of their availability, creation and identifier. If an available job is
  left behind, the batch is full and every job in it comes before that one.\<close>

theorem acquire_takes_the_first_available:
  assumes "jobs_ok s" and "0 < limit" and "acquire_available_jobs dflt limit w now st s = (Inr js, s')"
  shows "int (length js) \<le> limit \<and> sorted (map queue_key js)
    \<and> (\<forall>x \<in> set js. x \<in> set (jobs s') \<and> job_status x = RUNNING \<and> job_locked_by x = Some w
         \<and> job_locked_at x = Some (now_of now s) \<and> \<not> row_locked s (job_id x))
    \<and> (\<forall>y \<in> set (jobs s'). acquirable s (now_of now s) y \<longrightarrow>
         int (length js) = limit \<and> (\<forall>x \<in> set js. queue_key x \<le> queue_key y))"
proof -
  let ?t = "now_of now s"
  define r where "r = recovered ?t (stale_of dflt st) (now_state now s)"
  define xs where "xs = picked r ?t limit"
  have js: "js = map (lock_job w ?t) xs" and s': "jobs s' = locked w ?t xs (jobs r)"
    using assms(2, 3) by (auto simp: acquire_run Let_def r_def xs_def)
  have ok: "jobs_ok r" using assms(1) by (simp add: r_def recovered_ok)
  have lk: "row_locked r = row_locked s" by (simp add: r_def)
  have xs_in: "x \<in> set (jobs r) \<and> acquirable r ?t x" if "x \<in> set xs" for x
    using that set_picked by (simp add: xs_def)
  have "int (length js) \<le> limit" using assms(2) by (simp add: js xs_def picked_def)
  moreover have "sorted (map queue_key js)"
    by (simp add: js xs_def picked_def comp_def sorted_wrt_take flip: take_map)
  moreover have "x \<in> set (jobs s') \<and> job_status x = RUNNING \<and> job_locked_by x = Some w
         \<and> job_locked_at x = Some ?t \<and> \<not> row_locked s (job_id x)" if x: "x \<in> set js" for x
  proof -
    obtain y where y: "x = lock_job w ?t y" "y \<in> set xs" using x by (auto simp: js)
    then have "lock_job w ?t y \<in> set (jobs s')"
      using xs_in [OF y(2)] by (force simp: s' locked_def set_update_where)
    then show ?thesis using y xs_in [OF y(2)] lk by (simp add: acquirable_def)
  qed
  moreover have "int (length js) = limit \<and> (\<forall>x \<in> set js. queue_key x \<le> queue_key y)"
    if y: "y \<in> set (jobs s')" "acquirable s ?t y" for y
  proof -
    have "y \<in> set (jobs r)" and nin: "y \<notin> set xs"
      using y by (auto simp: s' locked_def set_update_where acquirable_def split: if_splits)
    then have yf: "y \<in> set (filter (acquirable r ?t) (jobs r))"
      using y(2) lk by (simp add: acquirable_def)
    show ?thesis
    proof (cases "xs = []")
      case True
      then have "sort_key queue_key (filter (acquirable r ?t) (jobs r)) = []"
        using assms(2) by (simp add: xs_def picked_def)
      moreover have "y \<in> set (sort_key queue_key (filter (acquirable r ?t) (jobs r)))"
        using yf by simp
      ultimately show ?thesis by (metis empty_iff empty_set)
    next
      case False
      then obtain x where "x \<in> set xs" by (cases xs) auto
      then have "nat limit \<le> length (filter (acquirable r ?t) (jobs r))"
        using take_sorted_le(2) [OF _ yf] nin unfolding xs_def picked_def by blast
      moreover have "queue_key x \<le> queue_key y" if "x \<in> set xs" for x
        using take_sorted_le(1) [OF _ yf] that nin unfolding xs_def picked_def by blast
      ultimately show ?thesis using assms(2) by (auto simp: js xs_def picked_def)
    qed
  qed
  ultimately show ?thesis by blast
qed

text \<open>
  The rows an acquirer has changed stay locked until its transaction ends; \<open>held s s'\<close> are their
  identifiers.
\<close>

definition held :: "world \<Rightarrow> world \<Rightarrow> uuid \<Rightarrow> bool" where
  "held s s' i \<longleftrightarrow> (\<exists>x \<in> set (jobs s). job_id x = i \<and> x \<notin> set (jobs s'))"

lemma acquire_ids:
  assumes "jobs_ok s" and "acquire_available_jobs dflt limit w now st s = (Inr js, s')" and "x \<in> set js"
  shows "\<exists>y \<in> set (jobs s). job_id y = job_id x \<and> \<not> row_locked s (job_id y)
    \<and> (job_status y = QUEUED \<or> stale_running s (now_of now s) (stale_of dflt st) y)
    \<and> x \<in> set (jobs s') \<and> job_attempts x = job_attempts y + 1"
proof -
  let ?t = "now_of now s"
  let ?n = "stale_of dflt st"
  let ?r = "recovered ?t ?n (now_state now s)"
  let ?xs = "picked ?r ?t limit"
  have lim: "0 < limit" using assms(2, 3) by (cases "limit \<le> 0") (auto simp: acquire_run)
  then have js: "js = map (lock_job w ?t) ?xs" and s': "jobs s' = locked w ?t ?xs (jobs ?r)"
    using assms(2) by (auto simp: acquire_run Let_def)
  obtain z where z: "x = lock_job w ?t z" "z \<in> set ?xs" using assms(3) js by auto
  have zr: "z \<in> set (jobs ?r)" "acquirable ?r ?t z" using set_picked [OF z(2)] by simp_all
  have stale: "stale_running (now_state now s) ?t ?n = stale_running s ?t ?n"
    by (rule ext) (simp add: stale_running_def)
  obtain y where y: "y \<in> set (jobs s)" "z = (if stale_running s ?t ?n y then recover_job ?t ?n y else y)"
    using zr(1) by (auto simp: recovered_def set_update_where stale)
  have "x \<in> set (jobs s')"
    using zr(1) z by (force simp: s' locked_def set_update_where)
  then show ?thesis
    using y zr(2) z(1) by (intro bexI [of _ y]) (auto simp: acquirable_def recover_job_def split: if_splits)
qed

lemma acquire_takes_lock:
  assumes "jobs_ok s" and "0 < limit" and "acquire_available_jobs dflt limit w now st s = (Inr js, s')"
  shows "\<forall>x \<in> set js. job_status x = RUNNING \<and> job_locked_at x = Some (now_of now s)"
  using assms(2, 3) by (auto simp: acquire_run Let_def)

text \<open>C8. Two workers never hold the same job. If the second acquires while the first transaction is
  still open, it skips the rows the first has changed; if it acquires after the first has committed,
  it finds them running, and leaves them alone until their lock is older than the stale timeout.\<close>

theorem concurrent_acquirers_are_disjoint:
  assumes "jobs_ok s" and "acquire_available_jobs dflt limit w now st s = (Inr js, s')"
    and "u = s\<lparr>row_locked := \<lambda>i. row_locked s i \<or> held s s' i, clock := c\<rparr>
       \<or> u = s'\<lparr>clock := c\<rparr> \<and> now_of now' u - stale_of dflt st' * 1000000 < now_of now s"
    and "acquire_available_jobs dflt limit' w' now' st' u = (Inr js', u')"
  shows "set (map job_id js) \<inter> set (map job_id js') = {}"
proof (rule ccontr)
  assume "set (map job_id js) \<inter> set (map job_id js') \<noteq> {}"
  then obtain x x' where x: "x \<in> set js" and x': "x' \<in> set js'" "job_id x = job_id x'" by auto
  have lim: "0 < limit" using assms(2) x by (cases "limit \<le> 0") (auto simp: acquire_run)
  obtain y where y: "y \<in> set (jobs s)" "job_id y = job_id x" "x \<in> set (jobs s')" "job_attempts x = job_attempts y + 1"
    using acquire_ids [OF assms(1, 2) x] by blast
  have ok': "jobs_ok s'" using acquire_ok [OF assms(1)] assms(2) by (metis snd_conv)
  have run: "job_status x = RUNNING" "job_locked_at x = Some (now_of now s)"
    using acquire_takes_lock [OF assms(1) lim assms(2)] x by auto
  from assms(3) show False
  proof
    assume u: "u = s\<lparr>row_locked := \<lambda>i. row_locked s i \<or> held s s' i, clock := c\<rparr>"
    then have "jobs_ok u" using assms(1) by (simp add: jobs_ok_def supplies_def)
    then obtain z where "z \<in> set (jobs u)" "job_id z = job_id x'" "\<not> row_locked u (job_id z)"
      using acquire_ids [OF _ assms(4) x'(1)] by blast
    moreover have "held s s' (job_id x)"
      using y jobs_ok_same_id [OF ok' y(3)] unfolding held_def by force
    ultimately show False using u x'(2) by simp
  next
    assume u: "u = s'\<lparr>clock := c\<rparr> \<and> now_of now' u - stale_of dflt st' * 1000000 < now_of now s"
    then have "jobs_ok u" using ok' by (simp add: jobs_ok_def supplies_def)
    then obtain z where "z \<in> set (jobs u)" "job_id z = job_id x'"
      "job_status z = QUEUED \<or> stale_running u (now_of now' u) (stale_of dflt st') z"
      using acquire_ids [OF _ assms(4) x'(1)] by blast
    moreover from this have "z = x" using jobs_ok_same_id [OF ok'] y(3) x'(2) u by simp
    ultimately show False using run u by (auto simp: stale_running_def)
  qed
qed

subsection \<open>Attempts\<close>

lemma acquire_single:
  assumes "jobs s = [x]" and "job_status x = QUEUED \<or> job_status x = RUNNING" and "job_ok x"
  shows "\<exists>now y t. acquire_available_jobs 60 1 w (Some now) None (s\<lparr>row_locked := \<lambda>_. False\<rparr>) = (Inr [y], t)
    \<and> jobs t = [y] \<and> job_status y = RUNNING \<and> job_attempts y = job_attempts x + 1
    \<and> job_max_attempts y = job_max_attempts x"
proof (cases "job_status x")
  case QUEUED
  show ?thesis
    by (rule exI [of _ "Naive (job_available_after x)"])
      (simp add: acquire_run Let_def now_of_def now_state_def recovered_def assms(1) stale_running_def
        picked_def acquirable_def QUEUED locked_def)
next
  case RUNNING
  then obtain t where t: "job_locked_at x = Some t" using assms(3) by (auto simp: job_ok_def)
  show ?thesis
    by (rule exI [of _ "Naive (t + 60 * 1000000)"])
      (simp add: acquire_run Let_def now_of_def now_state_def recovered_def assms(1) stale_running_def
        picked_def acquirable_def RUNNING locked_def t stale_of_def, simp add: recover_job_def lock_job_def)
qed (use assms(2) in simp_all)

text \<open>The recovery of stale running jobs does not look at the limit on attempts: a job that is
  allowed a single attempt can be run any number of times.\<close>

theorem attempts_exceed_the_limit:
  "\<exists>s x. job_reachable s \<and> x \<in> set (jobs s) \<and> job_max_attempts x = 1 \<and> job_attempts x = int n"
proof -
  have "\<exists>s x. job_reachable s \<and> jobs s = [x] \<and> job_max_attempts x = 1 \<and> job_attempts x = int n
    \<and> (job_status x = QUEUED \<or> job_status x = RUNNING)"
  proof (induction n)
    case 0
    have "job_reachable empty_world"
      by (rule start) (auto simp: empty_world_def supplies_def inj_def)
    then have "job_reachable (snd (create_job 7 [] [] 1 [] None empty_world))"
      by (rule step) (rule job_step.create [OF surjective_pairing])
    then show ?case
      by (intro exI conjI, assumption) (simp add: create_job_run Let_def empty_world_def, simp_all)
  next
    case (Suc n)
    then obtain s x where s: "job_reachable s" "jobs s = [x]" "job_max_attempts x = 1" "job_attempts x = int n"
      "job_status x = QUEUED \<or> job_status x = RUNNING" by blast
    have ok: "jobs_ok s" using s(1) by (rule job_reachable_ok)
    let ?u = "s\<lparr>row_locked := \<lambda>_. False\<rparr>"
    have "job_step s ?u" using ok by (intro elsewhere) (simp_all add: jobs_ok_def supplies_def)
    then have u: "job_reachable ?u" by (rule step [OF s(1)])
    have "job_ok x" using ok s(2) by (simp add: jobs_ok_def)
    then obtain now y t where t: "acquire_available_jobs 60 1 [] (Some now) None ?u = (Inr [y], t)"
      "jobs t = [y]" "job_status y = RUNNING" "job_attempts y = job_attempts x + 1" "job_max_attempts y = job_max_attempts x"
      using acquire_single [OF s(2, 5)] by blast
    have "job_reachable t" by (rule step [OF u job_step.acquire [OF t(1)]])
    then show ?case using t s by force
  qed
  then show ?thesis by force
qed

subsection \<open>A concrete queue\<close>

definition queue0 :: world where
  "queue0 = snd (create_job 7 [109] [109] 1 ''auto'' None empty_world)"

definition queue1 :: world where
  "queue1 = snd (acquire_available_jobs 60 1 ''w1'' None None queue0)"

definition queue2 :: world where
  "queue2 = snd (mark_completed 100 None None queue1)"

lemma queue_reachable: "job_reachable empty_world" "job_reachable queue0" "job_reachable queue1" "job_reachable queue2"
proof -
  show "job_reachable empty_world"
    by (rule start) (auto simp: empty_world_def supplies_def inj_def)
  then show q0: "job_reachable queue0"
    unfolding queue0_def by (rule step) (rule job_step.create [OF surjective_pairing])
  then show q1: "job_reachable queue1"
    unfolding queue1_def by (rule step) (rule job_step.acquire [OF surjective_pairing])
  then show "job_reachable queue2"
    unfolding queue2_def by (rule step) (rule job_step.complete [OF surjective_pairing])
qed

lemma queue0_run: "acquire_available_jobs 60 1 w None None queue0 =
   (Inr [lock_job w 2000000 (new_job 100 7 [109] [109] 1 ''auto'' None 1000000)], snd (acquire_available_jobs 60 1 w None None queue0))"
  "jobs queue1 = [lock_job ''w1'' 2000000 (new_job 100 7 [109] [109] 1 ''auto'' None 1000000)]"
  by (simp_all add: queue1_def queue0_def create_job_run empty_world_def acquire_run Let_def now_of_def now_state_def
      recovered_def stale_running_def picked_def acquirable_def locked_def, simp_all add: new_job_def)

lemma queue2_done: "\<exists>x. jobs queue2 = [x] \<and> terminal x \<and> job_id x = 100"
proof -
  let ?x = "lock_job ''w1'' 2000000 (new_job 100 7 [109] [109] 1 ''auto'' None 1000000)"
  have "job_id ?x = 100" by simp
  then have "jobs queue2 = [complete_job None (now_of None queue1) ?x]"
    by (simp add: queue2_def put_down_defs put_down_run queue0_run(2))
  then show ?thesis by (simp add: terminal_def complete_job_def)
qed

theorem job_queue_invariant_witness:
  "\<exists>x. jobs queue1 = [x] \<and> job_ok x \<and> job_status x = RUNNING"
  using job_queue_invariant [OF queue_reachable(3)] by (simp add: queue0_run)

theorem first_outcome_wins_witness:
  "\<exists>x. x \<in> set (jobs queue2) \<and> mark_completed (job_id x) None None queue2 =
        (Inl (InvalidJobTransitionError [Lit (''Cannot complete job in status '' @ status_value (job_status x))]), queue2)"
proof -
  obtain x where x: "jobs queue2 = [x]" "terminal x" using queue2_done by blast
  then have "x \<in> set (jobs queue2)" by simp
  from first_outcome_wins [OF queue_reachable(4) this x(2) rtranclp.rtrancl_refl] show ?thesis by blast
qed

theorem acquire_takes_the_first_available_witness:
  "\<exists>x s'. acquire_available_jobs 60 1 ''w1'' None None queue0 = (Inr [x], s')
    \<and> x \<in> set (jobs s') \<and> job_status x = RUNNING \<and> job_locked_by x = Some ''w1''
    \<and> job_locked_at x = Some (now_of None queue0) \<and> \<not> row_locked queue0 (job_id x)"
  using acquire_takes_the_first_available [OF job_reachable_ok [OF queue_reachable(2)] zero_less_one queue0_run(1) [of "''w1''"]]
    queue0_run(1) [of "''w1''"] by (metis list.set_intros(1))

theorem concurrent_acquirers_are_disjoint_witness:
  "\<exists>js s' js' u'. acquire_available_jobs 60 1 ''w1'' None None queue0 = (Inr js, s')
    \<and> acquire_available_jobs 60 5 ''w2'' None None
        (queue0\<lparr>row_locked := \<lambda>i. row_locked queue0 i \<or> held queue0 s' i, clock := clock queue0\<rparr>) = (Inr js', u')
    \<and> js \<noteq> [] \<and> set (map job_id js) \<inter> set (map job_id js') = {}"
proof -
  let ?a = "acquire_available_jobs 60 1 ''w1'' None None queue0"
  let ?u = "queue0\<lparr>row_locked := \<lambda>i. row_locked queue0 i \<or> held queue0 (snd ?a) i, clock := clock queue0\<rparr>"
  obtain js' u' where b: "acquire_available_jobs 60 5 ''w2'' None None ?u = (Inr js', u')"
    by (simp add: acquire_run Let_def)
  from concurrent_acquirers_are_disjoint [OF job_reachable_ok [OF queue_reachable(2)] queue0_run(1) [of "''w1''"] disjI1 [OF refl] b]
  show ?thesis using queue0_run(1) [of "''w1''"] b by blast
qed

end
