(* ===== verification/Runtime.thy ===== *)
theory Runtime
  imports Pipeline Jobs
begin

text \<open>
  Running jobs: delivery (\<open>services/notifications\<close>), the executor of one job
  (\<open>services/runtime/analysis_runtime_executor.py\<close>) and the worker (\<open>analysis_runtime_worker.py\<close>). Redis and the
  Bot API are parameters; \<open>sent\<close> records every message handed to the Bot API, and \<open>redis\<close> is the content of
  Redis, which only the client given as parameter changes.
\<close>

subsection \<open>Telegram\<close>

type_synonym redis_client = "string \<times> uuid \<Rightarrow> string \<Rightarrow> int \<Rightarrow> bool option db"
type_synonym telegram_port = "ustr \<Rightarrow> session_analysis \<Rightarrow> unit db"

record runtime =
  rt_env :: environment
  rt_env_mode :: ustr
  rt_override_redis :: "redis_client option"
  rt_override_telegram :: "telegram_port option"
  rt_redis :: redis_client
  rt_bot_token :: ustr
  rt_post :: "string \<Rightarrow> ustr \<Rightarrow> ustr \<Rightarrow> unit db"    \<comment> \<open>Bot API method, chat, text or action\<close>
  rt_stale_timeout :: int

definition send_chat_action :: "runtime \<Rightarrow> ustr \<Rightarrow> ustr \<Rightarrow> unit db" where
  "send_chat_action rt chat_id action =
     (if rt_bot_token rt = [] then throwM (RuntimeError [Lit ''BOT_TOKEN is not configured''])
      else rt_post rt ''sendChatAction'' chat_id action)"

definition log_sent :: "ustr \<Rightarrow> ustr \<Rightarrow> unit db" where
  "log_sent chat_id t = modifyM (\<lambda>s. s\<lparr>sent := sent s @ [(chat_id, t)]\<rparr>)"

definition send_text :: "runtime \<Rightarrow> ustr \<Rightarrow> ustr \<Rightarrow> unit db" where
  "send_text rt chat_id t =
     (if rt_bot_token rt = [] then throwM (RuntimeError [Lit ''BOT_TOKEN is not configured''])
      else thenM (log_sent chat_id t) (rt_post rt ''sendMessage'' chat_id t))"

definition send_analysis :: "runtime \<Rightarrow> telegram_port" where
  "send_analysis rt chat_id a =
     (if rt_bot_token rt = [] then throwM (RuntimeError [Lit ''BOT_TOKEN is not configured''])
      else bindM (liftM (format_analysis_message (en_unicode (rt_env rt)) (en_pydantic (rt_env rt)) a)) (\<lambda>t.
        thenM (log_sent chat_id t) (rt_post rt ''sendMessage'' chat_id t)))"

subsection \<open>Delivery\<close>

definition DELIVERY_LOCK_KEY_PREFIX :: string where "DELIVERY_LOCK_KEY_PREFIX = ''delivery:key:''"
definition DELIVERY_LOCK_TTL_SECONDS :: int where "DELIVERY_LOCK_TTL_SECONDS = 86400"

definition delivery_lock_key :: "uuid \<Rightarrow> string \<times> uuid" where
  "delivery_lock_key i = (DELIVERY_LOCK_KEY_PREFIX, i)"

definition acquire_delivery_lock :: "redis_client \<Rightarrow> uuid \<Rightarrow> bool db" where
  "acquire_delivery_lock client i =
     bindM (client (delivery_lock_key i) ''1'' DELIVERY_LOCK_TTL_SECONDS) (\<lambda>r. returnM (r = Some True))"

definition chat_id_of :: "session_analysis \<Rightarrow> ustr option" where
  "chat_id_of a = Some (str_int (sa_user_id a))"

definition deliver_completed_analysis :: "analysis_job \<Rightarrow> session_analysis \<Rightarrow> redis_client \<Rightarrow> telegram_port \<Rightarrow> bool db" where
  "deliver_completed_analysis x a client telegram =
     (if job_status x \<noteq> COMPLETED then returnM False
      else if sa_analysis_job_id a \<noteq> Some (job_id x) then returnM False
      else bindM (acquire_delivery_lock client (job_id x)) (\<lambda>acquired.
        if \<not> acquired then returnM False
        else case chat_id_of a of
          None \<Rightarrow> returnM False
        | Some chat_id \<Rightarrow> catchM (thenM (telegram chat_id a) (returnM True)) (\<lambda>x. returnM False)))"

text \<open>The executor's wrapper: which client and which port are used. Nothing is delivered in tests.\<close>

definition deliver_from_executor ::
  "runtime \<Rightarrow> redis_client option \<Rightarrow> telegram_port option \<Rightarrow> analysis_job \<Rightarrow> session_analysis \<Rightarrow> unit db" where
  "deliver_from_executor rt client0 telegram0 x a =
     (let client = (case client0 of Some r \<Rightarrow> Some r | None \<Rightarrow> rt_override_redis rt);
          telegram = (case telegram0 of Some t \<Rightarrow> Some t | None \<Rightarrow> rt_override_telegram rt) in
      if rt_env_mode rt = ascii ''test'' \<and> client = None \<and> telegram = None then returnM ()
      else thenM (deliver_completed_analysis x a
             (case client of Some r \<Rightarrow> r | None \<Rightarrow> rt_redis rt)
             (case telegram of Some t \<Rightarrow> t | None \<Rightarrow> send_analysis rt)) (returnM ()))"

subsection \<open>One job\<close>

definition RETRY_DELAY_SECONDS :: int where "RETRY_DELAY_SECONDS = 5"

text \<open>\<open>job.mode\<close> is a string; the state machine compares it with \<open>new\<close> only.\<close>

definition mode_request :: "string \<Rightarrow> AnalysisModeRequest" where
  "mode_request m = (if m = ''new'' then M_new else if m = ''continue'' then M_continue else M_auto)"

fun binding_error :: "exn \<Rightarrow> exn" where
  "binding_error (ValueError m) = NonRetryableAnalysisError m"
| "binding_error e = e"

definition assemble_runtime_analysis :: "runtime \<Rightarrow> analysis_job \<Rightarrow> (session_analysis \<times> analysis_thread) db" where
  "assemble_runtime_analysis rt x =
     bindM (prepare_session_analysis (rt_env rt) (Inl (job_session_id x)) (mode_request (job_mode x)) None DEFAULT_PROMPT_VERSION) (\<lambda>p.
     bindM (build_session_analysis_row p) (\<lambda>a.
     bindM (catchM (liftM (with_job_id (job_id x) a)) (\<lambda>e. throwM (binding_error e))) (\<lambda>bound.
     returnM (bound, pr_thread p))))"

definition execute_dream_memory_job :: "runtime \<Rightarrow> analysis_job \<Rightarrow> unit db" where
  "execute_dream_memory_job rt x =
     (case job_dream_id x of
        None \<Rightarrow> throwM (NonRetryableAnalysisError [Lit ''Dream memory job requires dream_id''])
      | Some did \<Rightarrow>
          bindM (find_session (job_session_id x)) (\<lambda>session.
          case session of
            None \<Rightarrow> throwM (NonRetryableAnalysisError [Lit ''Session '', Uid (job_session_id x), Lit '' not found''])
          | Some r \<Rightarrow> enrich_dream_memory (rt_env rt) (job_session_id x) did (ds_user_id r) (Some (job_id x))))"

definition execute_with_job_binding :: "runtime \<Rightarrow> analysis_job \<Rightarrow> session_analysis db" where
  "execute_with_job_binding rt x =
     (if job_dream_id x \<noteq> None
      then thenM (execute_dream_memory_job rt x) (throwM DreamMemoryOnlyComplete)
      else bindM (assemble_runtime_analysis rt x) (\<lambda>(a, thread). persist_session_analysis_in_thread thread a))"

text \<open>Logging reads the clock.\<close>

definition log_outcome :: "unit db" where
  "log_outcome = bindM utc_now (\<lambda>_. returnM ())"

definition handle_retryable_failure :: "analysis_job \<Rightarrow> message \<Rightarrow> analysis_job db" where
  "handle_retryable_failure x msg =
     (if job_attempts x < job_max_attempts x
      then bindM utc_now (\<lambda>now.
        bindM (requeue (job_id x) (Naive (drop_tzinfo now + RETRY_DELAY_SECONDS * 1000000)) ''RetryableAnalysisError'' msg None) (\<lambda>y.
        thenM log_outcome (returnM y)))
      else bindM (mark_failed (job_id x) ''RetryableAnalysisError'' msg True None) (\<lambda>y. thenM log_outcome (returnM y)))"

definition handle_terminal_failure :: "analysis_job \<Rightarrow> message \<Rightarrow> analysis_job db" where
  "handle_terminal_failure x msg =
     bindM (mark_failed (job_id x) ''NonRetryableAnalysisError'' msg False None) (\<lambda>y. thenM log_outcome (returnM y))"

definition handle_failure :: "analysis_job \<Rightarrow> exn \<Rightarrow> analysis_job db" where
  "handle_failure x e =
     (case e of RetryableAnalysisError m \<Rightarrow> handle_retryable_failure x m | _ \<Rightarrow> handle_terminal_failure x (exn_message e))"

text \<open>The \<open>try\<close> block: an analysis to complete with, or the job a memory run has completed.\<close>

definition run_job :: "runtime \<Rightarrow> (uuid \<Rightarrow> string \<Rightarrow> session_analysis db) option \<Rightarrow> analysis_job \<Rightarrow> (analysis_job + session_analysis) db" where
  "run_job rt orchestrator x =
     (case orchestrator of
        None \<Rightarrow>
          catchM (bindM (execute_with_job_binding rt x) (\<lambda>a. returnM (Inr a)))
            (\<lambda>e. if e = DreamMemoryOnlyComplete
                 then bindM (mark_completed (job_id x) None None) (\<lambda>y. thenM log_outcome (returnM (Inl y)))
                 else throwM e)
      | Some f \<Rightarrow> bindM (f (job_session_id x) (job_mode x)) (\<lambda>a. returnM (Inr a)))"

definition finish_job ::
  "runtime \<Rightarrow> redis_client option \<Rightarrow> telegram_port option \<Rightarrow> analysis_job \<Rightarrow> session_analysis \<Rightarrow> analysis_job db" where
  "finish_job rt client telegram x a =
     bindM (mark_completed (job_id x) (Some (sa_thread_id a)) None) (\<lambda>y.
     thenM log_outcome (
     thenM (if job_dream_id x = None then deliver_from_executor rt client telegram y a else returnM ()) (returnM y)))"

definition execute_analysis_job ::
  "runtime \<Rightarrow> (uuid \<Rightarrow> string \<Rightarrow> session_analysis db) option \<Rightarrow> redis_client option \<Rightarrow> telegram_port option
    \<Rightarrow> analysis_job \<Rightarrow> analysis_job db" where
  "execute_analysis_job rt orchestrator client telegram x =
     bindM utc_now (\<lambda>started_at.
     bindM (catchM (bindM (run_job rt orchestrator x) (\<lambda>r. returnM (Inr r)))
       (\<lambda>e. bindM (handle_failure x e) (\<lambda>y. returnM (Inl y)))) (\<lambda>r.
     case r of
       Inl y \<Rightarrow> returnM y
     | Inr (Inl y) \<Rightarrow> returnM y
     | Inr (Inr a) \<Rightarrow> finish_job rt client telegram x a))"

subsection \<open>The worker\<close>

record AnalysisRuntimeWorker =
  w_worker_id :: string
  w_batch_size :: int
  w_max_concurrency :: int
  w_stopping :: bool

definition new_worker :: "string \<Rightarrow> int \<Rightarrow> int \<Rightarrow> AnalysisRuntimeWorker" where
  "new_worker i batch_size max_concurrency =
     \<lparr>w_worker_id = i, w_batch_size = max 1 batch_size, w_max_concurrency = max 1 max_concurrency, w_stopping = False\<rparr>"

definition stop_worker :: "AnalysisRuntimeWorker \<Rightarrow> AnalysisRuntimeWorker" where
  "stop_worker w = w\<lparr>w_stopping := True\<rparr>"

text \<open>\<open>session_factory.begin()\<close>: a transaction of its own, whose \<open>now()\<close> is the time it begins.\<close>

definition transaction :: "'a db \<Rightarrow> 'a db" where
  "transaction m = bindM utcnow (\<lambda>t. thenM (modifyM (\<lambda>s. s\<lparr>tx_now := t\<rparr>)) (atomically m))"

definition execute_in_transaction :: "(analysis_job \<Rightarrow> analysis_job db) \<Rightarrow> analysis_job \<Rightarrow> analysis_job db" where
  "execute_in_transaction executor x = transaction (executor x)"

text \<open>\<open>asyncio.gather(.., return_exceptions=True)\<close>: every call is run and its result or exception kept.\<close>

primrec gather :: "'a db list \<Rightarrow> (exn + 'a) list db" where
  "gather [] = returnM []"
| "gather (m # ms) = (\<lambda>s. case m s of (r, s') \<Rightarrow> bindM (gather ms) (\<lambda>rs. returnM (r # rs)) s')"

fun batches :: "nat \<Rightarrow> 'a list \<Rightarrow> 'a list list" where
  "batches n [] = []"
| "batches n (x # xs) = (x # take (n - 1) xs) # batches n (drop (n - 1) xs)"

definition succeeded :: "(exn + 'a) list \<Rightarrow> nat" where
  "succeeded rs = length (filter (\<lambda>r. case r of Inl _ \<Rightarrow> False | Inr _ \<Rightarrow> True) rs)"

text \<open>\<open>order\<close> is the order in which the event loop finishes the calls of a batch.\<close>

primrec run_batches ::
  "(analysis_job list \<Rightarrow> analysis_job list) \<Rightarrow> (analysis_job \<Rightarrow> analysis_job db) \<Rightarrow> analysis_job list list \<Rightarrow> nat db" where
  "run_batches order executor [] = returnM 0"
| "run_batches order executor (b # bs) =
     bindM (gather (map (execute_in_transaction executor) (order b))) (\<lambda>rs.
     bindM (run_batches order executor bs) (\<lambda>n. returnM (succeeded rs + n)))"

definition run_once ::
  "int \<Rightarrow> AnalysisRuntimeWorker \<Rightarrow> (analysis_job list \<Rightarrow> analysis_job list) \<Rightarrow> (analysis_job \<Rightarrow> analysis_job db) \<Rightarrow> nat db" where
  "run_once default_stale w order executor =
     (if w_stopping w then returnM 0 else
      bindM (transaction (acquire_available_jobs default_stale (w_batch_size w) (w_worker_id w) None None)) (\<lambda>xs.
      if xs = [] then returnM 0
      else run_batches order executor (batches (nat (w_max_concurrency w)) xs)))"

text \<open>\<open>run_forever\<close> until \<open>stop()\<close> is called, after \<open>n\<close> rounds; the sleep in between lets time pass.\<close>

primrec run_until_stopped ::
  "nat \<Rightarrow> int \<Rightarrow> AnalysisRuntimeWorker \<Rightarrow> (analysis_job list \<Rightarrow> analysis_job list) \<Rightarrow> (analysis_job \<Rightarrow> analysis_job db) \<Rightarrow> unit db" where
  "run_until_stopped 0 default_stale w order executor = returnM ()"
| "run_until_stopped (Suc n) default_stale w order executor =
     (if w_stopping w then returnM ()
      else thenM (run_once default_stale w order executor) (run_until_stopped n default_stale w order executor))"

subsection \<open>The run of a job and the tables\<close>

definition beside_results :: "world \<Rightarrow> _" where
  "beside_results s = (sessions s, dreams s, jobs s, turns s, traces s, prompt_versions s, players s, tx_now s,
     row_locked s, redis s, sent s)"

lemma beside_results_threads: "beside_threads s = beside_threads t \<Longrightarrow> beside_results s = beside_results t \<and> analyses s = analyses t \<and> memories s = memories t"
  and beside_results_memories: "beside_memories s = beside_memories t \<Longrightarrow> beside_results s = beside_results t \<and> analyses s = analyses t"
  by (simp_all add: beside_threads_def beside_results_def beside_memories_def)

lemma persist_Inr:
  assumes "persist_session_analysis_in_thread th a s = (Inr b, t)"
  shows "b = a \<and> analyses t = unlatest (sa_thread_id a) (analyses s) @ [a] \<and> beside_results t = beside_results s
    \<and> memories t = memories s"
  using assms
  by (auto simp: persist_session_analysis_in_thread_def clear_latest_for_thread_def touch_thread_def run
      unlatest_def latest_of_def [abs_def] beside_results_def split: if_splits)

lemma persist_Inl: "persist_session_analysis_in_thread th a s = (Inl e, t) \<Longrightarrow> t = s"
  by (auto simp: persist_session_analysis_in_thread_def clear_latest_for_thread_def touch_thread_def run split: if_splits)

lemma assemble_Inr:
  assumes "outside_environment (rt_env rt)" and "assemble_runtime_analysis rt x s = (Inr (a, th), t)"
  shows "beside_threads t = beside_threads s \<and> sa_analysis_job_id a = Some (job_id x) \<and> sa_session_id a = job_session_id x
    \<and> sa_is_latest a \<and> sa_thread_id a = th_id th
    \<and> (\<exists>p. prepared_ok (rt_env rt) DEFAULT_PROMPT_VERSION p \<and> sa_analysis_json a = pr_analysis_json p \<and> sa_raw_response a = pr_raw_response p)"
proof -
  obtain p u where p: "prepare_session_analysis (rt_env rt) (Inl (job_session_id x)) (mode_request (job_mode x)) None DEFAULT_PROMPT_VERSION s = (Inr p, u)"
    and rest: "bindM (build_session_analysis_row p) (\<lambda>a.
      bindM (catchM (liftM (with_job_id (job_id x) a)) (\<lambda>e. throwM (binding_error e))) (\<lambda>bound. returnM (bound, pr_thread p))) u = (Inr (a, th), t)"
    using assms(2) unfolding assemble_runtime_analysis_def bindM_eq_Inr by blast
  let ?row = "built_row p (length (filter (of_thread (th_id (pr_thread p))) (analyses u))) (uuids u 0) (tx_now u)"
  have a: "a = ?row\<lparr>sa_analysis_job_id := Some (job_id x)\<rparr>" "th = pr_thread p" "t = u\<lparr>uuids := \<lambda>n. uuids u (Suc n)\<rparr>"
    using rest by (auto simp: run build_row_run with_job_id_def)
  have "beside_threads u = beside_threads s"
    by (rule keepsD [OF keeps_prepare p]) (simp add: outside_providers_def assms(1))
  then show ?thesis
    using a prepare_ok [OF p] prepare_session [OF p] by (auto simp: built_row_def)
qed

lemma assemble_Inl:
  assumes "outside_environment (rt_env rt)" and "assemble_runtime_analysis rt x s = (r, t)"
  shows "beside_threads t = beside_threads s"
proof -
  have "keeps beside_threads (assemble_runtime_analysis rt x)"
    unfolding assemble_runtime_analysis_def
    by (intro keep keeps_prepare) (simp_all add: outside_providers_def assms(1))
  from keepsD [OF this assms(2)] show ?thesis .
qed

lemma keeps_memory_job:
  "outside_environment (rt_env rt) \<Longrightarrow> keeps beside_memories (execute_dream_memory_job rt x)"
  unfolding execute_dream_memory_job_def find_session_def by (intro keep keeps_enrich)

lemma binding_keeps:
  assumes "outside_environment (rt_env rt)" and "execute_with_job_binding rt x s = (r, t)"
  shows "beside_results t = beside_results s"
proof (cases "job_dream_id x")
  case None
  then have "bindM (assemble_runtime_analysis rt x) (\<lambda>(a, th). persist_session_analysis_in_thread th a) s = (r, t)"
    using assms(2) by (simp add: execute_with_job_binding_def)
  then obtain q u where q: "assemble_runtime_analysis rt x s = (q, u)"
    and r: "case q of Inl e \<Rightarrow> (r, t) = (Inl e, u) | Inr (a, th) \<Rightarrow> persist_session_analysis_in_thread th a u = (r, t)"
    by (cases "assemble_runtime_analysis rt x s") (auto simp: bindM_def split: sum.splits)
  have u: "beside_results u = beside_results s"
    using assemble_Inl [OF assms(1) q] beside_results_threads by blast
  show ?thesis
  proof (cases q)
    case (Inr y)
    then obtain a th where "persist_session_analysis_in_thread th a u = (r, t)" using r by (cases y) simp
    then show ?thesis using u persist_Inr persist_Inl by (cases r) metis+
  qed (use r u in simp)
next
  case (Some d)
  have "keeps beside_memories (execute_with_job_binding rt x)"
    unfolding execute_with_job_binding_def using Some
    by (simp add: keeps_then keeps_memory_job [OF assms(1)] keeps_throw)
  from keepsD [OF this assms(2)] show ?thesis using beside_results_memories by blast
qed

text \<open>C9. The run of an analysis job is all or nothing. If it yields an analysis, exactly that analysis is
  stored: for the job's session, bound to the job, the latest of its thread, with a payload that is the
  dump of an analysis which passed validation and was found in the stored raw answer. If it raises, no
  analysis is stored or changed. Neither touches jobs, dreams, sessions, turns, traces, memories, Redis or
  Telegram.\<close>

theorem analysis_run_is_all_or_nothing:
  assumes "outside_environment (rt_env rt)" and "job_dream_id x = None"
    and "execute_with_job_binding rt x s = (r, t)"
  shows "beside_results t = beside_results s \<and> memories t = memories s
    \<and> (case r of
         Inl e \<Rightarrow> analyses t = analyses s
       | Inr a \<Rightarrow> analyses t = unlatest (sa_thread_id a) (analyses s) @ [a] \<and> sa_analysis_job_id a = Some (job_id x)
           \<and> sa_session_id a = job_session_id x \<and> sa_is_latest a
           \<and> (\<exists>p. prepared_ok (rt_env rt) DEFAULT_PROMPT_VERSION p
                \<and> sa_analysis_json a = pr_analysis_json p \<and> sa_raw_response a = pr_raw_response p))"
proof -
  let ?persist = "\<lambda>(a, th). persist_session_analysis_in_thread th a"
  have run: "bindM (assemble_runtime_analysis rt x) ?persist s = (r, t)"
    using assms(2, 3) by (simp add: execute_with_job_binding_def)
  obtain q u where q: "assemble_runtime_analysis rt x s = (q, u)" by fastforce
  have u: "analyses u = analyses s" "memories u = memories s" "beside_results u = beside_results s"
    using assemble_Inl [OF assms(1) q] beside_results_threads by blast+
  show ?thesis
  proof (cases q)
    case (Inl e)
    then show ?thesis using run q u by (auto simp: bindM_def)
  next
    case (Inr y)
    obtain a th where y: "y = (a, th)" by fastforce
    note a = assemble_Inr [OF assms(1) q [unfolded Inr y]]
    have p: "persist_session_analysis_in_thread th a u = (r, t)" using run q Inr y by (simp add: bindM_def)
    show ?thesis
    proof (cases r)
      case (Inl e)
      then have "t = u" using p persist_Inl by blast
      then show ?thesis using u Inl by simp
    next
      case (Inr b)
      then show ?thesis using persist_Inr [OF p [unfolded Inr]] a u by auto
    qed
  qed
qed

subsection \<open>The executor settles the job\<close>

text \<open>Redis and Telegram have no access to the job table.\<close>

definition outside_redis :: "redis_client \<Rightarrow> bool" where
  "outside_redis c \<longleftrightarrow> (\<forall>k v n. keeps jobs (c k v n))"

definition outside_telegram :: "telegram_port \<Rightarrow> bool" where
  "outside_telegram p \<longleftrightarrow> (\<forall>ch a. keeps jobs (p ch a))"

definition delivery_outside :: "runtime \<Rightarrow> redis_client option \<Rightarrow> telegram_port option \<Rightarrow> bool" where
  "delivery_outside rt client telegram \<longleftrightarrow> outside_redis (rt_redis rt)
     \<and> pred_option outside_redis client \<and> pred_option outside_redis (rt_override_redis rt)
     \<and> pred_option outside_telegram telegram \<and> pred_option outside_telegram (rt_override_telegram rt)
     \<and> (\<forall>m ch t. keeps jobs (rt_post rt m ch t))"

lemma keeps_deliver:
  assumes "delivery_outside rt client telegram" shows "keeps jobs (deliver_from_executor rt client telegram x a)"
proof -
  let ?c = "case (case client of Some r \<Rightarrow> Some r | None \<Rightarrow> rt_override_redis rt) of Some r \<Rightarrow> r | None \<Rightarrow> rt_redis rt"
  let ?p = "case (case telegram of Some t \<Rightarrow> Some t | None \<Rightarrow> rt_override_telegram rt) of Some t \<Rightarrow> t | None \<Rightarrow> send_analysis rt"
  have "keeps jobs (send_analysis rt ch b)" for ch b
    unfolding send_analysis_def log_sent_def using assms by (intro keep) (simp_all add: delivery_outside_def)
  then have "outside_telegram (send_analysis rt)" by (simp add: outside_telegram_def)
  then have p: "outside_telegram ?p"
    using assms by (cases telegram; cases "rt_override_telegram rt") (simp_all add: delivery_outside_def)
  have c: "outside_redis ?c"
    using assms by (cases client; cases "rt_override_redis rt") (simp_all add: delivery_outside_def)
  have c': "keeps jobs (?c k v n)" for k v n using c unfolding outside_redis_def by blast
  have p': "keeps jobs (?p ch b)" for ch b using p unfolding outside_telegram_def by blast
  have "keeps jobs (deliver_completed_analysis x a ?c ?p)"
    unfolding deliver_completed_analysis_def acquire_delivery_lock_def by (intro keep c' p')
  then show ?thesis
    unfolding deliver_from_executor_def Let_def by (intro keep)
qed

lemma log_outcome_run: "\<exists>t. log_outcome s = (Inr (), t) \<and> jobs t = jobs s"
  by (simp add: log_outcome_def run)

lemma put_down_settles:
  assumes "distinct (map job_id (jobs s))" and "x \<in> set (jobs s)" and "job_status x = RUNNING"
  shows "\<exists>t. put_down verb (job_id x) now f s = (Inr (f (now_of now s) x), t)
    \<and> jobs t = update_where (\<lambda>z. job_id z = job_id x) (\<lambda>_. f (now_of now s) x) (jobs s)"
proof -
  have "find (\<lambda>z. job_id z = job_id x) (jobs s) = Some x" using assms(1, 2) by (rule find_distinct_key)
  moreover have "update_where (\<lambda>z. job_id z = job_id x) (f (now_of now s)) (jobs s)
      = update_where (\<lambda>z. job_id z = job_id x) (\<lambda>_. f (now_of now s) x) (jobs s)"
    unfolding update_where_def
    by (rule map_cong [OF refl]) (metis assms(1, 2) find_distinct_key option.inject)
  ultimately show ?thesis using assms(3) by (simp add: put_down_run)
qed

text \<open>What the executor makes of the result \<open>q\<close> of the run.\<close>

definition settled :: "analysis_job \<Rightarrow> exn + 'a \<Rightarrow> analysis_job \<Rightarrow> bool" where
  "settled x q y \<longleftrightarrow> job_id y = job_id x \<and> job_attempts y = job_attempts x \<and> job_locked_by y = None \<and>
     (case q of
        Inr a \<Rightarrow> job_status y = COMPLETED \<and> job_last_error_class y = None
      | Inl e \<Rightarrow>
          (case e of
             DreamMemoryOnlyComplete \<Rightarrow> job_status y = COMPLETED \<and> job_last_error_class y = None \<and> job_thread_id y = None
           | RetryableAnalysisError m \<Rightarrow>
               job_retryable y \<and> job_last_error_class y = Some ''RetryableAnalysisError'' \<and> job_last_error_message y = Some m
               \<and> job_status y = (if job_attempts x < job_max_attempts x then QUEUED else FAILED)
           | _ \<Rightarrow> job_status y = FAILED \<and> \<not> job_retryable y \<and> job_last_error_message y = Some (exn_message e)))"

definition settles :: "analysis_job \<Rightarrow> exn + 'a \<Rightarrow> analysis_job list \<Rightarrow> analysis_job list \<Rightarrow> analysis_job \<Rightarrow> bool" where
  "settles x q js ks y \<longleftrightarrow> settled x q y \<and> ks = update_where (\<lambda>z. job_id z = job_id x) (\<lambda>_. y) js"

lemma handle_failure_settles:
  assumes "distinct (map job_id (jobs s))" and "x \<in> set (jobs s)" and "job_status x = RUNNING"
    and "e \<noteq> DreamMemoryOnlyComplete"
  shows "\<exists>y t. handle_failure x e s = (Inr y, t) \<and> settles x (Inl e :: exn + 'a) (jobs s) (jobs t) y"
proof (cases "\<exists>m. e = RetryableAnalysisError m \<and> job_attempts x < job_max_attempts x")
  case True
  then obtain m where e: "e = RetryableAnalysisError m" "job_attempts x < job_max_attempts x" by blast
  let ?s = "s\<lparr>clock := \<lambda>n. clock s (Suc n)\<rparr>"
  let ?f = "requeue_job (Naive (clock s 0 + RETRY_DELAY_SECONDS * 1000000)) ''RetryableAnalysisError'' m"
  obtain t where t: "put_down ''requeue'' (job_id x) None ?f ?s = (Inr (?f (now_of None ?s) x), t)"
    "jobs t = update_where (\<lambda>z. job_id z = job_id x) (\<lambda>_. ?f (now_of None ?s) x) (jobs s)"
    using put_down_settles [of ?s x "''requeue''" None ?f] assms(1-3) by auto
  obtain u where u: "log_outcome t = (Inr (), u)" "jobs u = jobs t" using log_outcome_run by blast
  have "handle_failure x e s = (Inr (?f (now_of None ?s) x), u)"
    using e(2) by (simp add: handle_failure_def handle_retryable_failure_def e(1) run requeue_def t(1) u(1))
  moreover have "settled x (Inl e :: exn + 'a) (?f (now_of None ?s) x)"
    using e by (simp add: settled_def requeue_job_def)
  ultimately show ?thesis using t(2) u(2) by (auto simp: settles_def)
next
  case False
  define rb where "rb = (\<exists>m. e = RetryableAnalysisError m)"
  let ?c = "if rb then ''RetryableAnalysisError'' else ''NonRetryableAnalysisError''"
  let ?f = "fail_job ?c (exn_message e) rb"
  obtain t where t: "mark_failed (job_id x) ?c (exn_message e) rb None s = (Inr (?f (now_of None s) x), t)"
    "jobs t = update_where (\<lambda>z. job_id z = job_id x) (\<lambda>_. ?f (now_of None s) x) (jobs s)"
    using put_down_settles [OF assms(1-3), of "''fail''" None ?f] by (auto simp: mark_failed_def)
  obtain u where u: "log_outcome t = (Inr (), u)" "jobs u = jobs t" using log_outcome_run by blast
  have "handle_failure x e s = (Inr (?f (now_of None s) x), u)"
    using t(1) u(1) False
    by (cases e) (auto simp: handle_failure_def handle_retryable_failure_def handle_terminal_failure_def rb_def run)
  moreover have "settled x (Inl e :: exn + 'a) (?f (now_of None s) x)"
    using False assms(4) by (cases e) (auto simp: settled_def fail_job_def rb_def)
  ultimately show ?thesis using t(2) u(2) by (auto simp: settles_def)
qed

lemma finish_settles:
  assumes "distinct (map job_id (jobs s))" and "x \<in> set (jobs s)" and "job_status x = RUNNING"
    and "delivery_outside rt client telegram" and "finish_job rt client telegram x a s = (r, t)"
  shows "\<exists>y. settles x (Inr a) (jobs s) (jobs t) y \<and> job_status y = COMPLETED
    \<and> (r = Inr y \<or> (\<exists>e. r = Inl e \<and> job_dream_id x = None))"
proof -
  let ?y = "complete_job (Some (sa_thread_id a)) (now_of None s) x"
  obtain u where u: "mark_completed (job_id x) (Some (sa_thread_id a)) None s = (Inr ?y, u)"
    "jobs u = update_where (\<lambda>z. job_id z = job_id x) (\<lambda>_. ?y) (jobs s)"
    using put_down_settles [OF assms(1-3), of "''complete''" None "complete_job (Some (sa_thread_id a))"]
    by (auto simp: mark_completed_def)
  obtain v where v: "log_outcome u = (Inr (), v)" "jobs v = jobs u" using log_outcome_run by blast
  obtain d w where d: "(if job_dream_id x = None then deliver_from_executor rt client telegram ?y a else returnM ()) v = (d, w)"
    by fastforce
  have "keeps jobs (if job_dream_id x = None then deliver_from_executor rt client telegram ?y a else returnM ())"
    by (intro keep keeps_deliver [OF assms(4)])
  from keepsD [OF this d] have "jobs w = jobs v" .
  moreover have "t = w" "r = (case d of Inl e \<Rightarrow> Inl e | Inr _ \<Rightarrow> Inr ?y)"
    using assms(5) u(1) v(1) d by (auto simp: finish_job_def run split: sum.splits)
  moreover have "job_dream_id x = None" if "d = Inl e" for e
    using d that by (auto simp: run split: if_splits)
  moreover have "settled x (Inr a) ?y" by (simp add: settled_def complete_job_def)
  moreover have "job_status ?y = COMPLETED" by (simp add: complete_job_def)
  ultimately show ?thesis
    using u(2) v(2) by (intro exI [of _ ?y]) (auto simp: settles_def split: sum.splits)
qed

lemma binding_never_silent:
  "execute_with_job_binding rt x s = (Inr a, t) \<Longrightarrow> job_dream_id x = None"
  by (auto simp: execute_with_job_binding_def run split: if_splits prod.splits sum.splits)

lemma execution_settles:
  assumes "outside_environment (rt_env rt)" and "delivery_outside rt client telegram"
    and "distinct (map job_id (jobs s))" and "x \<in> set (jobs s)" and "job_status x = RUNNING"
    and "execute_with_job_binding rt x (s\<lparr>clock := \<lambda>n. clock s (Suc n)\<rparr>) = (q, u)"
    and "execute_analysis_job rt None client telegram x s = (r, t)"
  shows "\<exists>y. settled x q y \<and> jobs t = update_where (\<lambda>z. job_id z = job_id x) (\<lambda>_. y) (jobs s)
    \<and> (r = Inr y \<or> (\<exists>e a. r = Inl e \<and> q = Inr a \<and> job_dream_id x = None))"
proof -
  let ?s = "s\<lparr>clock := \<lambda>n. clock s (Suc n)\<rparr>"
  have ju: "jobs u = jobs s"
    using binding_keeps [OF assms(1, 6)] by (simp add: beside_results_def)
  then have u: "distinct (map job_id (jobs u))" "x \<in> set (jobs u)" using assms(3, 4) by simp_all
  show ?thesis
  proof (cases q)
    case (Inr a)
    have "finish_job rt client telegram x a u = (r, t)"
      using assms(6, 7) Inr by (simp add: execute_analysis_job_def run_job_def run)
    from finish_settles [OF u assms(5, 2) this] show ?thesis
      using ju Inr binding_never_silent [OF assms(6) [unfolded Inr]] by (auto simp: settles_def)
  next
    case (Inl e)
    show ?thesis
    proof (cases "e = DreamMemoryOnlyComplete")
      case True
      let ?y = "complete_job None (now_of None u) x"
      obtain v where v: "mark_completed (job_id x) None None u = (Inr ?y, v)"
        "jobs v = update_where (\<lambda>z. job_id z = job_id x) (\<lambda>_. ?y) (jobs u)"
        using put_down_settles [OF u assms(5), of "''complete''" None "complete_job None"] by (auto simp: mark_completed_def)
      obtain w where w: "log_outcome v = (Inr (), w)" "jobs w = jobs v" using log_outcome_run by blast
      have "r = Inr ?y" "t = w"
        using assms(6, 7) Inl True v(1) w(1) by (simp_all add: execute_analysis_job_def run_job_def run)
      then show ?thesis
        using v(2) w(2) ju Inl True by (auto simp: settled_def complete_job_def)
    next
      case False
      obtain y v where v: "handle_failure x e u = (Inr y, v)" "settles x (Inl e :: exn + session_analysis) (jobs u) (jobs v) y"
        using handle_failure_settles [OF u assms(5) False] by blast
      have "r = Inr y" "t = v"
        using assms(6, 7) Inl False v(1) by (simp_all add: execute_analysis_job_def run_job_def run)
      then show ?thesis using v(2) ju Inl by (auto simp: settles_def)
    qed
  qed
qed

text \<open>C5. Running a job settles it: whatever the run of the pipeline gives, one job row changes, and as the
  result demands. A result or a finished memory completes the job; a failure in transport requeues it
  while attempts are left and fails it as retryable otherwise; any other exception fails it for good with
  the exception's message. The lock is given back in every case. The call returns the settled row, unless
  the delivery of a completed analysis raises.\<close>

theorem execution_settles_job:
  assumes "outside_environment (rt_env rt)" and "delivery_outside rt client telegram"
    and "distinct (map job_id (jobs s))" and "x \<in> set (jobs s)" and "job_status x = RUNNING"
    and "execute_with_job_binding rt x (s\<lparr>clock := \<lambda>n. clock s (Suc n)\<rparr>) = (q, u)"
    and "execute_analysis_job rt None client telegram x s = (r, t)"
  shows "\<exists>y. settled x q y \<and> jobs t = update_where (\<lambda>z. job_id z = job_id x) (\<lambda>_. y) (jobs s)
    \<and> (r = Inr y \<or> (\<exists>e a. r = Inl e \<and> q = Inr a \<and> job_dream_id x = None))"
  by (rule execution_settles [OF assms])

subsection \<open>At most one delivery\<close>

text \<open>What a lock promises that is taken once and never given back, and what its client may rely on.\<close>

locale once_lock =
  fixes lock :: "'k \<Rightarrow> ('w, bool) op" and taken :: "'w \<Rightarrow> 'k set"
  assumes granted: "lock k s = (Inr True, t) \<Longrightarrow> k \<notin> taken s \<and> k \<in> taken t"
    and kept: "lock k s = (r, t) \<Longrightarrow> taken s \<subseteq> taken t"
begin

text \<open>One guarded call: \<open>cost\<close> grows by at most one, and only for a key that was free and is taken now.\<close>

lemma guarded_once:
  assumes lock_free: "\<And>k s r t. lock k s = (r, t) \<Longrightarrow> cost t = (cost s :: nat)"
    and act: "\<And>s r t. act s = (r, t) \<Longrightarrow> taken s \<subseteq> taken t \<and> cost s \<le> cost t \<and> cost t \<le> cost s + 1"
    and run: "bindM (lock k) (\<lambda>b. if \<not> b then returnM False else act) s = (r, t)"
  shows "taken s \<subseteq> taken t \<and> cost s \<le> cost t \<and> cost t \<le> cost s + (if k \<in> taken s then 0 else 1)
    \<and> (cost s < cost t \<longrightarrow> k \<in> taken t)"
proof -
  obtain q u where q: "lock k s = (q, u)" by fastforce
  note facts = kept [OF q] lock_free [OF q]
  show ?thesis
  proof (cases "q = Inr True")
    case True
    then have "act u = (r, t)" using run q by (simp add: bindM_def)
    then show ?thesis using act facts granted [OF q [unfolded True]] by (auto dest!: act)
  next
    case False
    then have "t = u" using run q by (cases q) (auto simp: bindM_def returnM_def)
    then show ?thesis using facts by simp
  qed
qed

lemma all_guarded:
  assumes call: "\<And>x s r t. call x s = (r, t) \<Longrightarrow> taken s \<subseteq> taken t \<and> cost s \<le> cost t
      \<and> cost t \<le> cost s + (if key x \<in> taken s then 0 else 1) \<and> (cost s < cost t \<longrightarrow> key x \<in> taken t)"
    and "fold (\<lambda>x s. snd (call x s)) xs s = t"
  shows "taken s \<subseteq> taken t \<and> (cost t :: nat) \<le> cost s + card (key ` set xs - taken s)"
  using assms(2)
proof (induction xs arbitrary: s)
  case Nil
  then show ?case by simp
next
  case (Cons x xs)
  obtain r u where u: "call x s = (r, u)" by fastforce
  note one = call [OF u]
  have rest: "taken u \<subseteq> taken t" "cost t \<le> cost u + card (key ` set xs - taken u)"
    using Cons u by auto
  show ?case
  proof (cases "cost s < cost u")
    case True
    then have new: "key x \<in> taken u" "key x \<notin> taken s" "cost u \<le> cost s + 1" using one by (auto split: if_splits)
    have "card (insert (key x) (key ` set xs - taken u)) \<le> card (key ` set (x # xs) - taken s)"
      using one new by (intro card_mono) auto
    moreover have "card (insert (key x) (key ` set xs - taken u)) = Suc (card (key ` set xs - taken u))"
      using new by simp
    ultimately show ?thesis using rest one new by auto
  next
    case False
    have "card (key ` set xs - taken u) \<le> card (key ` set (x # xs) - taken s)"
      using one by (intro card_mono) auto
    then show ?thesis using rest one False by auto
  qed
qed

end

definition delivered :: "world \<Rightarrow> uuid set" where
  "delivered s = {i. redis s (delivery_lock_key i) \<noteq> None}"

text \<open>The documented behaviour of \<open>SET key value NX\<close> while the key does not expire.\<close>

definition plain_redis :: redis_client where
  "plain_redis k v ttl s = (case redis s k of
     None \<Rightarrow> (Inr (Some True), s\<lparr>redis := (redis s)(k \<mapsto> v)\<rparr>) | Some _ \<Rightarrow> (Inr None, s))"

interpretation plain: once_lock "acquire_delivery_lock plain_redis" delivered
  by unfold_locales
    (auto simp: acquire_delivery_lock_def plain_redis_def run delivered_def delivery_lock_key_def split: option.splits if_splits)

definition deliveries ::
  "redis_client \<Rightarrow> telegram_port \<Rightarrow> (analysis_job \<times> session_analysis) list \<Rightarrow> (exn + bool) list db" where
  "deliveries client telegram xs = gather (map (\<lambda>(x, a). deliver_completed_analysis x a client telegram) xs)"

lemma gather_fold: "snd (gather (map f xs) s) = fold (\<lambda>x s. snd (f x s)) xs s"
proof (induction xs arbitrary: s)
  case (Cons x xs)
  obtain r t where t: "f x s = (r, t)" by fastforce
  have "snd (gather (map f (x # xs)) s) = snd (gather (map f xs) t)"
    by (simp add: t bindM_def returnM_def split: prod.split sum.split)
  then show ?case by (simp add: Cons.IH t)
qed (simp add: run)


subsection \<open>A round of the worker\<close>

text \<open>What the worker needs of its executor: one call settles the job's row, or it raises.\<close>

definition settling :: "(analysis_job \<Rightarrow> analysis_job db) \<Rightarrow> bool" where
  "settling E \<longleftrightarrow> (\<forall>x s. distinct (map job_id (jobs s)) \<longrightarrow> x \<in> set (jobs s) \<longrightarrow> job_status x = RUNNING \<longrightarrow>
     (case E x s of
        (Inl e, t) \<Rightarrow> True
      | (Inr _, t) \<Rightarrow> \<exists>y. job_id y = job_id x \<and> job_status y \<noteq> RUNNING
          \<and> jobs t = update_where (\<lambda>z. job_id z = job_id x) (\<lambda>_. y) (jobs s)))"

lemma settled_not_running: "settled x q y \<Longrightarrow> job_id y = job_id x \<and> job_status y \<noteq> RUNNING"
  by (cases q) (auto simp: settled_def split: exn.splits if_splits)

lemma executor_settling:
  assumes "outside_environment (rt_env rt)" and "delivery_outside rt client telegram"
  shows "settling (execute_analysis_job rt None client telegram)"
  unfolding settling_def
proof (intro allI impI)
  fix x and s :: world
  assume x: "distinct (map job_id (jobs s))" "x \<in> set (jobs s)" "job_status x = RUNNING"
  obtain r t where r: "execute_analysis_job rt None client telegram x s = (r, t)" by fastforce
  obtain q u where q: "execute_with_job_binding rt x (s\<lparr>clock := \<lambda>n. clock s (Suc n)\<rparr>) = (q, u)" by fastforce
  obtain y where "settled x q y" "jobs t = update_where (\<lambda>z. job_id z = job_id x) (\<lambda>_. y) (jobs s)"
    using execution_settles [OF assms x q r] by blast
  then have "\<exists>y. job_id y = job_id x \<and> job_status y \<noteq> RUNNING \<and> jobs t = update_where (\<lambda>z. job_id z = job_id x) (\<lambda>_. y) (jobs s)"
    using settled_not_running by blast
  then show "case execute_analysis_job rt None client telegram x s of
        (Inl e, t) \<Rightarrow> True
      | (Inr _, t) \<Rightarrow> \<exists>y. job_id y = job_id x \<and> job_status y \<noteq> RUNNING
          \<and> jobs t = update_where (\<lambda>z. job_id z = job_id x) (\<lambda>_. y) (jobs s)"
    by (simp add: r split: sum.split)
qed

text \<open>One execution in its own transaction: the row is settled, or nothing has happened to any row.\<close>

definition replaces :: "analysis_job \<Rightarrow> analysis_job list \<Rightarrow> analysis_job list \<Rightarrow> bool" where
  "replaces x js ks \<longleftrightarrow> (\<exists>y. job_id y = job_id x \<and> job_status y \<noteq> RUNNING
     \<and> ks = update_where (\<lambda>z. job_id z = job_id x) (\<lambda>_. y) js)"

lemma execute_in_transaction_settles:
  assumes "settling E" and "distinct (map job_id (jobs s))" and "x \<in> set (jobs s)" and "job_status x = RUNNING"
    and "execute_in_transaction E x s = (r, t)"
  shows "case r of Inl e \<Rightarrow> jobs t = jobs s | Inr _ \<Rightarrow> replaces x (jobs s) (jobs t)"
proof -
  let ?s = "s\<lparr>clock := \<lambda>n. clock s (Suc n), tx_now := clock s 0\<rparr>"
  obtain q u where q: "E x ?s = (q, u)" by fastforce
  have "case E x ?s of (Inl e, t) \<Rightarrow> True | (Inr _, t) \<Rightarrow> replaces x (jobs s) (jobs t)"
    using assms(1) [unfolded settling_def, rule_format, of ?s x] assms(2-4)
    by (auto simp: replaces_def split: prod.splits sum.splits)
  then show ?thesis
    using assms(5) q by (auto simp: execute_in_transaction_def transaction_def run atomically_def split: sum.splits)
qed

lemma replaces_rows:
  assumes "replaces x js ks" and "x \<in> set js" and "job_status x = RUNNING"
  shows "map job_id ks = map job_id js" and "x \<notin> set ks" and "\<exists>y \<in> set ks. job_id y = job_id x \<and> job_status y \<noteq> RUNNING"
    and "job_id z \<noteq> job_id x \<Longrightarrow> z \<in> set ks \<longleftrightarrow> z \<in> set js"
proof -
  obtain y where y: "job_id y = job_id x" "job_status y \<noteq> RUNNING" "ks = update_where (\<lambda>z. job_id z = job_id x) (\<lambda>_. y) js"
    using assms(1) unfolding replaces_def by blast
  show "map job_id ks = map job_id js" unfolding y(3) by (rule map_update_where) (simp add: y(1))
  show "x \<notin> set ks" using y assms(3) by (auto simp: set_update_where)
  show "\<exists>y \<in> set ks. job_id y = job_id x \<and> job_status y \<noteq> RUNNING"
    using y assms(2) by (force simp: set_update_where)
  show "z \<in> set ks \<longleftrightarrow> z \<in> set js" if "job_id z \<noteq> job_id x"
    using that y(1, 3) by (auto simp: set_update_where image_iff)
qed

text \<open>
  From the rows before to the rows after the calls for \<open>xs\<close>: every job of \<open>xs\<close> is either untouched or
  settled, and no other row has changed.
\<close>

definition worked :: "analysis_job list \<Rightarrow> analysis_job list \<Rightarrow> analysis_job list \<Rightarrow> bool" where
  "worked xs js ks \<longleftrightarrow> map job_id ks = map job_id js
     \<and> (\<forall>z. job_id z \<notin> job_id ` set xs \<longrightarrow> (z \<in> set ks \<longleftrightarrow> z \<in> set js))
     \<and> (\<forall>x \<in> set xs. x \<in> set ks \<or> (\<exists>y \<in> set ks. job_id y = job_id x \<and> job_status y \<noteq> RUNNING))"

lemma worked_refl: "set xs \<subseteq> set js \<Longrightarrow> worked xs js js"
  by (auto simp: worked_def)

lemma worked_trans:
  assumes "worked xs is js" and "worked ys js ks" and "job_id ` set xs \<inter> job_id ` set ys = {}"
  shows "worked (xs @ ys) is ks"
proof -
  have keep: "z \<in> set ks \<longleftrightarrow> z \<in> set js" if "job_id z \<in> job_id ` set xs" for z
    using assms(2, 3) that unfolding worked_def by blast
  have "x \<in> set ks \<or> (\<exists>y \<in> set ks. job_id y = job_id x \<and> job_status y \<noteq> RUNNING)" if "x \<in> set xs" for x
  proof -
    have "x \<in> set js \<or> (\<exists>y \<in> set js. job_id y = job_id x \<and> job_status y \<noteq> RUNNING)"
      using assms(1) that unfolding worked_def by blast
    then show ?thesis using keep that by (metis imageI)
  qed
  moreover have "z \<in> set ks \<longleftrightarrow> z \<in> set is" if "job_id z \<notin> job_id ` set (xs @ ys)" for z
    using assms(1, 2) that unfolding worked_def by (simp add: image_Un)
  moreover have "\<forall>x \<in> set ys. x \<in> set ks \<or> (\<exists>y \<in> set ks. job_id y = job_id x \<and> job_status y \<noteq> RUNNING)"
    and "map job_id ks = map job_id is"
    using assms(1, 2) unfolding worked_def by simp_all
  ultimately show ?thesis unfolding worked_def by (simp add: ball_Un)
qed

lemma succeeded_simps [simp]: "succeeded [] = 0" "succeeded (Inl e # rs) = succeeded rs" "succeeded (Inr y # rs) = Suc (succeeded rs)"
  by (simp_all add: succeeded_def)

lemma gather_works:
  assumes "settling E"
  shows "distinct (map job_id (jobs s)) \<Longrightarrow> distinct (map job_id xs) \<Longrightarrow> \<forall>x \<in> set xs. x \<in> set (jobs s) \<and> job_status x = RUNNING \<Longrightarrow>
    \<exists>rs t. gather (map (execute_in_transaction E) xs) s = (Inr rs, t) \<and> worked xs (jobs s) (jobs t)
      \<and> succeeded rs = length (filter (\<lambda>x. x \<notin> set (jobs t)) xs)"
proof (induction xs arbitrary: s)
  case Nil
  then show ?case by (simp add: run worked_refl)
next
  case (Cons x xs)
  obtain r u where u: "execute_in_transaction E x s = (r, u)" by fastforce
  have x: "x \<in> set (jobs s)" "job_status x = RUNNING" using Cons.prems by simp_all
  note one = execute_in_transaction_settles [OF assms Cons.prems(1) x u]
  have other: "job_id z \<noteq> job_id x \<Longrightarrow> z \<in> set (jobs u) \<longleftrightarrow> z \<in> set (jobs s)" for z
    using one replaces_rows(4) [OF _ x] by (cases r) simp_all
  have ids: "map job_id (jobs u) = map job_id (jobs s)"
    using one replaces_rows(1) [OF _ x] by (cases r) simp_all
  have w1: "worked [x] (jobs s) (jobs u)"
    using one ids other x replaces_rows(3) [OF _ x] by (cases r) (auto simp: worked_def)
  have mem: "x \<in> set (jobs u) \<longleftrightarrow> (\<exists>e. r = Inl e)"
    using one x replaces_rows(2) [OF _ x] by (cases r) simp_all
  have nin: "job_id x \<notin> job_id ` set xs" using Cons.prems(2) by simp
  have "\<forall>y \<in> set xs. y \<in> set (jobs u) \<and> job_status y = RUNNING"
  proof
    fix y assume y: "y \<in> set xs"
    then have "job_id y \<noteq> job_id x" using nin by (metis imageI)
    then show "y \<in> set (jobs u) \<and> job_status y = RUNNING" using other Cons.prems(3) y by simp
  qed
  from Cons.IH [OF _ _ this] Cons.prems(1, 2) ids obtain rs t where
    t: "gather (map (execute_in_transaction E) xs) u = (Inr rs, t)" "worked xs (jobs u) (jobs t)"
      "succeeded rs = length (filter (\<lambda>x. x \<notin> set (jobs t)) xs)" by auto
  have "x \<in> set (jobs t) \<longleftrightarrow> x \<in> set (jobs u)" using t(2) nin unfolding worked_def by blast
  then have n: "succeeded (r # rs) = length (filter (\<lambda>x. x \<notin> set (jobs t)) (x # xs))"
    using t(3) mem by (cases r) simp_all
  have "worked ([x] @ xs) (jobs s) (jobs t)" by (rule worked_trans [OF w1 t(2)]) (use nin in simp)
  then show ?case using u t(1) n by (simp add: bindM_def returnM_def)
qed

lemma concat_batches: "0 < n \<Longrightarrow> concat (batches n xs) = xs"
  by (induction n xs rule: batches.induct) simp_all

text \<open>A schedule runs every call of a batch once.\<close>

definition schedule :: "(analysis_job list \<Rightarrow> analysis_job list) \<Rightarrow> bool" where
  "schedule order \<longleftrightarrow> (\<forall>xs. mset (order xs) = mset xs)"

lemma worked_cong: "set xs = set ys \<Longrightarrow> worked xs js ks = worked ys js ks"
  by (simp add: worked_def)

lemma run_batches_work:
  assumes "settling E" and "schedule order"
  shows "distinct (map job_id (jobs s)) \<Longrightarrow> distinct (map job_id (concat bs)) \<Longrightarrow>
    \<forall>x \<in> set (concat bs). x \<in> set (jobs s) \<and> job_status x = RUNNING \<Longrightarrow>
    \<exists>n t. run_batches order E bs s = (Inr n, t) \<and> worked (concat bs) (jobs s) (jobs t)
      \<and> n = length (filter (\<lambda>x. x \<notin> set (jobs t)) (concat bs))"
proof (induction bs arbitrary: s)
  case Nil
  then show ?case by (simp add: run worked_refl)
next
  case (Cons b bs)
  have ob: "mset (order b) = mset b" using assms(2) by (simp add: schedule_def)
  then have set_ob: "set (order b) = set b" by (metis set_mset_mset)
  have "mset (map job_id (order b)) = mset (map job_id b)" by (simp add: ob)
  then have "distinct (map job_id (order b)) = distinct (map job_id b)" by (rule mset_eq_imp_distinct_iff)
  then have dist: "distinct (map job_id (order b))" using Cons.prems(2) by simp
  obtain rs u where u: "gather (map (execute_in_transaction E) (order b)) s = (Inr rs, u)"
    "worked (order b) (jobs s) (jobs u)" "succeeded rs = length (filter (\<lambda>x. x \<notin> set (jobs u)) (order b))"
    using gather_works [OF assms(1) Cons.prems(1) dist] Cons.prems(3) set_ob by (simp, blast)
  have w1: "worked b (jobs s) (jobs u)" using u(2) worked_cong [OF set_ob] by simp
  have disj: "job_id ` set b \<inter> job_id ` set (concat bs) = {}" using Cons.prems(2) by auto
  have ids: "map job_id (jobs u) = map job_id (jobs s)" using w1 by (simp add: worked_def)
  have same: "x \<in> set (jobs u) \<longleftrightarrow> x \<in> set (jobs s)" if "x \<in> set (concat bs)" for x
    using w1 disj that unfolding worked_def by blast
  have "\<forall>x \<in> set (concat bs). x \<in> set (jobs u) \<and> job_status x = RUNNING"
    using same Cons.prems(3) by simp
  from Cons.IH [OF _ _ this] Cons.prems(1, 2) ids obtain n t where
    t: "run_batches order E bs u = (Inr n, t)" "worked (concat bs) (jobs u) (jobs t)"
      "n = length (filter (\<lambda>x. x \<notin> set (jobs t)) (concat bs))" by auto
  have "x \<in> set (jobs t) \<longleftrightarrow> x \<in> set (jobs u)" if "x \<in> set b" for x
    using t(2) disj that unfolding worked_def by blast
  then have "filter (\<lambda>x. x \<notin> set (jobs t)) b = filter (\<lambda>x. x \<notin> set (jobs u)) b"
    by (intro filter_cong) simp_all
  moreover have "succeeded rs = length (filter (\<lambda>x. x \<notin> set (jobs u)) b)"
    unfolding u(3) by (metis ob mset_filter size_mset)
  ultimately have "succeeded rs + n = length (filter (\<lambda>x. x \<notin> set (jobs t)) (concat (b # bs)))"
    using t(3) by simp
  moreover have "worked (b @ concat bs) (jobs s) (jobs t)" by (rule worked_trans [OF w1 t(2) disj])
  ultimately show ?case using u(1) t(1) by (simp add: run)
qed

lemma acquired_rows:
  assumes "jobs_ok s" and "acquire_available_jobs dflt limit w now st s = (Inr xs, t)"
  shows "distinct (map job_id xs) \<and> (\<forall>x \<in> set xs. x \<in> set (jobs t) \<and> job_status x = RUNNING) \<and> int (length xs) \<le> max 0 limit"
proof (cases "limit \<le> 0")
  case True
  then show ?thesis using assms(2) by (simp add: acquire_run)
next
  case False
  let ?t = "now_of now s"
  let ?r = "recovered ?t (stale_of dflt st) (now_state now s)"
  have xs: "xs = map (lock_job w ?t) (picked ?r ?t limit)"
    using assms(2) False by (simp add: acquire_run Let_def)
  have "jobs_ok ?r" using assms(1) by (simp add: recovered_ok)
  then have "distinct (map job_id (jobs ?r))" by (simp add: jobs_ok_def)
  then have "distinct (map job_id (filter (acquirable ?r ?t) (jobs ?r)))" by (simp add: distinct_map_filter)
  then have "distinct (map job_id (sort_key queue_key (filter (acquirable ?r ?t) (jobs ?r))))"
    using mset_eq_imp_distinct_iff [of "map job_id (sort_key queue_key (filter (acquirable ?r ?t) (jobs ?r)))"
        "map job_id (filter (acquirable ?r ?t) (jobs ?r))"] by simp
  then have "distinct (map job_id xs)" by (simp add: xs picked_def comp_def distinct_take flip: take_map)
  moreover have "int (length xs) \<le> limit" using False by (simp add: xs picked_def)
  moreover have "\<forall>x \<in> set xs. x \<in> set (jobs t) \<and> job_status x = RUNNING"
    using acquire_ids [OF assms] acquire_takes_lock [OF assms(1) _ assms(2)] False by auto
  ultimately show ?thesis by simp
qed


subsection \<open>A concrete runtime\<close>

definition sample_runtime :: runtime where
  "sample_runtime = \<lparr>rt_env = sample_environment sample_answer, rt_env_mode = ascii ''prod'', rt_override_redis = None,
     rt_override_telegram = None, rt_redis = plain_redis, rt_bot_token = ascii ''token'', rt_post = (\<lambda>m ch t. returnM ()),
     rt_stale_timeout = 60\<rparr>"

lemma sample_runtime_env: "outside_environment (rt_env sample_runtime)"
  by (simp add: sample_runtime_def sample_environment_outside)

lemma keeps_plain_redis:
  "(\<And>s r. f (s\<lparr>redis := r\<rparr>) = f s) \<Longrightarrow> keeps f (plain_redis k v n)"
  by (simp add: keeps_def plain_redis_def split: option.split)

lemma sample_runtime_delivery: "delivery_outside sample_runtime None None"
  by (simp add: delivery_outside_def sample_runtime_def outside_redis_def keeps_plain_redis keeps_return)

text \<open>A session with a dream and a running analysis job.\<close>

definition running_job :: analysis_job where
  "running_job = lock_job ''w1'' 2000000 (new_job 50 7 (ascii ''mock'') (ascii ''m'') 1 ''auto'' None 1000000)"

definition runtime_world :: world where
  "runtime_world = dream_world\<lparr>jobs := [running_job]\<rparr>"

lemma runtime_world_sel [simp]: "jobs runtime_world = [running_job]" "job_status running_job = RUNNING"
  "job_dream_id running_job = None" "job_session_id running_job = 7" "job_id running_job = 50"
  by (simp_all add: runtime_world_def running_job_def new_job_def lock_job_def)

lemma load_runtime_world:
  "\<exists>c t. load_analysis_input u 7 (runtime_world\<lparr>clock := g\<rparr>) = (Inr c, t) \<and> ai_session c = sample_session \<and> threads_ok t
    \<and> sessions t = [sample_session] \<and> rivals t = (\<lambda>_. None)"
proof -
  have env: "summaries runtime_world = []" "sessions runtime_world = [sample_session]" "threads runtime_world = []"
    "rivals runtime_world = (\<lambda>_. None)" "rivals_pending runtime_world = []" "uuids runtime_world = (\<lambda>n. 100 + n)"
    by (simp_all add: runtime_world_def dream_world_def sample_world_def empty_world_def)
  show ?thesis
    by (simp add: load_analysis_input_def find_session_def get_session_summary_def build_session_summary_def
        save_session_summary_def run env upsert_summary_def summary_of_def Let_def threads_ok_def one_active_thread_def
        rival_ids_def supplies_def inj_def)
qed

lemma runtime_binding: "\<exists>a t. execute_with_job_binding sample_runtime running_job (runtime_world\<lparr>clock := g\<rparr>) = (Inr a, t)"
proof -
  obtain c t where t: "load_analysis_input basic_unicode 7 (runtime_world\<lparr>clock := g\<rparr>) = (Inr c, t)" "ai_session c = sample_session"
    "threads_ok t" "sessions t = [sample_session]" "rivals t = (\<lambda>_. None)"
    using load_runtime_world by blast
  obtain p u where p: "prepare_session_analysis (sample_environment sample_answer) (Inl 7) (mode_request (job_mode running_job)) None
      DEFAULT_PROMPT_VERSION (runtime_world\<lparr>clock := g\<rparr>) = (Inr p, u)" "th_session_id (pr_thread p) = 7" "pr_session_id p = 7"
    using prepare_sample [where mode = "mode_request (job_mode running_job)" and version = DEFAULT_PROMPT_VERSION,
        OF t(1, 3) _ _ _ t(5), of sample_session] t(2, 4) by auto
  let ?a = "built_row p (length (filter (of_thread (th_id (pr_thread p))) (analyses u))) (uuids u 0) (tx_now u)
    \<lparr>sa_analysis_job_id := Some 50\<rparr>"
  let ?u = "u\<lparr>uuids := \<lambda>n. uuids u (Suc n)\<rparr>"
  have "assemble_runtime_analysis sample_runtime running_job (runtime_world\<lparr>clock := g\<rparr>) = (Inr (?a, pr_thread p), ?u)"
    using p(1) by (simp add: assemble_runtime_analysis_def sample_runtime_def [THEN arg_cong [where f = rt_env]] run
        build_row_run with_job_id_def)
  moreover obtain v where "persist_session_analysis_in_thread (pr_thread p) ?a ?u = (Inr ?a, v)"
    using persist_run [of ?a "pr_thread p" ?u] p(2, 3) by auto
  ultimately show ?thesis by (auto simp: execute_with_job_binding_def run)
qed

theorem analysis_run_is_all_or_nothing_witness:
  "\<exists>a t. execute_with_job_binding sample_runtime running_job (runtime_world\<lparr>clock := clock runtime_world\<rparr>) = (Inr a, t)
    \<and> analyses t = [a] \<and> sa_analysis_job_id a = Some 50 \<and> jobs t = [running_job]"
proof -
  let ?s = "runtime_world\<lparr>clock := clock runtime_world\<rparr>"
  obtain a t where t: "execute_with_job_binding sample_runtime running_job ?s = (Inr a, t)" using runtime_binding by blast
  have "analyses ?s = []" by (simp add: runtime_world_def dream_world_def sample_world_def empty_world_def)
  then show ?thesis
    using analysis_run_is_all_or_nothing [OF sample_runtime_env _ t] t by (auto simp: beside_results_def unlatest_def)
qed

theorem execution_settles_job_witness:
  "\<exists>y r t. execute_analysis_job sample_runtime None None None running_job runtime_world = (r, t)
    \<and> jobs t = [y] \<and> job_status y = COMPLETED \<and> job_id y = 50"
proof -
  obtain a u where u: "execute_with_job_binding sample_runtime running_job (runtime_world\<lparr>clock := \<lambda>n. clock runtime_world (Suc n)\<rparr>) = (Inr a, u)"
    using runtime_binding by blast
  obtain r t where r: "execute_analysis_job sample_runtime None None None running_job runtime_world = (r, t)" by fastforce
  from execution_settles_job [OF sample_runtime_env sample_runtime_delivery _ _ _ u r] r show ?thesis
    by (auto simp: settled_def)
qed


definition sample_worker :: AnalysisRuntimeWorker where
  "sample_worker = new_worker ''w1'' 2 1"


end
