(* ===== verification/Policy.thy ===== *)
theory Policy
  imports Text
begin

text \<open>
  The dialogue policy (\<open>services/dialogue_policy\<close>): the crisis detector with its regular expressions,
  the classification of an incoming text, the decision table of the engine. Pure functions; the
  session state is resolved by the router in theory Ingress.
\<close>

subsection \<open>Types\<close>

datatype InputType = TEXT | SHORT_FRAGMENT | LONG_TEXT | CONTINUATION_SIGNAL
datatype SessionState = NEW | ACTIVE | IDLE | CLOSED | RESUMED
datatype PolicyRoute = ROUTE_NEW_DREAM | ROUTE_DIALOGUE_TURN | ROUTE_CLARIFICATION | ROUTE_SAFETY | ROUTE_NOOP
datatype SessionAction = NONE | START_NEW | CONTINUE

record PolicyInput =
  pi_text :: ustr
  pi_text_length :: nat
  pi_token_count :: nat
  pi_input_type :: InputType
  pi_session_state :: SessionState
  pi_is_empty :: bool
  pi_crisis_signal :: bool

record PolicyDecision =
  pd_route :: PolicyRoute
  pd_session_action :: SessionAction
  pd_reason_code :: string
  pd_confidence :: rat

text \<open>The dataclass constructor with its \<open>__post_init__\<close> check, and the calls that leave the default.\<close>

definition policy_decision_checked :: "PolicyRoute \<Rightarrow> SessionAction \<Rightarrow> string \<Rightarrow> rat \<Rightarrow> exn + PolicyDecision" where
  "policy_decision_checked route action reason conf =
     (if conf \<noteq> 1 then Inl (ValueError [Lit ''PolicyDecision.confidence must be 1.0 for deterministic routing''])
      else Inr \<lparr>pd_route = route, pd_session_action = action, pd_reason_code = reason, pd_confidence = conf\<rparr>)"

definition decision :: "PolicyRoute \<Rightarrow> SessionAction \<Rightarrow> string \<Rightarrow> PolicyDecision" where
  "decision route action reason =
     \<lparr>pd_route = route, pd_session_action = action, pd_reason_code = reason, pd_confidence = 1\<rparr>"

lemma decision_checked: "policy_decision_checked route action reason 1 = Inr (decision route action reason)"
  by (simp add: policy_decision_checked_def decision_def)

lemma decision_sel [simp]:
  "pd_route (decision r a c) = r" "pd_session_action (decision r a c) = a"
  "pd_reason_code (decision r a c) = c" "pd_confidence (decision r a c) = 1"
  by (simp_all add: decision_def)

subsection \<open>The engine\<close>

definition MIN_TOKENS_FOR_DREAM :: nat where "MIN_TOKENS_FOR_DREAM = 8"

definition decide :: "PolicyInput \<Rightarrow> PolicyDecision" where
  "decide p =
     (if pi_crisis_signal p then decision ROUTE_SAFETY NONE ''crisis_signal_detected''
      else if pi_is_empty p \<or> pi_text_length p \<le> 0 then decision ROUTE_NOOP NONE ''empty_input''
      else if pi_session_state p \<in> {NEW, IDLE, CLOSED} \<and> pi_input_type p = SHORT_FRAGMENT
              \<and> pi_token_count p < MIN_TOKENS_FOR_DREAM
        then decision ROUTE_CLARIFICATION NONE ''short_fragment_without_context''
      else if pi_input_type p = CONTINUATION_SIGNAL
        then decision ROUTE_DIALOGUE_TURN CONTINUE ''continuation_signal''
      else if pi_session_state p \<in> {NEW, CLOSED} \<and> pi_input_type p = LONG_TEXT
              \<and> pi_token_count p \<ge> MIN_TOKENS_FOR_DREAM
        then decision ROUTE_NEW_DREAM START_NEW ''long_text_new_or_closed_session''
      else if pi_session_state p \<in> {ACTIVE, RESUMED} \<and> pi_token_count p \<ge> MIN_TOKENS_FOR_DREAM
              \<and> pi_input_type p = LONG_TEXT
        then decision ROUTE_NEW_DREAM CONTINUE ''active_session_new_dream_fragment''
      else if pi_session_state p \<in> {ACTIVE, RESUMED} then
        (if pi_token_count p < MIN_TOKENS_FOR_DREAM
         then decision ROUTE_DIALOGUE_TURN CONTINUE ''active_session_short_follow_up''
         else decision ROUTE_DIALOGUE_TURN CONTINUE ''active_session_dialogue_turn'')
      else if pi_token_count p < MIN_TOKENS_FOR_DREAM
        then decision ROUTE_CLARIFICATION NONE ''insufficient_tokens''
      else decision ROUTE_NEW_DREAM START_NEW ''default_new_dream_route'')"

subsection \<open>The crisis detector\<close>

text \<open>
  The patterns use literals, \<open>\b\<close>, \<open>\s+\<close> and one optional \<open>[-\s]?\<close>. \<open>rx_match\<close> decides whether a
  pattern matches at a position (the previous character is an argument, for \<open>\b\<close>), exploring every
  way to match the repetitions; \<open>rx_search\<close> tries every position, as \<open>Pattern.search\<close> does.
\<close>

datatype rx = RBoundary | RChar nat | RSpaces | ROptDashSpace

definition word_at :: "unicode \<Rightarrow> nat option \<Rightarrow> bool" where
  "word_at u c = (case c of None \<Rightarrow> False | Some c \<Rightarrow> uc_word u c)"

function rx_match :: "unicode \<Rightarrow> rx list \<Rightarrow> nat option \<Rightarrow> ustr \<Rightarrow> bool" where
  "rx_match u [] prev s = True"
| "rx_match u (RBoundary # ps) prev s =
     (word_at u prev \<noteq> word_at u (first_row s) \<and> rx_match u ps prev s)"
| "rx_match u (RChar c # ps) prev [] = False"
| "rx_match u (RChar c # ps) prev (d # ds) = (uc_ieq u c d \<and> rx_match u ps (Some d) ds)"
| "rx_match u (RSpaces # ps) prev [] = False"
| "rx_match u (RSpaces # ps) prev (d # ds) =
     (uc_space u d \<and> (rx_match u (RSpaces # ps) (Some d) ds \<or> rx_match u ps (Some d) ds))"
| "rx_match u (ROptDashSpace # ps) prev [] = rx_match u ps prev []"
| "rx_match u (ROptDashSpace # ps) prev (d # ds) =
     ((d = 45 \<or> uc_space u d) \<and> rx_match u ps (Some d) ds \<or> rx_match u ps prev (d # ds))"
  by pat_completeness auto
termination
  by (relation "measure (\<lambda>(u, ps, prev, s). length ps + length s)") auto

fun rx_search :: "unicode \<Rightarrow> rx list \<Rightarrow> nat option \<Rightarrow> ustr \<Rightarrow> bool" where
  "rx_search u ps prev [] = rx_match u ps prev []"
| "rx_search u ps prev (d # ds) = (rx_match u ps prev (d # ds) \<or> rx_search u ps (Some d) ds)"

text \<open>\<open>\bword\s+word\b\<close> and \<open>\bstem\<close>.\<close>

fun phrase_tail :: "ustr list \<Rightarrow> rx list" where
  "phrase_tail [] = [RBoundary]"
| "phrase_tail (w # ws) = RSpaces # map RChar w @ phrase_tail ws"

fun phrase_rx :: "ustr list \<Rightarrow> rx list" where
  "phrase_rx [] = []"
| "phrase_rx (w # ws) = RBoundary # map RChar w @ phrase_tail ws"

definition stem_rx :: "ustr \<Rightarrow> rx list" where
  "stem_rx w = RBoundary # map RChar w"

text \<open>
  The phrases: \<open>khochu umeret'\<close>, \<open>pokonchit' s soboi\<close>, \<open>ne khochu zhit'\<close>, \<open>porezhu sebya\<close> and the stems
  \<open>samoubiistv\<close>, \<open>suitsid\<close> in Cyrillic code points, and the two English phrases.
\<close>

definition crisis_phrases :: "ustr list list" where
  "crisis_phrases =
     [[[1093, 1086, 1095, 1091], [1091, 1084, 1077, 1088, 1077, 1090, 1100]],
      [[1087, 1086, 1082, 1086, 1085, 1095, 1080, 1090, 1100], [1089], [1089, 1086, 1073, 1086, 1081]],
      [[1085, 1077], [1093, 1086, 1095, 1091], [1078, 1080, 1090, 1100]],
      [[1087, 1086, 1088, 1077, 1078, 1091], [1089, 1077, 1073, 1103]],
      [[107, 105, 108, 108], [109, 121, 115, 101, 108, 102]]]"

definition crisis_stems :: "ustr list" where
  "crisis_stems =
     [[1089, 1072, 1084, 1086, 1091, 1073, 1080, 1081, 1089, 1090, 1074],
      [1089, 1091, 1080, 1094, 1080, 1076]]"

definition self_harm_rx :: "rx list" where
  "self_harm_rx = RBoundary # map RChar [115, 101, 108, 102] @ ROptDashSpace #
     map RChar [104, 97, 114, 109] @ [RBoundary]"

definition CRISIS_PATTERNS :: "rx list list" where
  "CRISIS_PATTERNS = map phrase_rx crisis_phrases @ map stem_rx crisis_stems @ [self_harm_rx]"

definition is_crisis_signal :: "unicode \<Rightarrow> ustr \<Rightarrow> bool" where
  "is_crisis_signal u text =
     (let normalized = normalize_ws u (uc_lower u (strip u text))
      in if normalized = [] then False else \<exists>p \<in> set CRISIS_PATTERNS. rx_search u p None normalized)"

subsection \<open>The router\<close>

text \<open>
  \<open>v prodolzhenie\<close>, \<open>dobavlyu\<close>, \<open>dopolnyu\<close>, \<open>dopolnil\<close>, \<open>prodolzhu\<close>, \<open>prodolzhenie\<close>, \<open>eshche\<close> (twice, with and
  without the dots), \<open>i eshche\<close> (twice).
\<close>

definition CONTINUATION_PREFIXES :: "ustr list" where
  "CONTINUATION_PREFIXES =
     [[1074, 32, 1087, 1088, 1086, 1076, 1086, 1083, 1078, 1077, 1085, 1080, 1077],
      [1076, 1086, 1073, 1072, 1074, 1083, 1102],
      [1076, 1086, 1087, 1086, 1083, 1085, 1102],
      [1076, 1086, 1087, 1086, 1083, 1085, 1080, 1083],
      [1087, 1088, 1086, 1076, 1086, 1083, 1078, 1091],
      [1087, 1088, 1086, 1076, 1086, 1083, 1078, 1077, 1085, 1080, 1077],
      [1077, 1097, 1105],
      [1077, 1097, 1077],
      [1080, 32, 1077, 1097, 1105],
      [1080, 32, 1077, 1097, 1077]]"

definition classify_input_type :: "unicode \<Rightarrow> ustr \<Rightarrow> InputType" where
  "classify_input_type u text =
     (let normalized = normalize_ws u (uc_lower u (strip u text));
          token_count = (if normalized \<noteq> [] then length (split_ws u normalized) else 0)
      in if \<exists>p \<in> set CONTINUATION_PREFIXES. starts_with normalized p then CONTINUATION_SIGNAL
         else if token_count \<le> 3 then SHORT_FRAGMENT
         else if token_count \<ge> 6 \<or> length normalized \<ge> 40 then LONG_TEXT
         else TEXT)"

definition build_policy_input :: "unicode \<Rightarrow> ustr \<Rightarrow> SessionState \<Rightarrow> PolicyInput" where
  "build_policy_input u text state =
     (let normalized = normalize_ws u text;
          token_count = (if normalized \<noteq> [] then length (split_ws u normalized) else 0)
      in \<lparr>pi_text = text, pi_text_length = length normalized, pi_token_count = token_count,
          pi_input_type = classify_input_type u text, pi_session_state = state,
          pi_is_empty = (normalized = []), pi_crisis_signal = is_crisis_signal u text\<rparr>)"

lemma build_policy_input_sel [simp]:
  "pi_session_state (build_policy_input u text state) = state"
  "pi_input_type (build_policy_input u text state) = classify_input_type u text"
  "pi_crisis_signal (build_policy_input u text state) = is_crisis_signal u text"
  "pi_is_empty (build_policy_input u text state) = (split_ws u text = [])"
  "pi_text_length (build_policy_input u text state) = length (normalize_ws u text)"
  by (simp_all add: build_policy_input_def Let_def)

subsection \<open>The engine's guarantees\<close>

lemma decide_crisis: "pi_crisis_signal p \<Longrightarrow> decide p = decision ROUTE_SAFETY NONE ''crisis_signal_detected''"
  by (simp add: decide_def)

lemma token_count_build:
  "unicode_laws u \<Longrightarrow> pi_token_count (build_policy_input u text st) = length (split_ws u text)"
  by (simp add: build_policy_input_def Let_def unicode_laws.split_normalized)

lemma classify_cases:
  assumes "unicode_laws u" and "classify_input_type u text \<noteq> CONTINUATION_SIGNAL"
  shows "classify_input_type u text = SHORT_FRAGMENT \<longleftrightarrow> length (split_ws u text) \<le> 3"
    and "6 \<le> length (split_ws u text) \<Longrightarrow> classify_input_type u text = LONG_TEXT"
proof -
  let ?w = "split_ws u (uc_lower u (strip u text))"
  have n: "length (split_ws u (normalize_ws u (uc_lower u (strip u text)))) = length (split_ws u text)"
    using assms(1) by (simp add: unicode_laws.split_normalized unicode_laws.lower_strip_words)
  have e: "normalize_ws u (uc_lower u (strip u text)) = [] \<longleftrightarrow> length (split_ws u text) = 0"
    using assms(1) by (metis length_0_conv normalize_Nil unicode_laws.lower_strip_words)
  show "classify_input_type u text = SHORT_FRAGMENT \<longleftrightarrow> length (split_ws u text) \<le> 3"
    and "6 \<le> length (split_ws u text) \<Longrightarrow> classify_input_type u text = LONG_TEXT"
    using assms(2) n e by (auto simp: classify_input_type_def Let_def split: if_splits)
qed

text \<open>A message is answered with the safety response if and only if a crisis signal was detected,
  whatever else the input says.\<close>

theorem safety_iff_crisis: "pd_route (decide p) = ROUTE_SAFETY \<longleftrightarrow> pi_crisis_signal p"
  by (simp add: decide_def)

text \<open>The whole routing of a message for the two session states the router resolves (a session row
  exists or not): safety first, nothing for blank text, continuation words go to the dialogue, and a
  new dream is stored exactly from eight words on; below that a new user is asked to clarify and a
  user with an open session gets a dialogue turn.\<close>

theorem policy_table:
  assumes "unicode_laws u"
  shows "pd_route (decide (build_policy_input u text st)) =
    (if is_crisis_signal u text then ROUTE_SAFETY
     else if split_ws u text = [] then ROUTE_NOOP
     else if classify_input_type u text = CONTINUATION_SIGNAL then ROUTE_DIALOGUE_TURN
     else if 8 \<le> length (split_ws u text) then ROUTE_NEW_DREAM
     else if st \<in> {ACTIVE, RESUMED} then ROUTE_DIALOGUE_TURN
     else ROUTE_CLARIFICATION)"
proof -
  have n: "pi_token_count (build_policy_input u text st) = length (split_ws u text)" for st
    by (rule token_count_build [OF assms])
  have e: "normalize_ws u text = [] \<longleftrightarrow> split_ws u text = []" by simp
  show ?thesis
  proof (cases "classify_input_type u text = CONTINUATION_SIGNAL")
    case True
    then show ?thesis using e by (simp add: decide_def n MIN_TOKENS_FOR_DREAM_def)
  next
    case False
    note c = classify_cases [OF assms False]
    show ?thesis
    proof (cases "8 \<le> length (split_ws u text)")
      case True
      then have "classify_input_type u text = LONG_TEXT" using c(2) by simp
      then show ?thesis using True e
        by (cases st) (auto simp: decide_def n MIN_TOKENS_FOR_DREAM_def)
    next
      case short: False
      then show ?thesis using False e
        by (cases st) (auto simp: decide_def n MIN_TOKENS_FOR_DREAM_def)
    qed
  qed
qed

theorem policy_table_witness:
  "pd_route (decide (build_policy_input basic_unicode (ascii ''I saw a dog'') NEW)) =
    (if is_crisis_signal basic_unicode (ascii ''I saw a dog'') then ROUTE_SAFETY
     else if split_ws basic_unicode (ascii ''I saw a dog'') = [] then ROUTE_NOOP
     else if classify_input_type basic_unicode (ascii ''I saw a dog'') = CONTINUATION_SIGNAL
       then ROUTE_DIALOGUE_TURN
     else if 8 \<le> length (split_ws basic_unicode (ascii ''I saw a dog'')) then ROUTE_NEW_DREAM
     else if NEW \<in> {ACTIVE, RESUMED} then ROUTE_DIALOGUE_TURN
     else ROUTE_CLARIFICATION)"
  by (rule policy_table [OF basic.unicode_laws_axioms])

subsection \<open>What the detector recognises\<close>

lemma join_SP_Cons: "join [SP] (w # ws) = w @ concat (map (\<lambda>v. SP # v) ws)"
  by (induction ws arbitrary: w) auto

lemma join_SP_append:
  "join [SP] (pre @ w # ws) =
     (if pre = [] then [] else join [SP] pre @ [SP]) @ w @ concat (map (\<lambda>v. SP # v) ws)"
  by (cases pre) (auto simp: join_SP_Cons)

lemma rx_search_at:
  "rx_match u ps (if pre = [] then prev else Some (last pre)) s \<Longrightarrow> rx_search u ps prev (pre @ s)"
proof (induction pre arbitrary: prev)
  case Nil
  then show ?case by (cases s) auto
next
  case (Cons c pre)
  then have "rx_match u ps (if pre = [] then Some c else Some (last pre)) s" by (auto split: if_splits)
  then show ?case using Cons.IH by simp
qed

lemma rx_match_word:
  assumes "\<forall>c. uc_ieq u c c"
    and "rx_match u ps (if w = [] then prev else Some (last w)) s"
  shows "rx_match u (map RChar w @ ps) prev (w @ s)"
  using assms(2)
proof (induction w arbitrary: prev)
  case (Cons c w)
  then have "rx_match u ps (if w = [] then Some c else Some (last w)) s" by (auto split: if_splits)
  then show ?case using Cons.IH assms(1) by simp
qed simp

definition word_token :: "unicode \<Rightarrow> ustr \<Rightarrow> bool" where
  "word_token u w \<longleftrightarrow> w \<noteq> [] \<and> (\<forall>c \<in> set w. uc_word u c)"

lemma rx_match_phrase_tail:
  assumes "unicode_laws u"
  shows "\<lbrakk>uc_word u c; \<forall>w \<in> set ws. word_token u w; rest = [] \<or> hd rest = SP\<rbrakk> \<Longrightarrow>
    rx_match u (phrase_tail ws) (Some c) (concat (map (\<lambda>v. SP # v) ws) @ rest)"
proof (induction ws arbitrary: c)
  case Nil
  then show ?case using unicode_laws.blank_not_word [OF assms]
    by (cases rest) (auto simp: word_at_def)
next
  case (Cons w ws)
  have w: "w \<noteq> []" "uc_word u (last w)"
    using Cons.prems(2) by (auto simp: word_token_def)
  then have "rx_match u (phrase_tail ws) (Some (last w)) (concat (map (\<lambda>v. SP # v) ws) @ rest)"
    using Cons by auto
  then have "rx_match u (map RChar w @ phrase_tail ws) (Some SP) (w @ concat (map (\<lambda>v. SP # v) ws) @ rest)"
    using w unicode_laws.ieq_refl [OF assms] by (intro rx_match_word) auto
  then show ?case using unicode_laws.blank_space [OF assms] by simp
qed

lemma rx_search_phrase:
  assumes "unicode_laws u" and "ws \<noteq> []" and "\<forall>w \<in> set ws. word_token u w"
  shows "rx_search u (phrase_rx ws) None (join [SP] (pre @ ws @ post))"
proof -
  obtain w ws' where ws: "ws = w # ws'" using assms(2) by (cases ws) auto
  have w: "w \<noteq> []" "uc_word u (hd w)" "uc_word u (last w)"
    using assms(3) ws by (auto simp: word_token_def)
  define pre1 where "pre1 = (if pre = [] then [] else join [SP] pre @ [SP])"
  define post1 where "post1 = concat (map (\<lambda>v. SP # v) post)"
  have eq: "join [SP] (pre @ ws @ post) = pre1 @ w @ concat (map (\<lambda>v. SP # v) ws') @ post1"
    using join_SP_append [of pre w "ws' @ post"] by (simp add: ws pre1_def post1_def)
  have "post1 = [] \<or> hd post1 = SP"
    by (cases post) (auto simp: post1_def)
  then have "rx_match u (phrase_tail ws') (Some (last w)) (concat (map (\<lambda>v. SP # v) ws') @ post1)"
    using rx_match_phrase_tail [OF assms(1) w(3)] assms(3) ws by simp
  then have "rx_match u (map RChar w @ phrase_tail ws') p (w @ concat (map (\<lambda>v. SP # v) ws') @ post1)" for p
    using w unicode_laws.ieq_refl [OF assms(1)] by (intro rx_match_word) auto
  moreover have "first_row (w @ r) = Some (hd w)" for r
    using w(1) by (cases w) auto
  ultimately have "rx_match u (phrase_rx ws) (if pre1 = [] then None else Some (last pre1))
      (w @ concat (map (\<lambda>v. SP # v) ws') @ post1)"
    using w unicode_laws.blank_not_word [OF assms(1)] by (auto simp: ws pre1_def word_at_def)
  then show ?thesis unfolding eq by (rule rx_search_at)
qed

text \<open>C24. Whenever the words of one of the crisis phrases occur next to each other in the message,
  whatever surrounds them, however they are capitalised and spaced, and whatever the session state,
  the message goes to the safety route.\<close>

theorem crisis_phrase_routed_to_safety:
  assumes "unicode_laws u" and "phrase \<in> set crisis_phrases"
    and "\<forall>w \<in> set phrase. \<forall>c \<in> set w. uc_word u c"
    and "split_ws u (uc_lower u (strip u text)) = pre @ phrase @ post"
  shows "decide (build_policy_input u text st) = decision ROUTE_SAFETY NONE ''crisis_signal_detected''"
proof -
  have ne: "phrase \<noteq> []" "\<forall>w \<in> set phrase. w \<noteq> []"
    using assms(2) by (auto simp: crisis_phrases_def)
  then have "rx_search u (phrase_rx phrase) None (normalize_ws u (uc_lower u (strip u text)))"
    unfolding normalize_ws_def assms(4) using assms(3)
    by (intro rx_search_phrase [OF assms(1)]) (auto simp: word_token_def)
  moreover have "phrase_rx phrase \<in> set CRISIS_PATTERNS"
    using assms(2) by (simp add: CRISIS_PATTERNS_def)
  moreover have "normalize_ws u (uc_lower u (strip u text)) \<noteq> []"
    using ne(1) by (simp add: assms(4))
  ultimately have "is_crisis_signal u text"
    by (auto simp: is_crisis_signal_def Let_def)
  then show ?thesis by (simp add: decide_crisis)
qed

theorem crisis_phrase_routed_to_safety_witness:
  "decide (build_policy_input basic_unicode (ascii ''Today I KILL   myself now'') ACTIVE) =
     decision ROUTE_SAFETY NONE ''crisis_signal_detected''"
proof (rule crisis_phrase_routed_to_safety [OF basic.unicode_laws_axioms,
    where phrase = "[[107, 105, 108, 108], [109, 121, 115, 101, 108, 102]]"
      and pre = "[ascii ''today'', ascii ''i'']" and post = "[ascii ''now'']"])
  show "split_ws basic_unicode (uc_lower basic_unicode (strip basic_unicode (ascii ''Today I KILL   myself now'')))
    = [ascii ''today'', ascii ''i''] @ [[107, 105, 108, 108], [109, 121, 115, 101, 108, 102]] @ [ascii ''now'']"
    by code_simp
qed (simp_all add: crisis_phrases_def basic_unicode_def)

end
