(* ===== verification/Ingress.thy ===== *)
theory Ingress
  imports Dialogue Runtime Policy
begin

text \<open>
  An incoming message: the router (\<open>services/dialogue_policy/router.py\<close>), the policy traces
  (\<open>services/admin/policy_trace_service.py\<close>), the intake of a dream (\<open>services/dream_intake.py\<close>), the
  ingress (\<open>services/ingress/ingress_service.py\<close>) and the two endpoints that call it
  (\<open>routers/telegram_webhook.py\<close>, \<open>routers/dreams.py\<close>), each inside the transaction of its request.
\<close>

subsection \<open>The router\<close>

definition default_session_state_resolver :: "int \<Rightarrow> SessionState db" where
  "default_session_state_resolver uid =
     bindM (get_active_session_raw uid) (\<lambda>active. returnM (if active = None then NEW else ACTIVE))"

record PolicyEvaluation =
  ev_policy_input :: PolicyInput
  ev_decision :: PolicyDecision

definition evaluate :: "unicode \<Rightarrow> (int \<Rightarrow> SessionState db) option \<Rightarrow> int \<Rightarrow> ustr \<Rightarrow> PolicyEvaluation db" where
  "evaluate u resolver uid text =
     bindM ((case resolver of Some f \<Rightarrow> f | None \<Rightarrow> default_session_state_resolver) uid) (\<lambda>state.
     let p = build_policy_input u text state in
     returnM \<lparr>ev_policy_input = p, ev_decision = decide p\<rparr>)"

subsection \<open>Policy traces\<close>

fun input_type_value :: "InputType \<Rightarrow> string" where
  "input_type_value TEXT = ''TEXT''"
| "input_type_value SHORT_FRAGMENT = ''SHORT_FRAGMENT''"
| "input_type_value LONG_TEXT = ''LONG_TEXT''"
| "input_type_value CONTINUATION_SIGNAL = ''CONTINUATION_SIGNAL''"

fun session_state_value :: "SessionState \<Rightarrow> string" where
  "session_state_value NEW = ''NEW''"
| "session_state_value ACTIVE = ''ACTIVE''"
| "session_state_value IDLE = ''IDLE''"
| "session_state_value CLOSED = ''CLOSED''"
| "session_state_value RESUMED = ''RESUMED''"

fun route_value :: "PolicyRoute \<Rightarrow> string" where
  "route_value ROUTE_NEW_DREAM = ''ROUTE_NEW_DREAM''"
| "route_value ROUTE_DIALOGUE_TURN = ''ROUTE_DIALOGUE_TURN''"
| "route_value ROUTE_CLARIFICATION = ''ROUTE_CLARIFICATION''"
| "route_value ROUTE_SAFETY = ''ROUTE_SAFETY''"
| "route_value ROUTE_NOOP = ''ROUTE_NOOP''"

fun session_action_value :: "SessionAction \<Rightarrow> string" where
  "session_action_value NONE = ''NONE''"
| "session_action_value START_NEW = ''START_NEW''"
| "session_action_value CONTINUE = ''CONTINUE''"

definition policy_input_projection :: "PolicyInput \<Rightarrow> (ustr \<times> json) list" where
  "policy_input_projection p =
     [(ascii ''text_length'', JInt (int (pi_text_length p))), (ascii ''token_count'', JInt (int (pi_token_count p))),
      (ascii ''input_type'', JStr (ascii (input_type_value (pi_input_type p)))),
      (ascii ''session_state'', JStr (ascii (session_state_value (pi_session_state p)))),
      (ascii ''is_empty'', JBool (pi_is_empty p)), (ascii ''crisis_signal'', JBool (pi_crisis_signal p))]"

definition policy_decision_projection :: "PolicyDecision \<Rightarrow> (ustr \<times> json) list" where
  "policy_decision_projection d =
     [(ascii ''route'', JStr (ascii (route_value (pd_route d)))),
      (ascii ''session_action'', JStr (ascii (session_action_value (pd_session_action d)))),
      (ascii ''reason_code'', JStr (ascii (pd_reason_code d))), (ascii ''confidence'', JFloat (Fin (pd_confidence d)))]"

definition record_policy_trace ::
  "int \<Rightarrow> PolicyInput \<Rightarrow> PolicyDecision \<Rightarrow> (ustr \<times> json) list \<Rightarrow> uuid option \<Rightarrow> int option \<Rightarrow> uuid option \<Rightarrow> policy_trace db" where
  "record_policy_trace uid p d outcome sid did jid =
     bindM uuid4 (\<lambda>i.
     bindM (getsM tx_now) (\<lambda>t.
     let x = \<lparr>pt_id = i, pt_user_id = uid, pt_session_id = sid, pt_dream_id = did, pt_job_id = jid,
              pt_input_json = JObj (policy_input_projection p), pt_decision_json = JObj (policy_decision_projection d),
              pt_route = route_value (pd_route d), pt_reason_code = pd_reason_code d, pt_outcome_json = JObj outcome,
              pt_created_at = t\<rparr>
     in thenM (modifyM (\<lambda>s. s\<lparr>traces := traces s @ [x]\<rparr>)) (returnM x)))"

definition list_session_policy_traces :: "uuid \<Rightarrow> policy_trace list db" where
  "list_session_policy_traces sid = getsM (\<lambda>s.
     sort_key (\<lambda>x. (pt_created_at x, pt_id x)) (filter (\<lambda>x. pt_session_id x = Some sid) (traces s)))"

subsection \<open>Dream intake\<close>

text \<open>What the ingress takes from the settings, the imported texts and the outside world.\<close>

record ingress =
  ig_runtime :: runtime
  ig_files :: asset_files
  ig_responses :: fixed_responses
  ig_llm_provider :: ustr
  ig_default_model :: ustr
  ig_job_max_attempts :: int

abbreviation ig_env :: "ingress \<Rightarrow> environment" where
  "ig_env g \<equiv> rt_env (ig_runtime g)"

record DreamIntakeResult =
  in_dream :: dream
  in_job :: analysis_job

definition register_incoming_dream :: "ingress \<Rightarrow> int \<Rightarrow> ustr \<Rightarrow> DreamIntakeResult db" where
  "register_incoming_dream g uid text =
     bindM (get_or_create_active_session uid) (\<lambda>active.
     bindM (create_dream uid text (ds_id active)) (\<lambda>d.
     thenM (update_session_activity (ds_id active)) (
     bindM (create_job (ds_id active) (ig_llm_provider g) (ig_default_model g) (ig_job_max_attempts g) ''auto'' (Some (dr_id d))) (\<lambda>x.
     returnM \<lparr>in_dream = d, in_job = x\<rparr>))))"

subsection \<open>The ingress\<close>

record IngressResult =
  ir_route :: PolicyRoute
  ir_reason_code :: string
  ir_session_action :: SessionAction
  ir_session_id :: "uuid option"
  ir_dream_id :: "int option"
  ir_job_id :: "uuid option"
  ir_outbound_messages :: "ustr list"

definition ingress_result :: "PolicyDecision \<Rightarrow> uuid option \<Rightarrow> int option \<Rightarrow> uuid option \<Rightarrow> ustr list \<Rightarrow> IngressResult" where
  "ingress_result d sid did jid out = \<lparr>ir_route = pd_route d, ir_reason_code = pd_reason_code d,
     ir_session_action = pd_session_action d, ir_session_id = sid, ir_dream_id = did, ir_job_id = jid,
     ir_outbound_messages = out\<rparr>"

definition outcome_kind :: "string \<Rightarrow> ustr \<times> json" where
  "outcome_kind k = (ascii ''kind'', JStr (ascii k))"

definition trace_outcome ::
  "int \<Rightarrow> PolicyEvaluation \<Rightarrow> uuid option \<Rightarrow> int option \<Rightarrow> uuid option \<Rightarrow> (ustr \<times> json) list \<Rightarrow> unit db" where
  "trace_outcome uid ev sid did jid outcome =
     thenM (record_policy_trace uid (ev_policy_input ev) (ev_decision ev) outcome sid did jid) (returnM ())"

text \<open>The safety and the clarification route answer with a fixed text.\<close>

definition fixed_reply :: "int \<Rightarrow> ustr \<Rightarrow> PolicyEvaluation \<Rightarrow> ustr \<Rightarrow> string \<Rightarrow> string \<Rightarrow> IngressResult db" where
  "fixed_reply uid text ev outbound turn_type kind =
     bindM (get_or_create_active_session uid) (\<lambda>session.
     thenM (append_user_turn uid (ds_id session) text turn_type None) (
     thenM (append_assistant_turn uid (ds_id session) outbound turn_type None None) (
     thenM (update_session_activity (ds_id session)) (
     thenM (trace_outcome uid ev (Some (ds_id session)) None None [outcome_kind kind]) (
     returnM (ingress_result (ev_decision ev) (Some (ds_id session)) None None [outbound]))))))"

text \<open>A new dream is stored and its job enqueued; a dialogue turn is only logged.\<close>

definition intake_part :: "ingress \<Rightarrow> int \<Rightarrow> ustr \<Rightarrow> PolicyEvaluation \<Rightarrow> uuid \<Rightarrow> (int option \<times> uuid option \<times> string) db" where
  "intake_part g uid text ev sid =
     (if pd_route (ev_decision ev) = ROUTE_NEW_DREAM then
        bindM (register_incoming_dream g uid text) (\<lambda>intake.
        let did = dr_id (in_dream intake); jid = job_id (in_job intake) in
        thenM (append_user_turn uid sid text TURN_TYPE_DREAM_INTAKE (Some did)) (
        thenM (trace_outcome uid ev (Some sid) (Some did) (Some jid)
          [outcome_kind ''new_dream_enqueued'', (ascii ''dream_id'', JInt did),
           (ascii ''job_id'', JStr (str_uuid (en_formats (ig_env g)) jid))]) (
        returnM (Some did, Some jid, TURN_TYPE_DREAM_INTAKE))))
      else
        thenM (append_user_turn uid sid text TURN_TYPE_DIALOGUE None) (
        thenM (update_session_activity sid) (
        thenM (trace_outcome uid ev (Some sid) None None [outcome_kind ''dialogue_turn'']) (
        returnM (None, None, TURN_TYPE_DIALOGUE)))))"

definition reply_with_model ::
  "ingress \<Rightarrow> int \<Rightarrow> ustr \<Rightarrow> ustr option \<Rightarrow> ustr option \<Rightarrow> PolicyEvaluation \<Rightarrow> IngressResult db" where
  "reply_with_model g uid text name lang ev =
     bindM (get_or_create_active_session uid) (\<lambda>session.
     bindM (intake_part g uid text ev (ds_id session)) (\<lambda>(did, jid, turn_type).
     bindM (generate_dialogue_turn (ig_env g) (ig_files g) (ds_id session) text name lang None None) (\<lambda>dialogue.
     let metadata = dump_dialogue_turn dialogue;
         assistant_text = dt_assistant_message dialogue in
     thenM (append_assistant_turn uid (ds_id session) assistant_text turn_type did
       (Some (JObj (pop_key (ascii ''assistant_message'') metadata)))) (
     returnM (ingress_result (ev_decision ev) (Some (ds_id session)) did jid [assistant_text])))))"

definition process_incoming_message ::
  "ingress \<Rightarrow> int \<Rightarrow> ustr \<Rightarrow> ustr option \<Rightarrow> ustr option \<Rightarrow> (int \<Rightarrow> SessionState db) option \<Rightarrow> IngressResult db" where
  "process_incoming_message g uid text name lang router =
     bindM (evaluate (en_unicode (ig_env g)) router uid text) (\<lambda>ev.
     if pd_route (ev_decision ev) = ROUTE_NOOP then
       thenM (trace_outcome uid ev None None None [outcome_kind ''noop''])
         (returnM (ingress_result (ev_decision ev) None None None []))
     else if pd_route (ev_decision ev) = ROUTE_SAFETY then
       fixed_reply uid text ev (build_safety_response (ig_responses g)) TURN_TYPE_SAFETY ''safety''
     else if pd_route (ev_decision ev) = ROUTE_CLARIFICATION then
       fixed_reply uid text ev (build_clarification_response (ig_responses g)) TURN_TYPE_CLARIFICATION ''clarification''
     else reply_with_model g uid text name lang ev)"

subsection \<open>The endpoints\<close>

record TelegramMessage =
  tm_from_id :: int
  tm_first_name :: "ustr option"
  tm_language_code :: "ustr option"
  tm_chat_id :: int
  tm_text :: ustr

record TelegramUpdate =
  tu_update_id :: int
  tu_message :: "TelegramMessage option"

definition try_send_typing :: "runtime \<Rightarrow> ustr \<Rightarrow> unit db" where
  "try_send_typing rt chat_id = catchM (send_chat_action rt chat_id (ascii ''typing'')) (\<lambda>e. returnM ())"

definition telegram_webhook :: "ingress \<Rightarrow> TelegramUpdate \<Rightarrow> unit db" where
  "telegram_webhook g update =
     (case tu_message update of
        None \<Rightarrow> returnM ()
      | Some m \<Rightarrow>
          if tm_text m = [] then returnM () else
          let chat_id = str_int (tm_chat_id m) in
          thenM (try_send_typing (ig_runtime g) chat_id) (
          bindM (process_incoming_message g (tm_from_id m) (tm_text m) (tm_first_name m) (tm_language_code m) None) (\<lambda>r.
          if ir_outbound_messages r \<noteq> [] \<and> rt_env_mode (ig_runtime g) \<noteq> ascii ''test''
          then foreachM (send_text (ig_runtime g) chat_id) (ir_outbound_messages r) else returnM ())))"

text \<open>\<open>POST /dreams\<close>: the messages, the session and the dream are the answer.\<close>

definition create_dream_endpoint ::
  "ingress \<Rightarrow> int \<Rightarrow> ustr \<Rightarrow> ustr option \<Rightarrow> ustr option \<Rightarrow> (ustr list \<times> uuid option \<times> int option) db" where
  "create_dream_endpoint g telegram_id text first_name language_code =
     bindM (process_incoming_message g telegram_id text first_name language_code None) (\<lambda>r.
     returnM (ir_outbound_messages r, ir_session_id r, ir_dream_id r))"

text \<open>Every request has its transaction (\<open>get_session\<close>).\<close>

definition webhook_request :: "ingress \<Rightarrow> TelegramUpdate \<Rightarrow> unit db" where
  "webhook_request g update = transaction (telegram_webhook g update)"

subsection \<open>The steps, written out\<close>

definition turn_row ::
  "uuid \<Rightarrow> int \<Rightarrow> uuid \<Rightarrow> string \<Rightarrow> string \<Rightarrow> ustr \<Rightarrow> int option \<Rightarrow> json option \<Rightarrow> time \<Rightarrow> conversation_turn" where
  "turn_row i uid sid role turn_type text did metadata t = \<lparr>ct_id = i, ct_user_id = uid, ct_session_id = sid, ct_dream_id = did,
     ct_role = role, ct_turn_type = turn_type, ct_source = ''telegram'', ct_text = text, ct_metadata_json = metadata, ct_created_at = t\<rparr>"

lemma turn_row_sel [simp]:
  "ct_session_id (turn_row i uid sid role ty text did md t) = sid" "ct_role (turn_row i uid sid role ty text did md t) = role"
  "ct_text (turn_row i uid sid role ty text did md t) = text" "ct_dream_id (turn_row i uid sid role ty text did md t) = did"
  "ct_turn_type (turn_row i uid sid role ty text did md t) = ty" "ct_user_id (turn_row i uid sid role ty text did md t) = uid"
  by (simp_all add: turn_row_def)

definition trace_row ::
  "uuid \<Rightarrow> int \<Rightarrow> PolicyEvaluation \<Rightarrow> uuid option \<Rightarrow> int option \<Rightarrow> uuid option \<Rightarrow> (ustr \<times> json) list \<Rightarrow> time \<Rightarrow> policy_trace" where
  "trace_row i uid ev sid did jid outcome t = \<lparr>pt_id = i, pt_user_id = uid, pt_session_id = sid, pt_dream_id = did,
     pt_job_id = jid, pt_input_json = JObj (policy_input_projection (ev_policy_input ev)),
     pt_decision_json = JObj (policy_decision_projection (ev_decision ev)), pt_route = route_value (pd_route (ev_decision ev)),
     pt_reason_code = pd_reason_code (ev_decision ev), pt_outcome_json = JObj outcome, pt_created_at = t\<rparr>"

lemma trace_row_sel [simp]:
  "pt_user_id (trace_row i uid ev sid did jid out t) = uid" "pt_session_id (trace_row i uid ev sid did jid out t) = sid"
  "pt_dream_id (trace_row i uid ev sid did jid out t) = did" "pt_job_id (trace_row i uid ev sid did jid out t) = jid"
  "pt_route (trace_row i uid ev sid did jid out t) = route_value (pd_route (ev_decision ev))"
  by (simp_all add: trace_row_def)

lemma ingress_result_sel [simp]:
  "ir_route (ingress_result d sid did jid out) = pd_route d" "ir_session_id (ingress_result d sid did jid out) = sid"
  "ir_dream_id (ingress_result d sid did jid out) = did" "ir_job_id (ingress_result d sid did jid out) = jid"
  "ir_outbound_messages (ingress_result d sid did jid out) = out"
  by (simp_all add: ingress_result_def)

lemma append_user_turn_run:
  "append_user_turn uid sid text ty did s =
    (let x = turn_row (uuids s 0) uid sid TURN_ROLE_USER ty text did None (tx_now s)
     in (Inr x, s\<lparr>uuids := \<lambda>n. uuids s (Suc n), turns := turns s @ [x]\<rparr>))"
  by (simp add: append_user_turn_def append_turn_def run Let_def turn_row_def)

lemma append_assistant_turn_run:
  "append_assistant_turn uid sid text ty did md s =
    (let x = turn_row (uuids s 0) uid sid TURN_ROLE_ASSISTANT ty text did md (tx_now s)
     in (Inr x, s\<lparr>uuids := \<lambda>n. uuids s (Suc n), turns := turns s @ [x]\<rparr>))"
  by (simp add: append_assistant_turn_def append_turn_def run Let_def turn_row_def)

lemma trace_outcome_run:
  "trace_outcome uid ev sid did jid out s =
    (Inr (), s\<lparr>uuids := \<lambda>n. uuids s (Suc n), traces := traces s @ [trace_row (uuids s 0) uid ev sid did jid out (tx_now s)]\<rparr>)"
  by (simp add: trace_outcome_def record_policy_trace_def run Let_def trace_row_def)

abbreviation touch :: "uuid \<Rightarrow> world \<Rightarrow> dream_session list" where
  "touch sid s \<equiv> update_where (\<lambda>r. ds_id r = sid) (\<lambda>r. r\<lparr>ds_last_activity_at := tx_now s\<rparr>) (sessions s)"

lemma evaluate_run:
  "evaluate u None uid text s =
    (let p = build_policy_input u text (if filter (active_of uid) (sessions s) = [] then NEW else ACTIVE)
     in (Inr \<lparr>ev_policy_input = p, ev_decision = decide p\<rparr>, s))"
proof -
  have "sort_key k xs = [] \<longleftrightarrow> xs = []" for k :: "dream_session \<Rightarrow> int" and xs
    by (metis length_0_conv length_sort)
  then show ?thesis
    by (simp add: evaluate_def default_session_state_resolver_def get_active_session_raw_def run Let_def)
qed

lemma image_update_where: "(\<And>x. k (f x) = k x) \<Longrightarrow> k ` set (update_where P f xs) = k ` set xs"
  by (induction xs) (auto simp: update_where_def)

lemma get_or_create_ids:
  assumes "get_or_create_active_session uid s = (r, t)"
  obtains x where "r = Inr x" "other_tables s t" "ds_id x \<in> ds_id ` set (sessions t)"
    "ds_id ` set (sessions s) \<subseteq> ds_id ` set (sessions t)"
    "ds_status ` set (sessions t) \<subseteq> ds_status ` set (sessions s) \<union> {SESSION_ACTIVE, SESSION_CLOSED}"
proof (rule that)
  note f = get_or_create_frame [OF assms]
  show "other_tables s t" by (rule f)
  show "r = Inr (case r of Inr x \<Rightarrow> x | Inl _ \<Rightarrow> undefined)"
    using assms by (auto simp: get_or_create_run ensure_active_session_run create_session_run Let_def split: option.splits if_splits)
  show "ds_id (case r of Inr x \<Rightarrow> x | Inl _ \<Rightarrow> undefined) \<in> ds_id ` set (sessions t)"
    using assms by (auto simp: get_or_create_run ensure_active_session_run create_session_run Let_def set_update_where
        dest!: first_row_Some split: option.splits if_splits)
  show "ds_id ` set (sessions s) \<subseteq> ds_id ` set (sessions t)"
    using assms by (auto simp: get_or_create_run ensure_active_session_run create_session_run Let_def image_update_where
        split: option.splits if_splits)
  show "ds_status ` set (sessions t) \<subseteq> ds_status ` set (sessions s) \<union> {SESSION_ACTIVE, SESSION_CLOSED}"
    using assms by (auto simp: get_or_create_run ensure_active_session_run create_session_run Let_def set_update_where
        split: option.splits if_splits)
qed

lemma fixed_reply_run:
  assumes "get_or_create_active_session uid s0 = (Inr x, s)"
  shows "fixed_reply uid text ev out ty k s0 =
    (Inr (ingress_result (ev_decision ev) (Some (ds_id x)) None None [out]),
     s\<lparr>uuids := \<lambda>n. uuids s (Suc (Suc (Suc n))), sessions := touch (ds_id x) s,
       turns := turns s @ [turn_row (uuids s 0) uid (ds_id x) TURN_ROLE_USER ty text None None (tx_now s),
         turn_row (uuids s 1) uid (ds_id x) TURN_ROLE_ASSISTANT ty out None None (tx_now s)],
       traces := traces s @ [trace_row (uuids s 2) uid ev (Some (ds_id x)) None None [outcome_kind k] (tx_now s)]\<rparr>)"
  by (simp add: fixed_reply_def bindM_def thenM_def assms append_user_turn_run append_assistant_turn_run trace_outcome_run
      update_session_activity_def modifyM_def returnM_def Let_def numeral_2_eq_2)

definition dream_row :: "int \<Rightarrow> int \<Rightarrow> ustr \<Rightarrow> time \<Rightarrow> uuid \<Rightarrow> dream" where
  "dream_row i uid text t sid = \<lparr>dr_id = i, dr_user_id = uid, dr_text = text, dr_created_at = t, dr_session_id = sid\<rparr>"

lemma dream_row_sel [simp]:
  "dr_id (dream_row i uid text t sid) = i" "dr_user_id (dream_row i uid text t sid) = uid"
  "dr_text (dream_row i uid text t sid) = text" "dr_session_id (dream_row i uid text t sid) = sid"
  by (simp_all add: dream_row_def)

definition intake_job :: "ingress \<Rightarrow> world \<Rightarrow> uuid \<Rightarrow> analysis_job" where
  "intake_job g s sid = new_job (uuids s 0) sid (ig_llm_provider g) (ig_default_model g) (ig_job_max_attempts g) ''auto''
     (Some (dream_seq s + 1)) (clock s 0)"

lemma intake_job_sel [simp]:
  "job_id (intake_job g s sid) = uuids s 0" "job_session_id (intake_job g s sid) = sid"
  "job_dream_id (intake_job g s sid) = Some (dream_seq s + 1)" "job_status (intake_job g s sid) = QUEUED"
  "job_attempts (intake_job g s sid) = 0"
  by (simp_all add: intake_job_def new_job_def)

lemma intake_new_dream_run:
  assumes "get_or_create_active_session uid s0 = (Inr y, s)" and "pd_route (ev_decision ev) = ROUTE_NEW_DREAM"
  shows "intake_part g uid text ev sid s0 =
    (Inr (Some (dream_seq s + 1), Some (uuids s 0), TURN_TYPE_DREAM_INTAKE),
     s\<lparr>uuids := \<lambda>n. uuids s (Suc (Suc (Suc n))), clock := \<lambda>n. clock s (Suc n), dream_seq := dream_seq s + 1,
       sessions := touch (ds_id y) s,
       dreams := dreams s @ [dream_row (dream_seq s + 1) uid text (tx_now s) (ds_id y)],
       jobs := jobs s @ [intake_job g s (ds_id y)],
       turns := turns s @ [turn_row (uuids s 1) uid sid TURN_ROLE_USER TURN_TYPE_DREAM_INTAKE text (Some (dream_seq s + 1)) None (tx_now s)],
       traces := traces s @ [trace_row (uuids s 2) uid ev (Some sid) (Some (dream_seq s + 1)) (Some (uuids s 0))
         [outcome_kind ''new_dream_enqueued'', (ascii ''dream_id'', JInt (dream_seq s + 1)),
          (ascii ''job_id'', JStr (str_uuid (en_formats (ig_env g)) (uuids s 0)))] (tx_now s)]\<rparr>)"
  by (simp add: intake_part_def register_incoming_dream_def bindM_def thenM_def assms append_user_turn_run trace_outcome_run
      update_session_activity_def modifyM_def returnM_def Let_def create_dream_def getsM_def next_dream_id_def create_job_def
      naive_now_run now_of_def now_state_def uuid4_def dream_row_def intake_job_def new_job_def numeral_2_eq_2)

lemma intake_dialogue_run:
  assumes "pd_route (ev_decision ev) \<noteq> ROUTE_NEW_DREAM"
  shows "intake_part g uid text ev sid s =
    (Inr (None, None, TURN_TYPE_DIALOGUE),
     s\<lparr>uuids := \<lambda>n. uuids s (Suc (Suc n)), sessions := touch sid s,
       turns := turns s @ [turn_row (uuids s 0) uid sid TURN_ROLE_USER TURN_TYPE_DIALOGUE text None None (tx_now s)],
       traces := traces s @ [trace_row (uuids s 1) uid ev (Some sid) None None [outcome_kind ''dialogue_turn''] (tx_now s)]\<rparr>)"
  by (simp add: intake_part_def thenM_def bindM_def assms append_user_turn_run trace_outcome_run
      update_session_activity_def modifyM_def returnM_def Let_def)

lemma reply_shape:
  assumes "outside_environment (ig_env g)" and "reply_with_model g uid text name lang ev s = (Inr r, t)"
  obtains x s1 did jid ty s2 c md and d :: DialogueTurnV1 where "get_or_create_active_session uid s = (Inr x, s1)"
    "intake_part g uid text ev (ds_id x) s1 = (Inr (did, jid, ty), s2)"
    "r = ingress_result (ev_decision ev) (Some (ds_id x)) did jid [dt_assistant_message d]"
    "t = s2\<lparr>clock := c, uuids := \<lambda>n. uuids s2 (Suc n), turns := turns s2 @
       [turn_row (uuids s2 0) uid (ds_id x) TURN_ROLE_ASSISTANT ty (dt_assistant_message d) did md (tx_now s2)]\<rparr>"
proof -
  obtain x s1 did jid ty s2 d s3 where x: "get_or_create_active_session uid s = (Inr x, s1)"
    "intake_part g uid text ev (ds_id x) s1 = (Inr (did, jid, ty), s2)"
    and gen: "generate_dialogue_turn (ig_env g) (ig_files g) (ds_id x) text name lang None None s2 = (Inr d, s3)"
    and rest: "thenM (append_assistant_turn uid (ds_id x) (dt_assistant_message d) ty did
       (Some (JObj (pop_key (ascii ''assistant_message'') (dump_dialogue_turn d)))))
       (returnM (ingress_result (ev_decision ev) (Some (ds_id x)) did jid [dt_assistant_message d])) s3 = (Inr r, t)"
    using assms(2) unfolding reply_with_model_def Let_def bindM_eq_Inr case_prod_beta by auto
  have "outside_providers (ig_env g) None" using assms(1) by (simp add: outside_providers_def)
  from turn_run [OF this gen] obtain c where c: "s3 = s2\<lparr>clock := c\<rparr>" by blast
  show thesis
    by (rule that [OF x, where d = d and c = c and md = "Some (JObj (pop_key (ascii ''assistant_message'') (dump_dialogue_turn d)))"])
      (use rest c in \<open>auto simp: thenM_def bindM_def append_assistant_turn_run Let_def returnM_def\<close>)
qed

text \<open>The route of a message decides which of the three handlers runs.\<close>

lemma process_cases:
  assumes "process_incoming_message g uid text name lang None s = (r, t)"
  obtains ev where "ev_decision ev = decide (ev_policy_input ev)"
    "pi_crisis_signal (ev_policy_input ev) = is_crisis_signal (en_unicode (ig_env g)) text"
    "if pd_route (ev_decision ev) = ROUTE_NOOP then
       (r, t) = (Inr (ingress_result (ev_decision ev) None None None []), s\<lparr>uuids := \<lambda>n. uuids s (Suc n),
          traces := traces s @ [trace_row (uuids s 0) uid ev None None None [outcome_kind ''noop''] (tx_now s)]\<rparr>)
     else if pd_route (ev_decision ev) = ROUTE_SAFETY then
       fixed_reply uid text ev (SAFETY_RESPONSE_RU (ig_responses g)) TURN_TYPE_SAFETY ''safety'' s = (r, t)
     else if pd_route (ev_decision ev) = ROUTE_CLARIFICATION then
       fixed_reply uid text ev (CLARIFICATION_RESPONSE_RU (ig_responses g)) TURN_TYPE_CLARIFICATION ''clarification'' s = (r, t)
     else reply_with_model g uid text name lang ev s = (r, t)"
proof -
  let ?p = "build_policy_input (en_unicode (ig_env g)) text (if filter (active_of uid) (sessions s) = [] then NEW else ACTIVE)"
  let ?ev = "\<lparr>ev_policy_input = ?p, ev_decision = decide ?p\<rparr>"
  have "evaluate (en_unicode (ig_env g)) None uid text s = (Inr ?ev, s)"
    by (simp add: evaluate_run Let_def)
  then show thesis
    using assms unfolding process_incoming_message_def bindM_Inr [of "evaluate (en_unicode (ig_env g)) None uid text" s ?ev s]
    by (intro that [of ?ev]) (auto simp: thenM_def bindM_def trace_outcome_run returnM_def build_safety_response_def
        build_clarification_response_def split: if_splits)
qed

lemma process_result [consumes 2, case_names noop fixed model]:
  assumes "outside_environment (ig_env g)" and "process_incoming_message g uid text name lang None s = (Inr r, t)"
  obtains ev where "pd_route (ev_decision ev) = ROUTE_NOOP" "r = ingress_result (ev_decision ev) None None None []"
      "t = s\<lparr>uuids := \<lambda>n. uuids s (Suc n),
          traces := traces s @ [trace_row (uuids s 0) uid ev None None None [outcome_kind ''noop''] (tx_now s)]\<rparr>"
    | ev out ty k x u where "pd_route (ev_decision ev) \<in> {ROUTE_SAFETY, ROUTE_CLARIFICATION}"
      "ty \<in> {TURN_TYPE_SAFETY, TURN_TYPE_CLARIFICATION}" "get_or_create_active_session uid s = (Inr x, u)"
      "r = ingress_result (ev_decision ev) (Some (ds_id x)) None None [out]"
      "t = u\<lparr>uuids := \<lambda>n. uuids u (Suc (Suc (Suc n))), sessions := touch (ds_id x) u,
       turns := turns u @ [turn_row (uuids u 0) uid (ds_id x) TURN_ROLE_USER ty text None None (tx_now u),
         turn_row (uuids u 1) uid (ds_id x) TURN_ROLE_ASSISTANT ty out None None (tx_now u)],
       traces := traces u @ [trace_row (uuids u 2) uid ev (Some (ds_id x)) None None [outcome_kind k] (tx_now u)]\<rparr>"
    | ev x u did jid ty v c md and d :: DialogueTurnV1 where "pd_route (ev_decision ev) \<in> {ROUTE_NEW_DREAM, ROUTE_DIALOGUE_TURN}"
      "get_or_create_active_session uid s = (Inr x, u)" "intake_part g uid text ev (ds_id x) u = (Inr (did, jid, ty), v)"
      "r = ingress_result (ev_decision ev) (Some (ds_id x)) did jid [dt_assistant_message d]"
      "t = v\<lparr>clock := c, uuids := \<lambda>n. uuids v (Suc n), turns := turns v @
       [turn_row (uuids v 0) uid (ds_id x) TURN_ROLE_ASSISTANT ty (dt_assistant_message d) did md (tx_now v)]\<rparr>"
proof (rule process_cases [OF assms(2)])
  note noop_case = that(1) and fixed_case = that(2) and model_case = that(3)
  fix ev
  assume ev: "if pd_route (ev_decision ev) = ROUTE_NOOP then
       (Inr r, t) = (Inr (ingress_result (ev_decision ev) None None None []), s\<lparr>uuids := \<lambda>n. uuids s (Suc n),
          traces := traces s @ [trace_row (uuids s 0) uid ev None None None [outcome_kind ''noop''] (tx_now s)]\<rparr>)
     else if pd_route (ev_decision ev) = ROUTE_SAFETY then
       fixed_reply uid text ev (SAFETY_RESPONSE_RU (ig_responses g)) TURN_TYPE_SAFETY ''safety'' s = (Inr r, t)
     else if pd_route (ev_decision ev) = ROUTE_CLARIFICATION then
       fixed_reply uid text ev (CLARIFICATION_RESPONSE_RU (ig_responses g)) TURN_TYPE_CLARIFICATION ''clarification'' s = (Inr r, t)
     else reply_with_model g uid text name lang ev s = (Inr r, t)"
  have fixed: thesis if "fixed_reply uid text ev out ty k s = (Inr r, t)"
    "pd_route (ev_decision ev) \<in> {ROUTE_SAFETY, ROUTE_CLARIFICATION}" "ty \<in> {TURN_TYPE_SAFETY, TURN_TYPE_CLARIFICATION}" for out ty k
  proof -
    obtain q u where q: "get_or_create_active_session uid s = (q, u)" by fastforce
    obtain x where x: "q = Inr x" by (rule get_or_create_ids [OF q])
    show thesis
      using that(1) unfolding fixed_reply_run [OF q [unfolded x]] by (intro fixed_case [OF that(2, 3) q [unfolded x]]) auto
  qed
  have model: thesis if "reply_with_model g uid text name lang ev s = (Inr r, t)"
    "pd_route (ev_decision ev) \<in> {ROUTE_NEW_DREAM, ROUTE_DIALOGUE_TURN}"
    by (rule reply_shape [OF assms(1) that(1)]) (rule model_case [OF that(2)])
  show thesis
    using ev fixed model noop_case by (cases "pd_route (ev_decision ev)") auto
qed

text \<open>What the intake adds, for a dream and for a dialogue turn.\<close>

definition dream_enqueued :: "int \<Rightarrow> ustr \<Rightarrow> int option \<Rightarrow> uuid option \<Rightarrow> world \<Rightarrow> world \<Rightarrow> bool" where
  "dream_enqueued uid text did jid s t \<longleftrightarrow>
     (\<exists>d x y u. dreams t = dreams s @ [d] \<and> jobs t = jobs s @ [x] \<and> dr_text d = text \<and> dr_user_id d = uid
        \<and> did = Some (dr_id d) \<and> jid = Some (job_id x) \<and> job_dream_id x = did \<and> job_session_id x = dr_session_id d
        \<and> job_status x = QUEUED \<and> job_attempts x = 0 \<and> dr_session_id d \<in> ds_id ` set (sessions t)
        \<and> get_or_create_active_session uid s = (Inr y, u) \<and> dr_session_id d = ds_id y)"

definition intake_rows :: "ingress \<Rightarrow> int \<Rightarrow> ustr \<Rightarrow> PolicyEvaluation \<Rightarrow> uuid \<Rightarrow> int option \<Rightarrow> uuid option \<Rightarrow> string \<Rightarrow> world \<Rightarrow> world \<Rightarrow> bool" where
  "intake_rows g uid text ev sid did jid ty s t \<longleftrightarrow>
     (\<exists>a b out. turns t = turns s @ [turn_row a uid sid TURN_ROLE_USER ty text did None (tx_now t)]
        \<and> traces t = traces s @ [trace_row b uid ev (Some sid) did jid out (tx_now t)])
     \<and> ds_id ` set (sessions s) \<subseteq> ds_id ` set (sessions t)
     \<and> ds_status ` set (sessions t) \<subseteq> ds_status ` set (sessions s) \<union> {SESSION_ACTIVE, SESSION_CLOSED}
     \<and> (if pd_route (ev_decision ev) = ROUTE_NEW_DREAM
        then ty = TURN_TYPE_DREAM_INTAKE \<and> dream_enqueued uid text did jid s t
        else ty = TURN_TYPE_DIALOGUE \<and> did = None \<and> jid = None \<and> dreams t = dreams s \<and> jobs t = jobs s)"

lemma intake_adds:
  assumes "intake_part g uid text ev sid s = (Inr (did, jid, ty), t)"
  shows "intake_rows g uid text ev sid did jid ty s t"
proof (cases "pd_route (ev_decision ev) = ROUTE_NEW_DREAM")
  case False
  have touched: "ds_id ` set (touch sid s) = ds_id ` set (sessions s)" "ds_status ` set (touch sid s) = ds_status ` set (sessions s)"
    by (simp_all add: image_update_where)
  have "\<exists>a b out. turns t = turns s @ [turn_row a uid sid TURN_ROLE_USER TURN_TYPE_DIALOGUE text None None (tx_now t)]
      \<and> traces t = traces s @ [trace_row b uid ev (Some sid) None None out (tx_now t)]"
    using assms False by (intro exI [of _ "uuids s 0"] exI [of _ "uuids s 1"] exI [of _ "[outcome_kind ''dialogue_turn'']"])
      (auto simp: intake_dialogue_run)
  moreover have "sessions t = touch sid s" "dreams t = dreams s" "jobs t = jobs s" "did = None" "jid = None" "ty = TURN_TYPE_DIALOGUE"
    using assms False by (auto simp: intake_dialogue_run)
  ultimately show ?thesis using False touched unfolding intake_rows_def by (simp add: subset_insertI2)
next
  case True
  obtain q u where q: "get_or_create_active_session uid s = (q, u)" by fastforce
  obtain y where y: "q = Inr y" "other_tables s u" "ds_id y \<in> ds_id ` set (sessions u)"
    "ds_id ` set (sessions s) \<subseteq> ds_id ` set (sessions u)"
    "ds_status ` set (sessions u) \<subseteq> ds_status ` set (sessions s) \<union> {SESSION_ACTIVE, SESSION_CLOSED}"
    by (rule get_or_create_ids [OF q])
  note run = intake_new_dream_run [OF q [unfolded y(1)] True, of g "text" sid]
  have did: "did = Some (dream_seq u + 1)" "jid = Some (uuids u 0)" "ty = TURN_TYPE_DREAM_INTAKE"
    using assms unfolding run by auto
  have t: "turns t = turns u @ [turn_row (uuids u 1) uid sid TURN_ROLE_USER TURN_TYPE_DREAM_INTAKE text (Some (dream_seq u + 1)) None (tx_now u)]"
    "dreams t = dreams u @ [dream_row (dream_seq u + 1) uid text (tx_now u) (ds_id y)]" "jobs t = jobs u @ [intake_job g u (ds_id y)]"
    "sessions t = touch (ds_id y) u" "tx_now t = tx_now u"
    using assms unfolding run by auto
  have tr: "\<exists>out. traces t = traces u @ [trace_row (uuids u 2) uid ev (Some sid) (Some (dream_seq u + 1)) (Some (uuids u 0)) out (tx_now u)]"
    using assms unfolding run by auto
  have "dream_enqueued uid text did jid s t"
    unfolding dream_enqueued_def
    by (intro exI [of _ "dream_row (dream_seq u + 1) uid text (tx_now u) (ds_id y)"] exI [of _ "intake_job g u (ds_id y)"]
        exI [of _ y] exI [of _ u]) (use t did y q in \<open>simp add: other_tables_def image_update_where\<close>)
  then show ?thesis
    using True tr t did y unfolding intake_rows_def by (auto simp: other_tables_def image_update_where)
qed

subsection \<open>What is logged\<close>

text \<open>C20. Every message that is answered leaves exactly one policy trace, with the route, session, dream and job
  of the answer; the conversation log gains the message and the answers, in the session of the answer and with
  its dream, and nothing for a blank message.\<close>

theorem answered_message_is_logged:
  assumes "outside_environment (ig_env g)" and "process_incoming_message g uid text name lang None s = (Inr r, t)"
  shows "\<exists>tr us. traces t = traces s @ [tr] \<and> turns t = turns s @ us
    \<and> pt_user_id tr = uid \<and> pt_route tr = route_value (ir_route r) \<and> pt_session_id tr = ir_session_id r
    \<and> pt_dream_id tr = ir_dream_id r \<and> pt_job_id tr = ir_job_id r
    \<and> map (\<lambda>x. (ct_role x, ct_text x)) us =
        (if ir_route r = ROUTE_NOOP then [] else (TURN_ROLE_USER, text) # map (Pair TURN_ROLE_ASSISTANT) (ir_outbound_messages r))
    \<and> set us \<subseteq> {x. ct_user_id x = uid \<and> Some (ct_session_id x) = ir_session_id r \<and> ct_dream_id x = ir_dream_id r}"
  using assms
proof (cases rule: process_result)
  case noop
  then show ?thesis by simp
next
  case (fixed ev out ty k x u)
  then show ?thesis using get_or_create_frame [OF fixed(3)] by (auto simp: other_tables_def)
next
  case (model ev x u did jid ty v c md d)
  then show ?thesis
    using intake_adds [OF model(3)] get_or_create_frame [OF model(2)] unfolding intake_rows_def by (auto simp: other_tables_def)
qed

subsection \<open>Crisis messages\<close>


subsection \<open>Dreams and jobs\<close>

text \<open>The clock does not reach the expiry of the user's session while the message is processed.\<close>

definition no_expiry_meanwhile :: "int \<Rightarrow> world \<Rightarrow> bool" where
  "no_expiry_meanwhile uid s \<longleftrightarrow> clock s 1 - INACTIVITY_THRESHOLD \<le> clock s 0 \<and> clock s 2 - INACTIVITY_THRESHOLD \<le> clock s 1
     \<and> (\<forall>x \<in> set (filter (active_of uid) (sessions s)).
          ds_last_activity_at x < clock s 0 - INACTIVITY_THRESHOLD \<or> clock s 1 - INACTIVITY_THRESHOLD \<le> ds_last_activity_at x)"

lemma gate_same_session:
  assumes "one_active s" and "no_expiry_meanwhile uid s"
    and "get_or_create_active_session uid s = (Inr x, s1)" and "get_or_create_active_session uid s1 = (Inr y, s2)"
  shows "y = x"
proof -
  have "clock s1 0 - INACTIVITY_THRESHOLD \<le> ds_last_activity_at x"
    using assms(1)
  proof (cases rule: one_active_cases [where uid = uid])
    case none
    then show ?thesis
      using assms(2, 3) by (auto simp: get_or_create_none [OF none] Let_def no_expiry_meanwhile_def)
  next
    case (recent z)
    then show ?thesis
      using assms(2, 3) by (auto simp: get_or_create_recent [OF recent] no_expiry_meanwhile_def)
  next
    case (stale z)
    then show ?thesis
      using assms(2, 3) by (auto simp: get_or_create_stale [OF stale] Let_def no_expiry_meanwhile_def numeral_2_eq_2)
  qed
  from sg.again [OF assms(1, 3) this] show ?thesis using assms(4) by simp
qed

text \<open>C3. A message that is taken for a dream adds exactly one dream with its text and exactly one queued job for
  that dream, both in the session of the answer; any other message adds neither.\<close>

theorem new_dream_is_enqueued:
  assumes "outside_environment (ig_env g)" and "one_active s" and "no_expiry_meanwhile uid s"
    and "process_incoming_message g uid text name lang None s = (Inr r, t)"
  shows "if ir_route r = ROUTE_NEW_DREAM
    then \<exists>d x. dreams t = dreams s @ [d] \<and> jobs t = jobs s @ [x] \<and> dr_text d = text \<and> dr_user_id d = uid
      \<and> ir_dream_id r = Some (dr_id d) \<and> ir_job_id r = Some (job_id x) \<and> ir_session_id r = Some (dr_session_id d)
      \<and> job_dream_id x = Some (dr_id d) \<and> job_session_id x = dr_session_id d \<and> job_status x = QUEUED \<and> job_attempts x = 0
    else dreams t = dreams s \<and> jobs t = jobs s \<and> ir_dream_id r = None \<and> ir_job_id r = None"
  using assms(1, 4)
proof (cases rule: process_result)
  case noop
  then show ?thesis by simp
next
  case (fixed ev out ty k x u)
  then show ?thesis using get_or_create_frame [OF fixed(3)] by (auto simp: other_tables_def)
next
  case (model ev x u did jid ty v c md d)
  have u: "dreams u = dreams s" "jobs u = jobs s" using get_or_create_frame [OF model(2)] by (simp_all add: other_tables_def)
  note rows = intake_adds [OF model(3), unfolded intake_rows_def]
  show ?thesis
  proof (cases "pd_route (ev_decision ev) = ROUTE_NEW_DREAM")
    case False
    then have "did = None" "jid = None" "dreams v = dreams u" "jobs v = jobs u" using rows by simp_all
    then show ?thesis using False model(4, 5) u by simp
  next
    case True
    then have "dream_enqueued uid text did jid u v" using rows by simp
    then obtain e j y w where e: "dreams v = dreams u @ [e]" "jobs v = jobs u @ [j]" "dr_text e = text" "dr_user_id e = uid"
      "did = Some (dr_id e)" "jid = Some (job_id j)" "job_dream_id j = did" "job_session_id j = dr_session_id e"
      "job_status j = QUEUED" "job_attempts j = 0" "get_or_create_active_session uid u = (Inr y, w)" "dr_session_id e = ds_id y"
      unfolding dream_enqueued_def by (elim exE conjE) (rule that)
    have "y = x" by (rule gate_same_session [OF assms(2, 3) model(2) e(11)])
    then show ?thesis using True model(4, 5) u e by (auto intro!: exI [of _ e] exI [of _ j])
  qed
qed

subsection \<open>Requests that fail\<close>

definition stored_tables :: "world \<Rightarrow> _" where
  "stored_tables s = (sessions s, dreams s, jobs s, analyses s, turns s, traces s, memories s, summaries s, prompt_versions s, players s)"

lemma rolled_back: "atomically m s = (Inl e, t) \<Longrightarrow> stored_tables t = stored_tables s"
  by (simp add: stored_tables_def atomically_error_tables)

lemma keeps_get_or_create_sent [keep]: "keeps sent (get_or_create_active_session uid)"
proof (rule keepsI)
  fix s
  obtain r t where "get_or_create_active_session uid s = (r, t)" by fastforce
  with get_or_create_frame [OF this] show "sent (snd (get_or_create_active_session uid s)) = sent s" by (simp add: other_tables_def)
qed

lemma keeps_turn [keep]:
  assumes "outside_environment e" and "\<And>s c. f (s\<lparr>clock := c\<rparr>) = f s"
  shows "keeps f (generate_dialogue_turn e files sid m name lang None now)"
  using assms by (intro keeps_outside turn_calls_outside) (simp_all add: outside_providers_def)

lemma keeps_sent_process:
  assumes "outside_environment (ig_env g)"
  shows "keeps sent (process_incoming_message g uid text name lang None)"
  unfolding process_incoming_message_def evaluate_def default_session_state_resolver_def get_active_session_raw_def fixed_reply_def
    reply_with_model_def intake_part_def register_incoming_dream_def create_dream_def create_job_def update_session_activity_def
    trace_outcome_def record_policy_trace_def append_user_turn_def append_assistant_turn_def append_turn_def Let_def option.case
  by (intro keep assms) simp_all

lemma at_most_one_answer:
  assumes "outside_environment (ig_env g)" and "process_incoming_message g uid text name lang None s = (Inr r, t)"
  shows "ir_outbound_messages r = [] \<or> (\<exists>m. ir_outbound_messages r = [m])"
  using assms by (cases rule: process_result) simp_all

lemma send_one:
  assumes "\<And>m ch t. keeps sent (rt_post rt m ch t)" and "foreachM (send_text rt ch) [x] s = (r, t)"
  shows "sent t = sent s \<or> sent t = sent s @ [(ch, x)]"
proof (cases "rt_bot_token rt = []")
  case True
  then show ?thesis using assms(2) by (auto simp: send_text_def run)
next
  case False
  let ?s = "s\<lparr>sent := sent s @ [(ch, x)]\<rparr>"
  obtain q u where q: "rt_post rt ''sendMessage'' ch x ?s = (q, u)" by fastforce
  have "sent u = sent ?s" by (rule keepsD [OF assms(1) q])
  then show ?thesis using assms(2) q False by (auto simp: send_text_def log_sent_def run split: sum.splits)
qed

text \<open>A webhook request that ends in an error (a provider that fails, an unusable answer, a missing asset, a
  failing Bot API) leaves every table as it was: no turn, trace, session, dream or job of it remains. At most
  the one answer may have been handed to Telegram.\<close>

theorem failed_request_stores_nothing:
  assumes "outside_environment (ig_env g)" and "\<And>m ch t. keeps sent (rt_post (ig_runtime g) m ch t)"
    and "webhook_request g update s = (Inl e, t)"
  shows "stored_tables t = stored_tables s \<and> (sent t = sent s \<or> (\<exists>m. sent t = sent s @ [m]))"
proof
  let ?s = "s\<lparr>clock := \<lambda>n. clock s (Suc n), tx_now := clock s 0\<rparr>"
  have a: "atomically (telegram_webhook g update) ?s = (Inl e, t)"
    using assms(3) by (simp add: webhook_request_def transaction_def run)
  then show "stored_tables t = stored_tables s" using rolled_back [OF a] by (simp add: stored_tables_def)
  obtain u where u: "telegram_webhook g update ?s = (Inl e, u)" "t = rollback_to ?s u"
    using a by (auto simp: atomically_def split: prod.splits sum.splits)
  obtain m where m: "tu_message update = Some m" "tm_text m \<noteq> []"
    using u(1) by (auto simp: telegram_webhook_def run split: option.splits if_splits)
  let ?ch = "str_int (tm_chat_id m)"
  let ?process = "process_incoming_message g (tm_from_id m) (tm_text m) (tm_first_name m) (tm_language_code m) None"
  obtain v where v: "try_send_typing (ig_runtime g) ?ch ?s = (Inr (), v)"
    by (cases "send_chat_action (ig_runtime g) ?ch (ascii ''typing'') ?s", cases "fst (send_chat_action (ig_runtime g) ?ch (ascii ''typing'') ?s)")
      (auto simp: try_send_typing_def run)
  have "keeps sent (try_send_typing (ig_runtime g) ?ch)"
    unfolding try_send_typing_def send_chat_action_def by (intro keep assms(2))
  from keepsD [OF this v] have sv: "sent v = sent s" by simp
  obtain q w where w: "?process v = (q, w)" by fastforce
  have "sent w = sent v" by (rule keepsD [OF keeps_sent_process [OF assms(1)] w])
  then have sw: "sent w = sent s" using sv by simp
  have "sent u = sent s \<or> (\<exists>m. sent u = sent s @ [m])"
  proof (cases q)
    case (Inl e')
    then show ?thesis using u(1) m v w sw by (simp add: telegram_webhook_def thenM_def bindM_def Let_def)
  next
    case (Inr r)
    have one: "ir_outbound_messages r = [] \<or> (\<exists>m. ir_outbound_messages r = [m])"
      by (rule at_most_one_answer [OF assms(1) w [unfolded Inr]])
    have rest: "(if ir_outbound_messages r \<noteq> [] \<and> rt_env_mode (ig_runtime g) \<noteq> ascii ''test''
          then foreachM (send_text (ig_runtime g) ?ch) (ir_outbound_messages r) else returnM ()) w = (Inl e, u)"
      using u(1) m v w Inr by (simp add: telegram_webhook_def thenM_def bindM_def Let_def)
    then obtain x where x: "ir_outbound_messages r = [x]" "foreachM (send_text (ig_runtime g) ?ch) [x] w = (Inl e, u)"
      using one by (auto simp: returnM_def split: if_splits)
    from send_one [OF assms(2) x(2)] sw show ?thesis by auto
  qed
  then show "sent t = sent s \<or> (\<exists>m. sent t = sent s @ [m])" using u(2) by simp
qed

subsection \<open>Types and references of the stored rows\<close>

text \<open>
  What the columns declare: foreign keys refer to existing sessions, dreams and jobs, and the string columns
  hold one of their constants.
\<close>

definition session_typed :: "dream_session \<Rightarrow> bool" where
  "session_typed r \<longleftrightarrow> ds_status r \<in> {SESSION_ACTIVE, SESSION_CLOSED}"

definition dream_typed :: "uuid set \<Rightarrow> dream \<Rightarrow> bool" where
  "dream_typed S d \<longleftrightarrow> dr_session_id d \<in> S"

definition job_typed :: "uuid set \<Rightarrow> int set \<Rightarrow> analysis_job \<Rightarrow> bool" where
  "job_typed S D x \<longleftrightarrow> job_session_id x \<in> S \<and> set_option (job_dream_id x) \<subseteq> D"

definition turn_typed :: "uuid set \<Rightarrow> int set \<Rightarrow> conversation_turn \<Rightarrow> bool" where
  "turn_typed S D c \<longleftrightarrow> ct_session_id c \<in> S \<and> set_option (ct_dream_id c) \<subseteq> D \<and> ct_role c \<in> {TURN_ROLE_USER, TURN_ROLE_ASSISTANT}
     \<and> ct_turn_type c \<in> {TURN_TYPE_DREAM_INTAKE, TURN_TYPE_DIALOGUE, TURN_TYPE_CLARIFICATION, TURN_TYPE_SAFETY}"

definition trace_typed :: "uuid set \<Rightarrow> int set \<Rightarrow> uuid set \<Rightarrow> policy_trace \<Rightarrow> bool" where
  "trace_typed S D J p \<longleftrightarrow> set_option (pt_session_id p) \<subseteq> S \<and> set_option (pt_dream_id p) \<subseteq> D \<and> set_option (pt_job_id p) \<subseteq> J
     \<and> pt_route p \<in> range route_value"

definition rows_typed :: "uuid set \<Rightarrow> int set \<Rightarrow> uuid set \<Rightarrow> world \<Rightarrow> bool" where
  "rows_typed S D J s \<longleftrightarrow> Ball (set (sessions s)) session_typed \<and> Ball (set (dreams s)) (dream_typed S)
     \<and> Ball (set (jobs s)) (job_typed S D) \<and> Ball (set (turns s)) (turn_typed S D) \<and> Ball (set (traces s)) (trace_typed S D J)"

definition well_typed :: "world \<Rightarrow> bool" where
  "well_typed s \<longleftrightarrow> rows_typed (ds_id ` set (sessions s)) (dr_id ` set (dreams s)) (job_id ` set (jobs s)) s"

lemma rows_typed_mono:
  assumes "rows_typed S D J s" and "S \<subseteq> S'" and "D \<subseteq> D'" and "J \<subseteq> J'"
  shows "rows_typed S' D' J' s"
proof -
  have "dream_typed S d \<Longrightarrow> dream_typed S' d" "job_typed S D x \<Longrightarrow> job_typed S' D' x" "turn_typed S D c \<Longrightarrow> turn_typed S' D' c"
    "trace_typed S D J p \<Longrightarrow> trace_typed S' D' J' p" for d x c p
    using assms(2-4) by (auto simp: dream_typed_def job_typed_def turn_typed_def trace_typed_def)
  then show ?thesis using assms(1) by (simp add: rows_typed_def)
qed

lemma session_typed_statuses: "Ball (set xs) session_typed \<longleftrightarrow> ds_status ` set xs \<subseteq> {SESSION_ACTIVE, SESSION_CLOSED}"
  by (auto simp: session_typed_def)

lemma touch_typed [simp]:
  "Ball (set (touch sid s)) session_typed \<longleftrightarrow> Ball (set (sessions s)) session_typed" "ds_id ` set (touch sid s) = ds_id ` set (sessions s)"
  by (simp_all only: session_typed_statuses) (simp_all add: image_update_where)

lemma turn_row_typed: "turn_typed S D (turn_row i uid sid role ty text did md t) \<longleftrightarrow> sid \<in> S \<and> set_option did \<subseteq> D
    \<and> role \<in> {TURN_ROLE_USER, TURN_ROLE_ASSISTANT} \<and> ty \<in> {TURN_TYPE_DREAM_INTAKE, TURN_TYPE_DIALOGUE, TURN_TYPE_CLARIFICATION, TURN_TYPE_SAFETY}"
  by (simp add: turn_typed_def)

lemma trace_row_typed: "trace_typed S D J (trace_row i uid ev sid did jid out t) \<longleftrightarrow> set_option sid \<subseteq> S \<and> set_option did \<subseteq> D \<and> set_option jid \<subseteq> J"
  by (simp add: trace_typed_def)

lemma gate_typed:
  assumes "get_or_create_active_session uid s = (Inr x, t)" and "well_typed s"
  shows "well_typed t" and "ds_id x \<in> ds_id ` set (sessions t)"
proof -
  obtain y where y: "(Inr x :: exn + dream_session) = Inr y" "other_tables s t" "ds_id y \<in> ds_id ` set (sessions t)"
    "ds_id ` set (sessions s) \<subseteq> ds_id ` set (sessions t)"
    "ds_status ` set (sessions t) \<subseteq> ds_status ` set (sessions s) \<union> {SESSION_ACTIVE, SESSION_CLOSED}"
    by (rule get_or_create_ids [OF assms(1)])
  then show "ds_id x \<in> ds_id ` set (sessions t)" by simp
  have eq: "dreams t = dreams s" "jobs t = jobs s" "turns t = turns s" "traces t = traces s"
    using y(2) by (simp_all add: other_tables_def)
  have "Ball (set (sessions s)) session_typed" using assms(2) by (simp add: well_typed_def rows_typed_def)
  then have "Ball (set (sessions t)) session_typed" using y(5) unfolding session_typed_statuses by blast
  then have "rows_typed (ds_id ` set (sessions s)) (dr_id ` set (dreams s)) (job_id ` set (jobs s)) t"
    using assms(2) eq by (simp add: well_typed_def rows_typed_def)
  then show "well_typed t"
    unfolding well_typed_def eq by (rule rows_typed_mono) (use y(4) in simp_all)
qed

lemma intake_typed:
  assumes i: "intake_part g uid text ev sid s = (Inr (did, jid, ty), t)" and s: "well_typed s" and sid: "sid \<in> ds_id ` set (sessions s)"
  shows "well_typed t" and "sid \<in> ds_id ` set (sessions t)" and "set_option did \<subseteq> dr_id ` set (dreams t)"
    and "ty \<in> {TURN_TYPE_DREAM_INTAKE, TURN_TYPE_DIALOGUE}"
proof -
  let ?S = "ds_id ` set (sessions t)" and ?D = "dr_id ` set (dreams t)" and ?J = "job_id ` set (jobs t)"
  note rows = intake_adds [OF i, unfolded intake_rows_def]
  obtain a b out where ab: "turns t = turns s @ [turn_row a uid sid TURN_ROLE_USER ty text did None (tx_now t)]"
    "traces t = traces s @ [trace_row b uid ev (Some sid) did jid out (tx_now t)]"
    using rows by blast
  have S: "ds_id ` set (sessions s) \<subseteq> ?S" using rows by blast
  then show "sid \<in> ?S" using sid by blast
  have "Ball (set (sessions s)) session_typed" using s by (simp add: well_typed_def rows_typed_def)
  moreover have "ds_status ` set (sessions t) \<subseteq> ds_status ` set (sessions s) \<union> {SESSION_ACTIVE, SESSION_CLOSED}" using rows by blast
  ultimately have st: "Ball (set (sessions t)) session_typed" unfolding session_typed_statuses by blast
  have new: "\<exists>ds xs. dreams t = dreams s @ ds \<and> jobs t = jobs s @ xs \<and> Ball (set ds) (dream_typed ?S) \<and> Ball (set xs) (job_typed ?S ?D)
    \<and> set_option did \<subseteq> ?D \<and> set_option jid \<subseteq> ?J \<and> ty \<in> {TURN_TYPE_DREAM_INTAKE, TURN_TYPE_DIALOGUE}"
  proof (cases "pd_route (ev_decision ev) = ROUTE_NEW_DREAM")
    case False
    then have "did = None" "jid = None" "dreams t = dreams s" "jobs t = jobs s" "ty = TURN_TYPE_DIALOGUE" using rows by simp_all
    then show ?thesis by simp
  next
    case True
    then have "dream_enqueued uid text did jid s t" and ty: "ty = TURN_TYPE_DREAM_INTAKE" using rows by simp_all
    then obtain e j where e: "dreams t = dreams s @ [e]" "jobs t = jobs s @ [j]" "did = Some (dr_id e)" "jid = Some (job_id j)"
      "job_dream_id j = did" "job_session_id j = dr_session_id e" "dr_session_id e \<in> ?S"
      unfolding dream_enqueued_def by (elim exE conjE) (rule that)
    show ?thesis
      by (rule exI [of _ "[e]"], rule exI [of _ "[j]"]) (use e ty in \<open>simp add: dream_typed_def job_typed_def\<close>)
  qed
  then show "set_option did \<subseteq> ?D" and "ty \<in> {TURN_TYPE_DREAM_INTAKE, TURN_TYPE_DIALOGUE}" by blast+
  have "?D \<supseteq> dr_id ` set (dreams s)" "?J \<supseteq> job_id ` set (jobs s)" using new by auto
  then have old: "rows_typed ?S ?D ?J s" by (intro rows_typed_mono [OF s [unfolded well_typed_def] S])
  obtain ds xs where d: "dreams t = dreams s @ ds" "jobs t = jobs s @ xs" "Ball (set ds) (dream_typed ?S)" "Ball (set xs) (job_typed ?S ?D)"
    "set_option did \<subseteq> ?D" "set_option jid \<subseteq> ?J" "ty \<in> {TURN_TYPE_DREAM_INTAKE, TURN_TYPE_DIALOGUE}"
    using new by blast
  have "turn_typed ?S ?D (turn_row a uid sid TURN_ROLE_USER ty text did None (tx_now t))"
    using \<open>sid \<in> ?S\<close> d(5, 7) by (auto simp: turn_row_typed)
  moreover have "trace_typed ?S ?D ?J (trace_row b uid ev (Some sid) did jid out (tx_now t))"
    using \<open>sid \<in> ?S\<close> d(5, 6) by (simp add: trace_row_typed)
  moreover have "Ball (set (dreams t)) (dream_typed ?S)" "Ball (set (jobs t)) (job_typed ?S ?D)"
    using old d(1-4) by (auto simp: rows_typed_def)
  ultimately show "well_typed t"
    using old st ab unfolding well_typed_def rows_typed_def by simp
qed

lemma process_typed:
  assumes "outside_environment (ig_env g)" and "process_incoming_message g uid text name lang None s = (Inr r, t)" and "well_typed s"
  shows "well_typed t"
  using assms(1, 2)
proof (cases rule: process_result)
  case noop
  then show ?thesis using assms(3) by (simp add: well_typed_def rows_typed_def trace_row_typed)
next
  case (fixed ev out ty k x u)
  note u = gate_typed [OF fixed(3) assms(3)]
  have "ty \<in> {TURN_TYPE_DREAM_INTAKE, TURN_TYPE_DIALOGUE, TURN_TYPE_CLARIFICATION, TURN_TYPE_SAFETY}" using fixed(2) by blast
  with u show ?thesis unfolding fixed(5) well_typed_def rows_typed_def by (simp add: turn_row_typed trace_row_typed)
next
  case (model ev x u did jid ty v c md d)
  note v = intake_typed [OF model(3) gate_typed [OF model(2) assms(3)]]
  have "ty \<in> {TURN_TYPE_DREAM_INTAKE, TURN_TYPE_DIALOGUE, TURN_TYPE_CLARIFICATION, TURN_TYPE_SAFETY}" using v(4) by blast
  with v(1-3) show ?thesis unfolding model(5) well_typed_def rows_typed_def by (simp add: turn_row_typed)
qed


subsection \<open>A concrete ingress\<close>

definition companion_answer :: ustr where
  "companion_answer = ascii ''{\"assistant_message\":\"What do you feel there?\"}''"

lemma companion_answer_parsed:
  "extract_json basic_unicode no_floats companion_answer = Inr companion_answer"
  "parse_json no_floats companion_answer = Inr [(ascii ''assistant_message'', JStr (ascii ''What do you feel there?''))]"
proof -
  have "strip basic_unicode companion_answer = companion_answer" by code_simp
  moreover have "braced companion_answer" by code_simp
  ultimately show "extract_json basic_unicode no_floats companion_answer = Inr companion_answer"
    by (simp add: extract_json_def Let_def)
  have "raw_decode no_floats companion_answer = Some (JObj [(ascii ''assistant_message'', JStr (ascii ''What do you feel there?''))], [])"
    by code_simp
  moreover have "skip_ws companion_answer = companion_answer" by code_simp
  moreover have "\<not> starts_with companion_answer [65279]" by (simp add: companion_answer_def starts_with_def ascii_def)
  moreover have "skip_ws [] = []" by code_simp
  ultimately show "parse_json no_floats companion_answer = Inr [(ascii ''assistant_message'', JStr (ascii ''What do you feel there?''))]"
    by (simp add: parse_json_def loads_def)
qed

lemma companion_answer_accepted:
  "\<exists>d. dialogue_model_validate basic_unicode basic_pydantic [(ascii ''assistant_message'', JStr (ascii ''What do you feel there?''))] = Inr d"
proof -
  have "reject_authoritarian_language basic_unicode (ascii ''What do you feel there?'') = Some (ascii ''What do you feel there?'')"
    by code_simp
  then show ?thesis
    by (simp add: dialogue_model_validate_def read_dialogue_turn_def object_of_def Contract.required_def
        optional_def basic_pydantic_def ascii_def unit_interval_def)
qed

definition sample_responses :: fixed_responses where
  "sample_responses = \<lparr>SAFETY_RESPONSE_RU = ascii ''You are not alone.'', CLARIFICATION_RESPONSE_RU = ascii ''Tell me more.'',
     SESSION_CONTINUE_RESPONSE_RU = ascii ''Go on.''\<rparr>"

definition sample_ingress :: ingress where
  "sample_ingress = \<lparr>ig_runtime = sample_runtime\<lparr>rt_env := sample_environment companion_answer\<rparr>, ig_files = (\<lambda>p. Some (ascii ''text'')),
     ig_responses = sample_responses, ig_llm_provider = ascii ''mock'', ig_default_model = ascii ''m'', ig_job_max_attempts = 3\<rparr>"

lemma sample_ingress_sel [simp]:
  "ig_env sample_ingress = sample_environment companion_answer" "ig_files sample_ingress p = Some (ascii ''text'')"
  "rt_post (ig_runtime sample_ingress) m ch t = returnM ()"
  by (simp_all add: sample_ingress_def sample_runtime_def)

lemma sample_turn:
  "\<exists>d. generate_dialogue_turn (sample_environment companion_answer) (ig_files sample_ingress) sid m name lang None None s =
    (Inr d, s\<lparr>clock := \<lambda>n. clock s (Suc n)\<rparr>)"
proof -
  obtain d where d: "dialogue_model_validate basic_unicode basic_pydantic [(ascii ''assistant_message'', JStr (ascii ''What do you feel there?''))] = Inr d"
    using companion_answer_accepted by blast
  have "strip basic_unicode (ascii ''text'') = ascii ''text''" by code_simp
  then have "load_prompt_asset_text basic_unicode (ig_files sample_ingress) i = Inr (ascii ''text'')"
    if "i \<in> {COMPANION_STYLE_PROMPT, DIALOGUE_TURN_PROMPT}" for i
    using that by (auto simp: load_asset_Inr COMPANION_STYLE_PROMPT_def DIALOGUE_TURN_PROMPT_def build_registry_def ascii_def)
  then have "\<exists>t. build_dialogue_prompt basic_unicode f (ig_files sample_ingress) um sc rd nm lg now la = Inr t"
    for f um sc rd nm lg now la
    by (simp add: build_dialogue_prompt_def bindE_def)
  then obtain prompt where prompt: "build_dialogue_prompt basic_unicode f (ig_files sample_ingress) um sc rd nm lg now la =
      Inr (prompt f um sc rd nm lg now la)" for f um sc rd nm lg now la
    by metis
  have gen: "generate_with_retry n (sample_provider companion_answer) p v t u = (Inr (sample_response\<lparr>raw_text := companion_answer\<rparr>), u)"
    if "0 < n" for n p v t u
    using that by (cases "nat n") (simp_all add: generate_with_retry_def sample_provider_def run)
  have n: "0 < en_llm_max_attempts (sample_environment companion_answer)" by (simp add: sample_environment_def)
  show ?thesis
    by (rule exI [of _ d])
      (simp add: generate_dialogue_turn_def Let_def bindM_def catchM_def liftM_def getsM_def utcnow_def get_previous_user_message_at_def
        get_session_summary_def list_recent_turns_def prompt or_get_provider_def returnM_def gen [OF n] companion_answer_parsed bindE_def d)
qed

text \<open>With such a model every message is answered.\<close>

lemma reply_answers: "\<exists>r t. reply_with_model sample_ingress uid text name lang ev s = (Inr r, t)"
proof -
  obtain q u where q: "get_or_create_active_session uid s = (q, u)" by fastforce
  obtain x where x: "q = Inr x" by (rule get_or_create_ids [OF q])
  obtain q2 u2 where q2: "get_or_create_active_session uid u = (q2, u2)" by fastforce
  obtain y where y: "q2 = Inr y" by (rule get_or_create_ids [OF q2])
  obtain did jid ty v where i: "intake_part sample_ingress uid text ev (ds_id x) u = (Inr (did, jid, ty), v)"
    using intake_new_dream_run [OF q2 [unfolded y]] intake_dialogue_run by (cases "pd_route (ev_decision ev) = ROUTE_NEW_DREAM") blast+
  obtain d where d: "generate_dialogue_turn (sample_environment companion_answer) (ig_files sample_ingress) (ds_id x) text name lang None None v =
      (Inr d, v\<lparr>clock := \<lambda>n. clock v (Suc n)\<rparr>)"
    using sample_turn by blast
  show ?thesis
    by (simp add: reply_with_model_def bindM_def q x i d thenM_def append_assistant_turn_run Let_def returnM_def)
qed

definition dream_text :: ustr where
  "dream_text = ascii ''a b c d e f g h''"

lemma search_needs_first_char:
  "\<forall>d \<in> set t. \<not> uc_ieq u c d \<Longrightarrow> \<not> rx_search u (RBoundary # RChar c # ps) prev t"
  by (induction t arbitrary: prev) auto

lemma dream_text_route: "pd_route (decide (build_policy_input basic_unicode dream_text ACTIVE)) = ROUTE_NEW_DREAM"
proof -
  have "normalize_ws basic_unicode (uc_lower basic_unicode (strip basic_unicode dream_text)) = dream_text" by code_simp
  then have "\<not> is_crisis_signal basic_unicode dream_text"
    by (simp add: is_crisis_signal_def Let_def CRISIS_PATTERNS_def crisis_phrases_def crisis_stems_def stem_rx_def self_harm_rx_def
        search_needs_first_char dream_text_def ascii_def basic_unicode_def lower_cp_def)
  moreover have "length (split_ws basic_unicode dream_text) = 8" by code_simp
  moreover have "classify_input_type basic_unicode dream_text = LONG_TEXT" by code_simp
  ultimately show ?thesis
    by (auto simp: decide_def token_count_build [OF basic.unicode_laws_axioms] MIN_TOKENS_FOR_DREAM_def)
qed

lemma sample_world_active: "filter (active_of 1) (sessions sample_world) = [sample_session]"
  by (simp add: sample_world_def sample_session_def active_of_def)

lemma dream_answered:
  "\<exists>r t. process_incoming_message sample_ingress 1 dream_text None None None sample_world = (Inr r, t) \<and> ir_route r = ROUTE_NEW_DREAM"
proof -
  let ?p = "build_policy_input basic_unicode dream_text ACTIVE"
  let ?ev = "\<lparr>ev_policy_input = ?p, ev_decision = decide ?p\<rparr>"
  obtain r t where r: "reply_with_model sample_ingress 1 dream_text None None ?ev sample_world = (Inr r, t)"
    using reply_answers by blast
  have "process_incoming_message sample_ingress 1 dream_text None None None sample_world = (Inr r, t)"
    using r by (simp add: process_incoming_message_def bindM_def evaluate_run sample_world_active Let_def dream_text_route)
  moreover have "ir_route r = ROUTE_NEW_DREAM"
    by (rule reply_shape [OF _ r]) (simp_all add: sample_environment_outside dream_text_route)
  ultimately show ?thesis by blast
qed

theorem answered_message_is_logged_witness:
  "\<exists>r t tr us. process_incoming_message sample_ingress 1 dream_text None None None sample_world = (Inr r, t)
    \<and> traces t = [tr] \<and> turns t = us \<and> length us = Suc (length (ir_outbound_messages r)) \<and> pt_route tr = ''ROUTE_NEW_DREAM''"
proof -
  obtain r t where r: "process_incoming_message sample_ingress 1 dream_text None None None sample_world = (Inr r, t)" "ir_route r = ROUTE_NEW_DREAM"
    using dream_answered by blast
  have empty: "traces sample_world = []" "turns sample_world = []" by (simp_all add: sample_world_def empty_world_def)
  have "outside_environment (ig_env sample_ingress)" by (simp add: sample_environment_outside)
  from answered_message_is_logged [OF this r(1)] obtain tr us where us: "traces t = [tr]" "turns t = us" "pt_route tr = ''ROUTE_NEW_DREAM''"
    "map (\<lambda>x. (ct_role x, ct_text x)) us = (TURN_ROLE_USER, dream_text) # map (Pair TURN_ROLE_ASSISTANT) (ir_outbound_messages r)"
    using r(2) empty by auto
  from arg_cong [OF us(4), of length] us(1-3) r(1) show ?thesis by auto
qed

theorem new_dream_is_enqueued_witness:
  "\<exists>r t d x. process_incoming_message sample_ingress 1 dream_text None None None sample_world = (Inr r, t)
    \<and> dreams t = [d] \<and> jobs t = [x] \<and> job_dream_id x = Some (dr_id d) \<and> dr_text d = dream_text"
proof -
  obtain r t where r: "process_incoming_message sample_ingress 1 dream_text None None None sample_world = (Inr r, t)" "ir_route r = ROUTE_NEW_DREAM"
    using dream_answered by blast
  have empty: "dreams sample_world = []" "jobs sample_world = []" by (simp_all add: sample_world_def empty_world_def)
  have "no_expiry_meanwhile 1 sample_world"
    unfolding no_expiry_meanwhile_def sample_world_active
    by (simp add: sample_world_def empty_world_def sample_session_def INACTIVITY_THRESHOLD_def)
  from new_dream_is_enqueued [OF _ sample_world_one_active this r(1)] r empty show ?thesis
    by (auto simp: sample_environment_outside)
qed


text \<open>A deployment without a bot token: the answer cannot be sent.\<close>

definition mute_ingress :: ingress where
  "mute_ingress = sample_ingress\<lparr>ig_runtime := (ig_runtime sample_ingress)\<lparr>rt_bot_token := []\<rparr>\<rparr>"

definition hi_update :: TelegramUpdate where
  "hi_update = \<lparr>tu_update_id = 1, tu_message = Some \<lparr>tm_from_id = 1, tm_first_name = None, tm_language_code = None, tm_chat_id = 1,
     tm_text = ascii ''hi''\<rparr>\<rparr>"

lemma mute_ingress_sel [simp]:
  "ig_env mute_ingress = sample_environment companion_answer" "rt_post (ig_runtime mute_ingress) m ch t = returnM ()"
  "rt_bot_token (ig_runtime mute_ingress) = []" "rt_env_mode (ig_runtime mute_ingress) = ascii ''prod''"
  by (simp_all add: mute_ingress_def sample_ingress_def sample_runtime_def)

lemma mute_request_fails: "\<exists>e t. webhook_request mute_ingress hi_update empty_world = (Inl e, t)"
proof -
  let ?s = "empty_world\<lparr>clock := \<lambda>n. clock empty_world (Suc n), tx_now := clock empty_world 0\<rparr>"
  have route: "pd_route (decide (build_policy_input basic_unicode (ascii ''hi'') NEW)) = ROUTE_CLARIFICATION" by code_simp
  obtain q u where q: "get_or_create_active_session 1 ?s = (q, u)" by fastforce
  obtain x where x: "q = Inr x" by (rule get_or_create_ids [OF q])
  have new: "filter (active_of 1) (sessions ?s) = []" by (simp add: empty_world_def)
  have modes: "ascii ''prod'' \<noteq> ascii ''test''" "ascii ''hi'' \<noteq> []" by (simp_all add: ascii_def)
  obtain r v where "process_incoming_message mute_ingress 1 (ascii ''hi'') None None None ?s = (Inr r, v)" "ir_outbound_messages r \<noteq> []"
    using new route fixed_reply_run [OF q [unfolded x]]
    by (simp add: process_incoming_message_def bindM_def evaluate_run Let_def)
  then have "\<exists>e w. telegram_webhook mute_ingress hi_update ?s = (Inl e, w)"
    using modes by (cases "ir_outbound_messages r")
      (auto simp: telegram_webhook_def hi_update_def Let_def try_send_typing_def send_chat_action_def send_text_def run)
  then show ?thesis
    by (auto simp: webhook_request_def transaction_def run atomically_def)
qed

theorem failed_request_stores_nothing_witness:
  "\<exists>e t. webhook_request mute_ingress hi_update empty_world = (Inl e, t) \<and> turns t = []"
proof -
  obtain e t where t: "webhook_request mute_ingress hi_update empty_world = (Inl e, t)" using mute_request_fails by blast
  have "keeps sent (rt_post (ig_runtime mute_ingress) m ch x)" for m ch x by (simp add: keeps_return)
  from failed_request_stores_nothing [OF _ this t] t show ?thesis
    by (auto simp: sample_environment_outside stored_tables_def empty_world_def)
qed


end
