(* ===== verification/Console.thy ===== *)
theory Console
  imports Pipeline Jobs
begin

text \<open>
  The read side: the admin console (\<open>services/admin/admin_console_service.py\<close>), the stored prompt versions
  (\<open>services/admin/prompt_version_service.py\<close>), the user's journal (\<open>services/journal/journal_service.py\<close>) and
  the guards of both APIs (\<open>utils/admin_auth.py\<close>, \<open>utils/journal_auth.py\<close>). SQL joins are nested loops over
  the tables; the theorems relate them to plain counting.
\<close>

subsection \<open>Guards\<close>

text \<open>\<open>secrets.compare_digest\<close> on strings: equality, and a \<open>TypeError\<close> unless both are ASCII.\<close>

definition compare_digest :: "ustr \<Rightarrow> ustr \<Rightarrow> exn + bool" where
  "compare_digest a b =
     (if \<forall>c \<in> set a \<union> set b. c < 128 then Inr (a = b)
      else Inl (TypeError [Lit ''comparing strings with non-ASCII characters is not supported'']))"

text \<open>\<open>x_admin_token\<close> is the header, \<open>expected\<close> the setting \<open>ADMIN_TOKEN\<close>; an absent or empty string is false.\<close>

definition is_falsy :: "ustr option \<Rightarrow> bool" where
  "is_falsy x \<longleftrightarrow> x = None \<or> x = Some []"

definition require_admin_token :: "ustr option \<Rightarrow> ustr option \<Rightarrow> exn + unit" where
  "require_admin_token expected x_admin_token =
     (if is_falsy x_admin_token then Inl (HTTPException 401 [Lit ''Admin token required''])
      else if is_falsy expected then Inl (HTTPException 403 [Lit ''Invalid admin token''])
      else bindE (compare_digest (the x_admin_token) (the expected)) (\<lambda>same.
        if same then Inr () else Inl (HTTPException 403 [Lit ''Invalid admin token''])))"

definition require_journal_user_id :: "int option \<Rightarrow> exn + int" where
  "require_journal_user_id x =
     (case x of None \<Rightarrow> Inl (HTTPException 401 [Lit ''UNAUTHORIZED'']) | Some i \<Rightarrow> Inr i)"

text \<open>\<open>if x is None: raise HTTPException(404)\<close>.\<close>

definition or_404 :: "string \<Rightarrow> 'a option db \<Rightarrow> 'a db" where
  "or_404 detail m = bindM m (\<lambda>x. case x of None \<Rightarrow> throwM (HTTPException 404 [Lit detail]) | Some y \<Rightarrow> returnM y)"

subsection \<open>Sessions with their counts\<close>

record AdminSessionListItem =
  ai_item_session :: dream_session
  ai_dream_count :: nat
  ai_job_count :: nat
  ai_analysis_count :: nat

record AdminSessionDetail = AdminSessionListItem +
  ad_policy_trace_count :: nat

definition session_item :: "dream_session \<Rightarrow> nat \<Rightarrow> nat \<Rightarrow> nat \<Rightarrow> AdminSessionListItem" where
  "session_item x d j a = \<lparr>ai_item_session = x, ai_dream_count = d, ai_job_count = j, ai_analysis_count = a\<rparr>"

text \<open>An outer join pairs a row with its matches, or with NULL if there are none.\<close>

definition outer :: "'a list \<Rightarrow> 'a option list" where
  "outer xs = (if xs = [] then [None] else map Some xs)"

type_synonym joined_row = "dream_session \<times> dream option \<times> analysis_job option \<times> session_analysis option"

definition session_rows :: "world \<Rightarrow> dream_session \<Rightarrow> joined_row list" where
  "session_rows s x = concat (map (\<lambda>d. concat (map (\<lambda>j. map (\<lambda>a. (x, d, j, a))
       (outer (filter (\<lambda>a. sa_session_id a = ds_id x) (analyses s))))
     (outer (filter (\<lambda>j. job_session_id j = ds_id x) (jobs s)))))
   (outer (filter (\<lambda>d. dr_session_id d = ds_id x) (dreams s))))"

definition joined_rows :: "world \<Rightarrow> joined_row list" where
  "joined_rows s = concat (map (session_rows s) (sessions s))"

text \<open>\<open>GROUP BY\<close>, and \<open>count(distinct ..)\<close>, which skips NULL.\<close>

definition group_by :: "('a \<Rightarrow> 'k) \<Rightarrow> 'a list \<Rightarrow> 'a list list" where
  "group_by k rows = map (\<lambda>v. filter (\<lambda>r. k r = v) rows) (remdups (map k rows))"

definition count_distinct :: "('a \<Rightarrow> 'k option) \<Rightarrow> 'a list \<Rightarrow> nat" where
  "count_distinct f rows = length (remdups (List.map_filter f rows))"

definition counted_item :: "joined_row list \<Rightarrow> AdminSessionListItem" where
  "counted_item rows = session_item (fst (hd rows))
     (count_distinct (\<lambda>(x, d, j, a). map_option dr_id d) rows)
     (count_distinct (\<lambda>(x, d, j, a). map_option job_id j) rows)
     (count_distinct (\<lambda>(x, d, j, a). map_option sa_id a) rows)"

definition newest_first :: "dream_session \<Rightarrow> int \<times> int" where
  "newest_first x = (- ds_created_at x, - int (ds_id x))"

definition list_admin_sessions :: "AdminSessionListItem list db" where
  "list_admin_sessions = getsM (\<lambda>s.
     map counted_item (sort_key (\<lambda>rows. newest_first (fst (hd rows))) (group_by (\<lambda>r. ds_id (fst r)) (joined_rows s))))"

text \<open>The detail joins the policy traces as well.\<close>

definition detail_rows :: "world \<Rightarrow> dream_session \<Rightarrow> (joined_row \<times> policy_trace option) list" where
  "detail_rows s x = concat (map (\<lambda>r. map (Pair r)
       (outer (filter (\<lambda>p. pt_session_id p = Some (ds_id x)) (traces s)))) (session_rows s x))"

definition get_admin_session :: "uuid \<Rightarrow> AdminSessionDetail option db" where
  "get_admin_session sid = getsM (\<lambda>s.
     let rows = concat (map (detail_rows s) (filter (\<lambda>x. ds_id x = sid) (sessions s))) in
     if rows = [] then None
     else let item = counted_item (map fst rows) in
       Some \<lparr>ai_item_session = ai_item_session item, ai_dream_count = ai_dream_count item, ai_job_count = ai_job_count item,
         ai_analysis_count = ai_analysis_count item, ad_policy_trace_count = count_distinct (\<lambda>r. map_option pt_id (snd r)) rows\<rparr>)"

subsection \<open>Users and dreams\<close>

record AdminUserListItem =
  au_user_id :: int
  au_session_count :: nat
  au_dream_count :: nat
  au_last_activity_at :: time

definition user_rows :: "world \<Rightarrow> (dream_session \<times> dream option) list" where
  "user_rows s = concat (map (\<lambda>x. map (Pair x) (outer (filter (\<lambda>d. dr_session_id d = ds_id x) (dreams s)))) (sessions s))"

definition list_admin_users :: "AdminUserListItem list db" where
  "list_admin_users = getsM (\<lambda>s.
     sort_key (\<lambda>u. - au_last_activity_at u) (map (\<lambda>rows.
       \<lparr>au_user_id = ds_user_id (fst (hd rows)), au_session_count = count_distinct (\<lambda>r. Some (ds_id (fst r))) rows,
        au_dream_count = count_distinct (\<lambda>r. map_option dr_id (snd r)) rows,
        au_last_activity_at = Max (set (map (\<lambda>r. ds_last_activity_at (fst r)) rows))\<rparr>)
       (group_by (\<lambda>r. ds_user_id (fst r)) (user_rows s))))"

definition session_dreams_asc :: "uuid \<Rightarrow> world \<Rightarrow> dream list" where
  "session_dreams_asc sid s = sort_key (\<lambda>d. (dr_created_at d, dr_id d)) (filter (\<lambda>d. dr_session_id d = sid) (dreams s))"

definition known_session :: "uuid \<Rightarrow> 'a db \<Rightarrow> 'a option db" where
  "known_session sid m = bindM (find_session sid) (\<lambda>r.
     case r of None \<Rightarrow> returnM None | Some _ \<Rightarrow> bindM m (\<lambda>x. returnM (Some x)))"

definition list_admin_session_dreams :: "uuid \<Rightarrow> dream list option db" where
  "list_admin_session_dreams sid = known_session sid (getsM (session_dreams_asc sid))"

definition list_admin_all_dreams :: "nat \<Rightarrow> dream list db" where
  "list_admin_all_dreams limit = getsM (\<lambda>s. take limit (sort_key (\<lambda>d. (- dr_created_at d, - dr_id d)) (dreams s)))"

definition get_admin_dream :: "int \<Rightarrow> dream option db" where
  "get_admin_dream did = getsM (\<lambda>s. find (\<lambda>d. dr_id d = did) (dreams s))"

definition session_traces_asc :: "uuid \<Rightarrow> world \<Rightarrow> policy_trace list" where
  "session_traces_asc sid s = sort_key (\<lambda>p. (pt_created_at p, pt_id p)) (filter (\<lambda>p. pt_session_id p = Some sid) (traces s))"

definition list_admin_policy_traces :: "uuid \<Rightarrow> policy_trace list option db" where
  "list_admin_policy_traces sid = known_session sid (getsM (session_traces_asc sid))"

subsection \<open>The timeline of a session\<close>

datatype event_type = INPUT | POLICY | CLARIFICATION | DREAM_CREATED | JOB_ENQUEUED | REFLECTION_READY

fun EVENT_ORDER :: "event_type \<Rightarrow> nat" where
  "EVENT_ORDER INPUT = 0"
| "EVENT_ORDER POLICY = 1"
| "EVENT_ORDER CLARIFICATION = 2"
| "EVENT_ORDER DREAM_CREATED = 3"
| "EVENT_ORDER JOB_ENQUEUED = 4"
| "EVENT_ORDER REFLECTION_READY = 5"

record EventView =
  ve_id :: ustr
  ve_type :: event_type
  ve_timestamp :: time
  ve_payload :: json
  ve_session_id :: uuid
  ve_user_id :: int

definition event :: "ustr \<Rightarrow> event_type \<Rightarrow> time \<Rightarrow> uuid \<Rightarrow> int \<Rightarrow> json \<Rightarrow> EventView" where
  "event i ty t sid uid payload = \<lparr>ve_id = i, ve_type = ty, ve_timestamp = t, ve_payload = payload, ve_session_id = sid, ve_user_id = uid\<rparr>"

definition jopt :: "('a \<Rightarrow> json) \<Rightarrow> 'a option \<Rightarrow> json" where
  "jopt f x = (case x of None \<Rightarrow> JNull | Some y \<Rightarrow> f y)"

fun render_frag :: "formats \<Rightarrow> frag \<Rightarrow> ustr" where
  "render_frag f (Lit t) = ascii t"
| "render_frag f (Uid i) = str_uuid f i"
| "render_frag f (Num n) = str_int n"
| "render_frag f (Txt t) = t"

definition render_message :: "formats \<Rightarrow> message \<Rightarrow> ustr" where
  "render_message f m = concat (map (render_frag f) m)"

definition trace_events :: "formats \<Rightarrow> uuid \<Rightarrow> dream list \<Rightarrow> policy_trace \<Rightarrow> EventView list" where
  "trace_events f sid ds p =
     (let dream_of = (case pt_dream_id p of None \<Rightarrow> None | Some i \<Rightarrow> find (\<lambda>d. dr_id d = i) ds);
          ident = ascii ''policy:'' @ str_uuid f (pt_id p) in
      [event (ident @ ascii '':input'') INPUT (pt_created_at p) sid (pt_user_id p)
         (JObj [(ascii ''policy_input'', pt_input_json p), (ascii ''dream_id'', jopt JInt (pt_dream_id p)),
                (ascii ''text'', jopt (\<lambda>d. JStr (dr_text d)) dream_of)]),
       event (ident @ ascii '':decision'') POLICY (pt_created_at p) sid (pt_user_id p)
         (JObj [(ascii ''decision'', pt_decision_json p), (ascii ''outcome'', pt_outcome_json p)])]
      @ (if pt_route p = ''ROUTE_CLARIFICATION''
         then [event (ident @ ascii '':clarification'') CLARIFICATION (pt_created_at p) sid (pt_user_id p) (pt_outcome_json p)]
         else []))"

definition dream_event :: "uuid \<Rightarrow> dream \<Rightarrow> EventView" where
  "dream_event sid d = event (ascii ''dream:'' @ str_int (dr_id d)) DREAM_CREATED (dr_created_at d) sid (dr_user_id d)
     (JObj [(ascii ''dream_id'', JInt (dr_id d)), (ascii ''text'', JStr (dr_text d))])"

definition job_event :: "formats \<Rightarrow> uuid \<Rightarrow> int \<Rightarrow> analysis_job \<Rightarrow> EventView" where
  "job_event f sid uid x = event (ascii ''job:'' @ str_uuid f (job_id x)) JOB_ENQUEUED (job_created_at x) sid uid
     (JObj [(ascii ''job_id'', JStr (str_uuid f (job_id x))), (ascii ''status'', JStr (ascii (status_value (job_status x)))),
            (ascii ''provider'', JStr (job_provider x)), (ascii ''model'', JStr (job_model x)),
            (ascii ''mode'', JStr (ascii (job_mode x))), (ascii ''attempts'', JInt (job_attempts x)),
            (ascii ''last_error_class'', jopt (\<lambda>c. JStr (ascii c)) (job_last_error_class x)),
            (ascii ''last_error_message'', jopt (\<lambda>m. JStr (render_message f m)) (job_last_error_message x))])"

definition analysis_event :: "formats \<Rightarrow> uuid \<Rightarrow> session_analysis \<Rightarrow> EventView" where
  "analysis_event f sid a = event (ascii ''analysis:'' @ str_uuid f (sa_id a)) REFLECTION_READY (sa_created_at a) sid (sa_user_id a)
     (JObj [(ascii ''analysis_id'', JStr (str_uuid f (sa_id a))),
            (ascii ''analysis_job_id'', jopt (\<lambda>i. JStr (str_uuid f i)) (sa_analysis_job_id a)),
            (ascii ''thread_id'', JStr (str_uuid f (sa_thread_id a))), (ascii ''analysis_version'', JStr (ascii (sa_analysis_version a))),
            (ascii ''prompt_version'', JStr (ascii (sa_prompt_version a))), (ascii ''analysis_json'', sa_analysis_json a)])"

definition event_key :: "EventView \<Rightarrow> time \<times> nat \<times> ustr" where
  "event_key e = (ve_timestamp e, EVENT_ORDER (ve_type e), ve_id e)"

definition session_jobs_asc :: "uuid \<Rightarrow> world \<Rightarrow> analysis_job list" where
  "session_jobs_asc sid s = sort_key job_created_at (filter (\<lambda>x. job_session_id x = sid) (jobs s))"

definition session_analyses_asc :: "uuid \<Rightarrow> world \<Rightarrow> session_analysis list" where
  "session_analyses_asc sid s = sort_key sa_created_at (filter (\<lambda>a. sa_session_id a = sid) (analyses s))"

definition session_events :: "formats \<Rightarrow> dream_session \<Rightarrow> world \<Rightarrow> EventView list" where
  "session_events f r s =
     (let sid = ds_id r; ds = session_dreams_asc sid s in
      concat (map (trace_events f sid ds) (session_traces_asc sid s)) @ map (dream_event sid) ds
      @ map (job_event f sid (ds_user_id r)) (session_jobs_asc sid s) @ map (analysis_event f sid) (session_analyses_asc sid s))"

definition build_admin_events :: "formats \<Rightarrow> uuid \<Rightarrow> EventView list option db" where
  "build_admin_events f sid =
     bindM (find_session sid) (\<lambda>session.
     case session of
       None \<Rightarrow> returnM None
     | Some r \<Rightarrow> getsM (\<lambda>s. Some (sort_key event_key (session_events f r s))))"

definition build_admin_trace :: "formats \<Rightarrow> uuid \<Rightarrow> (uuid \<times> EventView list) option db" where
  "build_admin_trace f sid = bindM (build_admin_events f sid) (\<lambda>es. returnM (map_option (Pair sid) es))"

subsection \<open>Prompt versions\<close>

text \<open>The order of the prompt types is that of their strings.\<close>

definition list_prompt_versions :: "admin_prompt_version list db" where
  "list_prompt_versions = getsM (\<lambda>s.
     sort_key (\<lambda>v. (ascii (pv_prompt_type v), - pv_version v, - pv_created_at v)) (prompt_versions s))"

definition get_prompt_version :: "uuid \<Rightarrow> admin_prompt_version option db" where
  "get_prompt_version i = getsM (\<lambda>s. find (\<lambda>v. pv_id v = i) (prompt_versions s))"

definition latest_version :: "string \<Rightarrow> admin_prompt_version list \<Rightarrow> int" where
  "latest_version ty vs = (case map pv_version (filter (\<lambda>v. pv_prompt_type v = ty) vs) of [] \<Rightarrow> 0 | n # ns \<Rightarrow> Max (set (n # ns)))"

definition deactivate :: "string \<Rightarrow> admin_prompt_version list \<Rightarrow> admin_prompt_version list" where
  "deactivate ty = update_where (\<lambda>v. pv_prompt_type v = ty) (\<lambda>v. v\<lparr>pv_active_flag := False\<rparr>)"

definition create_prompt_version :: "string \<Rightarrow> ustr \<Rightarrow> bool \<Rightarrow> admin_prompt_version db" where
  "create_prompt_version ty content active =
     bindM (getsM (\<lambda>s. latest_version ty (prompt_versions s) + 1)) (\<lambda>next_version.
     thenM (if active then modifyM (\<lambda>s. s\<lparr>prompt_versions := deactivate ty (prompt_versions s)\<rparr>) else returnM ()) (
     bindM uuid4 (\<lambda>i.
     bindM (getsM tx_now) (\<lambda>t.
     let row = \<lparr>pv_id = i, pv_prompt_type = ty, pv_version = next_version, pv_content = content, pv_active_flag = active,
           pv_created_at = t\<rparr>
     in thenM (modifyM (\<lambda>s. s\<lparr>prompt_versions := prompt_versions s @ [row]\<rparr>)) (returnM row)))))"

definition create_next_prompt_version :: "uuid \<Rightarrow> ustr \<Rightarrow> admin_prompt_version option db" where
  "create_next_prompt_version previous_id content =
     bindM (get_prompt_version previous_id) (\<lambda>previous.
     case previous of
       None \<Rightarrow> returnM None
     | Some v \<Rightarrow> bindM (create_prompt_version (pv_prompt_type v) content True) (\<lambda>row. returnM (Some row)))"

subsection \<open>The journal\<close>

record JournalSessionListItem =
  jo_session :: dream_session
  jo_dream_count :: nat

record JournalDreamListItem =
  jd_id :: int
  jd_session_id :: uuid
  jd_created_at :: time
  jd_excerpt :: ustr
  jd_has_memory :: bool

record JournalDreamDetail =
  jt_dream :: dream
  jt_memory_json :: "json option"
  jt_dialogue_turns :: "conversation_turn list"    \<comment> \<open>shown by role, text, type and time\<close>

record JournalPatternSummary =
  jp_recurring_symbols :: "(ustr \<times> nat) list"
  jp_recurring_words :: "(ustr \<times> nat) list"

definition list_journal_sessions :: "int \<Rightarrow> JournalSessionListItem list db" where
  "list_journal_sessions uid =
     bindM (getsM (\<lambda>s. sort_key (\<lambda>x. - ds_created_at x) (filter (\<lambda>x. ds_user_id x = uid) (sessions s)))) (\<lambda>xs.
     mapM (\<lambda>x. bindM (getsM (\<lambda>s. length (filter (\<lambda>d. dr_session_id d = ds_id x) (dreams s)))) (\<lambda>n.
       returnM \<lparr>jo_session = x, jo_dream_count = n\<rparr>)) xs)"

definition list_journal_dreams :: "int \<Rightarrow> JournalDreamListItem list db" where
  "list_journal_dreams uid =
     bindM (getsM (\<lambda>s. sort_key (\<lambda>d. (- dr_created_at d, - dr_id d)) (filter (\<lambda>d. dr_user_id d = uid) (dreams s)))) (\<lambda>ds.
     mapM (\<lambda>d. bindM (get_dream_memory (dr_id d)) (\<lambda>memory.
       returnM \<lparr>jd_id = dr_id d, jd_session_id = dr_session_id d, jd_created_at = dr_created_at d,
         jd_excerpt = take 200 (dr_text d), jd_has_memory = (memory \<noteq> None)\<rparr>)) ds)"

definition get_journal_dream_detail :: "int \<Rightarrow> int \<Rightarrow> JournalDreamDetail option db" where
  "get_journal_dream_detail uid did =
     bindM (getsM (\<lambda>s. find (\<lambda>d. dr_id d = did \<and> dr_user_id d = uid) (dreams s))) (\<lambda>found.
     case found of
       None \<Rightarrow> returnM None
     | Some d \<Rightarrow>
         bindM (get_dream_memory did) (\<lambda>memory.
         bindM (getsM (\<lambda>s. sort_key ct_created_at (filter (\<lambda>c. ct_dream_id c = Some did) (turns s)))) (\<lambda>cs.
         returnM (Some \<lparr>jt_dream = d, jt_memory_json = map_option dm_memory_json memory, jt_dialogue_turns = cs\<rparr>))))"

text \<open>\<open>counts[w] = counts.get(w, 0) + 1\<close> on a dictionary in insertion order.\<close>

fun bump :: "ustr \<Rightarrow> (ustr \<times> nat) list \<Rightarrow> (ustr \<times> nat) list" where
  "bump w [] = [(w, 1)]"
| "bump w ((v, n) # m) = (if v = w then (v, n + 1) # m else (v, n) # bump w m)"

definition top_counts :: "(ustr \<times> nat) list \<Rightarrow> (ustr \<times> nat) list" where
  "top_counts m = take 20 (sort_key (\<lambda>(w, n). (- int n, w)) m)"

definition get_journal_patterns :: "int \<Rightarrow> JournalPatternSummary db" where
  "get_journal_patterns uid = getsM (\<lambda>s.
     let xs = filter (\<lambda>x. ss_user_id x = uid) (summaries s) in
     \<lparr>jp_recurring_symbols = top_counts (fold bump (concat (map ss_key_symbols xs)) []),
      jp_recurring_words = top_counts (fold bump (concat (map ss_recurring_words xs)) [])\<rparr>)"

subsection \<open>Joins count what the tables hold\<close>

lemma outer_not_Nil [simp]: "outer xs \<noteq> []"
  by (simp add: outer_def)

lemma set_outer: "set (outer xs) = (if xs = [] then {None} else Some ` set xs)"
  by (simp add: outer_def)

lemma set_session_rows:
  "set (session_rows s x) = {x} \<times> set (outer (filter (\<lambda>d. dr_session_id d = ds_id x) (dreams s)))
     \<times> set (outer (filter (\<lambda>j. job_session_id j = ds_id x) (jobs s))) \<times> set (outer (filter (\<lambda>a. sa_session_id a = ds_id x) (analyses s)))"
  by (auto simp: session_rows_def)

lemma set_map_filter: "set (List.map_filter f xs) = {y. \<exists>x \<in> set xs. f x = Some y}"
  by (induction xs) (auto split: option.splits)

lemma length_distinct_keys: "distinct (map k xs) \<Longrightarrow> card (k ` set (filter P xs)) = length (filter P xs)"
proof -
  assume "distinct (map k xs)"
  then have "distinct (map k (filter P xs))" by (rule distinct_map_filter)
  then have "card (set (map k (filter P xs))) = length (map k (filter P xs))" by (rule distinct_card)
  then show ?thesis by simp
qed

lemma count_distinct_card: "count_distinct f rows = card {y. \<exists>r \<in> set rows. f r = Some y}"
  by (simp add: count_distinct_def length_remdups_card_conv set_map_filter)

lemma ex_outer: "(\<exists>z \<in> set (outer xs). map_option k z = Some y) \<longleftrightarrow> y \<in> k ` set xs"
  by (auto simp: set_outer)

lemma some_outer: "\<exists>z. z \<in> set (outer xs)"
  by (cases "outer xs") (auto simp: outer_def split: if_splits)

lemma session_counts:
  assumes "distinct (map dr_id (dreams s))" and "distinct (map job_id (jobs s))" and "distinct (map sa_id (analyses s))"
  shows "counted_item (session_rows s x) = session_item x (length (filter (\<lambda>d. dr_session_id d = ds_id x) (dreams s)))
     (length (filter (\<lambda>j. job_session_id j = ds_id x) (jobs s))) (length (filter (\<lambda>a. sa_session_id a = ds_id x) (analyses s)))"
proof -
  let ?D = "filter (\<lambda>d. dr_session_id d = ds_id x) (dreams s)" and ?J = "filter (\<lambda>j. job_session_id j = ds_id x) (jobs s)"
    and ?A = "filter (\<lambda>a. sa_session_id a = ds_id x) (analyses s)"
  obtain d0 j0 a0 where w: "d0 \<in> set (outer ?D)" "j0 \<in> set (outer ?J)" "a0 \<in> set (outer ?A)" using some_outer by metis
  have D: "{y. \<exists>r \<in> set (session_rows s x). (case r of (x, d, j, a) \<Rightarrow> map_option dr_id d) = Some y} = dr_id ` set ?D"
  proof (rule set_eqI)
    fix y
    have "(\<exists>r \<in> set (session_rows s x). (case r of (x, d, j, a) \<Rightarrow> map_option dr_id d) = Some y) \<longleftrightarrow>
        (\<exists>z \<in> set (outer ?D). map_option dr_id z = Some y)"
      unfolding set_session_rows using w by fastforce
    then show "y \<in> {y. \<exists>r \<in> set (session_rows s x). (case r of (x, d, j, a) \<Rightarrow> map_option dr_id d) = Some y} \<longleftrightarrow> y \<in> dr_id ` set ?D"
      unfolding ex_outer by blast
  qed
  have J: "{y. \<exists>r \<in> set (session_rows s x). (case r of (x, d, j, a) \<Rightarrow> map_option job_id j) = Some y} = job_id ` set ?J"
  proof (rule set_eqI)
    fix y
    have "(\<exists>r \<in> set (session_rows s x). (case r of (x, d, j, a) \<Rightarrow> map_option job_id j) = Some y) \<longleftrightarrow>
        (\<exists>z \<in> set (outer ?J). map_option job_id z = Some y)"
      unfolding set_session_rows using w by fastforce
    then show "y \<in> {y. \<exists>r \<in> set (session_rows s x). (case r of (x, d, j, a) \<Rightarrow> map_option job_id j) = Some y} \<longleftrightarrow> y \<in> job_id ` set ?J"
      unfolding ex_outer by blast
  qed
  have A: "{y. \<exists>r \<in> set (session_rows s x). (case r of (x, d, j, a) \<Rightarrow> map_option sa_id a) = Some y} = sa_id ` set ?A"
  proof (rule set_eqI)
    fix y
    have "(\<exists>r \<in> set (session_rows s x). (case r of (x, d, j, a) \<Rightarrow> map_option sa_id a) = Some y) \<longleftrightarrow>
        (\<exists>z \<in> set (outer ?A). map_option sa_id z = Some y)"
      unfolding set_session_rows using w by fastforce
    then show "y \<in> {y. \<exists>r \<in> set (session_rows s x). (case r of (x, d, j, a) \<Rightarrow> map_option sa_id a) = Some y} \<longleftrightarrow> y \<in> sa_id ` set ?A"
      unfolding ex_outer by blast
  qed
  have H: "fst (hd (session_rows s x)) = x"
  proof -
    have "session_rows s x \<noteq> []" using w set_session_rows [of s x] by fastforce
    then have "hd (session_rows s x) \<in> set (session_rows s x)" by (rule hd_in_set)
    then show ?thesis by (auto simp: set_session_rows)
  qed
  show ?thesis
    unfolding counted_item_def count_distinct_card D J A H length_distinct_keys [OF assms(1)] length_distinct_keys [OF assms(2)]
      length_distinct_keys [OF assms(3)] ..
qed

lemma session_rows_ne: "session_rows s x \<noteq> []"
proof -
  have "set (session_rows s x) \<noteq> {}" unfolding set_session_rows using some_outer by (simp add: outer_def)
  then show ?thesis by auto
qed

lemma session_rows_key: "r \<in> set (session_rows s x) \<Longrightarrow> fst r = x"
  by (auto simp: set_session_rows)

lemma remdups_block: "v \<notin> set zs \<Longrightarrow> 0 < n \<Longrightarrow> remdups (replicate n v @ zs) = v # remdups zs"
proof (induction n)
  case (Suc n)
  then show ?case by (cases n) auto
qed simp

lemma group_by_blocks:
  assumes "\<And>x r. r \<in> set (f x) \<Longrightarrow> k r = g x" and "\<And>x. f x \<noteq> []" and "distinct (map g xs)"
  shows "group_by k (concat (map f xs)) = map f xs"
proof -
  have keys: "remdups (map k (concat (map f xs))) = map g xs" if "distinct (map g xs)" for xs
    using that
  proof (induction xs)
    case (Cons x xs)
    have c: "map k (f x) = replicate (length (f x)) (g x)"
      using assms(1) by (auto simp: list_eq_iff_nth_eq)
    have "g x \<notin> set (map k (concat (map f xs)))" using Cons.prems assms(1) by auto
    then have "remdups (map k (f x) @ map k (concat (map f xs))) = g x # remdups (map k (concat (map f xs)))"
      unfolding c by (intro remdups_block) (simp_all add: assms(2))
    then show ?case using Cons by simp
  qed simp
  have block: "filter (\<lambda>r. k r = g x) (concat (map f xs)) = f x" if "x \<in> set xs" "distinct (map g xs)" for x xs
    using that
  proof (induction xs)
    case (Cons y ys)
    have all: "filter (\<lambda>r. k r = g x) (f x) = f x" using assms(1) by (simp add: filter_id_conv)
    show ?case
    proof (cases "x = y")
      case True
      have "filter (\<lambda>r. k r = g x) (concat (map f ys)) = []"
        using Cons.prems True assms(1) by (auto simp: filter_empty_conv) (metis imageI)
      then show ?thesis using True all by simp
    next
      case False
      then have "g y \<noteq> g x" "x \<in> set ys" using Cons.prems by auto
      moreover have "filter (\<lambda>r. k r = g x) (f y) = []" if "g y \<noteq> g x" using that assms(1) by (auto simp: filter_empty_conv)
      ultimately show ?thesis using Cons by simp
    qed
  qed simp
  show ?thesis
    unfolding group_by_def keys [OF assms(3)] using block [OF _ assms(3)] by simp
qed

lemma sort_key_map: "sort_key k (map f xs) = map f (sort_key (\<lambda>x. k (f x)) xs)"
proof (induction xs)
  case (Cons x xs)
  have "insort_key k (f x) (map f ys) = map f (insort_key (\<lambda>x. k (f x)) x ys)" for ys
    by (induction ys) auto
  then show ?case using Cons by simp
qed simp

text \<open>C37. The console's one query over three outer joins, grouped by session and counting distinct identifiers, is
  equivalent to counting the dreams, jobs and analyses of each session separately: the joins multiply the rows,
  not the counts, and no session is lost or listed twice, also those without any dream, job or analysis.\<close>

theorem session_list_counts_separately:
  assumes "distinct (map ds_id (sessions s))" and "distinct (map dr_id (dreams s))" and "distinct (map job_id (jobs s))"
    and "distinct (map sa_id (analyses s))"
  shows "list_admin_sessions s = (Inr (map (\<lambda>x. session_item x
       (length (filter (\<lambda>d. dr_session_id d = ds_id x) (dreams s))) (length (filter (\<lambda>j. job_session_id j = ds_id x) (jobs s)))
       (length (filter (\<lambda>a. sa_session_id a = ds_id x) (analyses s)))) (sort_key newest_first (sessions s))), s)"
proof -
  have "group_by (\<lambda>r. ds_id (fst r)) (joined_rows s) = map (session_rows s) (sessions s)"
    unfolding joined_rows_def
    by (rule group_by_blocks [where g = ds_id]) (use session_rows_key session_rows_ne assms(1) in auto)
  moreover have "fst (hd (session_rows s x)) = x" for x
    using session_rows_key session_rows_ne hd_in_set by blast
  ultimately show ?thesis
    by (simp add: list_admin_sessions_def run sort_key_map session_counts [OF assms(2-4)])
qed

theorem session_list_counts_separately_witness:
  "list_admin_sessions dream_world = (Inr [session_item sample_session 2 0 0], dream_world)"
proof -
  have w: "sessions dream_world = [sample_session]" "jobs dream_world = []" "analyses dream_world = []" "ds_id sample_session = 7"
    by (simp_all add: dream_world_def sample_world_def empty_world_def sample_session_def)
  show ?thesis using session_list_counts_separately [of dream_world] by (simp add: w sample_dream_def numeral_2_eq_2)
qed

subsection \<open>Versions of a prompt\<close>

definition of_type :: "string \<Rightarrow> admin_prompt_version list \<Rightarrow> admin_prompt_version list" where
  "of_type ty = filter (\<lambda>v. pv_prompt_type v = ty)"

definition prompts_ok :: "world \<Rightarrow> bool" where
  "prompts_ok s \<longleftrightarrow> (\<forall>ty. distinct (map pv_version (of_type ty (prompt_versions s)))
     \<and> length (filter pv_active_flag (of_type ty (prompt_versions s))) \<le> 1)"

lemma latest_version_ge: "v \<in> set (of_type ty vs) \<Longrightarrow> pv_version v \<le> latest_version ty vs"
proof -
  assume v: "v \<in> set (of_type ty vs)"
  then obtain n ns where m: "map pv_version (of_type ty vs) = n # ns" by (cases "map pv_version (of_type ty vs)") auto
  have "latest_version ty vs = Max (set (n # ns))"
    by (simp only: latest_version_def of_type_def [symmetric] m list.case)
  moreover have "pv_version v \<in> set (n # ns)" using v unfolding m [symmetric] by simp
  ultimately show ?thesis by simp
qed

lemma of_type_deactivate:
  "of_type ty (deactivate ty' vs) = (if ty' = ty then map (\<lambda>v. v\<lparr>pv_active_flag := False\<rparr>) (of_type ty vs) else of_type ty vs)"
  by (induction vs) (auto simp: of_type_def deactivate_def)

lemma create_prompt_version_run:
  "create_prompt_version ty content active s =
    (let row = \<lparr>pv_id = uuids s 0, pv_prompt_type = ty, pv_version = latest_version ty (prompt_versions s) + 1, pv_content = content,
           pv_active_flag = active, pv_created_at = tx_now s\<rparr>
     in (Inr row, s\<lparr>uuids := \<lambda>n. uuids s (Suc n),
           prompt_versions := (if active then deactivate ty (prompt_versions s) else prompt_versions s) @ [row]\<rparr>))"
  by (simp add: create_prompt_version_def run Let_def)

text \<open>Storing a prompt gives it the next version of its type: versions of a type are never reused, at most one of
  them is active before and after, an active new version is then the only active one, and the contents of the
  older versions and everything about the other types stay as they are.\<close>

theorem new_prompt_version_is_next:
  assumes "prompts_ok s" and "create_prompt_version ty content active s = (r, t)"
  shows "\<exists>row. r = Inr row \<and> prompts_ok t \<and> row \<in> set (prompt_versions t) \<and> pv_content row = content
    \<and> pv_version row \<notin> pv_version ` set (of_type ty (prompt_versions s))
    \<and> filter pv_active_flag (of_type ty (prompt_versions t)) = (if active then [row] else filter pv_active_flag (of_type ty (prompt_versions s)))
    \<and> map (\<lambda>v. (pv_id v, pv_version v, pv_content v)) (of_type ty (prompt_versions t)) =
        map (\<lambda>v. (pv_id v, pv_version v, pv_content v)) (of_type ty (prompt_versions s) @ [row])
    \<and> (\<lambda>u. if u = ty then [] else of_type u (prompt_versions t)) = (\<lambda>u. if u = ty then [] else of_type u (prompt_versions s))"
proof -
  let ?vs = "prompt_versions s"
  define row where "row = \<lparr>pv_id = uuids s 0, pv_prompt_type = ty, pv_version = latest_version ty ?vs + 1, pv_content = content,
           pv_active_flag = active, pv_created_at = tx_now s\<rparr>"
  define ws where "ws = (if active then deactivate ty ?vs else ?vs)"
  have t: "r = Inr row" "prompt_versions t = ws @ [row]"
    using assms(2) by (auto simp: create_prompt_version_run Let_def row_def ws_def)
  have row: "pv_prompt_type row = ty" "pv_active_flag row = active" "pv_content row = content" "pv_version row = latest_version ty ?vs + 1"
    by (simp_all add: row_def)
  have ot: "of_type u (prompt_versions t) = of_type u ws @ (if u = ty then [row] else [])" for u
    by (simp add: t of_type_def row(1))
  have new: "pv_version row \<notin> pv_version ` set (of_type ty ?vs)"
    using latest_version_ge row(4) by fastforce
  have keys: "map (\<lambda>v. (pv_id v, pv_version v, pv_content v)) (of_type u ws) = map (\<lambda>v. (pv_id v, pv_version v, pv_content v)) (of_type u ?vs)"
    and versions: "map pv_version (of_type u ws) = map pv_version (of_type u ?vs)" for u
    by (simp_all add: ws_def of_type_deactivate comp_def)
  have other: "of_type u ws = of_type u ?vs" if "u \<noteq> ty" for u
    using that by (auto simp: ws_def of_type_deactivate)
  have active: "filter pv_active_flag (of_type ty ws) = (if active then [] else filter pv_active_flag (of_type ty ?vs))"
    by (simp add: ws_def of_type_deactivate filter_empty_conv)
  have one: "distinct (map pv_version (of_type u ?vs))" "length (filter pv_active_flag (of_type u ?vs)) \<le> 1" for u
    using assms(1) by (simp_all add: prompts_ok_def)
  have "distinct (map pv_version (of_type u (prompt_versions t))) \<and> length (filter pv_active_flag (of_type u (prompt_versions t))) \<le> 1" for u
  proof (cases "u = ty")
    case True
    have "set (map pv_version (of_type ty ws)) = set (map pv_version (of_type ty ?vs))" by (simp only: versions)
    then show ?thesis using True one [of ty] new active by (simp add: ot versions row(2))
  next
    case False
    then show ?thesis using one [of u] by (simp add: ot other)
  qed
  then have "prompts_ok t" by (simp add: prompts_ok_def)
  moreover have "filter pv_active_flag (of_type ty (prompt_versions t)) = (if active then [row] else filter pv_active_flag (of_type ty ?vs))"
    by (simp add: ot active row(2))
  moreover have "map (\<lambda>v. (pv_id v, pv_version v, pv_content v)) (of_type ty (prompt_versions t)) =
        map (\<lambda>v. (pv_id v, pv_version v, pv_content v)) (of_type ty ?vs @ [row])"
    by (simp add: ot keys)
  moreover have "(\<lambda>u. if u = ty then [] else of_type u (prompt_versions t)) = (\<lambda>u. if u = ty then [] else of_type u ?vs)"
    by (auto simp: ot other)
  ultimately show ?thesis using t new row(3) by (intro exI [of _ row]) simp
qed

subsection \<open>Whose rows the journal shows\<close>

text \<open>Ownership is consistent: rows that belong together belong to one user.\<close>

definition owned :: "world \<Rightarrow> bool" where
  "owned s \<longleftrightarrow> (\<forall>d \<in> set (dreams s).
       (\<forall>x \<in> set (sessions s). ds_id x = dr_session_id d \<longrightarrow> ds_user_id x = dr_user_id d)
     \<and> (\<forall>m \<in> set (memories s). dm_dream_id m = dr_id d \<longrightarrow> dm_user_id m = dr_user_id d)
     \<and> (\<forall>c \<in> set (turns s). ct_dream_id c = Some (dr_id d) \<longrightarrow> ct_user_id c = dr_user_id d))"

definition rows_of_user :: "int \<Rightarrow> world \<Rightarrow> world" where
  "rows_of_user uid s = s\<lparr>sessions := filter (\<lambda>x. ds_user_id x = uid) (sessions s), dreams := filter (\<lambda>d. dr_user_id d = uid) (dreams s),
     memories := filter (\<lambda>m. dm_user_id m = uid) (memories s), turns := filter (\<lambda>c. ct_user_id c = uid) (turns s),
     summaries := filter (\<lambda>x. ss_user_id x = uid) (summaries s)\<rparr>"

lemma mapM_reads: "mapM (\<lambda>x. bindM (getsM (f x)) (\<lambda>y. returnM (h x y))) xs s = (Inr (map (\<lambda>x. h x (f x s)) xs), s)"
  by (induction xs) (simp_all add: run)

lemma gets_then: "bindM (getsM f) k s = k (f s) s"
  by (simp add: run)

lemma list_journal_sessions_run:
  "list_journal_sessions uid s = (Inr (map (\<lambda>x. \<lparr>jo_session = x, jo_dream_count = length (filter (\<lambda>d. dr_session_id d = ds_id x) (dreams s))\<rparr>)
     (sort_key (\<lambda>x. - ds_created_at x) (filter (\<lambda>x. ds_user_id x = uid) (sessions s)))), s)"
  by (simp add: list_journal_sessions_def gets_then mapM_reads)

lemma list_journal_dreams_run:
  "list_journal_dreams uid s = (Inr (map (\<lambda>d. \<lparr>jd_id = dr_id d, jd_session_id = dr_session_id d, jd_created_at = dr_created_at d,
       jd_excerpt = take 200 (dr_text d), jd_has_memory = (find (\<lambda>m. dm_dream_id m = dr_id d) (memories s) \<noteq> None)\<rparr>)
     (sort_key (\<lambda>d. (- dr_created_at d, - dr_id d)) (filter (\<lambda>d. dr_user_id d = uid) (dreams s)))), s)"
  by (simp add: list_journal_dreams_def gets_then get_dream_memory_def mapM_reads)

lemma find_filter: "(\<And>x. x \<in> set xs \<Longrightarrow> P x \<Longrightarrow> Q x) \<Longrightarrow> find P (filter Q xs) = find P xs"
  by (induction xs) auto

lemma filter_filter_sub: "(\<And>x. x \<in> set xs \<Longrightarrow> P x \<Longrightarrow> Q x) \<Longrightarrow> filter P (filter Q xs) = filter P xs"
  by (induction xs) auto


subsection \<open>Concrete runs\<close>

definition prompts_world :: world where
  "prompts_world = snd (create_prompt_version ''jungian'' (ascii ''v1'') True empty_world)"

theorem new_prompt_version_is_next_witness:
  "\<exists>row t. create_prompt_version ''jungian'' (ascii ''v2'') True prompts_world = (Inr row, t)
    \<and> filter pv_active_flag (of_type ''jungian'' (prompt_versions t)) = [row] \<and> pv_version row \<noteq> 1"
proof -
  have w: "map pv_version (of_type ''jungian'' (prompt_versions prompts_world)) = [1]" "prompts_ok prompts_world"
    by (auto simp: prompts_world_def create_prompt_version_run Let_def empty_world_def latest_version_def of_type_def deactivate_def
        update_where_def prompts_ok_def)
  obtain r t where r: "create_prompt_version ''jungian'' (ascii ''v2'') True prompts_world = (r, t)" by fastforce
  have "pv_version ` set (of_type ''jungian'' (prompt_versions prompts_world)) = {1}" using arg_cong [OF w(1), of set] by simp
  with new_prompt_version_is_next [OF w(2) r] r show ?thesis by auto
qed


end
