(* ===== verification/Web.thy ===== *)
theory Web
  imports Players Ingress Console
begin

text \<open>
  The HTTP layer: the routes of \<open>main.py\<close> and \<open>routers\<close> with their guards, the session of every request
  (\<open>db/db_setup.py\<close>), the exception handlers of \<open>utils/helpers.py\<close> with \<open>utils/errors.py\<close>, the metrics of
  \<open>settings.py\<close> and the runtime worker that the application starts and stops. Routing and the reading of
  parameters follow the documented behaviour of FastAPI; how pydantic reads an identifier or an integer from
  a string is a parameter. A path with a trailing slash, which the framework redirects, and the pages of the
  framework's own documentation find no route here.
\<close>

subsection \<open>Requests and answers\<close>

datatype http_method = GET | POST | OTHER

datatype request_body = Absent | NotJson | Body json

record request =
  rq_method :: http_method
  rq_path :: "ustr list"    \<comment> \<open>the segments of the path\<close>
  rq_query :: "string \<rightharpoonup> ustr"
  rq_admin_token :: "ustr option"
  rq_user_id :: "ustr option"
  rq_body :: request_body

datatype answer =
    AOk
  | AReply "ustr list" "uuid option" "int option"
  | AJournalSessions "JournalSessionListItem list"
  | AJournalDreams "JournalDreamListItem list"
  | AJournalDream JournalDreamDetail
  | AJournalPatterns JournalPatternSummary
  | ASummary session_summary
  | AAnalysis SessionAnalysisSchema
  | AHistory SessionAnalysisHistorySchema
  | AJobCreated uuid job_status
  | AJob analysis_job
  | AJobs uuid "analysis_job list"
  | AUsers "AdminUserListItem list"
  | ADreams "dream list"
  | ASessions "AdminSessionListItem list"
  | ASession AdminSessionDetail
  | AEvents "EventView list"
  | ATrace uuid "EventView list"
  | ATraces "policy_trace list"
  | ASessionDreams uuid "dream list"
  | ADream dream
  | APrompts "admin_prompt_version list"
  | APrompt admin_prompt_version
  | APlayer player
  | APlayers "player list" Pagination
  | ARedirect ustr
  | AMetrics

record response =
  rp_status :: int
  rp_content :: "message + answer"

record web_app =
  wa_ingress :: ingress
  wa_admin_token :: ustr
  wa_bot_token :: ustr
  wa_hmac :: hmac
  wa_coercions :: player_coercions
  wa_plan :: plan
  wa_uuid :: "ustr \<Rightarrow> uuid option"
  wa_int :: "ustr \<Rightarrow> int option"

abbreviation wa_env :: "web_app \<Rightarrow> environment" where
  "wa_env w \<equiv> rt_env (ig_runtime (wa_ingress w))"

subsection \<open>Errors\<close>

datatype ErrorResponse = UNAUTHORIZED | PLAYER_NOT_FOUND | INCORRECT_PARAMETERS | INVALID_QUERY_PARAMETERS | SOMETHING_WENT_WRONG

fun http_code :: "ErrorResponse \<Rightarrow> int" where
  "http_code UNAUTHORIZED = 401"
| "http_code PLAYER_NOT_FOUND = 404"
| "http_code INCORRECT_PARAMETERS = 422"
| "http_code INVALID_QUERY_PARAMETERS = 422"
| "http_code SOMETHING_WENT_WRONG = 500"

fun error_detail :: "ErrorResponse \<Rightarrow> string" where
  "error_detail UNAUTHORIZED = ''Unauthorized''"
| "error_detail PLAYER_NOT_FOUND = ''Player not found''"
| "error_detail INCORRECT_PARAMETERS = ''Incorrect parameters for request''"
| "error_detail INVALID_QUERY_PARAMETERS = ''Invalid query parameters''"
| "error_detail SOMETHING_WENT_WRONG = ''Something went wrong''"

text \<open>
  \<open>RequestValidationError\<close> and \<open>CustomHTTPException\<close> are exceptions with the status and the text of their error
  response; \<open>validation_exception_handler\<close> and \<open>custom_exception_handler\<close> answer with these.
\<close>

definition custom_http_exception :: "ErrorResponse \<Rightarrow> exn" where
  "custom_http_exception e = HTTPException (http_code e) [Lit (error_detail e)]"

definition invalid_query_parameters :: exn where
  "invalid_query_parameters = custom_http_exception INVALID_QUERY_PARAMETERS"

subsection \<open>Bodies\<close>

text \<open>A field that may be absent or null, and one that must be there; other fields are ignored.\<close>

definition nullable :: "(json \<Rightarrow> 'a option) \<Rightarrow> (ustr \<times> json) list \<Rightarrow> string \<Rightarrow> 'a option option" where
  "nullable r m key = (case lookup (ascii key) m of
     None \<Rightarrow> Some None | Some JNull \<Rightarrow> Some None | Some v \<Rightarrow> map_option Some (r v))"

definition object_field :: "((ustr \<times> json) list \<Rightarrow> 'a option) \<Rightarrow> json \<Rightarrow> 'a option" where
  "object_field r v = (case v of JObj m \<Rightarrow> r m | _ \<Rightarrow> None)"

definition non_empty :: "ustr \<Rightarrow> ustr option" where
  "non_empty t = (if t = [] then None else Some t)"

definition read_telegram_message :: "web_app \<Rightarrow> json \<Rightarrow> TelegramMessage option" where
  "read_telegram_message w = object_field (\<lambda>m. do {
     (uid, name, language) \<leftarrow> Contract.required m ''from'' (object_field (\<lambda>f. do {
       i \<leftarrow> Contract.required f ''id'' (coerce_int (wa_coercions w));
       n \<leftarrow> nullable (pd_str (en_pydantic (wa_env w))) f ''first_name'';
       l \<leftarrow> nullable (pd_str (en_pydantic (wa_env w))) f ''language_code'';
       Some (i, n, l) }));
     chat \<leftarrow> Contract.required m ''chat'' (object_field (\<lambda>c. Contract.required c ''id'' (coerce_int (wa_coercions w))));
     t \<leftarrow> Contract.required m ''text'' (\<lambda>v. pd_str (en_pydantic (wa_env w)) v \<bind> non_empty);
     Some \<lparr>tm_from_id = uid, tm_first_name = name, tm_language_code = language, tm_chat_id = chat, tm_text = t\<rparr> })"

definition read_telegram_update :: "web_app \<Rightarrow> json \<Rightarrow> TelegramUpdate option" where
  "read_telegram_update w = object_field (\<lambda>m. do {
     i \<leftarrow> Contract.required m ''update_id'' (coerce_int (wa_coercions w));
     x \<leftarrow> nullable (read_telegram_message w) m ''message'';
     Some \<lparr>tu_update_id = i, tu_message = x\<rparr> })"

record DreamCreate =
  dc_text :: ustr
  dc_telegram_id :: int
  dc_first_name :: "ustr option"
  dc_language_code :: "ustr option"

definition read_dream_create :: "web_app \<Rightarrow> json \<Rightarrow> DreamCreate option" where
  "read_dream_create w = object_field (\<lambda>m. do {
     t \<leftarrow> Contract.required m ''text'' (\<lambda>v. pd_str (en_pydantic (wa_env w)) v \<bind> non_empty);
     i \<leftarrow> Contract.required m ''telegram_id'' (coerce_int (wa_coercions w));
     n \<leftarrow> nullable (pd_str (en_pydantic (wa_env w))) m ''telegram_first_name'';
     l \<leftarrow> nullable (pd_str (en_pydantic (wa_env w))) m ''telegram_language_code'';
     Some \<lparr>dc_text = t, dc_telegram_id = i, dc_first_name = n, dc_language_code = l\<rparr> })"

definition read_prompt_update :: "web_app \<Rightarrow> json \<Rightarrow> ustr option" where
  "read_prompt_update w = object_field (\<lambda>m. Contract.required m ''content'' (\<lambda>v. pd_str (en_pydantic (wa_env w)) v \<bind> non_empty))"

text \<open>What cannot be read is answered by \<open>validation_exception_handler\<close>.\<close>

definition or_invalid :: "'a option \<Rightarrow> 'a db" where
  "or_invalid x = (case x of None \<Rightarrow> throwM invalid_query_parameters | Some y \<Rightarrow> returnM y)"

definition json_of :: "request_body \<Rightarrow> json option" where
  "json_of b = (case b of Body v \<Rightarrow> Some v | _ \<Rightarrow> None)"

definition body_of :: "(json \<Rightarrow> 'a option) \<Rightarrow> request \<Rightarrow> 'a db" where
  "body_of r q = or_invalid (json_of (rq_body q) \<bind> r)"

subsection \<open>The routes\<close>

datatype segment = Fixed string | Param

datatype endpoint =
    TelegramWebhook | PostDream
  | JournalSessions | JournalDreams | JournalDream | JournalPatterns
  | SessionSummary | AnalyzeSession | SessionAnalyses | AnalyzeAsync | AnalysisJob | SessionJobs
  | AdminUsers | AdminDreams | AdminSessions | AdminSession | AdminEvents | AdminTrace | AdminPolicyTrace
  | AdminSessionDreams | AdminPolicy | AdminDream | AdminPrompts | AdminNewPrompt
  | CurrentPlayer | OtherPlayers | SearchPlayers | Root | Metrics

text \<open>The routes in the order in which \<open>main.py\<close> includes the routers, and each router declares them.\<close>

definition ROUTES :: "(http_method \<times> segment list \<times> endpoint) list" where
  "ROUTES =
    [(POST, [Fixed ''telegram'', Fixed ''webhook''], TelegramWebhook),
     (POST, [Fixed ''dreams''], PostDream),
     (GET, [Fixed ''api'', Fixed ''v1'', Fixed ''journal'', Fixed ''sessions''], JournalSessions),
     (GET, [Fixed ''api'', Fixed ''v1'', Fixed ''journal'', Fixed ''dreams''], JournalDreams),
     (GET, [Fixed ''api'', Fixed ''v1'', Fixed ''journal'', Fixed ''dreams'', Param], JournalDream),
     (GET, [Fixed ''api'', Fixed ''v1'', Fixed ''journal'', Fixed ''patterns''], JournalPatterns),
     (GET, [Fixed ''sessions'', Param, Fixed ''summary''], SessionSummary),
     (POST, [Fixed ''sessions'', Param, Fixed ''analyze''], AnalyzeSession),
     (GET, [Fixed ''sessions'', Param, Fixed ''analysis''], SessionAnalyses),
     (POST, [Fixed ''sessions'', Param, Fixed ''analyze-async''], AnalyzeAsync),
     (GET, [Fixed ''analysis-jobs'', Param], AnalysisJob),
     (GET, [Fixed ''sessions'', Param, Fixed ''analysis-jobs''], SessionJobs),
     (GET, [Fixed ''admin'', Fixed ''api'', Fixed ''users''], AdminUsers),
     (GET, [Fixed ''admin'', Fixed ''api'', Fixed ''dreams''], AdminDreams),
     (GET, [Fixed ''admin'', Fixed ''api'', Fixed ''sessions''], AdminSessions),
     (GET, [Fixed ''admin'', Fixed ''api'', Fixed ''sessions'', Param], AdminSession),
     (GET, [Fixed ''admin'', Fixed ''api'', Fixed ''sessions'', Param, Fixed ''events''], AdminEvents),
     (GET, [Fixed ''admin'', Fixed ''api'', Fixed ''sessions'', Param, Fixed ''trace''], AdminTrace),
     (GET, [Fixed ''admin'', Fixed ''api'', Fixed ''sessions'', Param, Fixed ''policy-trace''], AdminPolicyTrace),
     (GET, [Fixed ''admin'', Fixed ''api'', Fixed ''sessions'', Param, Fixed ''dreams''], AdminSessionDreams),
     (GET, [Fixed ''admin'', Fixed ''api'', Fixed ''sessions'', Param, Fixed ''policy''], AdminPolicy),
     (GET, [Fixed ''admin'', Fixed ''api'', Fixed ''dreams'', Param], AdminDream),
     (GET, [Fixed ''admin'', Fixed ''api'', Fixed ''prompts''], AdminPrompts),
     (POST, [Fixed ''admin'', Fixed ''api'', Fixed ''prompts'', Param], AdminNewPrompt),
     (POST, [Fixed ''api'', Fixed ''v1'', Fixed ''players''], CurrentPlayer),
     (GET, [Fixed ''api'', Fixed ''v1'', Fixed ''players'', Param], OtherPlayers),
     (GET, [Fixed ''api'', Fixed ''v1'', Fixed ''players'', Fixed ''username'', Param], SearchPlayers),
     (GET, [], Root),
     (GET, [Fixed ''metrics''], Metrics)]"

fun match_path :: "segment list \<Rightarrow> ustr list \<Rightarrow> ustr list option" where
  "match_path [] [] = Some []"
| "match_path (Fixed t # ps) (x # xs) = (if x = ascii t then match_path ps xs else None)"
| "match_path (Param # ps) (x # xs) = (if x = [] then None else map_option (Cons x) (match_path ps xs))"
| "match_path _ _ = None"

datatype found = Found endpoint "segment list" "ustr list" | WrongMethod | NoRoute

text \<open>The first route whose method and path fit; a path that fits with another method only is refused.\<close>

fun find_route :: "(http_method \<times> segment list \<times> endpoint) list \<Rightarrow> http_method \<Rightarrow> ustr list \<Rightarrow> found" where
  "find_route [] m path = NoRoute"
| "find_route ((m', p, e) # rs) m path =
     (case match_path p path of
        None \<Rightarrow> find_route rs m path
      | Some args \<Rightarrow> if m' = m then Found e p args
                     else (case find_route rs m path of NoRoute \<Rightarrow> WrongMethod | r \<Rightarrow> r))"

subsection \<open>Sessions, analyses and jobs\<close>

definition uuid_param :: "web_app \<Rightarrow> ustr \<Rightarrow> (uuid \<Rightarrow> 'a db) \<Rightarrow> 'a db" where
  "uuid_param w t k = bindM (or_invalid (wa_uuid w t)) k"

definition int_param :: "web_app \<Rightarrow> ustr \<Rightarrow> (int \<Rightarrow> 'a db) \<Rightarrow> 'a db" where
  "int_param w t k = bindM (or_invalid (wa_int w t)) k"

definition get_session_summary_endpoint :: "web_app \<Rightarrow> uuid \<Rightarrow> answer db" where
  "get_session_summary_endpoint w sid =
     bindM (get_session_summary sid) (\<lambda>found.
     case found of
       Some x \<Rightarrow> returnM (ASummary x)
     | None \<Rightarrow> bindM (build_session_summary (en_unicode (wa_env w)) sid) (\<lambda>x.
         bindM (save_session_summary x) (\<lambda>saved. returnM (ASummary saved))))"

text \<open>\<open>AnalysisModeQuery\<close>, a literal type with the default \<open>auto\<close>.\<close>

definition analysis_mode_query :: "request \<Rightarrow> string option" where
  "analysis_mode_query q = (case rq_query q ''mode'' of
     None \<Rightarrow> Some ''auto'' | Some t \<Rightarrow> find (\<lambda>m. ascii m = t) [''auto'', ''new'', ''continue''])"

definition analyze_session_endpoint :: "web_app \<Rightarrow> uuid \<Rightarrow> string \<Rightarrow> answer db" where
  "analyze_session_endpoint w sid mode =
     bindM (run_session_analysis (wa_env w) (Inl sid) (mode_request mode) None DEFAULT_PROMPT_VERSION) (\<lambda>saved.
     bindM (liftM (build_session_analysis_schema (en_unicode (wa_env w)) (en_pydantic (wa_env w)) saved)) (\<lambda>x.
     returnM (AAnalysis x)))"

definition get_session_analysis_endpoint :: "web_app \<Rightarrow> uuid \<Rightarrow> answer db" where
  "get_session_analysis_endpoint w sid =
     bindM (get_session_analysis_history (en_unicode (wa_env w)) (en_pydantic (wa_env w)) sid) (\<lambda>h.
     if hi_threads h = [] then throwM (HTTPException 404 [Lit ''Analysis not found'']) else returnM (AHistory h))"

text \<open>
  The session of the path need not exist; then the foreign key of the table of jobs refuses the row. Other
  callers of \<open>create_job\<close> pass a session they have just read.
\<close>

definition referring_to :: "uuid \<Rightarrow> 'a db \<Rightarrow> 'a db" where
  "referring_to sid m = bindM (find_session sid) (\<lambda>r. case r of None \<Rightarrow> throwM IntegrityError | Some _ \<Rightarrow> m)"

definition analyze_session_async_endpoint :: "web_app \<Rightarrow> uuid \<Rightarrow> string \<Rightarrow> answer db" where
  "analyze_session_async_endpoint w sid mode =
     bindM (referring_to sid (create_job sid (ig_llm_provider (wa_ingress w)) (ig_default_model (wa_ingress w))
       (ig_job_max_attempts (wa_ingress w)) mode None)) (\<lambda>j.
     returnM (AJobCreated (job_id j) (job_status j)))"

definition get_analysis_job_endpoint :: "uuid \<Rightarrow> answer db" where
  "get_analysis_job_endpoint i = bindM (or_404 ''Analysis job not found'' (get_job i)) (\<lambda>j. returnM (AJob j))"

definition list_session_analysis_jobs_endpoint :: "uuid \<Rightarrow> answer db" where
  "list_session_analysis_jobs_endpoint sid = bindM (list_session_jobs sid) (\<lambda>js. returnM (AJobs sid js))"

subsection \<open>The console\<close>

definition list_admin_users_endpoint :: "answer db" where
  "list_admin_users_endpoint = bindM list_admin_users (\<lambda>xs. returnM (AUsers xs))"

definition list_admin_dreams_endpoint :: "answer db" where
  "list_admin_dreams_endpoint = bindM (list_admin_all_dreams 200) (\<lambda>xs. returnM (ADreams xs))"

definition list_admin_sessions_endpoint :: "answer db" where
  "list_admin_sessions_endpoint = bindM list_admin_sessions (\<lambda>xs. returnM (ASessions xs))"

definition get_admin_session_endpoint :: "uuid \<Rightarrow> answer db" where
  "get_admin_session_endpoint sid = bindM (or_404 ''Session not found'' (get_admin_session sid)) (\<lambda>x. returnM (ASession x))"

definition list_admin_session_events_endpoint :: "web_app \<Rightarrow> uuid \<Rightarrow> answer db" where
  "list_admin_session_events_endpoint w sid =
     bindM (or_404 ''Session not found'' (build_admin_events (en_formats (wa_env w)) sid)) (\<lambda>es. returnM (AEvents es))"

definition get_admin_session_trace_endpoint :: "web_app \<Rightarrow> uuid \<Rightarrow> answer db" where
  "get_admin_session_trace_endpoint w sid =
     bindM (or_404 ''Session not found'' (build_admin_trace (en_formats (wa_env w)) sid)) (\<lambda>(i, es). returnM (ATrace i es))"

definition get_admin_session_policy_trace_alias_endpoint :: "web_app \<Rightarrow> uuid \<Rightarrow> answer db" where
  "get_admin_session_policy_trace_alias_endpoint w sid = get_admin_session_trace_endpoint w sid"

definition list_admin_session_dreams_endpoint :: "uuid \<Rightarrow> answer db" where
  "list_admin_session_dreams_endpoint sid =
     bindM (or_404 ''Session not found'' (list_admin_session_dreams sid)) (\<lambda>ds. returnM (ASessionDreams sid ds))"

definition list_admin_session_policy_endpoint :: "uuid \<Rightarrow> answer db" where
  "list_admin_session_policy_endpoint sid =
     bindM (or_404 ''Session not found'' (list_admin_policy_traces sid)) (\<lambda>ts. returnM (ATraces ts))"

definition get_admin_dream_endpoint :: "int \<Rightarrow> answer db" where
  "get_admin_dream_endpoint did = bindM (or_404 ''Dream not found'' (get_admin_dream did)) (\<lambda>d. returnM (ADream d))"

definition list_admin_prompts_endpoint :: "answer db" where
  "list_admin_prompts_endpoint = bindM list_prompt_versions (\<lambda>xs. returnM (APrompts xs))"

definition create_admin_prompt_version_endpoint :: "uuid \<Rightarrow> ustr \<Rightarrow> answer db" where
  "create_admin_prompt_version_endpoint i content =
     bindM (or_404 ''Prompt version not found'' (create_next_prompt_version i content)) (\<lambda>v. returnM (APrompt v))"

subsection \<open>The journal\<close>

text \<open>The dependency reads the header as an integer before it checks it.\<close>

definition journal_user :: "web_app \<Rightarrow> request \<Rightarrow> int db" where
  "journal_user w q = (case rq_user_id q of
     None \<Rightarrow> liftM (require_journal_user_id None)
   | Some t \<Rightarrow> bindM (or_invalid (wa_int w t)) (\<lambda>i. liftM (require_journal_user_id (Some i))))"

definition journal_list_sessions :: "int \<Rightarrow> answer db" where
  "journal_list_sessions uid = bindM (list_journal_sessions uid) (\<lambda>xs. returnM (AJournalSessions xs))"

definition journal_list_dreams :: "int \<Rightarrow> answer db" where
  "journal_list_dreams uid = bindM (list_journal_dreams uid) (\<lambda>xs. returnM (AJournalDreams xs))"

definition journal_get_dream :: "int \<Rightarrow> int \<Rightarrow> answer db" where
  "journal_get_dream uid did =
     bindM (or_404 ''Dream not found'' (get_journal_dream_detail uid did)) (\<lambda>x. returnM (AJournalDream x))"

definition journal_patterns :: "int \<Rightarrow> answer db" where
  "journal_patterns uid = bindM (get_journal_patterns uid) (\<lambda>x. returnM (AJournalPatterns x))"

subsection \<open>Dispatch\<close>

definition int_query :: "web_app \<Rightarrow> request \<Rightarrow> string \<Rightarrow> int \<Rightarrow> int db" where
  "int_query w q key d = (case rq_query q key of None \<Rightarrow> returnM d | Some t \<Rightarrow> or_invalid (wa_int w t))"

definition journal_endpoint :: "web_app \<Rightarrow> endpoint \<Rightarrow> ustr list \<Rightarrow> request \<Rightarrow> answer db" where
  "journal_endpoint w e args q =
     bindM (journal_user w q) (\<lambda>uid.
     case e of
       JournalSessions \<Rightarrow> journal_list_sessions uid
     | JournalDreams \<Rightarrow> journal_list_dreams uid
     | JournalDream \<Rightarrow> int_param w (hd args) (journal_get_dream uid)
     | _ \<Rightarrow> journal_patterns uid)"

text \<open>The router of the console guards all its routes.\<close>

definition admin_endpoint :: "web_app \<Rightarrow> endpoint \<Rightarrow> ustr list \<Rightarrow> request \<Rightarrow> answer db" where
  "admin_endpoint w e args q =
     thenM (liftM (require_admin_token (Some (wa_admin_token w)) (rq_admin_token q)))
     (case e of
       AdminUsers \<Rightarrow> list_admin_users_endpoint
     | AdminDreams \<Rightarrow> list_admin_dreams_endpoint
     | AdminSessions \<Rightarrow> list_admin_sessions_endpoint
     | AdminSession \<Rightarrow> uuid_param w (hd args) get_admin_session_endpoint
     | AdminEvents \<Rightarrow> uuid_param w (hd args) (list_admin_session_events_endpoint w)
     | AdminTrace \<Rightarrow> uuid_param w (hd args) (get_admin_session_trace_endpoint w)
     | AdminPolicyTrace \<Rightarrow> uuid_param w (hd args) (get_admin_session_policy_trace_alias_endpoint w)
     | AdminSessionDreams \<Rightarrow> uuid_param w (hd args) list_admin_session_dreams_endpoint
     | AdminPolicy \<Rightarrow> uuid_param w (hd args) list_admin_session_policy_endpoint
     | AdminDream \<Rightarrow> int_param w (hd args) get_admin_dream_endpoint
     | AdminPrompts \<Rightarrow> list_admin_prompts_endpoint
     | _ \<Rightarrow> uuid_param w (hd args) (\<lambda>i. bindM (body_of (read_prompt_update w) q) (create_admin_prompt_version_endpoint i)))"

definition player_endpoint :: "web_app \<Rightarrow> endpoint \<Rightarrow> ustr list \<Rightarrow> request \<Rightarrow> answer db" where
  "player_endpoint w e args q =
     (case e of
       CurrentPlayer \<Rightarrow> bindM (get_current_or_create_player (wa_hmac w) (en_float (wa_env w)) (wa_coercions w) (wa_bot_token w) (json_of (rq_body q)))
         (\<lambda>p. returnM (APlayer p))
     | _ \<Rightarrow>
         bindM (int_query w q ''page'' 1) (\<lambda>page.
         bindM (int_query w q ''limit'' 20) (\<lambda>limit.
         if e = OtherPlayers
         then bindM (get_other_players (en_unicode (wa_env w)) (wa_plan w) (hd args) page limit) (\<lambda>r.
           returnM (case r of Inl p \<Rightarrow> APlayer p | Inr (ps, pg) \<Rightarrow> APlayers ps pg))
         else bindM (search_players (en_unicode (wa_env w)) (wa_plan w) (hd args) page limit) (\<lambda>(ps, pg). returnM (APlayers ps pg)))))"

definition is_journal :: "endpoint \<Rightarrow> bool" where
  "is_journal e \<longleftrightarrow> e \<in> {JournalSessions, JournalDreams, JournalDream, JournalPatterns}"

definition is_admin :: "endpoint \<Rightarrow> bool" where
  "is_admin e \<longleftrightarrow> e \<in> {AdminUsers, AdminDreams, AdminSessions, AdminSession, AdminEvents, AdminTrace, AdminPolicyTrace,
     AdminSessionDreams, AdminPolicy, AdminDream, AdminPrompts, AdminNewPrompt}"

definition is_player :: "endpoint \<Rightarrow> bool" where
  "is_player e \<longleftrightarrow> e \<in> {CurrentPlayer, OtherPlayers, SearchPlayers}"

definition session_endpoint :: "web_app \<Rightarrow> endpoint \<Rightarrow> ustr list \<Rightarrow> request \<Rightarrow> answer db" where
  "session_endpoint w e args q =
     (case e of
       SessionSummary \<Rightarrow> uuid_param w (hd args) (get_session_summary_endpoint w)
     | AnalyzeSession \<Rightarrow> uuid_param w (hd args) (\<lambda>sid. bindM (or_invalid (analysis_mode_query q)) (analyze_session_endpoint w sid))
     | SessionAnalyses \<Rightarrow> uuid_param w (hd args) (get_session_analysis_endpoint w)
     | AnalyzeAsync \<Rightarrow> uuid_param w (hd args) (\<lambda>sid. bindM (or_invalid (analysis_mode_query q)) (analyze_session_async_endpoint w sid))
     | AnalysisJob \<Rightarrow> uuid_param w (hd args) get_analysis_job_endpoint
     | _ \<Rightarrow> uuid_param w (hd args) list_session_analysis_jobs_endpoint)"

definition message_endpoint :: "web_app \<Rightarrow> endpoint \<Rightarrow> request \<Rightarrow> answer db" where
  "message_endpoint w e q =
     (if e = TelegramWebhook
      then bindM (body_of (read_telegram_update w) q) (\<lambda>up. thenM (telegram_webhook (wa_ingress w) up) (returnM AOk))
      else bindM (body_of (read_dream_create w) q) (\<lambda>d.
        bindM (create_dream_endpoint (wa_ingress w) (dc_telegram_id d) (dc_text d) (dc_first_name d) (dc_language_code d))
          (\<lambda>(ms, sid, did). returnM (AReply ms sid did))))"

text \<open>The body of an endpoint that declares one is parsed before its dependencies run.\<close>

definition run_endpoint :: "web_app \<Rightarrow> endpoint \<Rightarrow> ustr list \<Rightarrow> request \<Rightarrow> answer db" where
  "run_endpoint w e args q =
     (if e \<in> {TelegramWebhook, PostDream, AdminNewPrompt} \<and> rq_body q = NotJson then throwM invalid_query_parameters
      else if e \<in> {TelegramWebhook, PostDream} then message_endpoint w e q
      else if is_journal e then journal_endpoint w e args q
      else if is_admin e then admin_endpoint w e args q
      else if is_player e then player_endpoint w e args q
      else session_endpoint w e args q)"

subsection \<open>A request\<close>

text \<open>The exceptions that have a handler become responses; the others leave the application.\<close>

fun http_exception_response :: "exn \<Rightarrow> response option" where
  "http_exception_response (HTTPException c m) = Some \<lparr>rp_status = c, rp_content = Inl m\<rparr>"
| "http_exception_response e = None"

definition general_exception_handler :: "exn \<Rightarrow> response" where
  "general_exception_handler e = \<lparr>rp_status = http_code SOMETHING_WENT_WRONG, rp_content = Inl [Lit (error_detail SOMETHING_WENT_WRONG)]\<rparr>"

definition ok_response :: "answer \<Rightarrow> response" where
  "ok_response a = \<lparr>rp_status = 200, rp_content = Inr a\<rparr>"

text \<open>Every endpoint but the two without a database runs in the session of \<open>get_session\<close>.\<close>

definition call_endpoint :: "web_app \<Rightarrow> endpoint \<Rightarrow> ustr list \<Rightarrow> request \<Rightarrow> response db" where
  "call_endpoint w e args q s =
     (if e = Root then (Inr \<lparr>rp_status = 307, rp_content = Inr (ARedirect (ascii ''/docs''))\<rparr>, s)
      else if e = Metrics then (Inr (ok_response AMetrics), s)
      else case transaction (run_endpoint w e args q) s of
        (Inr a, t) \<Rightarrow> (Inr (ok_response a), t)
      | (Inl x, t) \<Rightarrow> (case http_exception_response x of Some r \<Rightarrow> (Inr r, t) | None \<Rightarrow> (Inl x, t)))"

definition call_next :: "web_app \<Rightarrow> request \<Rightarrow> response db" where
  "call_next w q s = (case find_route ROUTES (rq_method q) (rq_path q) of
     NoRoute \<Rightarrow> (Inr \<lparr>rp_status = 404, rp_content = Inl [Lit ''Not Found'']\<rparr>, s)
   | WrongMethod \<Rightarrow> (Inr \<lparr>rp_status = 405, rp_content = Inl [Lit ''Method Not Allowed'']\<rparr>, s)
   | Found e p args \<Rightarrow> call_endpoint w e args q s)"

definition serve :: "web_app \<Rightarrow> request \<Rightarrow> world \<Rightarrow> response \<times> world" where
  "serve w q s = (case call_next w q s of (Inl x, t) \<Rightarrow> (general_exception_handler x, t) | (Inr r, t) \<Rightarrow> (r, t))"

subsection \<open>Metrics\<close>

type_synonym label = "http_method \<times> segment list"

record metrics =
  mt_requests :: "label \<Rightarrow> nat"
  mt_in_progress :: "label \<Rightarrow> int"
  mt_responses :: "label \<Rightarrow> int \<Rightarrow> nat"
  mt_exceptions :: "label \<Rightarrow> nat"    \<comment> \<open>the type of the exception is left out\<close>
  mt_durations :: "label \<Rightarrow> nat"    \<comment> \<open>the number of observations\<close>

definition get_path :: "request \<Rightarrow> label option" where
  "get_path q = (case find_route ROUTES (rq_method q) (rq_path q) of Found e p args \<Rightarrow> Some (rq_method q, p) | _ \<Rightarrow> None)"

text \<open>\<open>PrometheusMiddleware.dispatch\<close>: an exception is counted and raised again, and the counters are settled
  either way.\<close>

definition begin_request :: "label \<Rightarrow> metrics \<Rightarrow> metrics" where
  "begin_request l m = m\<lparr>mt_in_progress := (mt_in_progress m)(l := mt_in_progress m l + 1),
     mt_requests := (mt_requests m)(l := mt_requests m l + 1)\<rparr>"

definition count_exception :: "label \<Rightarrow> metrics \<Rightarrow> metrics" where
  "count_exception l m = m\<lparr>mt_exceptions := (mt_exceptions m)(l := mt_exceptions m l + 1)\<rparr>"

definition observe_duration :: "label \<Rightarrow> metrics \<Rightarrow> metrics" where
  "observe_duration l m = m\<lparr>mt_durations := (mt_durations m)(l := mt_durations m l + 1)\<rparr>"

definition end_request :: "label \<Rightarrow> int \<Rightarrow> metrics \<Rightarrow> metrics" where
  "end_request l status m = m\<lparr>mt_responses := (mt_responses m)(l := (mt_responses m l)(status := mt_responses m l status + 1)),
     mt_in_progress := (mt_in_progress m)(l := mt_in_progress m l - 1)\<rparr>"

definition dispatch :: "web_app \<Rightarrow> request \<Rightarrow> world \<Rightarrow> metrics \<Rightarrow> (exn + response) \<times> world \<times> metrics" where
  "dispatch w q s m = (case get_path q of
     None \<Rightarrow> (case call_next w q s of (r, t) \<Rightarrow> (r, t, m))
   | Some l \<Rightarrow>
       let m1 = begin_request l m in
       (case call_next w q s of
          (Inl x, t) \<Rightarrow> (Inl x, t, end_request l 500 (count_exception l m1))
        | (Inr r, t) \<Rightarrow> (Inr r, t, end_request l (rp_status r) (observe_duration l m1))))"

subsection \<open>The worker of the application\<close>

record app_state =
  as_worker :: "AnalysisRuntimeWorker option"
  as_task :: bool

definition start_runtime_worker ::
  "(ustr \<Rightarrow> bool) \<Rightarrow> unit db \<Rightarrow> unit db \<Rightarrow> RuntimeConfig \<Rightarrow> app_state \<Rightarrow> app_state db" where
  "start_runtime_worker netloc_ok probe pause c a =
     thenM (run_startup_validation netloc_ok probe pause c)
     (returnM (if \<not> should_start_runtime_worker c then a
       else \<lparr>as_worker = Some (new_worker ''fastapi-runtime-worker'' (analysis_worker_batch_size c) (analysis_worker_concurrency c)),
             as_task = True\<rparr>))"

definition stop_runtime_worker :: "app_state \<Rightarrow> app_state" where
  "stop_runtime_worker a = (case as_worker a of None \<Rightarrow> a
     | Some w \<Rightarrow> if \<not> as_task a then a else a\<lparr>as_worker := Some (stop_worker w)\<rparr>)"

subsection \<open>Routing\<close>

lemma find_route_Found: "find_route rs m path = Found e p args \<Longrightarrow> (m, p, e) \<in> set rs \<and> match_path p path = Some args"
  by (induction rs m path rule: find_route.induct) (auto split: option.splits if_splits found.splits)

lemma admin_routes:
  assumes "find_route ROUTES m (ascii ''admin'' # ascii ''api'' # rest) = Found e p args"
  shows "is_admin e"
  using find_route_Found [OF assms] by (auto simp: ROUTES_def is_admin_def ascii_def)

lemma get_routes:
  assumes "find_route ROUTES GET path = Found e p args"
  shows "e \<notin> {TelegramWebhook, PostDream, AnalyzeSession, AnalyzeAsync, AdminNewPrompt, CurrentPlayer}"
    and "e = SessionSummary \<Longrightarrow> \<exists>t. path = [ascii ''sessions'', t, ascii ''summary''] \<and> args = [t]"
proof -
  note f = find_route_Found [OF assms]
  show "e \<notin> {TelegramWebhook, PostDream, AnalyzeSession, AnalyzeAsync, AdminNewPrompt, CurrentPlayer}"
    using f by (auto simp: ROUTES_def)
  assume "e = SessionSummary"
  then have "p = [Fixed ''sessions'', Param, Fixed ''summary'']" using f by (auto simp: ROUTES_def)
  then show "\<exists>t. path = [ascii ''sessions'', t, ascii ''summary''] \<and> args = [t]"
    using f by (cases path; cases "tl path"; cases "tl (tl path)"; cases "tl (tl (tl path))") (auto split: if_splits)
qed

text \<open>
  Nothing was stored: every table is as it was, and the threads are those of before with what other requests
  committed meanwhile.
\<close>

definition nothing_stored :: "world \<Rightarrow> world \<Rightarrow> bool" where
  "nothing_stored s t \<longleftrightarrow> stored_tables t = stored_tables s \<and> (\<exists>rs. threads t = fold commit_rival rs (threads s))"

definition opened :: "world \<Rightarrow> world" where
  "opened s = s\<lparr>clock := \<lambda>n. clock s (Suc n), tx_now := clock s 0\<rparr>"

lemma opened_sel [simp]: "stored_tables (opened s) = stored_tables s" "threads (opened s) = threads s"
  by (simp_all add: stored_tables_def opened_def)

lemma transaction_run: "transaction m s = atomically m (opened s)"
  by (simp add: transaction_def run opened_def)

lemma nothing_stored_refl: "nothing_stored s s"
  unfolding nothing_stored_def by (auto intro: exI [of _ "[]"])

lemma transaction_error:
  assumes "transaction m s = (Inl e, t)" shows "nothing_stored s t"
proof -
  have a: "atomically m (opened s) = (Inl e, t)" using assms by (simp add: transaction_run)
  then obtain u where "t = rollback_to (opened s) u" by (auto simp: atomically_def split: prod.splits sum.splits)
  then have "threads t = fold commit_rival (rivals_pending u) (threads s)" by (simp add: rollback_to_def)
  then show ?thesis using rolled_back [OF a] by (auto simp: nothing_stored_def)
qed

lemma call_endpoint_cases:
  assumes "call_endpoint w e args q s = (r, t)"
  shows "(\<exists>x. r = Inl x \<and> http_exception_response x = None \<and> transaction (run_endpoint w e args q) s = (Inl x, t))
    \<or> (\<exists>x y. r = Inr y \<and> http_exception_response x = Some y \<and> transaction (run_endpoint w e args q) s = (Inl x, t))
    \<or> (\<exists>a. r = Inr (ok_response a) \<and> (transaction (run_endpoint w e args q) s = (Inr a, t) \<or> e = Metrics \<and> t = s))
    \<or> rp_status (projr r) = 307 \<and> t = s"
  using assms by (auto simp: call_endpoint_def split: if_splits prod.splits sum.splits option.splits)

subsection \<open>What every request guarantees\<close>

text \<open>C14. Whatever the endpoint, a request that is answered with an error has stored nothing.\<close>

theorem failed_requests_store_nothing:
  assumes "serve w q s = (r, t)" and "400 \<le> rp_status r"
  shows "nothing_stored s t"
proof (cases "find_route ROUTES (rq_method q) (rq_path q)")
  case (Found e p args)
  obtain x u where c: "call_endpoint w e args q s = (x, u)" by fastforce
  then have u: "u = t" using assms(1) Found by (auto simp: serve_def call_next_def split: sum.splits)
  from call_endpoint_cases [OF c] show ?thesis
  proof (elim disjE exE conjE)
    fix y assume "transaction (run_endpoint w e args q) s = (Inl y, u)"
    then show ?thesis using transaction_error u by blast
  next
    fix y z assume "transaction (run_endpoint w e args q) s = (Inl y, u)"
    then show ?thesis using transaction_error u by blast
  next
    fix a assume "x = Inr (ok_response a)"
    then have "rp_status r = 200" using assms(1) Found c by (auto simp: serve_def call_next_def ok_response_def)
    then show ?thesis using assms(2) by simp
  next
    fix a assume "x = Inr (ok_response a)"
    then have "rp_status r = 200" using assms(1) Found c by (auto simp: serve_def call_next_def ok_response_def)
    then show ?thesis using assms(2) by simp
  next
    assume "u = s" then show ?thesis using u nothing_stored_refl by simp
  qed
qed (use assms(1) nothing_stored_refl in \<open>auto simp: serve_def call_next_def\<close>)

lemma admin_token_wrong:
  assumes "t \<noteq> Some tok \<or> tok = []"
  shows "\<exists>x. require_admin_token (Some tok) t = Inl x \<and> (\<exists>m. x = HTTPException 401 m \<or> x = HTTPException 403 m \<or> x = TypeError m)"
  using assms by (cases t) (auto simp: require_admin_token_def is_falsy_def compare_digest_def bindE_def)

lemma admin_refused:
  assumes "is_admin e" and "require_admin_token (Some (wa_admin_token w)) (rq_admin_token q) = Inl x"
  shows "\<exists>y. (y = x \<or> y = invalid_query_parameters) \<and> (\<forall>s. transaction (run_endpoint w e args q) s = (Inl y, rollback_to (opened s) (opened s)))"
proof -
  have "e \<notin> {TelegramWebhook, PostDream}" "\<not> is_journal e" using assms(1) by (auto simp: is_admin_def is_journal_def)
  then show ?thesis using assms
    by (cases "e = AdminNewPrompt \<and> rq_body q = NotJson")
      (auto simp: transaction_run run_endpoint_def admin_endpoint_def atomically_def run)
qed

text \<open>C15. The console is closed to everyone who does not present the token, and to everyone while no token is
  set: the answer to such a request does not depend on what is stored (it is the same in any two states), it is
  an error, and nothing is stored.\<close>

theorem console_is_closed_without_token:
  assumes "rq_path q = ascii ''admin'' # ascii ''api'' # rest"
    and "rq_admin_token q \<noteq> Some (wa_admin_token w) \<or> wa_admin_token w = []"
  shows "fst (serve w q s) = fst (serve w q s') \<and> rp_status (fst (serve w q s)) \<in> {401, 403, 404, 405, 422, 500}
    \<and> nothing_stored s (snd (serve w q s))"
proof (cases "find_route ROUTES (rq_method q) (rq_path q)")
  case (Found e p args)
  then have e: "is_admin e" using admin_routes assms(1) by metis
  obtain x where x: "require_admin_token (Some (wa_admin_token w)) (rq_admin_token q) = Inl x"
    "\<exists>m. x = HTTPException 401 m \<or> x = HTTPException 403 m \<or> x = TypeError m" using admin_token_wrong [OF assms(2)] by blast
  obtain y where y: "y = x \<or> y = invalid_query_parameters"
    "\<And>u. transaction (run_endpoint w e args q) u = (Inl y, rollback_to (opened u) (opened u))"
    using admin_refused [OF e x(1)] by blast
  have "nothing_stored s (rollback_to (opened s) (opened s))" using y(2) transaction_error by metis
  moreover have "e \<noteq> Root" "e \<noteq> Metrics" using e by (auto simp: is_admin_def)
  ultimately show ?thesis using x(2) y
    by (auto simp: serve_def call_next_def Found call_endpoint_def general_exception_handler_def
        invalid_query_parameters_def custom_http_exception_def)
qed (simp_all add: serve_def call_next_def nothing_stored_refl)

subsection \<open>Reading\<close>

lemma transaction_keeps:
  assumes "keeps (\<lambda>s. (stored_tables s, threads s)) m" shows "nothing_stored s (snd (transaction m s))"
proof -
  obtain r t where m: "m (opened s) = (r, t)" by fastforce
  then have t: "stored_tables t = stored_tables s" "threads t = threads s" using keepsD [OF assms] by simp_all
  show ?thesis
  proof (cases r)
    case (Inl e)
    then have "transaction m s = (Inl e, snd (transaction m s))" using m by (simp add: transaction_run atomically_def)
    then show ?thesis by (rule transaction_error)
  next
    case (Inr a)
    then show ?thesis using m t by (auto simp: transaction_run atomically_def nothing_stored_def intro: exI [of _ "[]"])
  qed
qed

lemmas read_defs = journal_endpoint_def admin_endpoint_def player_endpoint_def session_endpoint_def
  journal_list_sessions_def journal_list_dreams_def journal_get_dream_def journal_patterns_def journal_user_def
  list_admin_users_endpoint_def list_admin_dreams_endpoint_def list_admin_sessions_endpoint_def get_admin_session_endpoint_def
  list_admin_session_events_endpoint_def get_admin_session_trace_endpoint_def get_admin_session_policy_trace_alias_endpoint_def
  list_admin_session_dreams_endpoint_def list_admin_session_policy_endpoint_def get_admin_dream_endpoint_def
  list_admin_prompts_endpoint_def get_session_analysis_endpoint_def get_analysis_job_endpoint_def
  list_session_analysis_jobs_endpoint_def uuid_param_def int_param_def or_invalid_def or_404_def int_query_def known_session_def
  list_journal_sessions_def list_journal_dreams_def get_journal_dream_detail_def get_journal_patterns_def list_admin_users_def
  list_admin_all_dreams_def list_admin_sessions_def get_admin_session_def build_admin_events_def build_admin_trace_def
  list_admin_session_dreams_def list_admin_policy_traces_def get_admin_dream_def list_prompt_versions_def get_session_analysis_history_def
  list_session_analyses_def list_session_threads_def get_job_def list_session_jobs_def get_other_players_def search_players_def
  get_players_by_ids_def get_players_by_username_def get_player_def valid_page_def page_of_def find_session_def get_dream_memory_def

lemma reads_keep:
  assumes "e \<notin> {TelegramWebhook, PostDream, AnalyzeSession, AnalyzeAsync, AdminNewPrompt, CurrentPlayer, SessionSummary}"
  shows "keeps f (run_endpoint w e args q)"
proof -
  have "is_journal e \<Longrightarrow> keeps f (journal_endpoint w e args q)"
    by (cases e) (auto simp: is_journal_def read_defs intro!: keep)
  moreover have "is_admin e \<Longrightarrow> keeps f (admin_endpoint w e args q)"
    using assms by (cases e) (auto simp: is_admin_def read_defs intro!: keep)
  moreover have "is_player e \<Longrightarrow> keeps f (player_endpoint w e args q)"
    using assms by (cases e) (auto simp: is_player_def read_defs intro!: keep)
  moreover have "keeps f (session_endpoint w e args q)"
    using assms by (cases e) (auto simp: read_defs intro!: keep)
  ultimately show ?thesis using assms by (auto simp: run_endpoint_def)
qed

lemma find_none_notin: "find (\<lambda>x. f x = i) xs = None \<longleftrightarrow> i \<notin> f ` set xs"
  by (auto simp: find_None_iff image_iff)

lemma summary_endpoint_Inr:
  assumes "get_session_summary_endpoint w sid s = (Inr a, t)"
  shows "t = s \<or> (\<exists>x. sid \<notin> ss_session_id ` set (summaries s) \<and> a = ASummary x \<and> ss_session_id x = sid
    \<and> stored_tables t = stored_tables (s\<lparr>summaries := summaries s @ [x]\<rparr>) \<and> threads t = threads s)"
proof (cases "find (\<lambda>x. ss_session_id x = sid) (summaries s)")
  case None
  then have new: "sid \<notin> ss_session_id ` set (summaries s)" by (simp add: find_none_notin)
  obtain r where r: "find (\<lambda>r. ds_id r = sid) (sessions s) = Some r"
    using assms None
    by (cases "find (\<lambda>r. ds_id r = sid) (sessions s)")
      (auto simp: get_session_summary_endpoint_def get_session_summary_def build_session_summary_def find_session_def run)
  define x where "x = summary_of (en_unicode (wa_env w)) (uuids s 0) r (tx_now s) (session_dreams sid s)"
  have id: "ss_session_id x = sid" using find_SomeD [OF r] by (simp add: x_def summary_of_def Let_def)
  have run': "get_session_summary_endpoint w sid s = bindM (save_session_summary x) (\<lambda>saved. returnM (ASummary saved))
      (s\<lparr>uuids := \<lambda>n. uuids s (Suc n)\<rparr>)"
    using None r by (simp add: get_session_summary_endpoint_def get_session_summary_def build_session_summary_def find_session_def
        x_def uuid4_def bindM_def getsM_def returnM_def)
  note x = id run'
  have up: "upsert_summary x (summaries s) = summaries s @ [x]" using new x(1) by (auto simp: upsert_summary_def image_iff)
  have "find (\<lambda>y. ss_session_id y = sid) (summaries s @ [x]) = Some x" using None x(1) by (simp add: find_append_None)
  then have "a = ASummary x \<and> t = s\<lparr>uuids := \<lambda>n. uuids s (Suc n), summaries := summaries s @ [x]\<rparr>"
    using assms x up by (simp add: save_session_summary_def get_session_summary_def run)
  then show ?thesis using new x(1) by (auto simp: stored_tables_def)
qed (use assms in \<open>auto simp: get_session_summary_endpoint_def get_session_summary_def run\<close>)

text \<open>C17. A GET request stores nothing, with one exception: the first request for the summary of a session stores
  that summary, and answers with it.\<close>

theorem reads_do_not_write:
  assumes "rq_method q = GET" and "serve w q s = (r, t)"
  shows "nothing_stored s t \<or> (\<exists>a sid x. rq_path q = [ascii ''sessions'', a, ascii ''summary''] \<and> wa_uuid w a = Some sid
    \<and> sid \<notin> ss_session_id ` set (summaries s) \<and> r = ok_response (ASummary x) \<and> ss_session_id x = sid
    \<and> stored_tables t = stored_tables (s\<lparr>summaries := summaries s @ [x]\<rparr>) \<and> threads t = threads s)"
proof (cases "find_route ROUTES (rq_method q) (rq_path q)")
  case (Found e p args)
  note routes = get_routes [OF Found [unfolded assms(1)]]
  obtain x u where c: "call_endpoint w e args q s = (x, u)" by fastforce
  then have u: "u = t" using assms(2) Found by (auto simp: serve_def call_next_def split: sum.splits)
  show ?thesis
  proof (cases "e = SessionSummary")
    case False
    have "keeps (\<lambda>s. (stored_tables s, threads s)) (run_endpoint w e args q)" using routes(1) False by (intro reads_keep) auto
    then have "nothing_stored s (snd (transaction (run_endpoint w e args q) s))" by (rule transaction_keeps)
    then have "nothing_stored s u" using call_endpoint_cases [OF c] nothing_stored_refl by (elim disjE exE conjE) simp_all
    then show ?thesis using u by simp
  next
    case True
    obtain a where a: "rq_path q = [ascii ''sessions'', a, ascii ''summary'']" "args = [a]" using routes(2) [OF True] by blast
    have e: "run_endpoint w e args q = bindM (or_invalid (wa_uuid w a)) (get_session_summary_endpoint w)"
      using True a(2) by (simp add: run_endpoint_def is_journal_def is_admin_def is_player_def session_endpoint_def uuid_param_def)
    from call_endpoint_cases [OF c] show ?thesis
    proof (elim disjE exE conjE)
      fix b assume x: "x = Inr (ok_response b)" "transaction (run_endpoint w e args q) s = (Inr b, u)"
      then have "run_endpoint w e args q (opened s) = (Inr b, u)"
        by (auto simp: transaction_run atomically_def split: prod.splits sum.splits)
      then obtain sid where sid: "wa_uuid w a = Some sid" "get_session_summary_endpoint w sid (opened s) = (Inr b, u)"
        unfolding e by (auto simp: or_invalid_def run split: option.splits)
      have r: "r = ok_response b" using x c assms(2) Found by (simp add: serve_def call_next_def)
      from summary_endpoint_Inr [OF sid(2)] show ?thesis
      proof (elim disjE exE conjE)
        assume "u = opened s"
        then show ?thesis using u by (auto simp: nothing_stored_def intro: exI [of _ "[]"])
      next
        fix y assume y: "sid \<notin> ss_session_id ` set (summaries (opened s))" "b = ASummary y" "ss_session_id y = sid"
          "stored_tables u = stored_tables ((opened s)\<lparr>summaries := summaries (opened s) @ [y]\<rparr>)" "threads u = threads (opened s)"
        then show ?thesis using a(1) sid(1) r u by (intro disjI2 exI [of _ a] exI [of _ sid] exI [of _ y]) (simp add: stored_tables_def opened_def)
      qed
    next
      assume "u = s" then show ?thesis using u nothing_stored_refl by simp
    qed (use transaction_error u True nothing_stored_refl in blast)+
  qed
qed (use assms(2) nothing_stored_refl in \<open>auto simp: serve_def call_next_def\<close>)

subsection \<open>Updates without a text\<close>

lemma webhook_route: "rq_method q = POST \<Longrightarrow> rq_path q = [ascii ''telegram'', ascii ''webhook''] \<Longrightarrow>
    find_route ROUTES (rq_method q) (rq_path q) = Found TelegramWebhook [Fixed ''telegram'', Fixed ''webhook''] []"
  by (simp add: ROUTES_def)

lemma no_text_unreadable:
  "lookup (ascii ''text'') msg = None \<Longrightarrow> read_telegram_message w (JObj msg) = None"
  by (auto simp: read_telegram_message_def object_field_def Contract.required_def Option.bind_eq_None_conv split: option.splits)

text \<open>The handler means to ignore an update whose message has no text (\<open>if not update.message.text: return\<close>), but the
  schema it reads demands one: such an update (a photo, a sticker, a voice message) is answered 422, so Telegram
  sends it again; nothing is stored and nothing is sent to the user.\<close>

theorem message_without_text_is_refused:
  assumes "rq_method q = POST" and "rq_path q = [ascii ''telegram'', ascii ''webhook'']" and "rq_body q = Body (JObj m)"
    and "lookup (ascii ''message'') m = Some (JObj msg)" and "lookup (ascii ''text'') msg = None"
    and "serve w q s = (r, t)"
  shows "rp_status r = 422 \<and> nothing_stored s t \<and> sent t = sent s"
proof -
  have "nullable (read_telegram_message w) m ''message'' = None"
    using assms(4) no_text_unreadable [OF assms(5)] by (simp add: nullable_def)
  then have "read_telegram_update w (JObj m) = None"
    by (simp add: read_telegram_update_def object_field_def Option.bind_eq_None_conv)
  then have "run_endpoint w TelegramWebhook [] q = throwM invalid_query_parameters"
    using assms(3) by (auto simp: run_endpoint_def message_endpoint_def body_of_def json_of_def or_invalid_def run)
  then have x: "transaction (run_endpoint w TelegramWebhook [] q) s = (Inl invalid_query_parameters, rollback_to (opened s) (opened s))"
    by (simp add: transaction_run atomically_def run)
  then have "r = \<lparr>rp_status = 422, rp_content = Inl [Lit ''Invalid query parameters'']\<rparr>" "t = rollback_to (opened s) (opened s)"
    using assms(6) webhook_route [OF assms(1, 2)]
    by (auto simp: serve_def call_next_def call_endpoint_def invalid_query_parameters_def custom_http_exception_def)
  then show ?thesis using transaction_error [OF x] by (simp add: opened_def)
qed

subsection \<open>The metrics settle\<close>

primrec dispatch_all :: "web_app \<Rightarrow> request list \<Rightarrow> world \<Rightarrow> metrics \<Rightarrow> world \<times> metrics" where
  "dispatch_all w [] s m = (s, m)"
| "dispatch_all w (q # qs) s m = (case dispatch w q s m of (r, t, m') \<Rightarrow> dispatch_all w qs t m')"

lemma dispatch_run:
  obtains r t m' where "dispatch w q s m = (r, t, m')" "call_next w q s = (r, t)" "mt_in_progress m' = mt_in_progress m"
    "\<And>l. mt_requests m' l = mt_requests m l + (if get_path q = Some l then 1 else 0)"
    "\<And>l. mt_exceptions m' l = mt_exceptions m l + (if get_path q = Some l \<and> (\<exists>x. r = Inl x) then 1 else 0)"
    "\<And>l. mt_durations m' l = mt_durations m l + (if get_path q = Some l \<and> (\<exists>x. r = Inr x) then 1 else 0)"
    "\<And>l c. mt_responses m' l c = mt_responses m l c +
      (if get_path q = Some l \<and> c = (case r of Inl x \<Rightarrow> 500 | Inr x \<Rightarrow> rp_status x) then 1 else 0)"
proof -
  obtain r t where c: "call_next w q s = (r, t)" by fastforce
  show ?thesis
  proof (cases "get_path q")
    case None
    then show ?thesis using that [of r t m] c by (simp add: dispatch_def)
  next
    case (Some l)
    define m' where "m' = (case r of Inl x \<Rightarrow> end_request l 500 (count_exception l (begin_request l m))
      | Inr x \<Rightarrow> end_request l (rp_status x) (observe_duration l (begin_request l m)))"
    have "dispatch w q s m = (r, t, m')" using Some c by (cases r) (simp_all add: dispatch_def m'_def)
    then show ?thesis using that [of r t m'] c Some
      by (cases r) (auto simp: m'_def begin_request_def end_request_def count_exception_def observe_duration_def fun_eq_iff)
  qed
qed

text \<open>The middleware does not change what a request does or answers. Whatever the requests and their outcomes, the
  gauge of requests in progress returns to its value, every request of a known route is counted once, and either
  its duration is observed or its exception is counted.\<close>

theorem metrics_settle:
  "fst (dispatch w q s m) = fst (call_next w q s) \<and> fst (snd (dispatch w q s m)) = snd (call_next w q s)
   \<and> mt_in_progress (snd (dispatch_all w qs s m)) = mt_in_progress m
   \<and> mt_requests (snd (dispatch_all w qs s m)) l = mt_requests m l + length (filter (\<lambda>q. get_path q = Some l) qs)
   \<and> mt_exceptions (snd (dispatch_all w qs s m)) l + mt_durations (snd (dispatch_all w qs s m)) l
     = mt_exceptions m l + mt_durations m l + length (filter (\<lambda>q. get_path q = Some l) qs)"
proof -
  have "fst (dispatch w q s m) = fst (call_next w q s) \<and> fst (snd (dispatch w q s m)) = snd (call_next w q s)"
    by (rule dispatch_run [of w q s m]) simp
  moreover have "mt_in_progress (snd (dispatch_all w qs s m)) = mt_in_progress m
   \<and> mt_requests (snd (dispatch_all w qs s m)) l = mt_requests m l + length (filter (\<lambda>q. get_path q = Some l) qs)
   \<and> mt_exceptions (snd (dispatch_all w qs s m)) l + mt_durations (snd (dispatch_all w qs s m)) l
     = mt_exceptions m l + mt_durations m l + length (filter (\<lambda>q. get_path q = Some l) qs)"
  proof (induction qs arbitrary: s m)
    case (Cons p qs)
    obtain r t m' where d: "dispatch w p s m = (r, t, m')" "mt_in_progress m' = mt_in_progress m"
      "mt_requests m' l = mt_requests m l + (if get_path p = Some l then 1 else 0)"
      "mt_exceptions m' l = mt_exceptions m l + (if get_path p = Some l \<and> (\<exists>x. r = Inl x) then 1 else 0)"
      "mt_durations m' l = mt_durations m l + (if get_path p = Some l \<and> (\<exists>x. r = Inr x) then 1 else 0)"
      by (rule dispatch_run [of w p s m]) blast
    show ?case using Cons [of t m'] d by (cases r) auto
  qed simp
  ultimately show ?thesis by blast
qed

subsection \<open>A concrete application\<close>

definition sample_app :: web_app where
  "sample_app = \<lparr>wa_ingress = sample_ingress, wa_admin_token = ascii ''secret'', wa_bot_token = ascii ''token'', wa_hmac = length_mac,
     wa_coercions = sample_coercions, wa_plan = id, wa_uuid = (\<lambda>t. if t = ascii ''s1'' then Some 7 else None),
     wa_int = (\<lambda>t. None)\<rparr>"

definition request_of :: "http_method \<Rightarrow> string list \<Rightarrow> request" where
  "request_of m p = \<lparr>rq_method = m, rq_path = map ascii p, rq_query = Map.empty, rq_admin_token = None, rq_user_id = None, rq_body = Absent\<rparr>"

lemma request_sel [simp]: "rq_method (request_of m p) = m" "rq_path (request_of m p) = map ascii p" "rq_admin_token (request_of m p) = None"
    "rq_body (request_of m p) = Absent" "rq_query (request_of m p) = Map.empty"
  by (simp_all add: request_of_def)

definition get_summary :: request where
  "get_summary = request_of GET [''sessions'', ''s1'', ''summary'']"

lemma get_summary_call:
  "call_next sample_app get_summary s = (case transaction (get_session_summary_endpoint sample_app 7) s of
      (Inr a, t) \<Rightarrow> (Inr (ok_response a), t)
    | (Inl x, t) \<Rightarrow> (case http_exception_response x of Some r \<Rightarrow> (Inr r, t) | None \<Rightarrow> (Inl x, t)))"
proof -
  have "find_route ROUTES GET (map ascii [''sessions'', ''s1'', ''summary'']) =
      Found SessionSummary [Fixed ''sessions'', Param, Fixed ''summary''] [ascii ''s1'']"
    by (simp add: ROUTES_def) (simp add: ascii_def)
  moreover have "run_endpoint sample_app SessionSummary [ascii ''s1''] get_summary = get_session_summary_endpoint sample_app 7"
    by (auto simp: run_endpoint_def is_journal_def is_admin_def is_player_def session_endpoint_def uuid_param_def or_invalid_def
        sample_app_def run)
  ultimately show ?thesis by (simp add: call_next_def call_endpoint_def get_summary_def)
qed

lemma unknown_summary: "rp_status (fst (serve sample_app get_summary empty_world)) = 404"
proof -
  have empty: "sessions (opened empty_world) = []" "summaries (opened empty_world) = []" by (simp_all add: opened_def empty_world_def)
  have "get_session_summary_endpoint sample_app 7 (opened empty_world) = (Inl (HTTPException 404 [Lit ''Session not found'']), opened empty_world)"
    using empty by (simp add: get_session_summary_endpoint_def get_session_summary_def build_session_summary_def find_session_def run)
  then show ?thesis by (simp add: serve_def get_summary_call transaction_run atomically_def)
qed

text \<open>A request for the summary of an unknown session.\<close>

theorem failed_requests_store_nothing_witness:
  "rp_status (fst (serve sample_app get_summary empty_world)) = 404 \<and> summaries (snd (serve sample_app get_summary empty_world)) = []"
proof -
  obtain r t where r: "serve sample_app get_summary empty_world = (r, t)" by fastforce
  with unknown_summary have "rp_status r = 404" by simp
  with failed_requests_store_nothing [OF r] r show ?thesis by (simp add: nothing_stored_def stored_tables_def empty_world_def)
qed

theorem console_is_closed_without_token_witness:
  "rp_status (fst (serve sample_app (request_of GET [''admin'', ''api'', ''users'']) sample_world)) \<in> {401, 403, 404, 405, 422, 500}"
  using console_is_closed_without_token [of "request_of GET [''admin'', ''api'', ''users'']" "[ascii ''users'']" sample_app sample_world]
  by simp

text \<open>The first request for the summary of a stored session.\<close>

lemma first_summary: "\<exists>x t. serve sample_app get_summary sample_world = (ok_response (ASummary x), t) \<and> summaries t = [x]"
proof -
  let ?s = "opened sample_world"
  have s: "find (\<lambda>r. ds_id r = 7) (sessions ?s) = Some sample_session" "summaries ?s = []"
    by (simp_all add: opened_def sample_world_def sample_session_def empty_world_def)
  define x where "x = summary_of (en_unicode (wa_env sample_app)) (uuids ?s 0) sample_session (tx_now ?s) (session_dreams 7 ?s)"
  have "ss_session_id x = 7" by (simp add: x_def summary_of_def Let_def sample_session_def)
  then have "\<exists>t. get_session_summary_endpoint sample_app 7 ?s = (Inr (ASummary x), t) \<and> summaries t = [x]"
    using s by (simp add: get_session_summary_endpoint_def get_session_summary_def build_session_summary_def find_session_def
        x_def [symmetric] uuid4_def bindM_def getsM_def returnM_def save_session_summary_def thenM_def modifyM_def upsert_summary_def)
  then show ?thesis by (auto simp: serve_def get_summary_call transaction_run atomically_def)
qed

theorem reads_do_not_write_witness:
  "\<exists>x t. serve sample_app get_summary sample_world = (ok_response (ASummary x), t) \<and> ss_session_id x = 7
    \<and> stored_tables t = stored_tables (sample_world\<lparr>summaries := [x]\<rparr>)"
proof -
  obtain x t where t: "serve sample_app get_summary sample_world = (ok_response (ASummary x), t)" "summaries t = [x]"
    using first_summary by blast
  have "rq_method get_summary = GET" "wa_uuid sample_app (ascii ''s1'') = Some 7" "rq_path get_summary = map ascii [''sessions'', ''s1'', ''summary'']"
    "summaries sample_world = []"
    by (simp_all add: get_summary_def sample_app_def sample_world_def empty_world_def)
  with reads_do_not_write [OF _ t(1)] t show ?thesis by (auto simp: nothing_stored_def stored_tables_def ok_response_def)
qed

definition photo :: request where
  "photo = (request_of POST [''telegram'', ''webhook''])\<lparr>rq_body := Body (JObj [(ascii ''update_id'', JInt 1),
     (ascii ''message'', JObj [(ascii ''from'', JObj [(ascii ''id'', JInt 1)]), (ascii ''chat'', JObj [(ascii ''id'', JInt 1)]),
       (ascii ''photo'', JList [])])])\<rparr>"

theorem message_without_text_is_refused_witness:
  "rp_status (fst (serve sample_app photo sample_world)) = 422 \<and> turns (snd (serve sample_app photo sample_world)) = []"
proof -
  obtain r t where r: "serve sample_app photo sample_world = (r, t)" by fastforce
  have "rp_status r = 422 \<and> nothing_stored sample_world t \<and> sent t = sent sample_world"
    by (rule message_without_text_is_refused [OF _ _ _ _ _ r,
        of "[(ascii ''update_id'', JInt 1), (ascii ''message'', JObj [(ascii ''from'', JObj [(ascii ''id'', JInt 1)]),
          (ascii ''chat'', JObj [(ascii ''id'', JInt 1)]), (ascii ''photo'', JList [])])]"
        "[(ascii ''from'', JObj [(ascii ''id'', JInt 1)]), (ascii ''chat'', JObj [(ascii ''id'', JInt 1)]), (ascii ''photo'', JList [])]"])
      (simp_all add: photo_def request_of_def ascii_def)
  then show ?thesis using r by (simp add: nothing_stored_def stored_tables_def sample_world_def empty_world_def)
qed

end
