(* ===== verification/Bot.thy ===== *)
theory Bot
  imports Web
begin

text \<open>
  The polling bot (\<open>bot/handlers/dreams.py\<close>, \<open>bot/clients/backend_client.py\<close>): it hands a text message to
  \<open>POST /dreams\<close> of the application and relays the answer to the chat. The network is a parameter: a request
  is answered, or it is carried out but its answer is lost (a time-out), or it does not arrive.
\<close>

subsection \<open>The client\<close>

datatype network = Delivered | Lost | Down

datatype http_error = HTTPStatusError int | TransportError

definition dream_payload :: "ustr \<Rightarrow> int \<Rightarrow> ustr option \<Rightarrow> ustr option \<Rightarrow> json" where
  "dream_payload t telegram_id first_name language_code =
     JObj ([(ascii ''text'', JStr t), (ascii ''telegram_id'', JInt telegram_id)]
       @ (case first_name of None \<Rightarrow> [] | Some n \<Rightarrow> [(ascii ''telegram_first_name'', JStr n)])
       @ (case language_code of None \<Rightarrow> [] | Some l \<Rightarrow> [(ascii ''telegram_language_code'', JStr l)]))"

definition dream_request :: "json \<Rightarrow> request" where
  "dream_request payload = \<lparr>rq_method = POST, rq_path = [ascii ''dreams''], rq_query = Map.empty, rq_admin_token = None,
     rq_user_id = None, rq_body = Body payload\<rparr>"

definition post :: "web_app \<Rightarrow> network \<Rightarrow> request \<Rightarrow> (http_error + response) db" where
  "post w net q s = (case net of
     Down \<Rightarrow> (Inr (Inl TransportError), s)
   | Lost \<Rightarrow> (Inr (Inl TransportError), snd (serve w q s))
   | Delivered \<Rightarrow> (case serve w q s of (r, t) \<Rightarrow> (Inr (Inr r), t)))"

definition raise_for_status :: "response \<Rightarrow> http_error + response" where
  "raise_for_status r = (if 200 \<le> rp_status r \<and> rp_status r < 300 then Inr r else Inl (HTTPStatusError (rp_status r)))"

text \<open>\<open>payload.get("messages") or []\<close>: only the answer of \<open>POST /dreams\<close> has messages.\<close>

definition messages_of :: "response \<Rightarrow> ustr list" where
  "messages_of r = (case rp_content r of Inr (AReply ms sid did) \<Rightarrow> ms | _ \<Rightarrow> [])"

definition backend_create_dream ::
  "web_app \<Rightarrow> network \<Rightarrow> ustr \<Rightarrow> int \<Rightarrow> ustr option \<Rightarrow> ustr option \<Rightarrow> (http_error + ustr list) db" where
  "backend_create_dream w net t telegram_id first_name language_code =
     bindM (post w net (dream_request (dream_payload t telegram_id first_name language_code))) (\<lambda>response.
     returnM (case response of
       Inl e \<Rightarrow> Inl e
     | Inr r \<Rightarrow> (case raise_for_status r of Inl e \<Rightarrow> Inl e | Inr _ \<Rightarrow> Inr (messages_of r))))"

subsection \<open>The handler\<close>

record bot_user =
  bu_id :: int
  bu_first_name :: "ustr option"
  bu_language_code :: "ustr option"

record bot_message =
  bm_from_user :: "bot_user option"
  bm_text :: "ustr option"

definition ERROR_TEXT :: ustr where
  "ERROR_TEXT =
    [1053, 1077, 32, 1091, 1076, 1072, 1083, 1086, 1089, 1100, 32, 1086, 1073, 1088, 1072, 1073, 1086,
     1090, 1072, 1090, 1100, 32, 1089, 1086, 1086, 1073, 1097, 1077, 1085, 1080, 1077, 46, 32, 1055,
     1086, 1087, 1088, 1086, 1073, 1091, 1081, 1090, 1077, 32, 1087, 1086, 1079, 1078, 1077, 46]"

text \<open>
  \<open>typing\<close> is the typing indicator, whose failure is only logged; \<open>answer\<close> sends a message to the chat. Only
  \<open>httpx.HTTPError\<close> is caught.
\<close>

definition bot_try_send_typing :: "unit db \<Rightarrow> unit db" where
  "bot_try_send_typing typing = catchM typing (\<lambda>e. returnM ())"

definition handle_dream_message :: "web_app \<Rightarrow> network \<Rightarrow> unit db \<Rightarrow> (ustr \<Rightarrow> unit db) \<Rightarrow> bot_message \<Rightarrow> unit db" where
  "handle_dream_message w net typing answer m =
     (case (bm_from_user m, bm_text m) of
       (Some usr, Some t) \<Rightarrow>
         if t = [] then returnM ()
         else thenM (bot_try_send_typing typing) (
           bindM (backend_create_dream w net t (bu_id usr) (bu_first_name usr) (bu_language_code usr)) (\<lambda>r.
           case r of Inl e \<Rightarrow> answer ERROR_TEXT | Inr ms \<Rightarrow> foreachM answer ms))
     | _ \<Rightarrow> returnM ())"

subsection \<open>The bot and the application agree\<close>

text \<open>The body that the client builds is read back by the schema of the endpoint, whatever is left out of it.\<close>

lemma payload_is_read:
  assumes "pydantic_laws (en_pydantic (wa_env w))" and "coerce_int (wa_coercions w) (JInt i) = Some i" and "t \<noteq> []"
  shows "read_dream_create w (dream_payload t i n l) =
    Some \<lparr>dc_text = t, dc_telegram_id = i, dc_first_name = n, dc_language_code = l\<rparr>"
proof -
  note str = pydantic_laws.str_self [OF assms(1)]
  show ?thesis using assms(2, 3)
    by (cases n; cases l)
      (simp_all add: read_dream_create_def dream_payload_def object_field_def Contract.required_def nullable_def str non_empty_def ascii_def)
qed

lemma dreams_route: "find_route ROUTES POST [ascii ''dreams''] = Found PostDream [Fixed ''dreams''] []"
  by (simp add: ROUTES_def ascii_def)

lemma dreams_call:
  assumes "read_dream_create w payload = Some \<lparr>dc_text = t, dc_telegram_id = i, dc_first_name = n, dc_language_code = l\<rparr>"
  shows "serve w (dream_request payload) s =
    (case transaction (process_incoming_message (wa_ingress w) i t n l None) s of
       (Inr r, u) \<Rightarrow> (ok_response (AReply (ir_outbound_messages r) (ir_session_id r) (ir_dream_id r)), u)
     | (Inl e, u) \<Rightarrow> (case http_exception_response e of Some r \<Rightarrow> (r, u) | None \<Rightarrow> (general_exception_handler e, u)))"
proof -
  have "run_endpoint w PostDream [] (dream_request payload) =
      bindM (process_incoming_message (wa_ingress w) i t n l None) (\<lambda>r. returnM (AReply (ir_outbound_messages r) (ir_session_id r) (ir_dream_id r)))"
    using assms by (auto simp: run_endpoint_def message_endpoint_def body_of_def json_of_def or_invalid_def dream_request_def
        create_dream_endpoint_def run bindM_def split: prod.split sum.split)
  then show ?thesis
    by (auto simp: serve_def call_next_def dream_request_def dreams_route call_endpoint_def transaction_run atomically_def bindM_def
        returnM_def split: prod.split sum.split option.split)
qed

definition say :: "ustr \<Rightarrow> ustr \<Rightarrow> unit db" where
  "say chat t = modifyM (\<lambda>s. s\<lparr>sent := sent s @ [(chat, t)]\<rparr>)"

lemma say_one: "say chat t s = (Inr (), s\<lparr>sent := sent s @ [(chat, t)]\<rparr>)"
  by (simp add: say_def run)

lemma say_all: "foreachM (say chat) ms s = (Inr (), s\<lparr>sent := sent s @ map (Pair chat) ms\<rparr>)"
  by (induction ms arbitrary: s) (simp_all add: say_def run)

text \<open>C16. What the user of the bot is told: the messages of the ingress if the answer arrives, and otherwise (the
  application fails, cannot be reached, or its answer is lost) the one error text. The stored data are those of
  the ingress, and none if it failed or was not reached; but after a lost answer the user is told that the message
  could not be processed although it was.\<close>

theorem bot_relays_the_answer:
  assumes "pydantic_laws (en_pydantic (wa_env w))" and "coerce_int (wa_coercions w) (JInt (bu_id usr)) = Some (bu_id usr)"
    and "bm_from_user m = Some usr" and "bm_text m = Some t" and "t \<noteq> []"
    and "transaction (process_incoming_message (wa_ingress w) (bu_id usr) t (bu_first_name usr) (bu_language_code usr) None) s = (r, u)"
    and "\<And>c x. r = Inl (HTTPException c x) \<Longrightarrow> 400 \<le> c"
  shows "handle_dream_message w net (returnM ()) (say chat) m s = (Inr (),
      (let v = if net = Down then s else u;
           told = case r of Inr x \<Rightarrow> if net = Delivered then ir_outbound_messages x else [ERROR_TEXT] | Inl e \<Rightarrow> [ERROR_TEXT]
       in v\<lparr>sent := sent v @ map (Pair chat) told\<rparr>))
    \<and> ((\<exists>e. r = Inl e) \<longrightarrow> nothing_stored s u)"
proof
  note call = dreams_call [OF payload_is_read [OF assms(1, 2, 5)], of "bu_first_name usr" "bu_language_code usr" s]
  have told: "backend_create_dream w net t (bu_id usr) (bu_first_name usr) (bu_language_code usr) s =
      (Inr (case r of Inr x \<Rightarrow> if net = Delivered then Inr (ir_outbound_messages x) else Inl TransportError
        | Inl e \<Rightarrow> if net = Delivered then Inl (HTTPStatusError (rp_status (case http_exception_response e of Some r \<Rightarrow> r | None \<Rightarrow> general_exception_handler e)))
            else Inl TransportError), if net = Down then s else u)"
  proof (cases r)
    case (Inl e)
    have "400 \<le> rp_status (case http_exception_response e of Some r \<Rightarrow> r | None \<Rightarrow> general_exception_handler e)"
      using assms(7) Inl by (cases e) (auto simp: general_exception_handler_def)
    then show ?thesis using call assms(6) Inl
      by (cases net; cases "http_exception_response e") (simp_all add: backend_create_dream_def post_def raise_for_status_def bindM_def returnM_def)
  next
    case (Inr x)
    then show ?thesis using call assms(6)
      by (cases net) (simp_all add: backend_create_dream_def post_def raise_for_status_def bindM_def returnM_def ok_response_def messages_of_def)
  qed
  show "handle_dream_message w net (returnM ()) (say chat) m s = (Inr (),
      (let v = if net = Down then s else u;
           told = case r of Inr x \<Rightarrow> if net = Delivered then ir_outbound_messages x else [ERROR_TEXT] | Inl e \<Rightarrow> [ERROR_TEXT]
       in v\<lparr>sent := sent v @ map (Pair chat) told\<rparr>))"
    using assms(3-5) told
    by (cases r) (auto simp: handle_dream_message_def bot_try_send_typing_def run Let_def say_one say_all split: if_splits)
  show "(\<exists>e. r = Inl e) \<longrightarrow> nothing_stored s u" using assms(6) transaction_error by blast
qed

subsection \<open>A lost answer\<close>

definition hi_message :: bot_message where
  "hi_message = \<lparr>bm_from_user = Some \<lparr>bu_id = 1, bu_first_name = None, bu_language_code = None\<rparr>, bm_text = Some (ascii ''hi'')\<rparr>"

lemma hi_processed:
  "\<exists>r u. transaction (process_incoming_message sample_ingress 1 (ascii ''hi'') None None None) empty_world = (Inr r, u) \<and> turns u \<noteq> []"
proof -
  have route: "pd_route (decide (build_policy_input basic_unicode (ascii ''hi'') NEW)) = ROUTE_CLARIFICATION" by code_simp
  obtain q u where q: "get_or_create_active_session 1 (opened empty_world) = (q, u)" by fastforce
  obtain x where x: "q = Inr x" by (rule get_or_create_ids [OF q])
  have new: "filter (active_of 1) (sessions (opened empty_world)) = []" by (simp add: opened_def empty_world_def)
  obtain r v where "process_incoming_message sample_ingress 1 (ascii ''hi'') None None None (opened empty_world) = (Inr r, v)" "turns v \<noteq> []"
    using new route fixed_reply_run [OF q [unfolded x]]
    by (simp add: process_incoming_message_def bindM_def evaluate_run Let_def)
  then show ?thesis by (auto simp: transaction_run atomically_def)
qed

theorem bot_relays_the_answer_witness:
  "\<exists>t. handle_dream_message sample_app Lost (returnM ()) (say (ascii ''1'')) hi_message empty_world = (Inr (), t)
    \<and> (ascii ''1'', ERROR_TEXT) \<in> set (sent t) \<and> turns t \<noteq> []"
proof -
  obtain r u where r: "transaction (process_incoming_message sample_ingress 1 (ascii ''hi'') None None None) empty_world = (Inr r, u)" "turns u \<noteq> []"
    using hi_processed by blast
  have app: "wa_ingress sample_app = sample_ingress" "wa_coercions sample_app = sample_coercions"
    "en_pydantic (wa_env sample_app) = basic_pydantic"
    by (simp_all add: sample_app_def sample_environment_def sample_ingress_def)
  let ?u = "\<lparr>bu_id = 1, bu_first_name = None, bu_language_code = None\<rparr>"
  have "handle_dream_message sample_app Lost (returnM ()) (say (ascii ''1'')) hi_message empty_world =
      (Inr (), u\<lparr>sent := sent u @ [(ascii ''1'', ERROR_TEXT)]\<rparr>)"
    using bot_relays_the_answer [of sample_app ?u hi_message "ascii ''hi''" empty_world "Inr r" u Lost "ascii ''1''"]
      r(1) basic_pd.pydantic_laws_axioms
    by (simp add: hi_message_def app sample_coercions_def) (simp add: ascii_def)
  then show ?thesis using r(2) by simp
qed

end
