(* ===== verification/JobSpec.thy ===== *)
theory JobSpec
  imports Jobs
begin

text \<open>
  What the job queue promises, without rows, clocks and locks: every job waits, is held by a worker or is
  finished, and carries the number of its attempts. The service of theory Jobs refines this life cycle.
\<close>

subsection \<open>The abstract queue\<close>

datatype phase = Waiting | Held "string option" | Finished bool

type_synonym queue = "uuid \<rightharpoonup> phase \<times> int"

inductive phase_step :: "phase \<times> int \<Rightarrow> phase \<times> int \<Rightarrow> bool" where
  claim: "phase_step (Waiting, n) (Held w, n + 1)"
| give_back: "phase_step (Held w, n) (Waiting, n)"
| finish: "phase_step (Held w, n) (Finished b, n)"

inductive_simps phase_step_simps [simp]:
  "phase_step (Waiting, n) a" "phase_step (Held w, n) a" "phase_step (Finished b, n) a"

inductive queue_step :: "queue \<Rightarrow> queue \<Rightarrow> bool" where
  submit: "q i = None \<Longrightarrow> queue_step q (q(i \<mapsto> (Waiting, 0)))"
| advance: "q i = Some a \<Longrightarrow> phase_step a b \<Longrightarrow> queue_step q (q(i \<mapsto> b))"

inductive_cases queue_stepE: "queue_step q r"

subsection \<open>The abstraction\<close>

definition phase_of :: "analysis_job \<Rightarrow> phase" where
  "phase_of x = (case job_status x of
      QUEUED \<Rightarrow> Waiting
    | RUNNING \<Rightarrow> Held (job_locked_by x)
    | COMPLETED \<Rightarrow> Finished True
    | FAILED \<Rightarrow> Finished False
    | CANCELLED \<Rightarrow> Finished False)"

definition abs_job :: "analysis_job \<Rightarrow> phase \<times> int" where
  "abs_job x = (phase_of x, job_attempts x)"

definition abs_jobs :: "analysis_job list \<Rightarrow> queue" where
  "abs_jobs xs = map_of (map (\<lambda>x. (job_id x, abs_job x)) xs)"

definition abs_queue :: "world \<Rightarrow> queue" where
  "abs_queue s = abs_jobs (jobs s)"

lemma abs_jobs_Nil [simp]: "abs_jobs [] = Map.empty"
  and abs_jobs_Cons [simp]: "abs_jobs (x # xs) = (abs_jobs xs)(job_id x \<mapsto> abs_job x)"
  by (simp_all add: abs_jobs_def)

lemma dom_abs_jobs: "dom (abs_jobs xs) = job_id ` set xs"
  by (simp add: abs_jobs_def dom_map_of_conv_image_fst image_image)

lemma abs_jobs_find: "abs_jobs xs i = map_option abs_job (find (\<lambda>x. job_id x = i) xs)"
  by (induction xs) auto

lemma abs_job_rows:
  "job_status x = RUNNING \<Longrightarrow> phase_step (abs_job x) (abs_job (recover_job t n x))"
  "job_status x = QUEUED \<Longrightarrow> phase_step (abs_job x) (abs_job (lock_job w t x))"
  by (simp_all add: abs_job_def phase_of_def job_row_defs)

lemma abs_put_down:
  "abs_job (complete_job th t x) = (Finished True, job_attempts x)"
  "abs_job (fail_job c m b t x) = (Finished False, job_attempts x)"
  "abs_job (requeue_job d c m t x) = (Waiting, job_attempts x)"
  by (simp_all add: abs_job_def phase_of_def job_row_defs)

subsection \<open>A change of many rows is a sequence of steps\<close>

lemma queue_step_frame: "queue_step q r \<Longrightarrow> r i = None \<Longrightarrow> queue_step (q(i \<mapsto> a)) (r(i \<mapsto> a))"
proof (induction rule: queue_step.induct)
  case (submit q j)
  then have "i \<noteq> j" by auto
  have "queue_step (q(i \<mapsto> a)) ((q(i \<mapsto> a))(j \<mapsto> (Waiting, 0)))"
    using submit \<open>i \<noteq> j\<close> by (intro queue_step.submit) simp
  then show ?case using fun_upd_twist [OF \<open>i \<noteq> j\<close>] by metis
next
  case (advance q j c b)
  then have "i \<noteq> j" by auto
  have "queue_step (q(i \<mapsto> a)) ((q(i \<mapsto> a))(j \<mapsto> b))"
    using advance(1) \<open>i \<noteq> j\<close> by (intro queue_step.advance [OF _ advance(2)]) simp
  then show ?case using fun_upd_twist [OF \<open>i \<noteq> j\<close>] by metis
qed

lemma queue_step_dom: "queue_step q r \<Longrightarrow> r i = None \<Longrightarrow> q i = None"
  by (auto elim!: queue_stepE split: if_splits)

lemma queue_steps_frame: "queue_step\<^sup>*\<^sup>* q r \<Longrightarrow> r i = None \<Longrightarrow> queue_step\<^sup>*\<^sup>* (q(i \<mapsto> a)) (r(i \<mapsto> a))"
proof (induction rule: rtranclp_induct)
  case (step r u)
  then have "r i = None" using queue_step_dom by blast
  then show ?case
    using step queue_step_frame [OF step.hyps(2) step.prems] by (meson rtranclp.rtrancl_into_rtrancl)
qed simp

lemma advance_many:
  assumes "phase_step\<^sup>*\<^sup>* a b"
  shows "queue_step\<^sup>*\<^sup>* (q(i \<mapsto> a)) (q(i \<mapsto> b))"
  using assms
proof (induction rule: rtranclp_induct)
  case (step b c)
  have "queue_step (q(i \<mapsto> b)) ((q(i \<mapsto> b))(i \<mapsto> c))" by (rule queue_step.advance [OF _ step.hyps(2)]) simp
  then show ?case using step.IH by (metis fun_upd_upd rtranclp.rtrancl_into_rtrancl)
qed simp

lemma update_rows_steps:
  assumes "distinct (map job_id xs)" and "\<And>x. job_id (f x) = job_id x"
    and "\<And>x. x \<in> set xs \<Longrightarrow> P x \<Longrightarrow> phase_step\<^sup>*\<^sup>* (abs_job x) (abs_job (f x))"
  shows "queue_step\<^sup>*\<^sup>* (abs_jobs xs) (abs_jobs (update_where P f xs))"
  using assms(1, 3)
proof (induction xs)
  case (Cons x xs)
  let ?ys = "update_where P f xs"
  have "job_id ` set ?ys = job_id ` set xs"
    using map_update_where [of P job_id f xs] assms(2) by (metis set_map)
  then have none: "abs_jobs ?ys (job_id x) = None"
    using Cons.prems(1) by (metis distinct.simps(2) dom_abs_jobs domIff list.simps(9) set_map)
  have "queue_step\<^sup>*\<^sup>* (abs_jobs xs) (abs_jobs ?ys)"
    using Cons by simp
  from queue_steps_frame [OF this none]
  have "queue_step\<^sup>*\<^sup>* (abs_jobs (x # xs)) ((abs_jobs ?ys)(job_id x \<mapsto> abs_job x))" by simp
  also have "queue_step\<^sup>*\<^sup>* ((abs_jobs ?ys)(job_id x \<mapsto> abs_job x)) (abs_jobs (update_where P f (x # xs)))"
    using advance_many [OF Cons.prems(2) [of x]] assms(2) by simp
  finally show ?case .
qed simp

lemma update_one_row:
  assumes "distinct (map job_id xs)" and "x \<in> set xs" and "\<And>y. job_id (f y) = job_id y"
  shows "abs_jobs (update_where (\<lambda>y. job_id y = job_id x) f xs) = (abs_jobs xs)(job_id x \<mapsto> abs_job (f x))"
  using assms(1, 2)
proof (induction xs)
  case (Cons y xs)
  show ?case
  proof (cases "y = x")
    case True
    then have "update_where (\<lambda>y. job_id y = job_id x) f xs = xs" using Cons.prems(1) by (intro update_where_id) (auto simp: image_iff)
    then show ?thesis using True assms(3) by (auto simp: fun_eq_iff)
  next
    case False
    then have "job_id y \<noteq> job_id x" "x \<in> set xs" using Cons.prems by auto
    then show ?thesis using Cons by (auto simp: fun_eq_iff)
  qed
qed simp

subsection \<open>The service refines the life cycle\<close>

lemma abs_env [simp]: "abs_queue (now_state now s) = abs_queue s"
  by (simp add: abs_queue_def)

lemma create_refines:
  assumes "jobs_ok s" and "create_job sid p m k md d s = (r, t)"
  shows "\<exists>x. r = Inr x \<and> abs_queue s (job_id x) = None \<and> abs_queue t = (abs_queue s)(job_id x \<mapsto> (Waiting, 0))"
proof -
  let ?x = "new_job (uuids s 0) sid p m k md d (clock s 0)"
  have fresh: "uuids s 0 \<notin> job_id ` set (jobs s)"
    using supplies_draw(1) assms(1) unfolding jobs_ok_def by blast
  then have none: "abs_jobs (jobs s) (job_id ?x) = None" by (metis dom_abs_jobs domIff new_job_sel(1))
  have x: "abs_job ?x = (Waiting, 0)" by (simp add: abs_job_def phase_of_def)
  have app: "abs_jobs (xs @ [y]) = (abs_jobs [y]) ++ abs_jobs xs" for xs y
    by (simp add: abs_jobs_def)
  have "abs_jobs (jobs s @ [?x]) = (abs_jobs (jobs s))(job_id ?x \<mapsto> (Waiting, 0))"
    using none by (intro ext) (auto simp: app x map_add_def split: option.split)
  then show ?thesis
    using assms(2) none by (auto simp: create_job_run Let_def abs_queue_def)
qed

lemma put_down_refines:
  assumes "jobs_ok s" and "put_down verb i now f s = (r, t)" and "\<And>u y. job_id (f u y) = job_id y"
    and "\<And>u y. abs_job (f u y) = (p, job_attempts y)"
  shows "case r of
      Inr x \<Rightarrow> \<exists>w n. abs_queue s i = Some (Held w, n) \<and> abs_queue t = (abs_queue s)(i \<mapsto> (p, n))
    | Inl e \<Rightarrow> t = s \<and> (\<forall>w n. abs_queue s i \<noteq> Some (Held w, n))"
proof (cases "find (\<lambda>x. job_id x = i) (jobs s)")
  case None
  then show ?thesis using assms(2) by (auto simp: put_down_run abs_queue_def abs_jobs_find)
next
  case (Some x)
  then have x: "x \<in> set (jobs s)" "job_id x = i" by (auto dest: find_SomeD)
  have d: "distinct (map job_id (jobs s))" using assms(1) by (simp add: jobs_ok_def)
  have a: "abs_queue s i = Some (abs_job x)" by (simp add: abs_queue_def abs_jobs_find Some)
  show ?thesis
  proof (cases "job_status x = RUNNING")
    case True
    then have "abs_job x = (Held (job_locked_by x), job_attempts x)" by (simp add: abs_job_def phase_of_def)
    moreover have "abs_jobs (update_where (\<lambda>y. job_id y = i) (f (now_of now s)) (jobs s)) =
        (abs_jobs (jobs s))(i \<mapsto> (p, job_attempts x))"
      using update_one_row [OF d x(1), of "f (now_of now s)"] assms(3, 4) x(2) by simp
    ultimately show ?thesis
      using assms(2) Some True a by (auto simp: put_down_run abs_queue_def)
  next
    case False
    then have "abs_job x \<noteq> (Held w, n)" for w n by (auto simp: abs_job_def phase_of_def split: job_status.splits)
    then show ?thesis using assms(2) Some False a by (auto simp: put_down_run)
  qed
qed

lemma acquire_refines:
  assumes "jobs_ok s" and "acquire_available_jobs dflt limit w now st s = (r, t)"
  shows "queue_step\<^sup>*\<^sup>* (abs_queue s) (abs_queue t)"
proof (cases "limit \<le> 0")
  case True
  then show ?thesis using assms(2) by (simp add: acquire_run)
next
  case False
  let ?t = "now_of now s" and ?n = "stale_of dflt st"
  let ?u = "recovered ?t ?n (now_state now s)"
  let ?xs = "picked ?u ?t limit"
  have u: "jobs_ok ?u" using assms(1) by (simp add: recovered_ok)
  have "queue_step\<^sup>*\<^sup>* (abs_jobs (jobs s)) (abs_jobs (jobs ?u))"
    unfolding recovered_def
    using assms(1) by (simp, intro update_rows_steps) (auto simp: jobs_ok_def stale_running_def intro: abs_job_rows)
  moreover have "queue_step\<^sup>*\<^sup>* (abs_jobs (jobs ?u)) (abs_jobs (locked w ?t ?xs (jobs ?u)))"
    unfolding locked_def
  proof (rule update_rows_steps)
    fix x assume x: "x \<in> set (jobs ?u)" "job_id x \<in> set (map job_id ?xs)"
    then obtain y where y: "y \<in> set ?xs" "job_id x = job_id y" by auto
    then have "x = y" using jobs_ok_same_id [OF u x(1)] set_picked by blast
    then show "phase_step\<^sup>*\<^sup>* (abs_job x) (abs_job (lock_job w ?t x))"
      using set_picked [OF y(1)] by (intro r_into_rtranclp abs_job_rows) (simp add: acquirable_def)
  qed (use u in \<open>simp_all add: jobs_ok_def\<close>)
  ultimately show ?thesis
    using False assms(2) by (auto simp: acquire_run Let_def abs_queue_def)
qed

lemma put_down_steps:
  assumes "case r of
      Inr x \<Rightarrow> \<exists>w n. abs_queue s i = Some (Held w, n) \<and> abs_queue t = (abs_queue s)(i \<mapsto> (p, n))
    | Inl e \<Rightarrow> t = s \<and> (\<forall>w n. abs_queue s i \<noteq> Some (Held w, n))" and "\<And>w n. phase_step (Held w, n) (p, n)"
  shows "queue_step\<^sup>*\<^sup>* (abs_queue s) (abs_queue t)"
  using assms(1) queue_step.advance [OF _ assms(2), of "abs_queue s" i] by (cases r) auto

lemma step_refines:
  assumes "job_step s t" and "jobs_ok s"
  shows "queue_step\<^sup>*\<^sup>* (abs_queue s) (abs_queue t)"
  using assms
proof (induction rule: job_step.induct)
  case (create sid p m k md d s r t)
  then show ?case using create_refines queue_step.submit by (metis r_into_rtranclp)
next
  case (acquire dflt limit w now st s r t)
  then show ?case using acquire_refines by blast
next
  case (complete i th now s r t)
  show ?case
    by (rule put_down_steps [OF put_down_refines [OF complete(2) complete(1) [unfolded put_down_defs]]]) (rule job_row_ids abs_put_down | auto)+
next
  case (fail i c msg b now s r t)
  show ?case
    by (rule put_down_steps [OF put_down_refines [OF fail(2) fail(1) [unfolded put_down_defs]]]) (rule job_row_ids abs_put_down | auto)+
next
  case (retry i d c msg now s r t)
  show ?case
    by (rule put_down_steps [OF put_down_refines [OF retry(2) retry(1) [unfolded put_down_defs]]]) (rule job_row_ids abs_put_down | auto)+
next
  case (elsewhere t s)
  then show ?case by (simp add: abs_queue_def)
qed

lemma reachable_refines: "job_reachable s \<Longrightarrow> queue_step\<^sup>*\<^sup>* Map.empty (abs_queue s)"
proof (induction rule: job_reachable.induct)
  case (start s)
  then show ?case by (simp add: abs_queue_def)
next
  case (step s t)
  then show ?case using step_refines [OF step(2) job_reachable_ok [OF step(1)]] by simp
qed

text \<open>C4. The job service is a correct implementation of the life cycle "waiting, held by a worker, finished": every
  reachable job table is an abstract queue that the life cycle reaches from the empty one, and every call of the
  service is a sequence of abstract steps, also the batch of recoveries and claims of one acquisition.\<close>

theorem job_service_refines_life_cycle:
  assumes "job_reachable s" and "job_step s t"
  shows "queue_step\<^sup>*\<^sup>* Map.empty (abs_queue s) \<and> queue_step\<^sup>*\<^sup>* (abs_queue s) (abs_queue t)"
  using reachable_refines [OF assms(1)] step_refines [OF assms(2) job_reachable_ok [OF assms(1)]] by blast

text \<open>The outcome reports are exactly the abstract steps: a report succeeds if and only if the job is held, and
  then it finishes or gives back that one job, keeps its attempts and touches no other; otherwise it raises and
  leaves the state as it is.\<close>

theorem outcome_reports_are_abstract_steps:
  assumes "job_reachable s" and "mark_completed i th now s = (r1, t1)" and "mark_failed i c msg b now s = (r2, t2)"
    and "requeue i d c msg now s = (r3, t3)"
  shows "case abs_queue s i of
      Some (Held w, n) \<Rightarrow> (\<exists>x y z. r1 = Inr x \<and> r2 = Inr y \<and> r3 = Inr z)
        \<and> abs_queue t1 = (abs_queue s)(i \<mapsto> (Finished True, n)) \<and> abs_queue t2 = (abs_queue s)(i \<mapsto> (Finished False, n))
        \<and> abs_queue t3 = (abs_queue s)(i \<mapsto> (Waiting, n))
    | _ \<Rightarrow> (\<exists>e f g. r1 = Inl e \<and> r2 = Inl f \<and> r3 = Inl g) \<and> t1 = s \<and> t2 = s \<and> t3 = s"
proof -
  note ok = job_reachable_ok [OF assms(1)]
  note a = put_down_refines [OF ok assms(2) [unfolded put_down_defs], of "Finished True"]
    and b = put_down_refines [OF ok assms(3) [unfolded put_down_defs], of "Finished False"]
    and c = put_down_refines [OF ok assms(4) [unfolded put_down_defs], of Waiting]
  show ?thesis
    using a b c by (cases r1; cases r2; cases r3) (auto simp: abs_put_down split: option.split phase.split)
qed

subsection \<open>Concrete runs\<close>

theorem job_service_refines_life_cycle_witness:
  "queue_step\<^sup>*\<^sup>* Map.empty (abs_queue queue0) \<and> queue_step\<^sup>*\<^sup>* (abs_queue queue0) (abs_queue queue1)"
proof -
  have "job_step queue0 queue1" unfolding queue1_def by (rule job_step.acquire [OF surjective_pairing])
  from job_service_refines_life_cycle [OF queue_reachable(2) this] show ?thesis .
qed

theorem outcome_reports_are_abstract_steps_witness:
  "abs_queue (snd (mark_completed 100 None None queue1)) = (abs_queue queue1)(100 \<mapsto> (Finished True, 1))"
proof -
  have "abs_queue queue1 100 = Some (Held (Some ''w1''), 1)"
    by (simp add: abs_queue_def queue0_run abs_job_def phase_of_def)
  with outcome_reports_are_abstract_steps [OF queue_reachable(3) surjective_pairing surjective_pairing surjective_pairing,
      of 100 None None "''E''" "[]" True "Naive 0"]
  show ?thesis by simp
qed

end
