(* ===== verification/System.thy ===== *)
theory System
  imports Bot JobSpec
begin

text \<open>
  The whole system: requests, messages of the polling bot and rounds of the worker, in any order, on one
  database. The locale \<open>history\<close> turns a reflexive and transitive relation between states into rules for
  composed operations; it is interpreted on \<open>advances\<close>, which says that the tables keep their invariants and
  that jobs only move forward.
\<close>

subsection \<open>Operations that move along a relation\<close>

named_theorems adv "rules by which an operation moves along a relation"

definition moves :: "('w \<Rightarrow> 'w \<Rightarrow> bool) \<Rightarrow> ('w, 'a) op \<Rightarrow> bool" where
  "moves R m \<longleftrightarrow> (\<forall>s. R s (snd (m s)))"

lemma movesI: "(\<And>s r t. m s = (r, t) \<Longrightarrow> R s t) \<Longrightarrow> moves R m"
  unfolding moves_def by (metis prod.collapse)

lemma movesD: "moves R m \<Longrightarrow> m s = (r, t) \<Longrightarrow> R s t"
  by (metis moves_def snd_conv)

lemma moves_modify [adv]: "(\<And>s. R s (f s)) \<Longrightarrow> moves R (modifyM f)"
  by (simp add: moves_def run)

lemma moves_if [adv]: "moves R m \<Longrightarrow> moves R k \<Longrightarrow> moves R (if b then m else k)"
  by simp

lemma moves_case_option [adv]: "moves R m \<Longrightarrow> (\<And>y. moves R (k y)) \<Longrightarrow> moves R (case x of None \<Rightarrow> m | Some y \<Rightarrow> k y)"
  by (cases x) auto

lemma moves_case_sum [adv]:
  "(\<And>y. moves R (k y)) \<Longrightarrow> (\<And>y. moves R (l y)) \<Longrightarrow> moves R (case x of Inl y \<Rightarrow> k y | Inr y \<Rightarrow> l y)"
  by (cases x) auto

lemma moves_case_prod [adv]: "(\<And>a b. moves R (k a b)) \<Longrightarrow> moves R (case x of (a, b) \<Rightarrow> k a b)"
  by (cases x) auto

locale history =
  fixes R :: "'w \<Rightarrow> 'w \<Rightarrow> bool"
  assumes stays: "R s s" and goes_on: "R s t \<Longrightarrow> R t u \<Longrightarrow> R s u"
begin

lemma moves_pure [adv]: "moves R (returnM x)" "moves R (throwM e)" "moves R (liftM r)" "moves R (getsM g)"
  by (simp_all add: moves_def run stays)

lemma moves_bind_result: "moves R m \<Longrightarrow> (\<And>s x t. m s = (Inr x, t) \<Longrightarrow> moves R (k x)) \<Longrightarrow> moves R (bindM m k)"
proof (rule movesI)
  fix s r u
  assume m: "moves R m" and k: "\<And>s x t. m s = (Inr x, t) \<Longrightarrow> moves R (k x)" and run: "bindM m k s = (r, u)"
  obtain q t where q: "m s = (q, t)" by fastforce
  have st: "R s t" by (rule movesD [OF m q])
  show "R s u"
  proof (cases q)
    case (Inl e)
    then show ?thesis using st q run by (simp add: bindM_def)
  next
    case (Inr x)
    then show ?thesis using goes_on [OF st movesD [OF k, of s x t t r u]] q run by (simp add: bindM_def)
  qed
qed

lemma moves_bind [adv]: "moves R m \<Longrightarrow> (\<And>x. moves R (k x)) \<Longrightarrow> moves R (bindM m k)"
  by (rule moves_bind_result)

lemma moves_then [adv]: "moves R m \<Longrightarrow> moves R k \<Longrightarrow> moves R (thenM m k)"
  by (simp add: thenM_def moves_bind)

lemma moves_catch [adv]:
  assumes "moves R m" and "\<And>e. moves R (h e)" shows "moves R (catchM m h)"
proof (rule movesI)
  fix s r u assume run: "catchM m h s = (r, u)"
  obtain q t where q: "m s = (q, t)" by fastforce
  have "R s t" by (rule movesD [OF assms(1) q])
  then show "R s u"
    using run q goes_on movesD [OF assms(2)] by (cases q) (auto simp: catchM_def)
qed

lemma moves_foreach [adv]: "(\<And>x. moves R (f x)) \<Longrightarrow> moves R (foreachM f xs)"
  by (induction xs) (auto intro!: adv moves_pure moves_then)

end

subsection \<open>The relation of the system\<close>

definition drawn :: "world \<Rightarrow> world \<Rightarrow> bool" where
  "drawn s t \<longleftrightarrow> (\<exists>k. uuids t = (\<lambda>n. uuids s (k + n)))"

definition system_ok :: "world \<Rightarrow> bool" where
  "system_ok s \<longleftrightarrow> jobs_ok s \<and> one_active s \<and> distinct (map ss_session_id (summaries s))
     \<and> distinct (map dm_dream_id (memories s)) \<and> distinct (map pl_id (players s))
     \<and> distinct (map pl_username (players s))"

definition advances :: "world \<Rightarrow> world \<Rightarrow> bool" where
  "advances s t \<longleftrightarrow> drawn s t \<and> (system_ok s \<longrightarrow> system_ok t \<and> evolves (jobs s) (jobs t))"

lemma drawn_refl: "uuids t = uuids s \<Longrightarrow> drawn s t" and drawn_next: "uuids t = (\<lambda>n. uuids s (Suc n)) \<Longrightarrow> drawn s t"
  unfolding drawn_def by (auto intro: exI [of _ 0] exI [of _ 1])

lemma drawn_trans: "drawn s t \<Longrightarrow> drawn t u \<Longrightarrow> drawn s u"
  unfolding drawn_def by (auto simp: add.assoc [symmetric])

lemma supplies_drawn: "drawn s t \<Longrightarrow> supplies s A \<Longrightarrow> supplies t A"
  unfolding drawn_def supplies_def inj_def disjoint_iff by (elim exE conjE, intro conjI) (metis add_left_cancel, auto)

interpretation sys: history advances
  by unfold_locales (auto simp: advances_def drawn_refl intro: drawn_trans evolves_trans)

lemma moves_gather [adv]: "(\<And>m. m \<in> set ms \<Longrightarrow> moves advances m) \<Longrightarrow> moves advances (gather ms)"
proof (induction ms)
  case (Cons m ms)
  have rest: "moves advances (bindM (gather ms) (\<lambda>rs. returnM (r # rs)))" for r
    using Cons by (intro adv) auto
  have one: "moves advances m" using Cons.prems by simp
  show ?case
    by (rule movesI) (auto split: prod.splits intro: sys.goes_on movesD [OF one] movesD [OF rest])
qed (simp add: sys.moves_pure)

text \<open>What the invariants look at, apart from the supply of identifiers.\<close>

definition guarded :: "world \<Rightarrow> _" where
  "guarded s = (jobs s, sessions s, summaries s, memories s, players s)"

lemma advances_guarded: "guarded t = guarded s \<Longrightarrow> drawn s t \<Longrightarrow> advances s t"
  by (auto simp: advances_def guarded_def system_ok_def jobs_ok_def one_active_def supplies_drawn)

lemma moves_keeps: "keeps (\<lambda>s. (guarded s, uuids s)) m \<Longrightarrow> moves advances m"
  by (rule movesI) (auto dest!: keepsD intro!: advances_guarded drawn_refl)

lemma advances_same [simp]: "guarded t = guarded s \<Longrightarrow> uuids t = uuids s \<Longrightarrow> advances s t"
  by (simp add: advances_guarded drawn_refl)

lemma moves_env [adv]: "moves advances uuid4" "moves advances utcnow" "moves advances next_dream_id" "moves advances utc_now"
    "moves advances (naive_now now)"
proof -
  show "moves advances uuid4" by (rule movesI) (auto simp: uuid4_def guarded_def intro!: advances_guarded drawn_next)
  show u: "moves advances utcnow" "moves advances next_dream_id"
    by (auto intro!: moves_keeps keep simp: guarded_def)
  show n: "moves advances utc_now" unfolding utc_now_def by (intro adv u)
  show "moves advances (naive_now now)" unfolding naive_now_def by (intro adv n)
qed

lemma rollback_advances: "drawn s t \<Longrightarrow> advances s (rollback_to s t)"
  by (rule advances_guarded) (simp_all add: guarded_def rollback_to_def drawn_def)

lemma moves_atomically [adv]: "moves advances m \<Longrightarrow> moves advances (atomically m)"
proof (rule movesI)
  fix s r u assume m: "moves advances m" "atomically m s = (r, u)"
  obtain q t where q: "m s = (q, t)" by fastforce
  have "advances s t" by (rule movesD [OF m(1) q])
  then show "advances s u"
    using m(2) q rollback_advances by (cases q) (auto simp: atomically_def advances_def)
qed

lemma moves_transaction [adv]: "moves advances m \<Longrightarrow> moves advances (transaction m)"
  unfolding transaction_def by (intro adv) (simp_all add: guarded_def)

subsection \<open>The services\<close>

lemma moves_job_ops [adv]:
  "moves advances (create_job sid p m k md d)" "moves advances (acquire_available_jobs n l w now st)"
  "moves advances (mark_completed i th now)" "moves advances (mark_failed i c msg b now)" "moves advances (requeue i a c msg now)"
proof -
  have step: "advances s t" if "job_step s t" "drawn s t"
    "(sessions t, summaries t, memories t, players t) = (sessions s, summaries s, memories s, players s)" for s t
    using that job_step_ok [OF that(1)] job_step_evolves [OF that(1)]
    by (auto simp: advances_def system_ok_def one_active_def)
  have put: "drawn s t \<and> (sessions t, summaries t, memories t, players t) = (sessions s, summaries s, memories s, players s)"
    if "put_down v i now f s = (r, t)" for v i now f s r t
    using that by (auto simp: put_down_run now_state_def intro!: drawn_refl split: option.splits if_splits)
  show "moves advances (create_job sid p m k md d)"
    by (rule movesI, rule step, erule job_step.create) (auto simp: create_job_run Let_def intro: drawn_next)
  show "moves advances (acquire_available_jobs n l w now st)"
    by (rule movesI, rule step, erule job_step.acquire)
      (auto simp: acquire_run Let_def recovered_def now_state_def intro!: drawn_refl split: if_splits option.splits)
  show "moves advances (mark_completed i th now)"
    by (rule movesI, rule step, erule job_step.complete) (auto simp: mark_completed_def dest: put)
  show "moves advances (mark_failed i c msg b now)"
    by (rule movesI, rule step, erule job_step.fail) (auto simp: mark_failed_def dest: put)
  show "moves advances (requeue i a c msg now)"
    by (rule movesI, rule step, erule job_step.retry) (auto simp: requeue_def dest: put)
qed

lemma moves_preserves:
  assumes "preserves one_active m" and "keeps (\<lambda>s. (jobs s, summaries s, memories s, players s)) m" and "\<And>s. drawn s (snd (m s))"
  shows "moves advances m"
proof (rule movesI)
  fix s r t assume m: "m s = (r, t)"
  then have "drawn s t" using assms(3) by (metis snd_conv)
  moreover have "one_active s \<Longrightarrow> one_active t" using assms(1) m unfolding preserves_def by (metis snd_conv)
  ultimately show "advances s t"
    using keepsD [OF assms(2) m] by (auto simp: advances_def system_ok_def jobs_ok_def supplies_drawn)
qed

lemma moves_sessions [adv]: "moves advances (update_session_activity sid)" "moves advances (get_or_create_active_session uid)"
proof -
  show "moves advances (update_session_activity sid)"
    by (rule moves_preserves [OF preserves_update_session_activity])
      (auto simp: update_session_activity_def run intro!: keep drawn_refl)
  have "drawn s (snd (get_or_create_active_session uid s))" for s
  proof -
    obtain r t where "get_or_create_active_session uid s = (r, t)" by fastforce
    then show ?thesis
      by (auto simp: get_or_create_run ensure_active_session_run create_session_run Let_def intro: drawn_refl drawn_next
          split: option.splits if_splits)
  qed
  moreover have "keeps (\<lambda>s. (jobs s, summaries s, memories s, players s)) (get_or_create_active_session uid)"
  proof (rule keepsI)
    fix s
    obtain r t where "get_or_create_active_session uid s = (r, t)" by fastforce
    with get_or_create_frame [OF this]
    show "(jobs (snd (get_or_create_active_session uid s)), summaries (snd (get_or_create_active_session uid s)),
        memories (snd (get_or_create_active_session uid s)), players (snd (get_or_create_active_session uid s)))
      = (jobs s, summaries s, memories s, players s)" by (simp add: other_tables_def)
  qed
  ultimately show "moves advances (get_or_create_active_session uid)" by (intro moves_preserves pres)
qed

lemma advances_tables:
  assumes "system_ok s \<Longrightarrow> system_ok t" and "jobs t = jobs s" and "uuids t = uuids s" shows "advances s t"
  using assms by (simp add: advances_def drawn_refl)

lemma moves_summaries [adv]: "moves advances (save_session_summary x)"
proof -
  have "distinct (map ss_session_id (upsert_summary x ys))" if "distinct (map ss_session_id ys)" for ys
    using that by (auto simp: upsert_summary_def map_update_where)
  then have "advances s (s\<lparr>summaries := upsert_summary x (summaries s)\<rparr>)" for s
    by (intro advances_tables) (auto simp: system_ok_def jobs_ok_def one_active_def supplies_def)
  then show ?thesis unfolding save_session_summary_def get_session_summary_def by (intro adv)
qed

lemma update_memory_key [simp]: "dm_dream_id (update_memory memory job now m) = dm_dream_id m"
  by (simp add: update_memory_def Let_def)

lemma moves_memories [adv]: "moves advances (upsert_dream_memory did sid uid memory job)"
proof (rule movesI)
  fix s r t assume res: "upsert_dream_memory did sid uid memory job s = (r, t)"
  show "advances s t"
  proof (cases "find (\<lambda>m. dm_dream_id m = did) (memories s)")
    case None
    let ?row = "new_memory (uuids s 0) did sid uid memory job (tx_now s)"
    have t: "t = s\<lparr>uuids := \<lambda>n. uuids s (Suc n), memories := memories s @ [?row]\<rparr>"
      using res None by (simp add: upsert_dream_memory_def get_dream_memory_def run Let_def)
    have "did \<notin> dm_dream_id ` set (memories s)" using None by (simp add: find_none_notin)
    moreover have "drawn s t" unfolding t by (rule drawn_next) simp
    ultimately show ?thesis
      using supplies_drawn [of s t] by (auto simp: t advances_def system_ok_def jobs_ok_def one_active_def new_memory_def)
  next
    case (Some m)
    then have t: "t = s\<lparr>memories := update_where (\<lambda>x. dm_dream_id x = did) (update_memory memory job (tx_now s)) (memories s)\<rparr>"
      using res by (simp add: upsert_dream_memory_def get_dream_memory_def run)
    show ?thesis
      unfolding t by (rule advances_tables) (auto simp: system_ok_def jobs_ok_def one_active_def supplies_def map_update_where)
  qed
qed

lemma moves_players [adv]: "moves advances (create_or_get_player p)"
proof (rule movesI)
  fix s r t assume res: "create_or_get_player p s = (r, t)"
  show "advances s t"
  proof (cases "find (\<lambda>x. pl_id x = pcr_player_id p) (players s)")
    case None
    then have "pcr_player_id p \<notin> pl_id ` set (players s)" by (simp add: find_none_notin)
    then show ?thesis
      using res None by (intro advances_tables)
        (auto simp: create_or_get_player_def run Let_def system_ok_def jobs_ok_def one_active_def supplies_def split: if_splits sum.splits)
  qed (use res in \<open>auto simp: create_or_get_player_def run split: if_splits sum.splits\<close>)
qed

lemma moves_threads [adv]: "moves advances (resolve_thread_for_analysis sid mode now)"
proof -
  have flush: "moves advances (flush_thread x)" for x
    by (rule moves_keeps) (simp add: keeps_def flush_thread_def Let_def guarded_def split: option.split)
  have create: "moves advances (create_thread sid)" for sid
    unfolding create_thread_def Let_def by (intro adv flush) (simp_all add: guarded_def)
  have one: "moves advances (apply_command sid c th)" for sid c th
    unfolding apply_command_def Threads.required_def get_thread_def mark_idle_def close_thread_def
    by (cases "tc_command_type c") (auto intro!: adv create simp: guarded_def)
  have "moves advances (apply_commands sid cs th)" for sid cs th
    by (induction cs arbitrary: th) (auto intro!: adv one)
  then have attempt: "moves advances (attempt_transition sid d)" for sid d
    unfolding attempt_transition_def apply_transition_tx_def by (intro adv)
  have decision: "moves advances (snapshot_decision sid mode now)" for now
    unfolding snapshot_decision_def build_session_snapshot_def build_thread_snapshot_def get_active_thread_def by (intro adv)
  have second: "moves advances (resolve_loop True sid mode now)" for now
    by (subst resolve_loop.simps) (auto intro!: adv attempt decision split: exn.split)
  have "moves advances (resolve_loop False sid mode now)" for now
    by (subst resolve_loop.simps) (auto intro!: adv attempt decision second split: exn.split)
  then show ?thesis unfolding resolve_thread_for_analysis_def by (intro adv)
qed

lemma moves_analyses [adv]: "moves advances (persist_session_analysis_in_thread th a)" "moves advances (build_session_analysis_row p)"
    "moves advances (load_analysis_input u sid)"
  unfolding persist_session_analysis_in_thread_def clear_latest_for_thread_def touch_thread_def build_session_analysis_row_def
    next_continuation_index_def load_analysis_input_def find_session_def get_session_summary_def build_session_summary_def
  by (intro adv; simp add: guarded_def)+

subsection \<open>The pipeline and the worker\<close>

lemma moves_outside: "calls_outside m \<Longrightarrow> moves advances m"
  by (rule moves_keeps, erule keeps_outside) (simp add: guarded_def)

lemma moves_provider:
  assumes "outside_environment e" and "\<And>llm. outside_provider llm \<Longrightarrow> moves advances (k llm)"
  shows "moves advances (bindM (or_get_provider e None) k)"
proof (rule sys.moves_bind_result)
  show "moves advances (or_get_provider e None)" unfolding or_get_provider_def by (intro adv)
  fix s llm t assume "or_get_provider e None s = (Inr llm, t)"
  then show "moves advances (k llm)" using assms or_get_provider_outside [of e None s llm t] by simp
qed

lemma moves_generate: "outside_provider llm \<Longrightarrow> moves advances (generate_classified e llm p v x)"
  by (rule moves_keeps, erule keeps_generate) (simp add: guarded_def)

lemma moves_prepare:
  assumes "outside_environment e" shows "moves advances (prepare_session_analysis e input mode None version)"
  unfolding prepare_session_analysis_def parse_payload_def Let_def
  by (intro adv moves_provider moves_generate assms)

lemma moves_run_analysis:
  "outside_environment e \<Longrightarrow> moves advances (run_session_analysis e input mode None version)"
  unfolding run_session_analysis_def by (intro adv moves_prepare)

lemma moves_enrich: "outside_environment e \<Longrightarrow> moves advances (enrich_dream_memory e sid did uid job)"
  unfolding enrich_dream_memory_def extract_memory_def prepare_memory_input_def find_session_def find_dream_def parse_payload_def Let_def
  by (intro adv moves_provider moves_generate)

text \<open>What is documented of Redis, the Bot API and the model: no call touches the database.\<close>

definition bystander :: "'a db \<Rightarrow> bool" where
  "bystander m \<longleftrightarrow> keeps (\<lambda>s. (guarded s, uuids s)) m"

definition bystanders :: "runtime \<Rightarrow> bool" where
  "bystanders rt \<longleftrightarrow> outside_environment (rt_env rt) \<and> (\<forall>m ch t. bystander (rt_post rt m ch t)) \<and> (\<forall>k v n. bystander (rt_redis rt k v n))
     \<and> (\<forall>c. rt_override_redis rt = Some c \<longrightarrow> (\<forall>k v n. bystander (c k v n)))
     \<and> (\<forall>p. rt_override_telegram rt = Some p \<longrightarrow> (\<forall>ch a. bystander (p ch a)))"

lemma moves_bystander: "bystander m \<Longrightarrow> moves advances m"
  unfolding bystander_def by (rule moves_keeps)

lemma moves_log_sent [adv]: "moves advances (log_sent ch t)"
  unfolding log_sent_def by (intro adv) (simp add: guarded_def)

lemma moves_deliver:
  assumes "bystanders rt" shows "moves advances (deliver_from_executor rt None None x a)"
proof -
  have post: "moves advances (rt_post rt m ch t)" for m ch t using assms by (simp add: bystanders_def moves_bystander)
  have send_analysis_moves: "moves advances (send_analysis rt ch b)" for ch b unfolding send_analysis_def by (intro adv post)
  have p: "moves advances ((case rt_override_telegram rt of Some t \<Rightarrow> t | None \<Rightarrow> send_analysis rt) ch b)" for ch b
    using assms by (cases "rt_override_telegram rt") (simp_all add: bystanders_def moves_bystander send_analysis_moves)
  have c: "moves advances ((case rt_override_redis rt of Some r \<Rightarrow> r | None \<Rightarrow> rt_redis rt) k v n)" for k v n
    using assms by (cases "rt_override_redis rt"; cases k) (simp_all add: bystanders_def moves_bystander)
  show ?thesis
    unfolding deliver_from_executor_def deliver_completed_analysis_def acquire_delivery_lock_def Let_def option.case
    by (intro adv p c)
qed

lemma moves_execute:
  assumes "bystanders rt" shows "moves advances (execute_analysis_job rt None None None x)"
proof -
  have env: "outside_environment (rt_env rt)" using assms by (simp add: bystanders_def)
  have log: "moves advances log_outcome" unfolding log_outcome_def by (intro adv)
  have failure: "moves advances (handle_failure x e)" for e
    unfolding handle_failure_def handle_retryable_failure_def handle_terminal_failure_def by (cases e) (auto intro!: adv log)
  have binding: "moves advances (execute_with_job_binding rt x)"
    unfolding execute_with_job_binding_def execute_dream_memory_job_def assemble_runtime_analysis_def find_session_def
    by (intro adv moves_enrich moves_prepare env)
  show ?thesis
    unfolding execute_analysis_job_def run_job_def finish_job_def option.case
    by (intro adv failure binding log moves_deliver assms)
qed

lemma moves_round:
  assumes "bystanders rt" shows "moves advances (run_once stale k order (execute_analysis_job rt None None None))"
proof -
  have "moves advances (execute_in_transaction (execute_analysis_job rt None None None) x)" for x
    unfolding execute_in_transaction_def by (intro adv moves_execute assms)
  then have "moves advances (run_batches order (execute_analysis_job rt None None None) bs)" for bs
    by (induction bs) (auto intro!: adv)
  then show ?thesis unfolding run_once_def by (intro adv)
qed

subsection \<open>Requests\<close>

lemma moves_turn: "outside_environment e \<Longrightarrow> moves advances (generate_dialogue_turn e files sid m name lang None now)"
  by (rule moves_keeps, rule keeps_turn) (simp_all add: guarded_def)

lemma moves_process:
  assumes "outside_environment (ig_env g)" shows "moves advances (process_incoming_message g uid t name lang None)"
  unfolding process_incoming_message_def evaluate_def default_session_state_resolver_def get_active_session_raw_def fixed_reply_def
    reply_with_model_def intake_part_def register_incoming_dream_def create_dream_def trace_outcome_def record_policy_trace_def
    append_user_turn_def append_assistant_turn_def append_turn_def Let_def option.case
  by (intro adv moves_turn assms; simp add: guarded_def)

lemma moves_message:
  assumes "bystanders (ig_runtime (wa_ingress w))" shows "moves advances (message_endpoint w e q)"
proof -
  let ?rt = "ig_runtime (wa_ingress w)"
  have post: "moves advances (rt_post ?rt m ch t)" for m ch t using assms by (simp add: bystanders_def moves_bystander)
  have env: "outside_environment (rt_env ?rt)" using assms by (simp add: bystanders_def)
  show ?thesis
    unfolding message_endpoint_def body_of_def or_invalid_def telegram_webhook_def create_dream_endpoint_def try_send_typing_def
      send_chat_action_def send_text_def Let_def
    by (intro adv post moves_process env)
qed

lemma moves_writes:
  assumes "bystanders (ig_runtime (wa_ingress w))"
    and "e \<in> {TelegramWebhook, PostDream, AnalyzeSession, AnalyzeAsync, AdminNewPrompt, CurrentPlayer, SessionSummary}"
  shows "moves advances (run_endpoint w e args q)"
proof -
  have env: "outside_environment (wa_env w)" using assms(1) by (simp add: bystanders_def)
  have "moves advances (session_endpoint w e args q)" if "e \<in> {AnalyzeSession, AnalyzeAsync, SessionSummary}"
    using that unfolding session_endpoint_def uuid_param_def or_invalid_def analyze_session_endpoint_def
      analyze_session_async_endpoint_def referring_to_def get_session_summary_endpoint_def get_session_summary_def
      build_session_summary_def find_session_def
    by (auto intro!: adv moves_run_analysis env)
  moreover have "moves advances (admin_endpoint w AdminNewPrompt args q)"
    unfolding admin_endpoint_def endpoint.case uuid_param_def or_invalid_def body_of_def create_admin_prompt_version_endpoint_def
      or_404_def create_next_prompt_version_def get_prompt_version_def create_prompt_version_def Let_def
    by (intro adv; simp add: guarded_def)
  moreover have "moves advances (player_endpoint w CurrentPlayer args q)"
    unfolding player_endpoint_def endpoint.case get_current_or_create_player_def by (intro adv)
  moreover have "moves advances (message_endpoint w e q)" by (rule moves_message [OF assms(1)])
  ultimately show ?thesis
    using assms(2) unfolding run_endpoint_def is_journal_def is_admin_def is_player_def by (auto intro!: adv)
qed

lemma serve_advances:
  assumes "bystanders (ig_runtime (wa_ingress w))" shows "advances s (snd (serve w q s))"
proof -
  have "moves advances (run_endpoint w e args q)" for e args
  proof (cases "e \<in> {TelegramWebhook, PostDream, AnalyzeSession, AnalyzeAsync, AdminNewPrompt, CurrentPlayer, SessionSummary}")
    case False
    then show ?thesis by (intro moves_keeps reads_keep)
  qed (rule moves_writes [OF assms])
  then have "advances s (snd (transaction (run_endpoint w e args q) s))" for e args
    using moves_transaction unfolding moves_def by blast
  then have "advances s (snd (call_endpoint w e args q s))" for e args
    unfolding call_endpoint_def
    by (auto simp: sys.stays split: prod.split sum.split option.split) (metis snd_conv)+
  then have "advances s (snd (call_next w q s))"
    unfolding call_next_def by (auto simp: sys.stays split: found.split)
  then show ?thesis unfolding serve_def by (auto split: prod.split sum.split) 
qed

subsection \<open>The system\<close>

lemma moves_bot:
  assumes "bystanders (ig_runtime (wa_ingress w))" and "bystander typing" and "\<And>x. bystander (answer x)"
  shows "moves advances (handle_dream_message w net typing answer m)"
proof -
  have post: "moves advances (post w net q)" for q
    unfolding moves_def using serve_advances [OF assms(1), of _ q] sys.stays
    by (auto simp: post_def case_prod_beta split: network.split)
  have "moves advances typing" "moves advances (answer x)" for x using assms(2, 3) by (simp_all add: moves_bystander)
  then show ?thesis
    unfolding handle_dream_message_def bot_try_send_typing_def backend_create_dream_def
    by (auto intro!: adv post split: option.split)
qed

text \<open>
  A step of the system: a request, a message to the bot, a round of the worker with jobs that finish in any
  order, or anything else that leaves the guarded tables alone (time passes, locks are taken and released, other
  processes change threads).
\<close>

inductive system_step :: "web_app \<Rightarrow> world \<Rightarrow> world \<Rightarrow> bool" for w where
  request: "serve w q s = (r, t) \<Longrightarrow> system_step w s t"
| bot: "handle_dream_message w net typing answer m s = (r, t) \<Longrightarrow> bystander typing \<Longrightarrow> (\<And>x. bystander (answer x)) \<Longrightarrow>
    system_step w s t"
| worker: "run_once stale k order (execute_analysis_job (ig_runtime (wa_ingress w)) None None None) s = (r, t) \<Longrightarrow> system_step w s t"
| elsewhere: "guarded t = guarded s \<Longrightarrow> drawn s t \<Longrightarrow> system_step w s t"

lemma step_advances: "system_step w s t \<Longrightarrow> bystanders (ig_runtime (wa_ingress w)) \<Longrightarrow> advances s t"
proof (induction rule: system_step.induct)
  case (request q s r t)
  then show ?case using serve_advances by (metis snd_conv)
next
  case (bot net typing answer m s r t)
  then show ?case using movesD [OF moves_bot] by blast
next
  case (worker stale k order s r t)
  then show ?case using movesD [OF moves_round] by blast
qed (rule advances_guarded)

text \<open>C1. Whatever happens, in whatever order, the database stays consistent: at most one active session per user, one
  summary per session, one memory per dream, one row per player and per name, and a well-formed job queue. No job is ever
  lost or changes its session or dream, and a job that is completed or failed never changes again.\<close>

theorem system_stays_consistent:
  assumes "bystanders (ig_runtime (wa_ingress w))" and "(system_step w)\<^sup>*\<^sup>* s t" and "system_ok s"
  shows "system_ok t \<and> evolves (jobs s) (jobs t) \<and> {x \<in> set (jobs s). terminal x} \<subseteq> set (jobs t)"
proof -
  have "advances s t" using assms(2)
    by (induction rule: rtranclp_induct) (auto intro: sys.stays sys.goes_on step_advances assms(1))
  then have t: "system_ok t" "evolves (jobs s) (jobs t)" using assms(3) by (simp_all add: advances_def)
  then have "{x \<in> set (jobs s). terminal x} \<subseteq> set (jobs t)" by (fastforce simp: evolves_def follows_def)
  then show ?thesis using t by blast
qed

lemma sample_bystanders: "bystanders (ig_runtime (wa_ingress sample_app))"
  by (auto simp: bystanders_def bystander_def sample_app_def sample_ingress_def sample_runtime_def sample_environment_outside guarded_def
      intro!: keep keeps_plain_redis)

theorem system_stays_consistent_witness:
  "system_ok (snd (serve sample_app get_summary sample_world))
    \<and> length (summaries (snd (serve sample_app get_summary sample_world))) = 1"
proof -
  obtain x t where t: "serve sample_app get_summary sample_world = (ok_response (ASummary x), t)" "summaries t = [x]"
    using first_summary by blast
  have "system_ok sample_world"
    by (auto simp: system_ok_def sample_world_one_active) (auto simp: jobs_ok_def supplies_def sample_world_def empty_world_def inj_def)
  from system_stays_consistent [OF sample_bystanders r_into_rtranclp [where r = "system_step sample_app", OF system_step.request [OF t(1)]] this] t
  show ?thesis by simp
qed

end
