(* ===== verification/Mock.thy ===== *)
theory Mock
  imports Players Pipeline Dumps
begin

text \<open>
  The deterministic provider of test mode (\<open>services/llm_providers/mock_provider.py\<close>). SHA-256 is a parameter on
  bytes; its answers are printed by theory Dumps.
\<close>

subsection \<open>The answers\<close>

definition MOCK_PROVIDER :: ustr where "MOCK_PROVIDER = ascii ''mock''"
definition MOCK_MODEL :: ustr where "MOCK_MODEL = ascii ''mock-v1''"

definition ARCHETYPES :: "ustr list" where
  "ARCHETYPES = map ascii [''shadow'', ''anima'', ''self'', ''trickster'', ''hero'']"

definition MOCK_SYMBOLS :: "ustr list" where
  "MOCK_SYMBOLS = map ascii [''water'', ''forest'', ''bridge'', ''door'', ''mirror'']"

definition mock_archetype :: "nat \<Rightarrow> ustr" where
  "mock_archetype seed = ARCHETYPES ! (seed mod length ARCHETYPES)"

definition mock_symbol :: "nat \<Rightarrow> ustr" where
  "mock_symbol seed = MOCK_SYMBOLS ! (seed mod length MOCK_SYMBOLS)"

text \<open>\<open>round(n / 100, 2)\<close>.\<close>

definition hundredths :: "nat \<Rightarrow> rat" where
  "hundredths n = of_nat n / 100"

text \<open>\<open>int(sha256(prompt.encode("utf-8")).hexdigest()[:8], 16)\<close>.\<close>

definition mock_seed :: "(nat list \<Rightarrow> nat list) \<Rightarrow> ustr \<Rightarrow> exn + nat" where
  "mock_seed sha256 prompt = bindE (encode prompt) (\<lambda>bs.
     Inr (foldl (\<lambda>n c. 16 * n + (case hex_value c of Some d \<Rightarrow> d | None \<Rightarrow> 0)) 0 (take 8 (hexdigest (sha256 bs)))))"

definition mock_message :: ustr where
  "mock_message =
     [1057, 1087, 1072, 1089, 1080, 1073, 1086, 44, 32, 1095, 1090, 1086, 32, 1087, 1086, 1076, 1077, 1083, 1080,
      1083, 1080, 1089, 1100, 46, 32, 1042, 32, 1089, 1085, 1077, 44, 32, 1082, 1072, 1078, 1077, 1090, 1089, 1103,
      44, 32, 1077, 1089, 1090, 1100, 32, 1089, 1080, 1083, 1100, 1085, 1086, 1077, 32, 1085, 1072, 1087, 1088,
      1103, 1078, 1077, 1085, 1080, 1077, 32, 1084, 1077, 1078, 1076, 1091, 32, 1091, 1093, 1086, 1076, 1086, 1084,
      32, 1080, 32, 1085, 1077, 1086, 1073, 1093, 1086, 1076, 1080, 1084, 1086, 1089, 1090, 1100, 1102, 32, 1086,
      1089, 1090, 1072, 1074, 1072, 1090, 1100, 1089, 1103, 32, 1088, 1103, 1076, 1086, 1084, 32, 8212, 32, 1080,
      32, 1101, 1090, 1086, 32, 1084, 1086, 1078, 1077, 1090, 32, 1086, 1090, 1082, 1083, 1080, 1082, 1072, 1090,
      1100, 1089, 1103, 32, 1082, 1072, 1082, 32, 1089, 1090, 1088, 1072, 1093, 32, 1087, 1086, 1090, 1077, 1088,
      1080, 32, 1086, 1087, 1086, 1088, 1099, 46, 10, 10, 1071, 32, 1073, 1099, 32, 1087, 1086, 1082, 1072, 32,
      1085, 1077, 32, 1089, 1087, 1077, 1096, 1080, 1083, 32, 1089, 32, 1086, 1082, 1086, 1085, 1095, 1072, 1090,
      1077, 1083, 1100, 1085, 1099, 1084, 32, 1089, 1084, 1099, 1089, 1083, 1086, 1084, 46, 32, 1042, 1072, 1078,
      1085, 1077, 1077, 32, 1079, 1072, 1084, 1077, 1090, 1080, 1090, 1100, 44, 32, 1095, 1090, 1086, 32, 1080,
      1084, 1077, 1085, 1085, 1086, 32, 1074, 32, 1084, 1086, 1084, 1077, 1085, 1090, 32, 171, 1091, 1083, 1091,
      1095, 1096, 1077, 1085, 1080, 1103, 187, 32, 1080, 1083, 1080, 32, 171, 1085, 1086, 1088, 1084, 1072, 1083,
      1100, 1085, 1086, 1089, 1090, 1080, 187, 32, 1090, 1088, 1077, 1074, 1086, 1075, 1072, 32, 1085, 1077, 32,
      1086, 1090, 1087, 1091, 1089, 1082, 1072, 1077, 1090, 46, 10, 10, 1063, 1090, 1086, 32, 1076, 1083, 1103, 32,
      1074, 1072, 1089, 32, 1089, 1077, 1081, 1095, 1072, 1089, 32, 1089, 1090, 1088, 1072, 1096, 1085, 1077, 1077,
      58, 32, 1095, 1090, 1086, 32, 1086, 1087, 1086, 1088, 1072, 32, 1089, 1085, 1086, 1074, 1072, 32, 1080, 1089,
      1095, 1077, 1079, 1085, 1077, 1090, 44, 32, 1080, 1083, 1080, 32, 1095, 1090, 1086, 32, 1074, 1099, 32, 1085,
      1077, 32, 1091, 1089, 1087, 1077, 1077, 1090, 1077, 32, 1073, 1099, 1090, 1100, 32, 1088, 1103, 1076, 1086,
      1084, 63]"

definition dialogue_payload :: "nat \<Rightarrow> (ustr \<times> json) list" where
  "dialogue_payload seed =
     [(ascii ''assistant_message'', JStr mock_message),
      (ascii ''focus'', JList [JStr [1085, 1072, 1087, 1088, 1103, 1078, 1077, 1085, 1080, 1077, 32, 1091, 1093,
       1086, 1076, 1072], JStr [1085, 1077, 1089, 1090, 1072, 1073, 1080, 1083, 1100, 1085, 1072, 1103, 32, 1086,
       1087, 1086, 1088, 1072]]),
      (ascii ''questions'', JList [JStr [1063, 1090, 1086, 32, 1074, 1099, 32, 1095, 1091, 1074, 1089, 1090, 1074,
       1091, 1077, 1090, 1077, 32, 1087, 1077, 1088, 1074, 1099, 1084, 44, 32, 1082, 1086, 1075, 1076, 1072, 32,
       1089, 1086, 1089, 1090, 1086, 1103, 1085, 1080, 1077, 32, 1074, 1076, 1088, 1091, 1075, 32, 1091, 1083,
       1091, 1095, 1096, 1072, 1077, 1090, 1089, 1103, 63]]),
      (ascii ''background_notes'', JObj [(ascii ''pace'', JStr (ascii ''exploratory''))]),
      (ascii ''emotional_intensity'', JFloat (Fin (hundredths (seed mod 70)))),
      (ascii ''safety_flags'', JList [])]"

definition memory_payload :: "(ustr \<times> json) list" where
  "memory_payload =
     [(ascii ''dream_details'', JList [JStr [1055, 1077, 1088, 1077, 1093, 1086, 1076, 32, 1095, 1077, 1088, 1077,
       1079, 32, 1084, 1086, 1089, 1090, 32, 1085, 1072, 1076, 32, 1090, 1077, 1084, 1085, 1086, 1081, 32, 1074,
       1086, 1076, 1086, 1081]]),
      (ascii ''dream_ego_activity'', JList [JStr [1087, 1077, 1088, 1077, 1089, 1077, 1082, 1072, 1077, 1090, 32,
       1084, 1086, 1089, 1090]]),
      (ascii ''figures'', JList [JObj [(ascii ''name'', JStr [1089, 1085, 1086, 1074, 1080, 1076, 1077, 1094]),
       (ascii ''role_hint'', JStr [1085, 1072, 1073, 1083, 1102, 1076, 1072, 1090, 1077, 1083, 1100]), (ascii
       ''emotional_charge'', JStr [1085, 1072, 1087, 1088, 1103, 1078, 1077, 1085, 1080, 1077])]]),
      (ascii ''emotional_field'', JList [JStr [1090, 1088, 1077, 1074, 1086, 1075, 1072]]),
      (ascii ''personal_context_questions'', JList [JStr [1050, 1072, 1082, 1072, 1103, 32, 1095, 1072, 1089,
       1090, 1100, 32, 1089, 1085, 1072, 32, 1079, 1072, 1087, 1086, 1084, 1085, 1080, 1083, 1072, 1089, 1100, 32,
       1085, 1072, 1080, 1073, 1086, 1083, 1077, 1077, 32, 1095, 1077, 1090, 1082, 1086, 63]]),
      (ascii ''amplification_candidates'', JList [JObj [(ascii ''symbol'', JStr [1084, 1086, 1089, 1090]), (ascii
       ''personal'', JStr [1087, 1077, 1088, 1077, 1093, 1086, 1076])]]),
      (ascii ''compensation_hypotheses'', JList []),
      (ascii ''open_questions'', JList [JStr [1063, 1090, 1086, 32, 1087, 1088, 1086, 1080, 1079, 1086, 1096,
       1083, 1086, 32, 1076, 1086, 32, 1087, 1077, 1088, 1077, 1093, 1086, 1076, 1072, 32, 1095, 1077, 1088, 1077,
       1079, 32, 1084, 1086, 1089, 1090, 63]]),
      (ascii ''recurring_motifs'', JList [JStr [1084, 1086, 1089, 1090], JStr [1074, 1086, 1076, 1072]]),
      (ascii ''uncertainty_notes'', JList [])]"

definition analysis_payload :: "nat \<Rightarrow> (ustr \<times> json) list" where
  "analysis_payload seed =
     [(ascii ''summary'', JStr [1057, 1086, 1085, 32, 1084, 1086, 1078, 1077, 1090, 32, 1086, 1090, 1088, 1072,
       1078, 1072, 1090, 1100, 32, 1087, 1077, 1088, 1077, 1093, 1086, 1076, 32, 1084, 1077, 1078, 1076, 1091, 32,
       1082, 1086, 1085, 1090, 1088, 1086, 1083, 1077, 1084, 32, 1080, 32, 1087, 1086, 1076, 1072, 1074, 1083,
       1077, 1085, 1085, 1099, 1084, 1080, 32, 1101, 1084, 1086, 1094, 1080, 1103, 1084, 1080, 46]),
      (ascii ''symbols'', JList [JObj [(ascii ''symbol'', JStr (mock_symbol seed)), (ascii ''meaning'', JStr
       ([1084, 1086, 1078, 1077, 1090, 32, 1091, 1082, 1072, 1079, 1099, 1074, 1072, 1090, 1100, 32, 1085, 1072,
       32, 1074, 1085, 1091, 1090, 1088, 1077, 1085, 1085, 1077, 1077, 32, 1089, 1086, 1089, 1090, 1086, 1103,
       1085, 1080, 1077, 44, 32, 1089, 1074, 1103, 1079, 1072, 1085, 1085, 1086, 1077, 32, 1089, 32] @ mock_symbol
       seed)), (ascii ''emotional_charge'', JStr [1085, 1072, 1087, 1088, 1103, 1078, 1105, 1085, 1085, 1072,
       1103])]]),
      (ascii ''emotional_state'', JObj [(ascii ''primary'', JStr [1090, 1088, 1077, 1074, 1086, 1075, 1072]),
       (ascii ''secondary'', JStr [1085, 1072, 1087, 1088, 1103, 1078, 1077, 1085, 1080, 1077]), (ascii
       ''intensity'', JFloat (Fin (hundredths (seed mod 50))))]),
      (ascii ''jungian_interpretation'', JObj [(ascii ''archetypes'', JList [JStr (mock_archetype seed)]), (ascii
       ''shadow_elements'', JList [JStr [1087, 1086, 1076, 1072, 1074, 1083, 1077, 1085, 1085, 1099, 1081, 32,
       1089, 1090, 1088, 1072, 1093]]), (ascii ''anima_animus_signals'', JList []), (ascii ''individuation_hint'',
       JStr [1084, 1086, 1078, 1085, 1086, 32, 1080, 1089, 1089, 1083, 1077, 1076, 1086, 1074, 1072, 1090, 1100,
       44, 32, 1095, 1090, 1086, 32, 1086, 1089, 1090, 1072, 1105, 1090, 1089, 1103, 32, 1074, 32, 1090, 1077,
       1085, 1080])]),
      (ascii ''narrative_interpretation'', JStr [1057, 1086, 1085, 32, 1084, 1086, 1078, 1077, 1090, 32, 1086,
       1090, 1088, 1072, 1078, 1072, 1090, 1100, 32, 1085, 1072, 1087, 1088, 1103, 1078, 1077, 1085, 1080, 1077,
       32, 1084, 1077, 1078, 1076, 1091, 32, 1078, 1077, 1083, 1072, 1085, 1080, 1077, 1084, 32, 1080, 1089, 1089,
       1083, 1077, 1076, 1086, 1074, 1072, 1090, 1100, 32, 1080, 32, 1089, 1090, 1088, 1072, 1093, 1086, 1084, 32,
       1087, 1086, 1090, 1077, 1088, 1103, 1090, 1100, 32, 1082, 1086, 1085, 1090, 1088, 1086, 1083, 1100, 46]),
      (ascii ''key_insight'', JStr [1042, 1072, 1078, 1085, 1086, 32, 1079, 1072, 1084, 1077, 1090, 1080, 1090,
       1100, 44, 32, 1095, 1090, 1086, 32, 1082, 1086, 1085, 1090, 1088, 1086, 1083, 1100, 32, 1084, 1086, 1078,
       1077, 1090, 32, 1089, 1082, 1088, 1099, 1074, 1072, 1090, 1100, 32, 1091, 1103, 1079, 1074, 1080, 1084,
       1086, 1089, 1090, 1100, 46]),
      (ascii ''uncertainty_notes'', JList [JStr [1050, 1072, 1082, 1080, 1077, 32, 1095, 1091, 1074, 1089, 1090,
       1074, 1072, 32, 1089, 1080, 1083, 1100, 1085, 1077, 1077, 32, 1074, 1089, 1077, 1075, 1086, 32, 1086, 1089,
       1090, 1072, 1083, 1080, 1089, 1100, 32, 1087, 1086, 1089, 1083, 1077, 32, 1087, 1088, 1086, 1073, 1091,
       1078, 1076, 1077, 1085, 1080, 1103, 63]])]"

definition serialize_raw :: "(rat \<Rightarrow> ustr) \<Rightarrow> (ustr \<times> json) list \<Rightarrow> ustr" where
  "serialize_raw rp payload = dumps rp (JObj payload)"

definition mock_response :: "(rat \<Rightarrow> ustr) \<Rightarrow> string \<Rightarrow> int \<Rightarrow> (ustr \<times> json) list \<Rightarrow> ProviderRawResponse" where
  "mock_response rp version latency payload = \<lparr>raw_text = serialize_raw rp payload, raw_meta = \<lparr>pm_provider = MOCK_PROVIDER,
     pm_model = MOCK_MODEL, pm_prompt_version = version, pm_latency_ms = latency, pm_usage = None\<rparr>\<rparr>"

definition mock_payload :: "ustr \<Rightarrow> string \<Rightarrow> nat \<Rightarrow> (ustr \<times> json) list" where
  "mock_payload prompt version seed =
     (if contains prompt (ascii ''assistant_message'') \<or> take 8 version = ''dialogue'' then dialogue_payload seed
      else if take 6 version = ''memory'' then memory_payload
      else analysis_payload seed)"

definition mock_generate ::
  "(nat list \<Rightarrow> nat list) \<Rightarrow> (rat \<Rightarrow> ustr) \<Rightarrow> ('w \<Rightarrow> int) \<Rightarrow> ustr \<Rightarrow> string \<Rightarrow> pyfloat option \<Rightarrow> ('w, ProviderRawResponse) op" where
  "mock_generate sha256 rp elapsed prompt version temperature s =
     (case mock_seed sha256 prompt of
        Inl e \<Rightarrow> (Inl e, s)
      | Inr seed \<Rightarrow> (Inr (mock_response rp version (elapsed s) (mock_payload prompt version seed)), s))"

definition MockLLMProvider :: "(nat list \<Rightarrow> nat list) \<Rightarrow> (rat \<Rightarrow> ustr) \<Rightarrow> ('w \<Rightarrow> int) \<Rightarrow> 'w LLMProvider" where
  "MockLLMProvider sha256 rp elapsed =
     \<lparr>provider_name = MOCK_PROVIDER, model_name = MOCK_MODEL, generate = mock_generate sha256 rp elapsed\<rparr>"

subsection \<open>Every answer is accepted\<close>

text \<open>The characters of the answers.\<close>

definition answer_char :: "nat \<Rightarrow> bool" where
  "answer_char c \<longleftrightarrow> c = 10 \<or> 32 \<le> c \<and> c \<le> 126 \<or> c \<in> {171, 187, 8212} \<or> 1040 \<le> c \<and> c \<le> 1103 \<or> c \<in> {1025, 1105}"

definition answer_text :: "ustr \<Rightarrow> bool" where
  "answer_text t \<longleftrightarrow> list_all answer_char t"

definition mock_memory :: StructuredDreamMemoryV1 where
  "mock_memory = \<lparr>me_dream_details = [[1055, 1077, 1088, 1077, 1093, 1086, 1076, 32, 1095, 1077, 1088, 1077, 1079, 32, 1084,
       1086, 1089, 1090, 32, 1085, 1072, 1076, 32, 1090, 1077, 1084, 1085, 1086, 1081, 32, 1074, 1086, 1076, 1086,
       1081]],
     me_dream_ego_activity = [[1087, 1077, 1088, 1077, 1089, 1077, 1082, 1072, 1077, 1090, 32, 1084, 1086, 1089,
       1090]],
     me_figures = [\<lparr>fi_name = [1089, 1085, 1086, 1074, 1080, 1076, 1077, 1094], fi_role_hint = [1085,
       1072, 1073, 1083, 1102, 1076, 1072, 1090, 1077, 1083, 1100], fi_emotional_charge = [1085, 1072, 1087, 1088,
       1103, 1078, 1077, 1085, 1080, 1077]\<rparr>],
     me_emotional_field = [[1090, 1088, 1077, 1074, 1086, 1075, 1072]],
     me_personal_context_questions = [[1050, 1072, 1082, 1072, 1103, 32, 1095, 1072, 1089, 1090, 1100, 32, 1089,
       1085, 1072, 32, 1079, 1072, 1087, 1086, 1084, 1085, 1080, 1083, 1072, 1089, 1100, 32, 1085, 1072, 1080,
       1073, 1086, 1083, 1077, 1077, 32, 1095, 1077, 1090, 1082, 1086, 63]],
     me_amplification_candidates = [\<lparr>am_symbol = [1084, 1086, 1089, 1090], am_personal = [1087, 1077,
       1088, 1077, 1093, 1086, 1076], am_cultural = [], am_archetypal = []\<rparr>],
     me_compensation_hypotheses = [],
     me_open_questions = [[1063, 1090, 1086, 32, 1087, 1088, 1086, 1080, 1079, 1086, 1096, 1083, 1086, 32, 1076,
       1086, 32, 1087, 1077, 1088, 1077, 1093, 1086, 1076, 1072, 32, 1095, 1077, 1088, 1077, 1079, 32, 1084, 1086,
       1089, 1090, 63]],
     me_recurring_motifs = [[1084, 1086, 1089, 1090], [1074, 1086, 1076, 1072]],
     me_uncertainty_notes = []\<rparr>"

lemma starts_with_rec:
  "starts_with s [] = True" "starts_with [] (p # ps) = False" "starts_with (c # s) (p # ps) = (c = p \<and> starts_with s ps)"
  by (simp_all add: starts_with_def)

lemma mock_memory_sanitized: "sanitize_memory basic_unicode mock_memory = Inr mock_memory"
  by (simp add: sanitize_memory_def interpretive_def FORBIDDEN_INTERPRETIVE_MARKERS_def mock_memory_def dump_memory_def strs_def
      dump_figure_def dump_candidate_def basic_unicode_def lower_cp_def starts_with_rec)

text \<open>The arguments of a search are not rewritten again at every step.\<close>

lemma contains_args: "contains s p = contains s p" and starts_with_args: "starts_with s p = starts_with s p"
  by simp_all

lemma mock_message_free: "\<not> (\<exists>p \<in> set FORBIDDEN_PHRASES. contains (map lower_cp mock_message) p)"
  by (simp del: contains.simps add: FORBIDDEN_PHRASES_def mock_message_def lower_cp_def)
    (simp add: starts_with_rec cong: contains_args starts_with_args)

text \<open>
  What the provider's answers need from outside: pydantic reads strings and floats as themselves, \<open>repr\<close> prints
  hundredths below one as decimal fractions that \<open>float()\<close> reads back, and on the characters of the answers the
  Unicode tables are the usual ones.
\<close>

locale mock_setting = pydantic_laws pd for pd :: pydantic +
  fixes u :: unicode and fl :: "ustr \<Rightarrow> pyfloat option" and rp :: "rat \<Rightarrow> ustr"
  assumes hundredths_back: "n < 100 \<Longrightarrow> float_reads_back fl rp (hundredths n)"
    and space: "answer_char c \<Longrightarrow> uc_space u c = (c \<in> {10, 32})"
    and lower: "answer_text t \<Longrightarrow> uc_lower u t = map lower_cp t"
begin

lemma serialized_is_parsed:
  assumes "printable fl rp (JObj m)"
  shows "extract_json u fl (serialize_raw rp m) = Inr (serialize_raw rp m)" and "parse_json fl (serialize_raw rp m) = Inr m"
proof -
  let ?t = "serialize_raw rp m"
  have t: "?t = 123 # dump_members rp m @ [125]" by (simp add: serialize_raw_def)
  have "\<not> uc_space u 123" "\<not> uc_space u 125" using space by (simp_all add: answer_char_def)
  then have "strip u ?t = ?t" by (simp add: t strip_def lstrip_def rstrip_def)
  moreover have "braced ?t" by (simp add: braced_def t starts_with_def ends_with_def)
  ultimately show "extract_json u fl ?t = Inr ?t" by (simp add: extract_json_def)
  have "loads fl ?t = Some (JObj m)"
  proof -
    have "raw_decode fl ?t = Some (JObj m, [])"
      using dumps_read(1) [OF assms, rule_format, of "2 * length ?t + 2" "[]"] by (simp add: raw_decode_def serialize_raw_def)
    moreover have "skip_ws ?t = ?t" by (simp add: t skip_ws_def json_ws_def)
    ultimately show ?thesis by (simp add: loads_def) (simp add: t starts_with_def skip_ws_def)
  qed
  then show "parse_json fl ?t = Inr m" by (simp add: parse_json_def)
qed

lemma payloads_printable:
  "printable fl rp (JObj (dialogue_payload seed))" "printable fl rp (JObj memory_payload)"
  "printable fl rp (JObj (analysis_payload seed))"
  using hundredths_back [of "seed mod 70"] hundredths_back [of "seed mod 50"]
  by (simp_all add: dialogue_payload_def memory_payload_def analysis_payload_def ascii_def)

lemma analysis_accepted: "\<exists>a. validate_analysis_output u pd (analysis_payload seed) = Inr a"
proof -
  have "unit_interval (Fin (hundredths (seed mod 50)))" by (simp add: unit_interval_def hundredths_def)
  then show ?thesis
    by (simp add: validate_analysis_output_def dream_model_validate_def read_dream_analysis_def analysis_payload_def object_of_def
        Contract.required_def list_of_def read_symbol_def read_emotional_state_def read_jungian_def str_self float_self ascii_def
        symbols_required_when_interpretation_exists_def)
qed

lemma memory_accepted: "memory_model_validate pd memory_payload = Inr mock_memory"
  by (simp add: memory_model_validate_def read_memory_def memory_payload_def object_of_def Contract.optional_def list_of_def
      read_figure_def read_candidate_def Contract.required_def str_self ascii_def mock_memory_def)

lemma memory_sanitized: "sanitize_memory u mock_memory = Inr mock_memory"
proof -
  have "list_all answer_text (iter_strings (dump_memory mock_memory))"
    by (simp add: mock_memory_def dump_memory_def strs_def dump_figure_def dump_candidate_def answer_text_def answer_char_def)
  then have "interpretive u t = interpretive basic_unicode t" if "t \<in> set (iter_strings (dump_memory mock_memory))" for t
    using that lower by (simp add: interpretive_def basic_unicode_def list_all_iff)
  then have "sanitize_memory u mock_memory = sanitize_memory basic_unicode mock_memory" by (simp add: sanitize_memory_def)
  then show ?thesis by (simp add: mock_memory_sanitized)
qed

lemma message_accepted: "reject_authoritarian_language u mock_message = Some mock_message"
proof -
  have "answer_text mock_message" by (simp add: mock_message_def answer_text_def answer_char_def)
  then have "\<not> (\<exists>p \<in> set FORBIDDEN_PHRASES. contains (uc_lower u mock_message) p)"
    using lower mock_message_free by simp
  moreover have "\<not> uc_space u 1057" "\<not> uc_space u 63" using space by (simp_all add: answer_char_def)
  then have "strip u mock_message = mock_message" by (simp add: mock_message_def strip_def lstrip_def rstrip_def)
  moreover have "20 \<le> length mock_message" by (simp add: mock_message_def)
  ultimately show ?thesis by (simp add: reject_authoritarian_language_def)
qed

lemma dialogue_accepted: "\<exists>t. dialogue_model_validate u pd (dialogue_payload seed) = Inr t"
proof -
  have i: "unit_interval (Fin (hundredths (seed mod 70)))" by (simp add: unit_interval_def hundredths_def)
  show ?thesis
    by (simp add: dialogue_model_validate_def read_dialogue_turn_def dialogue_payload_def object_of_def Contract.required_def
        Contract.optional_def list_of_def str_self float_self at_most_def message_accepted i ascii_def)
qed

lemma payload_parsed:
  "bindE (extract_json u fl (serialize_raw rp (mock_payload prompt version seed))) (parse_json fl) = Inr (mock_payload prompt version seed)"
  using serialized_is_parsed payloads_printable by (simp add: bindE_def mock_payload_def)

end

text \<open>A setting for the witnesses: hundredths printed and read digit by digit.\<close>

definition two_decimals :: "rat \<Rightarrow> ustr" where
  "two_decimals q = (let n = nat \<lfloor>q * 100\<rfloor> in
     [48, 46] @ (if n mod 10 = 0 then [48 + n div 10] else [48 + n div 10, 48 + n mod 10]))"

definition read_decimals :: "ustr \<Rightarrow> pyfloat option" where
  "read_decimals t = (case t of
     [z, p, a] \<Rightarrow> Some (Fin (of_nat (10 * (a - 48)) / 100))
   | [z, p, a, b] \<Rightarrow> Some (Fin (of_nat (10 * (a - 48) + (b - 48)) / 100)) | _ \<Rightarrow> None)"

lemma two_decimals_back:
  assumes "n < 100"
  shows "float_reads_back read_decimals two_decimals (hundredths n)"
proof -
  have q: "nat \<lfloor>hundredths n * 100\<rfloor> = n" by (simp add: hundredths_def)
  have digit: "is_digit (48 + d)" if "d < 10" for d using that by (simp add: is_digit_def)
  have "n div 10 < 10" "n mod 10 < 10" using assms by simp_all
  then have "\<exists>f. two_decimals (hundredths n) = [] @ digits_of 0 @ 46 # f \<and> f \<noteq> [] \<and> list_all is_digit f"
    using digit by (simp add: two_decimals_def q digits_of.simps [of 0])
  then have "decimal (two_decimals (hundredths n))" unfolding decimal_def by blast
  moreover have "10 * (n div 10) + n mod 10 = n" by simp
  then have "rat_of_nat (10 * (n div 10) + n mod 10) = rat_of_nat n" by (rule arg_cong)
  then have "10 * rat_of_nat (n div 10) + rat_of_nat (n mod 10) = rat_of_nat n" by (simp only: of_nat_add of_nat_mult of_nat_numeral)
  then have "read_decimals (two_decimals (hundredths n)) = Some (Fin (hundredths n))"
    by (simp add: read_decimals_def two_decimals_def q) (auto simp: hundredths_def mult.commute)
  ultimately show ?thesis by (simp add: float_reads_back_def)
qed

interpretation basic_mock: mock_setting basic_pydantic basic_unicode read_decimals two_decimals
  by unfold_locales (auto simp: two_decimals_back basic_unicode_def answer_char_def)

text \<open>C18. The deterministic provider never breaks the pipeline it stands in for: for every prompt that can be
  encoded, its answer is extracted and parsed, and it is accepted by the contract of the prompt: a companion
  turn for dialogue prompts, a memory without interpretive markers for memory prompts and an analysis for all
  others. It changes nothing.\<close>

theorem mock_answer_is_accepted:
  assumes "mock_setting pd u fl rp" and "mock_seed sha256 prompt = Inr seed"
  shows "\<exists>raw m. mock_generate sha256 rp elapsed prompt version temperature s = (Inr raw, s)
    \<and> bindE (extract_json u fl (raw_text raw)) (parse_json fl) = Inr m
    \<and> (if contains prompt (ascii ''assistant_message'') \<or> take 8 version = ''dialogue''
       then \<exists>t. dialogue_model_validate u pd m = Inr t
       else if take 6 version = ''memory''
       then \<exists>y. memory_model_validate pd m = Inr y \<and> sanitize_memory u y = Inr y
       else \<exists>a. validate_analysis_output u pd m = Inr a)"
proof -
  note accepted = mock_setting.dialogue_accepted [OF assms(1)] mock_setting.memory_accepted [OF assms(1)]
    mock_setting.memory_sanitized [OF assms(1)] mock_setting.analysis_accepted [OF assms(1)]
  show ?thesis
    using mock_setting.payload_parsed [OF assms(1), of prompt version seed] accepted
    by (auto simp: mock_generate_def assms(2) mock_response_def mock_payload_def)
qed

definition summing_sha :: "nat list \<Rightarrow> nat list" where
  "summing_sha bs = map (\<lambda>n. (sum_list bs + n) mod 256) [0..<32]"

theorem mock_answer_is_accepted_witness:
  "\<exists>raw m a. mock_generate summing_sha two_decimals (\<lambda>_. 0) (ascii ''Sea'') ''v2'' None (0::int) = (Inr raw, 0)
    \<and> bindE (extract_json basic_unicode read_decimals (raw_text raw)) (parse_json read_decimals) = Inr m
    \<and> validate_analysis_output basic_unicode basic_pydantic m = Inr a"
proof -
  have "\<exists>seed. mock_seed summing_sha (ascii ''Sea'') = Inr seed"
    by (simp add: mock_seed_def bindE_def encode_def utf8_char_def ascii_def)
  then obtain seed where seed: "mock_seed summing_sha (ascii ''Sea'') = Inr seed" by blast
  have "\<not> contains (ascii ''Sea'') (ascii ''assistant_message'')" by (simp add: ascii_def starts_with_rec)
  then show ?thesis
    using mock_answer_is_accepted [OF basic_mock.mock_setting_axioms seed, of "\<lambda>_. 0" "''v2''" None "0 :: int"] by auto
qed

definition nested_value :: json where
  "nested_value = JObj [(ascii ''a'', JList [JInt (-12), JStr [34, 92, 10, 1057], JNull]), (ascii ''b'', JObj []), (ascii ''c'', JFloat (Fin (hundredths 46)))]"


end
