(* ===== verification/Cleanup.thy ===== *)
theory Cleanup
  imports Store
begin

text \<open>
  The clean-up script \<open>scripts/cleanup_legacy_sessions.py\<close> and the foreign keys of \<open>db/models\<close> it has
  to respect. \<open>references_ok\<close> lists every foreign key of the models; a \<open>DELETE\<close> or \<open>UPDATE\<close> that leaves
  one of them dangling is refused at the end of the statement, as PostgreSQL does for keys that are not
  deferred. \<open>session_local\<close> says that the rows of a session refer to rows of the same session.
\<close>

subsection \<open>Foreign keys\<close>

definition refers :: "'a option \<Rightarrow> 'a set \<Rightarrow> bool" where
  "refers x ids \<longleftrightarrow> set_option x \<subseteq> ids"

definition job_keys :: "world \<Rightarrow> analysis_job \<Rightarrow> bool" where
  "job_keys s x \<longleftrightarrow> job_session_id x \<in> ds_id ` set (sessions s) \<and> refers (job_dream_id x) (dr_id ` set (dreams s))
     \<and> refers (job_thread_id x) (th_id ` set (threads s))"

definition thread_keys :: "world \<Rightarrow> analysis_thread \<Rightarrow> bool" where
  "thread_keys s x \<longleftrightarrow> th_session_id x \<in> ds_id ` set (sessions s) \<and> refers (th_last_analysis_id x) (sa_id ` set (analyses s))"

definition analysis_keys :: "world \<Rightarrow> session_analysis \<Rightarrow> bool" where
  "analysis_keys s x \<longleftrightarrow> sa_session_id x \<in> ds_id ` set (sessions s) \<and> sa_thread_id x \<in> th_id ` set (threads s)"

definition turn_keys :: "world \<Rightarrow> conversation_turn \<Rightarrow> bool" where
  "turn_keys s x \<longleftrightarrow> ct_session_id x \<in> ds_id ` set (sessions s) \<and> refers (ct_dream_id x) (dr_id ` set (dreams s))"

definition trace_keys :: "world \<Rightarrow> policy_trace \<Rightarrow> bool" where
  "trace_keys s x \<longleftrightarrow> refers (pt_session_id x) (ds_id ` set (sessions s)) \<and> refers (pt_dream_id x) (dr_id ` set (dreams s))
     \<and> refers (pt_job_id x) (job_id ` set (jobs s))"

definition memory_keys :: "world \<Rightarrow> dream_memory \<Rightarrow> bool" where
  "memory_keys s x \<longleftrightarrow> dm_dream_id x \<in> dr_id ` set (dreams s) \<and> dm_session_id x \<in> ds_id ` set (sessions s)"

definition references_ok :: "world \<Rightarrow> bool" where
  "references_ok s \<longleftrightarrow>
     list_all (\<lambda>x. dr_session_id x \<in> ds_id ` set (sessions s)) (dreams s)
     \<and> list_all (job_keys s) (jobs s) \<and> list_all (thread_keys s) (threads s) \<and> list_all (analysis_keys s) (analyses s)
     \<and> list_all (turn_keys s) (turns s) \<and> list_all (trace_keys s) (traces s) \<and> list_all (memory_keys s) (memories s)
     \<and> list_all (\<lambda>x. ss_session_id x \<in> ds_id ` set (sessions s)) (summaries s)"

lemmas key_defs = refers_def job_keys_def thread_keys_def analysis_keys_def turn_keys_def trace_keys_def memory_keys_def

text \<open>One statement of the script.\<close>

definition statement :: "(world \<Rightarrow> world) \<Rightarrow> unit db" where
  "statement f s = (if references_ok (f s) then (Inr (), f s) else (Inl IntegrityError, s))"

definition statements :: "(world \<Rightarrow> world) list \<Rightarrow> unit db" where
  "statements = foreachM statement"

subsection \<open>The script\<close>

definition legacy_session_ids :: "world \<Rightarrow> uuid list" where
  "legacy_session_ids s =
     filter (\<lambda>i. \<not> list_ex (\<lambda>p. pt_session_id p = Some i) (traces s)) (map ds_id (sessions s))"

record cleanup_counts =
  cc_sessions :: nat
  cc_dreams :: nat
  cc_jobs :: nat
  cc_analyses :: nat
  cc_threads :: nat
  cc_summaries :: nat
  cc_policy_traces :: nat

definition count_for_sessions :: "uuid list \<Rightarrow> world \<Rightarrow> cleanup_counts" where
  "count_for_sessions ids s =
     (if ids = [] then \<lparr>cc_sessions = 0, cc_dreams = 0, cc_jobs = 0, cc_analyses = 0, cc_threads = 0, cc_summaries = 0, cc_policy_traces = 0\<rparr>
      else \<lparr>cc_sessions = length ids,
        cc_dreams = length (filter (\<lambda>x. dr_session_id x \<in> set ids) (dreams s)),
        cc_jobs = length (filter (\<lambda>x. job_session_id x \<in> set ids) (jobs s)),
        cc_analyses = length (filter (\<lambda>x. sa_session_id x \<in> set ids) (analyses s)),
        cc_threads = length (filter (\<lambda>x. th_session_id x \<in> set ids) (threads s)),
        cc_summaries = length (filter (\<lambda>x. ss_session_id x \<in> set ids) (summaries s)),
        cc_policy_traces = length (filter (\<lambda>x. set_option (pt_session_id x) \<inter> set ids \<noteq> {}) (traces s))\<rparr>)"

definition drop_where :: "('a \<Rightarrow> bool) \<Rightarrow> 'a list \<Rightarrow> 'a list" where
  "drop_where P = filter (\<lambda>x. \<not> P x)"

definition cleanup_statements :: "uuid set \<Rightarrow> (world \<Rightarrow> world) list" where
  "cleanup_statements L = [
     \<lambda>s. s\<lparr>traces := drop_where (\<lambda>x. set_option (pt_session_id x) \<inter> L \<noteq> {}) (traces s)\<rparr>,
     \<lambda>s. s\<lparr>threads := update_where (\<lambda>x. th_session_id x \<in> L) (\<lambda>x. x\<lparr>th_last_analysis_id := None\<rparr>) (threads s)\<rparr>,
     \<lambda>s. s\<lparr>analyses := drop_where (\<lambda>x. sa_session_id x \<in> L) (analyses s)\<rparr>,
     \<lambda>s. s\<lparr>jobs := drop_where (\<lambda>x. job_session_id x \<in> L) (jobs s)\<rparr>,
     \<lambda>s. s\<lparr>threads := drop_where (\<lambda>x. th_session_id x \<in> L) (threads s)\<rparr>,
     \<lambda>s. s\<lparr>summaries := drop_where (\<lambda>x. ss_session_id x \<in> L) (summaries s)\<rparr>,
     \<lambda>s. s\<lparr>dreams := drop_where (\<lambda>x. dr_session_id x \<in> L) (dreams s)\<rparr>,
     \<lambda>s. s\<lparr>sessions := drop_where (\<lambda>x. ds_id x \<in> L) (sessions s)\<rparr>]"

text \<open>The session of the script is closed without a commit when a statement raises: a rollback.\<close>

definition cleanup_legacy_sessions :: "bool \<Rightarrow> cleanup_counts db" where
  "cleanup_legacy_sessions execute =
     bindM (getsM legacy_session_ids) (\<lambda>ids.
     bindM (getsM (count_for_sessions ids)) (\<lambda>preview.
     if ids = [] \<or> \<not> execute then returnM preview
     else thenM (atomically (statements (cleanup_statements (set ids)))) (returnM preview)))"

subsection \<open>Rows of a session refer to rows of the same session\<close>

definition session_local :: "world \<Rightarrow> bool" where
  "session_local s \<longleftrightarrow>
     list_all (\<lambda>x. list_all (\<lambda>d. job_dream_id x = Some (dr_id d) \<longrightarrow> dr_session_id d = job_session_id x) (dreams s)
       \<and> list_all (\<lambda>t. job_thread_id x = Some (th_id t) \<longrightarrow> th_session_id t = job_session_id x) (threads s)) (jobs s)
     \<and> list_all (\<lambda>a. list_all (\<lambda>t. sa_thread_id a = th_id t \<longrightarrow> th_session_id t = sa_session_id a) (threads s)) (analyses s)
     \<and> list_all (\<lambda>t. list_all (\<lambda>a. th_last_analysis_id t = Some (sa_id a) \<longrightarrow> sa_session_id a = th_session_id t) (analyses s)) (threads s)
     \<and> list_all (\<lambda>c. list_all (\<lambda>d. ct_dream_id c = Some (dr_id d) \<longrightarrow> dr_session_id d = ct_session_id c) (dreams s)) (turns s)
     \<and> list_all (\<lambda>p. list_all (\<lambda>d. pt_dream_id p = Some (dr_id d) \<longrightarrow> pt_session_id p = Some (dr_session_id d)) (dreams s)
       \<and> list_all (\<lambda>x. pt_job_id p = Some (job_id x) \<longrightarrow> pt_session_id p = Some (job_session_id x)) (jobs s)) (traces s)
     \<and> list_all (\<lambda>m. list_all (\<lambda>d. dm_dream_id m = dr_id d \<longrightarrow> dr_session_id d = dm_session_id m) (dreams s)) (memories s)"

text \<open>What is left when the rows of the sessions \<open>L\<close> are gone.\<close>

definition without_sessions :: "uuid set \<Rightarrow> world \<Rightarrow> world" where
  "without_sessions L s = s\<lparr>
     traces := drop_where (\<lambda>x. set_option (pt_session_id x) \<inter> L \<noteq> {}) (traces s),
     analyses := drop_where (\<lambda>x. sa_session_id x \<in> L) (analyses s),
     jobs := drop_where (\<lambda>x. job_session_id x \<in> L) (jobs s),
     threads := drop_where (\<lambda>x. th_session_id x \<in> L) (threads s),
     summaries := drop_where (\<lambda>x. ss_session_id x \<in> L) (summaries s),
     dreams := drop_where (\<lambda>x. dr_session_id x \<in> L) (dreams s),
     sessions := drop_where (\<lambda>x. ds_id x \<in> L) (sessions s)\<rparr>"

definition kept_history :: "uuid set \<Rightarrow> world \<Rightarrow> bool" where
  "kept_history L s \<longleftrightarrow> list_ex (\<lambda>c. ct_session_id c \<in> L) (turns s) \<or> list_ex (\<lambda>m. dm_session_id m \<in> L) (memories s)"

subsection \<open>What the script does\<close>

definition surroundings where
  "surroundings s = (turns s, memories s, prompt_versions s, players s, tx_now s, clock s, uuids s, dream_seq s, row_locked s,
     rivals s, rivals_pending s, redis s, sent s)"

lemma keeps_statement: "(\<And>s. f (g s) = f s) \<Longrightarrow> keeps f (statement g)"
  by (simp add: keeps_def statement_def)

lemma keeps_statements: "(\<And>g s. g \<in> set gs \<Longrightarrow> f (g s) = f s) \<Longrightarrow> keeps f (statements gs)"
  unfolding statements_def by (induction gs) (auto intro!: keep keeps_statement)

lemma cleanup_surroundings: "keeps surroundings (statements (cleanup_statements L))"
  by (rule keeps_statements) (auto simp: cleanup_statements_def surroundings_def)

lemma rolled_back_completely:
  assumes "rivals_pending s = []" and "surroundings t = surroundings s"
  shows "rollback_to s t = s"
  using assms by (cases s, cases t) (simp add: rollback_to_def surroundings_def)

lemma statements_raise:
  "statements gs s = (Inl e, t) \<Longrightarrow> e = IntegrityError"
  unfolding statements_def by (induction gs arbitrary: s) (auto simp: run statement_def split: if_splits)

lemma statements_done:
  "statements gs s = (Inr u, t) \<Longrightarrow> t = fold (\<lambda>g. g) gs s \<and> (gs \<noteq> [] \<longrightarrow> references_ok t)"
  unfolding statements_def
proof (induction gs arbitrary: s)
  case (Cons g gs)
  then show ?case by (cases gs) (auto simp: run statement_def split: if_splits)
qed (simp add: run)

lemma statements_run:
  "(\<And>k. 0 < k \<Longrightarrow> k \<le> length gs \<Longrightarrow> references_ok (fold (\<lambda>g. g) (take k gs) s)) \<Longrightarrow> statements gs s = (Inr (), fold (\<lambda>g. g) gs s)"
  unfolding statements_def
proof (induction gs arbitrary: s)
  case (Cons g gs)
  have "references_ok (g s)" using Cons.prems [of 1] by simp
  moreover have "references_ok (fold (\<lambda>g. g) (take k gs) (g s))" if "0 < k" "k \<le> length gs" for k
    using Cons.prems [of "Suc k"] that by simp
  ultimately show ?case using Cons.IH [of "g s"] by (simp add: run statement_def)
qed (simp add: run)

lemma drop_where_set [simp]: "set (drop_where P xs) = {x \<in> set xs. \<not> P x}"
  by (auto simp: drop_where_def)

lemma drop_update [simp]:
  "(\<And>x. P (f x) = P x) \<Longrightarrow> drop_where P (update_where P f xs) = drop_where P xs"
  by (induction xs) (auto simp: drop_where_def)

lemma cleanup_result: "fold (\<lambda>g. g) (cleanup_statements L) s = without_sessions L s"
  by (simp add: cleanup_statements_def without_sessions_def)

lemma kept_history_dangles: "kept_history L s \<Longrightarrow> \<not> references_ok (without_sessions L s)"
  unfolding kept_history_def references_ok_def without_sessions_def list_all_iff list_ex_iff turn_keys_def memory_keys_def
  by fastforce

text \<open>The state after the first \<open>n\<close> statements.\<close>

definition cut :: "bool \<Rightarrow> ('a \<Rightarrow> bool) \<Rightarrow> 'a list \<Rightarrow> 'a list" where
  "cut b P xs = (if b then drop_where P xs else xs)"

definition unlinked :: "bool \<Rightarrow> uuid set \<Rightarrow> analysis_thread list \<Rightarrow> analysis_thread list" where
  "unlinked b L ts = (if b then update_where (\<lambda>x. th_session_id x \<in> L) (\<lambda>x. x\<lparr>th_last_analysis_id := None\<rparr>) ts else ts)"

definition threads_left :: "nat \<Rightarrow> uuid set \<Rightarrow> analysis_thread list \<Rightarrow> analysis_thread list" where
  "threads_left n L ts = cut (5 \<le> n) (\<lambda>x. th_session_id x \<in> L) (unlinked (2 \<le> n) L ts)"

definition after_statements :: "nat \<Rightarrow> uuid set \<Rightarrow> world \<Rightarrow> world" where
  "after_statements n L s = s\<lparr>
     traces := cut (1 \<le> n) (\<lambda>x. set_option (pt_session_id x) \<inter> L \<noteq> {}) (traces s),
     threads := threads_left n L (threads s),
     analyses := cut (3 \<le> n) (\<lambda>x. sa_session_id x \<in> L) (analyses s),
     jobs := cut (4 \<le> n) (\<lambda>x. job_session_id x \<in> L) (jobs s),
     summaries := cut (6 \<le> n) (\<lambda>x. ss_session_id x \<in> L) (summaries s),
     dreams := cut (7 \<le> n) (\<lambda>x. dr_session_id x \<in> L) (dreams s),
     sessions := cut (8 \<le> n) (\<lambda>x. ds_id x \<in> L) (sessions s)\<rparr>"

lemma fold_statements:
  assumes "0 < k" and "k \<le> 8"
  shows "fold (\<lambda>g. g) (take k (cleanup_statements L)) s = after_statements k L s"
proof -
  have "k \<in> {1, 2, 3, 4, 5, 6, 7, 8}" using assms by auto
  then show ?thesis
    by (elim insertE emptyE; simp add: cleanup_statements_def after_statements_def threads_left_def cut_def unlinked_def numeral_eq_Suc)
qed

lemma in_cut: "x \<in> set (cut b P xs) \<longleftrightarrow> x \<in> set xs \<and> \<not> (b \<and> P x)"
  by (simp add: cut_def)

lemma image_cut: "k \<in> f ` set xs \<Longrightarrow> (\<And>a. a \<in> set xs \<Longrightarrow> f a = k \<Longrightarrow> b \<Longrightarrow> \<not> P a) \<Longrightarrow> k \<in> f ` set (cut b P xs)"
  by (auto simp: in_cut)

lemma refers_cut:
  "refers x (f ` set xs) \<Longrightarrow> (\<And>a. a \<in> set xs \<Longrightarrow> x = Some (f a) \<Longrightarrow> b \<Longrightarrow> \<not> P a) \<Longrightarrow> refers x (f ` set (cut b P xs))"
  by (cases x) (auto simp: refers_def in_cut)

lemma threads_left_ids:
  assumes k: "k \<in> th_id ` set ts" and kept: "\<And>a. a \<in> set ts \<Longrightarrow> th_id a = k \<Longrightarrow> 5 \<le> n \<Longrightarrow> th_session_id a \<notin> L"
  shows "k \<in> th_id ` set (threads_left n L ts)"
  unfolding threads_left_def
proof (rule image_cut)
  have "map th_id (unlinked (2 \<le> n) L ts) = map th_id ts" by (simp add: unlinked_def map_update_where)
  then have "th_id ` set (unlinked (2 \<le> n) L ts) = th_id ` set ts" by (metis set_map)
  with k show "k \<in> th_id ` set (unlinked (2 \<le> n) L ts)" by simp
  fix a assume "a \<in> set (unlinked (2 \<le> n) L ts)" "th_id a = k" "5 \<le> n"
  then show "th_session_id a \<notin> L" using kept by (fastforce simp: unlinked_def set_update_where split: if_splits)
qed

lemma threads_left_refers:
  "refers x (th_id ` set ts) \<Longrightarrow> (\<And>a. a \<in> set ts \<Longrightarrow> x = Some (th_id a) \<Longrightarrow> 5 \<le> n \<Longrightarrow> th_session_id a \<notin> L) \<Longrightarrow>
   refers x (th_id ` set (threads_left n L ts))"
  using threads_left_ids [of "the x" ts n L] by (cases x) (auto simp: refers_def)

lemma legacy_untraced: "i \<in> set (legacy_session_ids s) \<Longrightarrow> p \<in> set (traces s) \<Longrightarrow> pt_session_id p \<noteq> Some i"
  by (auto simp: legacy_session_ids_def list_ex_iff)

lemma cleanup_prefix_ok:
  assumes ok: "references_ok s" "session_local s" and L: "L = set (legacy_session_ids s)" and free: "\<not> kept_history L s"
  shows "references_ok (after_statements n L s)"
proof -
  note r = ok(1) [unfolded references_ok_def list_all_iff]
  note l = ok(2) [unfolded session_local_def list_all_iff]
  have f: "\<And>c. c \<in> set (turns s) \<Longrightarrow> ct_session_id c \<notin> L" "\<And>m. m \<in> set (memories s) \<Longrightarrow> dm_session_id m \<notin> L"
    using free by (auto simp: kept_history_def list_ex_iff)
  let ?u = "after_statements n L s"
  have "dr_session_id x \<in> ds_id ` set (sessions ?u)" if "x \<in> set (dreams ?u)" for x
    using conjunct1 [OF r] that by (auto simp: after_statements_def in_cut intro!: image_cut)
  moreover have "ss_session_id x \<in> ds_id ` set (sessions ?u)" if "x \<in> set (summaries ?u)" for x
  proof -
    have "ss_session_id x \<in> ds_id ` set (sessions s)" using r that by (simp add: after_statements_def in_cut)
    then show ?thesis using that by (auto simp: after_statements_def in_cut intro!: image_cut)
  qed
  moreover have "turn_keys ?u x" if x: "x \<in> set (turns ?u)" for x
  proof -
    have "turn_keys s x" "\<forall>d \<in> set (dreams s). ct_dream_id x = Some (dr_id d) \<longrightarrow> dr_session_id d = ct_session_id x" "ct_session_id x \<notin> L"
      using r l f x by (simp_all add: after_statements_def)
    then show ?thesis by (auto simp: after_statements_def turn_keys_def intro!: image_cut refers_cut)
  qed
  moreover have "memory_keys ?u x" if x: "x \<in> set (memories ?u)" for x
  proof -
    have "memory_keys s x" "\<forall>d \<in> set (dreams s). dm_dream_id x = dr_id d \<longrightarrow> dr_session_id d = dm_session_id x" "dm_session_id x \<notin> L"
      using r l f x by (simp_all add: after_statements_def)
    then show ?thesis by (auto simp: after_statements_def memory_keys_def intro!: image_cut)
  qed
  moreover have "job_keys ?u x" if "x \<in> set (jobs ?u)" for x
  proof -
    have "4 \<le> n \<Longrightarrow> job_session_id x \<notin> L" "job_keys s x"
      "\<forall>d \<in> set (dreams s). job_dream_id x = Some (dr_id d) \<longrightarrow> dr_session_id d = job_session_id x"
      "\<forall>t \<in> set (threads s). job_thread_id x = Some (th_id t) \<longrightarrow> th_session_id t = job_session_id x"
      using r l that by (simp_all add: after_statements_def in_cut)
    then show ?thesis
      by (auto simp: after_statements_def job_keys_def intro!: image_cut refers_cut threads_left_refers)
  qed
  moreover have "analysis_keys ?u x" if "x \<in> set (analyses ?u)" for x
  proof -
    have "3 \<le> n \<Longrightarrow> sa_session_id x \<notin> L" "analysis_keys s x" 
      "\<forall>t \<in> set (threads s). sa_thread_id x = th_id t \<longrightarrow> th_session_id t = sa_session_id x"
      using r l that by (simp_all add: after_statements_def in_cut)
    then show ?thesis
      by (auto simp: after_statements_def analysis_keys_def intro!: image_cut threads_left_ids)
  qed
  moreover have "trace_keys ?u x" if "x \<in> set (traces ?u)" for x
  proof -
    have x: "x \<in> set (traces s)" using that by (auto simp: after_statements_def in_cut)
    have "pt_session_id x \<noteq> Some i" if "i \<in> L" for i using legacy_untraced [OF _ x] that by (simp add: L)
    moreover have "trace_keys s x" "\<forall>d \<in> set (dreams s). pt_dream_id x = Some (dr_id d) \<longrightarrow> pt_session_id x = Some (dr_session_id d)"
      "\<forall>j \<in> set (jobs s). pt_job_id x = Some (job_id j) \<longrightarrow> pt_session_id x = Some (job_session_id j)"
      using r l x by simp_all
    ultimately show ?thesis
      by (auto simp: after_statements_def trace_keys_def intro!: refers_cut)
  qed
  moreover have "thread_keys ?u x" if "x \<in> set (threads ?u)" for x
  proof -
    have x: "x \<in> set (unlinked (2 \<le> n) L (threads s))" "5 \<le> n \<longrightarrow> th_session_id x \<notin> L"
      using that by (auto simp: after_statements_def threads_left_def in_cut)
    then obtain t where t: "t \<in> set (threads s)"
      "x = (if 2 \<le> n \<and> th_session_id t \<in> L then t\<lparr>th_last_analysis_id := None\<rparr> else t)"
      by (auto simp: unlinked_def set_update_where split: if_splits)
    then have "thread_keys s t"
      "\<forall>a \<in> set (analyses s). th_last_analysis_id t = Some (sa_id a) \<longrightarrow> sa_session_id a = th_session_id t"
      using r l by simp_all
    then show ?thesis using x(2)
      by (auto simp: t(2) after_statements_def thread_keys_def refers_def [where x = None] intro!: image_cut refers_cut)
  qed
  ultimately show ?thesis by (simp add: references_ok_def list_all_iff)
qed

text \<open>C35. The clean-up of sessions without policy traces, on a database whose foreign keys hold and whose
  rows refer to rows of their own session. It is blocked exactly when a conversation turn or a dream memory
  of such a session is stored (the script deletes neither): then a foreign key stops it and every table stays
  as it was. Otherwise it deletes exactly the rows of these sessions, no key dangles afterwards, and the
  numbers it reports are those of the rows before the deletion. A dry run changes nothing.\<close>

theorem cleanup_removes_legacy_sessions:
  assumes "references_ok s" and "session_local s" and "rivals_pending s = []"
  shows "cleanup_legacy_sessions False s = (Inr (count_for_sessions (legacy_session_ids s) s), s)
    \<and> (if kept_history (set (legacy_session_ids s)) s then cleanup_legacy_sessions True s = (Inl IntegrityError, s)
       else cleanup_legacy_sessions True s
              = (Inr (count_for_sessions (legacy_session_ids s) s), without_sessions (set (legacy_session_ids s)) s)
         \<and> references_ok (without_sessions (set (legacy_session_ids s)) s))"
proof -
  let ?ids = "legacy_session_ids s" and ?gs = "cleanup_statements (set (legacy_session_ids s))"
  have len: "length ?gs = 8" by (simp add: cleanup_statements_def)
  have no_ids: "\<not> kept_history (set ?ids) s \<and> without_sessions (set ?ids) s = s" if "?ids = []"
    by (simp add: that kept_history_def without_sessions_def drop_where_def list_ex_iff)
  have blocked: "atomically (statements ?gs) s = (Inl IntegrityError, s)" if "kept_history (set ?ids) s"
  proof (cases "statements ?gs s")
    case (Pair r t)
    have "r = Inl IntegrityError"
      using statements_raise statements_done [of ?gs s] Pair len kept_history_dangles [OF that]
      by (cases r) (auto simp: cleanup_result)
    moreover have "surroundings t = surroundings s" using keepsD [OF cleanup_surroundings Pair] .
    ultimately show ?thesis using Pair rolled_back_completely [OF assms(3)] by (simp add: atomically_def)
  qed
  have done_all: "statements ?gs s = (Inr (), without_sessions (set ?ids) s)" if free: "\<not> kept_history (set ?ids) s"
    using statements_run [of ?gs s] cleanup_prefix_ok [OF assms(1, 2) refl free] fold_statements [of _ "set ?ids" s]
    by (simp add: len cleanup_result)
  have "references_ok (without_sessions (set ?ids) s)" if free: "\<not> kept_history (set ?ids) s"
    using cleanup_prefix_ok [OF assms(1, 2) refl free, of 8] fold_statements [of 8 "set ?ids" s] len
    by (simp add: cleanup_result)
  then show ?thesis
    using blocked done_all no_ids by (auto simp: cleanup_legacy_sessions_def run atomically_def)
qed

subsection \<open>A session of the dreams endpoint\<close>

text \<open>A dream that was posted directly leaves no policy trace; the memory of it is written by its job.\<close>

definition untraced_world :: world where
  "untraced_world = empty_world\<lparr>
     sessions := [\<lparr>ds_id = 7, ds_user_id = 1, ds_status = ''active'', ds_created_at = 0, ds_updated_at = 0, ds_last_activity_at = 0\<rparr>],
     dreams := [\<lparr>dr_id = 1, dr_user_id = 1, dr_text = [], dr_created_at = 0, dr_session_id = 7\<rparr>]\<rparr>"

definition remembered_world :: world where
  "remembered_world = untraced_world\<lparr>memories := [\<lparr>dm_id = 20, dm_dream_id = 1, dm_session_id = 7, dm_user_id = 1,
     dm_memory_version = ''v1'', dm_memory_json = JNull, dm_analysis_job_id = None, dm_created_at = 0, dm_updated_at = 0\<rparr>]\<rparr>"

lemma untraced_ok: "references_ok untraced_world" "session_local untraced_world" "rivals_pending untraced_world = []"
  "references_ok remembered_world" "session_local remembered_world" "rivals_pending remembered_world = []"
  by (simp_all add: references_ok_def session_local_def remembered_world_def untraced_world_def empty_world_def memory_keys_def)

lemma untraced_ids: "legacy_session_ids untraced_world = [7]" "legacy_session_ids remembered_world = [7]"
  by (simp_all add: legacy_session_ids_def remembered_world_def untraced_world_def empty_world_def)

lemma untraced_rows: "\<not> kept_history {7} untraced_world" "kept_history {7} remembered_world"
  "sessions (without_sessions {7} untraced_world) = []"
  by (simp_all add: kept_history_def without_sessions_def drop_where_def remembered_world_def untraced_world_def empty_world_def)

theorem cleanup_removes_legacy_sessions_witness:
  "sessions (snd (cleanup_legacy_sessions True untraced_world)) = []
   \<and> cleanup_legacy_sessions True remembered_world = (Inl IntegrityError, remembered_world)"
  using cleanup_removes_legacy_sessions [OF untraced_ok(1-3)] cleanup_removes_legacy_sessions [OF untraced_ok(4-6)]
  by (simp add: untraced_ids untraced_rows)

end
