(* ===== verification/Migrations.thy ===== *)
theory Migrations
  imports Sessions Threads
begin

text \<open>
  The data migrations of \<open>migrations/versions\<close>: dream sessions are given to dreams that were recorded before
  sessions existed, and analysis threads to analyses that were stored before threads existed. Each revision is
  a function on the rows it finds; the columns a revision adds or drops show in the row types. The theorems
  say that the migrated tables satisfy the invariants the services maintain from then on.
\<close>

subsection \<open>Rows of the earlier revisions\<close>

record old_session =
  os_id :: uuid
  os_user_id :: int
  os_status :: string
  os_created_at :: time
  os_updated_at :: time

record old_dream =
  od_id :: int
  od_user_id :: int
  od_text :: ustr
  od_created_at :: time
  od_session_id :: "uuid option"

record old_db =
  o_sessions :: "old_session list"
  o_dreams :: "old_dream list"
  o_now :: time
  o_uuids :: "nat \<Rightarrow> uuid"

definition old_active :: "int \<Rightarrow> old_session \<Rightarrow> bool" where
  "old_active uid x \<longleftrightarrow> os_user_id x = uid \<and> os_status x = SESSION_ACTIVE"

definition open_session :: "uuid \<Rightarrow> int \<Rightarrow> time \<Rightarrow> old_session" where
  "open_session i uid now = \<lparr>os_id = i, os_user_id = uid, os_status = SESSION_ACTIVE, os_created_at = now, os_updated_at = now\<rparr>"

subsection \<open>Revision c3d4e5f6a7b8: a session for every user who has dreams\<close>

definition backfill_user :: "int \<Rightarrow> old_db \<Rightarrow> old_db" where
  "backfill_user uid s = s\<lparr>
     o_sessions := o_sessions s @ [open_session (o_uuids s 0) uid (o_now s)],
     o_dreams := update_where (\<lambda>d. od_user_id d = uid) (\<lambda>d. d\<lparr>od_session_id := Some (o_uuids s 0)\<rparr>) (o_dreams s),
     o_uuids := \<lambda>n. o_uuids s (Suc n)\<rparr>"

definition backfill_dream_sessions :: "old_db \<Rightarrow> old_db" where
  "backfill_dream_sessions s = fold backfill_user (remdups (map od_user_id (o_dreams s))) s"

definition undo_backfill :: "old_db \<Rightarrow> old_db" where
  "undo_backfill s = s\<lparr>o_dreams := map (\<lambda>d. d\<lparr>od_session_id := None\<rparr>) (o_dreams s), o_sessions := []\<rparr>"

subsection \<open>Revision d4e5f6a7b8c9: \<open>dreams.session_id\<close> becomes \<open>NOT NULL\<close>\<close>

text \<open>
  \<open>orphan_id\<close> is the identifier the statement computes from \<open>md5('orphan:' || user_id)\<close>. \<open>SELECT DISTINCT\<close>
  fixes no order; the first occurrence is taken, and the order is not observable afterwards.
\<close>

definition orphan_users :: "old_db \<Rightarrow> int list" where
  "orphan_users s = remdups (map od_user_id (filter (\<lambda>d. od_session_id d = None) (o_dreams s)))"

definition insert_if_new :: "old_session \<Rightarrow> old_session list \<Rightarrow> old_session list" where
  "insert_if_new x xs = (if os_id x \<in> os_id ` set xs then xs else xs @ [x])"

definition create_orphan_sessions :: "(int \<Rightarrow> uuid) \<Rightarrow> old_db \<Rightarrow> old_db" where
  "create_orphan_sessions orphan_id s = s\<lparr>o_sessions :=
     fold (\<lambda>uid. insert_if_new (open_session (orphan_id uid) uid (o_now s)))
       (filter (\<lambda>uid. \<not> list_ex (old_active uid) (o_sessions s)) (orphan_users s)) (o_sessions s)\<rparr>"

definition target_session :: "(int \<Rightarrow> uuid) \<Rightarrow> old_session list \<Rightarrow> int \<Rightarrow> uuid" where
  "target_session orphan_id xs uid =
     (case first_row (sort_key (\<lambda>x. - os_updated_at x) (filter (old_active uid) xs)) of
        Some x \<Rightarrow> os_id x | None \<Rightarrow> orphan_id uid)"

definition adopt_orphans :: "(int \<Rightarrow> uuid) \<Rightarrow> old_db \<Rightarrow> old_db" where
  "adopt_orphans orphan_id s = s\<lparr>o_dreams := update_where (\<lambda>d. od_session_id d = None)
     (\<lambda>d. d\<lparr>od_session_id := Some (target_session orphan_id (o_sessions s) (od_user_id d))\<rparr>) (o_dreams s)\<rparr>"

definition not_null :: "old_dream \<Rightarrow> exn + dream" where
  "not_null d = (case od_session_id d of None \<Rightarrow> Inl IntegrityError
     | Some i \<Rightarrow> Inr \<lparr>dr_id = od_id d, dr_user_id = od_user_id d, dr_text = od_text d, dr_created_at = od_created_at d, dr_session_id = i\<rparr>)"

definition enforce_session_not_null :: "(int \<Rightarrow> uuid) \<Rightarrow> old_db \<Rightarrow> exn + old_session list \<times> dream list" where
  "enforce_session_not_null orphan_id s =
     (let t = if 0 < length (filter (\<lambda>d. od_session_id d = None) (o_dreams s))
              then adopt_orphans orphan_id (create_orphan_sessions orphan_id s) else s
      in bindE (mapE not_null (o_dreams t)) (\<lambda>ds. Inr (o_sessions t, ds)))"

subsection \<open>Revision e5f6a7b8c9d0: \<open>dream_sessions.last_activity_at\<close>\<close>

definition add_last_activity_at :: "old_session \<Rightarrow> dream_session" where
  "add_last_activity_at x = \<lparr>ds_id = os_id x, ds_user_id = os_user_id x, ds_status = os_status x,
     ds_created_at = os_created_at x, ds_updated_at = os_updated_at x, ds_last_activity_at = os_created_at x\<rparr>"

definition drop_last_activity_at :: "dream_session \<Rightarrow> old_session" where
  "drop_last_activity_at r = \<lparr>os_id = ds_id r, os_user_id = ds_user_id r, os_status = ds_status r,
     os_created_at = ds_created_at r, os_updated_at = ds_updated_at r\<rparr>"

subsection \<open>Revision b8c9d0e1f2a3: threads for the stored analyses\<close>

record old_analysis =
  oa_id :: uuid
  oa_session_id :: uuid
  oa_user_id :: int
  oa_provider :: ustr
  oa_model :: ustr
  oa_prompt_version :: string
  oa_analysis_version :: string
  oa_analysis_json :: json
  oa_raw_response :: "ustr option"
  oa_created_at :: time

record thread_v1 =
  tv_id :: uuid
  tv_session_id :: uuid
  tv_status :: string
  tv_created_at :: time
  tv_updated_at :: time
  tv_last_analysis_id :: "uuid option"

record analysis_v1 =
  av_row :: old_analysis
  av_thread_id :: "uuid option"
  av_is_latest :: bool
  av_continuation_index :: nat

definition of_old_session :: "uuid \<Rightarrow> old_analysis list \<Rightarrow> old_analysis list" where
  "of_old_session sid = filter (\<lambda>a. oa_session_id a = sid)"

text \<open>\<open>INSERT .. SELECT gen_random_uuid(), session_id, 'active', MIN(created_at), MAX(created_at) .. GROUP BY session_id\<close>.\<close>

definition thread_of_group :: "old_analysis list \<Rightarrow> uuid \<Rightarrow> uuid \<Rightarrow> thread_v1" where
  "thread_of_group xs sid i = \<lparr>tv_id = i, tv_session_id = sid, tv_status = THREAD_STATUS_ACTIVE,
     tv_created_at = Min (oa_created_at ` set (of_old_session sid xs)),
     tv_updated_at = Max (oa_created_at ` set (of_old_session sid xs)), tv_last_analysis_id = None\<rparr>"

definition group_threads :: "(nat \<Rightarrow> uuid) \<Rightarrow> old_analysis list \<Rightarrow> thread_v1 list" where
  "group_threads uu xs =
     (let sids = remdups (map oa_session_id xs) in map2 (thread_of_group xs) sids (map uu [0..<length sids]))"

definition attach :: "thread_v1 list \<Rightarrow> old_analysis \<Rightarrow> analysis_v1" where
  "attach ts a = \<lparr>av_row = a, av_thread_id = map_option tv_id (find (\<lambda>t. tv_session_id t = oa_session_id a) ts),
     av_is_latest = False, av_continuation_index = 0\<rparr>"

text \<open>\<open>SELECT DISTINCT ON (session_id) id .. ORDER BY session_id, created_at DESC, id DESC\<close>.\<close>

definition latest_ids :: "old_analysis list \<Rightarrow> uuid list" where
  "latest_ids xs = map (\<lambda>sid. oa_id (last (sort_key (\<lambda>a. (oa_created_at a, oa_id a)) (of_old_session sid xs))))
     (remdups (map oa_session_id xs))"

definition mark_latest :: "uuid list \<Rightarrow> analysis_v1 list \<Rightarrow> analysis_v1 list" where
  "mark_latest ids = update_where (\<lambda>a. oa_id (av_row a) \<in> set ids) (\<lambda>a. a\<lparr>av_is_latest := True\<rparr>)"

definition point_to_latest :: "analysis_v1 list \<Rightarrow> thread_v1 \<Rightarrow> thread_v1" where
  "point_to_latest xs t = (case find (\<lambda>a. av_thread_id a = Some (tv_id t) \<and> av_is_latest a) xs of
     None \<Rightarrow> t | Some a \<Rightarrow> t\<lparr>tv_last_analysis_id := Some (oa_id (av_row a))\<rparr>)"

definition one_latest :: "analysis_v1 list \<Rightarrow> bool" where
  "one_latest xs \<longleftrightarrow> distinct (map av_thread_id (filter av_is_latest xs))"

definition add_analysis_threads :: "(nat \<Rightarrow> uuid) \<Rightarrow> old_analysis list \<Rightarrow> exn + thread_v1 list \<times> analysis_v1 list" where
  "add_analysis_threads uu xs =
     (let ts = group_threads uu xs; ys = mark_latest (latest_ids xs) (map (attach ts) xs) in
      if list_ex (\<lambda>a. av_thread_id a = None) ys \<or> \<not> one_latest ys then Inl IntegrityError
      else Inr (map (point_to_latest ys) ts, ys))"

text \<open>The downgrade restores the uniqueness of \<open>session_id\<close>, which is refused once a session has two analyses.\<close>

definition drop_analysis_threads :: "analysis_v1 list \<Rightarrow> exn + old_analysis list" where
  "drop_analysis_threads ys =
     (if distinct (map (\<lambda>a. oa_session_id (av_row a)) ys) then Inr (map av_row ys) else Inl IntegrityError)"

subsection \<open>Revision c9d0e1f2a3b4: the life cycle of threads, and e1f2a3b4c5d6: \<open>analysis_job_id\<close>\<close>

definition renamed_status :: "string \<Rightarrow> string" where
  "renamed_status st = (if st = ''superseded'' then ''idle'' else if st = ''completed'' then ''closed'' else st)"

definition last_activity :: "analysis_v1 list \<Rightarrow> thread_v1 \<Rightarrow> time" where
  "last_activity ys t = (case find (\<lambda>a. av_thread_id a = Some (tv_id t) \<and> av_is_latest a) ys of
     Some a \<Rightarrow> oa_created_at (av_row a) | None \<Rightarrow> tv_updated_at t)"

definition thread_v2 :: "analysis_v1 list \<Rightarrow> thread_v1 \<Rightarrow> analysis_thread" where
  "thread_v2 ys t = \<lparr>th_id = tv_id t, th_session_id = tv_session_id t, th_status = renamed_status (tv_status t),
     th_created_at = tv_created_at t, th_updated_at = tv_updated_at t, th_last_activity_at = Some (last_activity ys t),
     th_last_analysis_id = tv_last_analysis_id t\<rparr>"

definition add_thread_lifecycle :: "thread_v1 list \<times> analysis_v1 list \<Rightarrow> exn + analysis_thread list" where
  "add_thread_lifecycle p = (case p of (ts, ys) \<Rightarrow>
     let us = map (thread_v2 ys) ts in
     if distinct (map th_session_id (filter (\<lambda>u. th_status u = ''active'') us)) then Inr us else Inl IntegrityError)"

definition drop_thread_lifecycle :: "analysis_thread \<Rightarrow> thread_v1" where
  "drop_thread_lifecycle u = \<lparr>tv_id = th_id u, tv_session_id = th_session_id u,
     tv_status = (if th_status u = ''idle'' then ''superseded'' else if th_status u = ''closed'' then ''completed'' else th_status u),
     tv_created_at = th_created_at u, tv_updated_at = th_updated_at u, tv_last_analysis_id = th_last_analysis_id u\<rparr>"

definition add_analysis_job_id :: "analysis_v1 \<Rightarrow> session_analysis" where
  "add_analysis_job_id a = (let r = av_row a in \<lparr>sa_id = oa_id r, sa_session_id = oa_session_id r,
     sa_thread_id = (case av_thread_id a of Some i \<Rightarrow> i | None \<Rightarrow> 0), sa_user_id = oa_user_id r, sa_provider = oa_provider r,
     sa_model = oa_model r, sa_prompt_version = oa_prompt_version r, sa_analysis_version = oa_analysis_version r,
     sa_analysis_json = oa_analysis_json r, sa_raw_response = oa_raw_response r, sa_is_latest = av_is_latest a,
     sa_continuation_index = av_continuation_index a, sa_analysis_job_id = None, sa_created_at = oa_created_at r\<rparr>)"

definition upgrade_analyses :: "(nat \<Rightarrow> uuid) \<Rightarrow> old_analysis list \<Rightarrow> exn + analysis_thread list \<times> session_analysis list" where
  "upgrade_analyses uu xs = bindE (add_analysis_threads uu xs) (\<lambda>p.
     bindE (add_thread_lifecycle p) (\<lambda>us. Inr (us, map add_analysis_job_id (snd p))))"

subsection \<open>Every dream gets a session of its user\<close>

definition dreams_owned :: "old_db \<Rightarrow> bool" where
  "dreams_owned s \<longleftrightarrow> (\<forall>d \<in> set (o_dreams s). \<forall>i. od_session_id d = Some i \<longrightarrow>
     (\<exists>x \<in> set (o_sessions s). os_id x = i \<and> os_user_id x = od_user_id d))"

definition old_one_active :: "old_session list \<Rightarrow> bool" where
  "old_one_active xs \<longleftrightarrow> (\<forall>u. length (filter (old_active u) xs) \<le> 1)"

text \<open>What the statement relies on for its computed identifiers: \<open>md5\<close> does not collide on them, and a session that already carries one was created for the same user.\<close>

definition orphan_ids_ok :: "(int \<Rightarrow> uuid) \<Rightarrow> old_session list \<Rightarrow> bool" where
  "orphan_ids_ok orphan_id xs \<longleftrightarrow> inj orphan_id \<and> (\<forall>x \<in> set xs. \<forall>u. os_id x = orphan_id u \<longrightarrow> os_user_id x = u)"

lemma open_session_sel [simp]: "os_id (open_session i u now) = i" "os_user_id (open_session i u now) = u"
  "old_active v (open_session i u now) \<longleftrightarrow> u = v"
  by (simp_all add: open_session_def old_active_def)

lemma fold_insert_sessions:
  assumes "inj f" and "distinct us"
  shows "fold (\<lambda>u. insert_if_new (open_session (f u) u now)) us xs
    = xs @ map (\<lambda>u. open_session (f u) u now) (filter (\<lambda>u. f u \<notin> os_id ` set xs) us)"
  using assms(2)
proof (induction us arbitrary: xs)
  case (Cons u us)
  have "v \<in> set us \<Longrightarrow> f v \<noteq> f u" for v using Cons.prems assms(1) by (auto dest: injD)
  then have "filter (\<lambda>v. f v \<notin> os_id ` set (xs @ [open_session (f u) u now])) us = filter (\<lambda>v. f v \<notin> os_id ` set xs) us"
    by (auto intro!: filter_cong)
  then show ?case using Cons by (simp add: insert_if_new_def del: set_append)
qed simp

definition new_users :: "(int \<Rightarrow> uuid) \<Rightarrow> old_db \<Rightarrow> int list" where
  "new_users f s = filter (\<lambda>u. \<not> list_ex (old_active u) (o_sessions s) \<and> f u \<notin> os_id ` set (o_sessions s)) (orphan_users s)"

lemma created_sessions:
  assumes "inj f"
  shows "o_sessions (create_orphan_sessions f s) = o_sessions s @ map (\<lambda>u. open_session (f u) u (o_now s)) (new_users f s)"
  by (simp add: create_orphan_sessions_def fold_insert_sessions [OF assms] orphan_users_def new_users_def conj_commute)

lemma new_users: "distinct (new_users f s)"
  "u \<in> set (new_users f s) \<longleftrightarrow> u \<in> set (orphan_users s) \<and> \<not> list_ex (old_active u) (o_sessions s) \<and> f u \<notin> os_id ` set (o_sessions s)"
  by (auto simp: new_users_def orphan_users_def)

lemma filter_opened: "distinct us \<Longrightarrow> length (filter (old_active v) (map (\<lambda>u. open_session (f u) u now) us)) \<le> 1"
  by (induction us) (auto simp: filter_empty_conv filter_map o_def)

lemma old_one_active_append:
  assumes "old_one_active xs" and "distinct us" and "\<And>u. u \<in> set us \<Longrightarrow> \<not> list_ex (old_active u) xs"
  shows "old_one_active (xs @ map (\<lambda>u. open_session (f u) u now) us)"
  unfolding old_one_active_def
proof
  fix v
  show "length (filter (old_active v) (xs @ map (\<lambda>u. open_session (f u) u now) us)) \<le> 1"
  proof (cases "v \<in> set us")
    case True
    then have "filter (old_active v) xs = []" using assms(3) by (simp add: filter_empty_conv list_ex_iff)
    then show ?thesis using filter_opened [OF assms(2)] by simp
  next
    case False
    then have "filter (old_active v) (map (\<lambda>u. open_session (f u) u now) us) = []" by (auto simp: filter_empty_conv)
    then show ?thesis using assms(1) by (simp add: old_one_active_def)
  qed
qed

lemma target_exists:
  assumes ids: "orphan_ids_ok f (o_sessions s)" and u: "u \<in> set (orphan_users s)"
  shows "\<exists>x \<in> set (o_sessions (create_orphan_sessions f s)).
    os_id x = target_session f (o_sessions (create_orphan_sessions f s)) u \<and> os_user_id x = u"
proof -
  let ?xs = "o_sessions (create_orphan_sessions f s)"
  have us: "?xs = o_sessions s @ map (\<lambda>u. open_session (f u) u (o_now s)) (new_users f s)"
    using ids by (simp add: orphan_ids_ok_def created_sessions)
  show ?thesis
  proof (cases "first_row (sort_key (\<lambda>x. - os_updated_at x) (filter (old_active u) ?xs))")
    case (Some x)
    then show ?thesis using first_row_Some [OF Some] by (auto simp: target_session_def old_active_def)
  next
    case None
    then have none: "\<not> list_ex (old_active u) ?xs"
      by (metis first_row_None filter_empty_conv list_ex_iff set_empty set_sort)
    then have "u \<notin> set (new_users f s)" by (auto simp: us list_ex_iff ball_Un ball_simps(9))
    with u none have "f u \<in> os_id ` set (o_sessions s)" by (auto simp: us new_users)
    then obtain x where x: "x \<in> set (o_sessions s)" "os_id x = f u" by auto
    moreover have "os_user_id x = u" using ids x unfolding orphan_ids_ok_def by blast
    ultimately show ?thesis using None by (intro bexI [of _ x]) (simp_all add: target_session_def us)
  qed
qed

lemma mapE_not_null:
  "\<forall>d \<in> set ds. od_session_id d \<noteq> None \<Longrightarrow> mapE not_null ds = Inr (map (\<lambda>d. \<lparr>dr_id = od_id d, dr_user_id = od_user_id d,
     dr_text = od_text d, dr_created_at = od_created_at d, dr_session_id = the (od_session_id d)\<rparr>) ds)"
  by (induction ds) (auto simp: bindE_def not_null_def)

definition healed :: "(int \<Rightarrow> uuid) \<Rightarrow> old_db \<Rightarrow> old_dream \<Rightarrow> dream" where
  "healed f s d = \<lparr>dr_id = od_id d, dr_user_id = od_user_id d, dr_text = od_text d, dr_created_at = od_created_at d,
     dr_session_id = (case od_session_id d of Some i \<Rightarrow> i
       | None \<Rightarrow> target_session f (o_sessions (create_orphan_sessions f s)) (od_user_id d))\<rparr>"

lemma enforce_run:
  assumes "inj f"
  shows "enforce_session_not_null f s = Inr (o_sessions (create_orphan_sessions f s), map (healed f s) (o_dreams s))"
proof (cases "filter (\<lambda>d. od_session_id d = None) (o_dreams s) = []")
  case True
  then have "new_users f s = []" by (simp add: new_users_def orphan_users_def)
  moreover have "\<forall>d \<in> set (o_dreams s). od_session_id d \<noteq> None" using True by (simp add: filter_empty_conv)
  ultimately show ?thesis
    using True by (auto simp: enforce_session_not_null_def mapE_not_null bindE_def created_sessions [OF assms] healed_def)
next
  case False
  have dreams: "o_dreams (adopt_orphans f t) = update_where (\<lambda>d. od_session_id d = None)
    (\<lambda>d. d\<lparr>od_session_id := Some (target_session f (o_sessions t) (od_user_id d))\<rparr>) (o_dreams t)"
    "o_sessions (adopt_orphans f t) = o_sessions t" "o_dreams (create_orphan_sessions f s) = o_dreams s" for t
    by (simp_all add: adopt_orphans_def create_orphan_sessions_def)
  let ?t = "adopt_orphans f (create_orphan_sessions f s)"
  have full: "\<forall>d \<in> set (o_dreams ?t). od_session_id d \<noteq> None"
    by (auto simp: dreams set_update_where)
  have "enforce_session_not_null f s = bindE (mapE not_null (o_dreams ?t)) (\<lambda>ds. Inr (o_sessions ?t, ds))"
    using False by (simp add: enforce_session_not_null_def Let_def)
  also have "\<dots> = Inr (o_sessions (create_orphan_sessions f s), map (healed f s) (o_dreams s))"
    unfolding mapE_not_null [OF full] by (simp add: bindE_def dreams update_where_def healed_def split: option.split)
  finally show ?thesis .
qed

lemma active_of_dated: "active_of u (add_last_activity_at x) = old_active u x"
  by (simp add: active_of_def old_active_def add_last_activity_at_def)

lemma one_active_dated: "one_active (w\<lparr>sessions := map add_last_activity_at xs, dreams := ds\<rparr>) \<longleftrightarrow> old_one_active xs"
  by (simp add: one_active_def old_one_active_def filter_map o_def active_of_dated)

lemma healed_owned:
  assumes "dreams_owned s" and ids: "orphan_ids_ok f (o_sessions s)" and d: "d \<in> set (o_dreams s)"
  shows "\<exists>x \<in> set (o_sessions (create_orphan_sessions f s)). os_id x = dr_session_id (healed f s d) \<and> os_user_id x = od_user_id d"
proof (cases "od_session_id d")
  case None
  with d have "od_user_id d \<in> set (orphan_users s)" by (auto simp: orphan_users_def)
  with None show ?thesis using target_exists [OF ids] by (simp add: healed_def)
next
  case (Some i)
  have "inj f" using ids by (simp add: orphan_ids_ok_def)
  moreover have "\<exists>x \<in> set (o_sessions s). os_id x = i \<and> os_user_id x = od_user_id d" using Some assms(1) d by (simp add: dreams_owned_def)
  ultimately show ?thesis using Some by (simp add: healed_def created_sessions bex_Un)
qed

text \<open>C34. Making \<open>dreams.session_id\<close> mandatory heals the rows that have none: the migration never fails, every
  dream keeps its identifier, user, text and date (and its session, if it had one), and afterwards belongs to a
  session of its own user. Sessions are only added, no two with one identifier; a user who had an active
  session gets no second one, so with the column for the last activity the tables satisfy the invariant of the
  session service.\<close>

theorem orphan_dreams_get_a_session_of_their_user:
  assumes "distinct (map os_id (o_sessions s))" and "old_one_active (o_sessions s)" and "dreams_owned s"
    and "orphan_ids_ok orphan_id (o_sessions s)"
  shows "\<exists>new ds. enforce_session_not_null orphan_id s = Inr (o_sessions s @ new, ds)
    \<and> map (\<lambda>d. (dr_id d, dr_user_id d, dr_text d, dr_created_at d)) ds
      = map (\<lambda>d. (od_id d, od_user_id d, od_text d, od_created_at d)) (o_dreams s)
    \<and> list_all2 (\<lambda>d d'. od_session_id d \<in> {None, Some (dr_session_id d')}) (o_dreams s) ds
    \<and> list_all (\<lambda>d. list_ex (\<lambda>x. os_id x = dr_session_id d \<and> os_user_id x = dr_user_id d) (o_sessions s @ new)) ds
    \<and> distinct (map os_id (o_sessions s @ new))
    \<and> one_active (w\<lparr>sessions := map add_last_activity_at (o_sessions s @ new), dreams := ds\<rparr>)"
proof -
  have f: "inj orphan_id" using assms(4) by (simp add: orphan_ids_ok_def)
  let ?new = "map (\<lambda>u. open_session (orphan_id u) u (o_now s)) (new_users orphan_id s)"
  have all: "o_sessions (create_orphan_sessions orphan_id s) = o_sessions s @ ?new" by (rule created_sessions [OF f])
  have "distinct (map os_id (o_sessions s @ ?new))"
    using assms(1) inj_on_subset [OF f subset_UNIV] new_users(1) [of orphan_id s] new_users(2) [of _ orphan_id s]
    by (auto simp: distinct_map o_def image_iff) metis
  moreover have "old_one_active (o_sessions s @ ?new)"
    using new_users(1) [of orphan_id s] new_users(2) [of _ orphan_id s] by (intro old_one_active_append assms(2)) auto
  moreover have "list_all (\<lambda>d. list_ex (\<lambda>x. os_id x = dr_session_id d \<and> os_user_id x = dr_user_id d) (o_sessions s @ ?new))
      (map (healed orphan_id s) (o_dreams s))"
    using healed_owned [OF assms(3, 4)] unfolding all list_all_iff list_ex_iff by (simp add: healed_def)
  moreover have "list_all2 (\<lambda>d d'. od_session_id d \<in> {None, Some (dr_session_id d')}) (o_dreams s) (map (healed orphan_id s) (o_dreams s))"
    by (auto simp: list_all2_conv_all_nth healed_def split: option.split)
  moreover have "map (\<lambda>d. (dr_id d, dr_user_id d, dr_text d, dr_created_at d)) (map (healed orphan_id s) (o_dreams s))
      = map (\<lambda>d. (od_id d, od_user_id d, od_text d, od_created_at d)) (o_dreams s)"
    by (simp add: healed_def)
  ultimately show ?thesis
    unfolding one_active_dated enforce_run [OF f] all by blast
qed

text \<open>Two dreams without a session: one of a user with an active session, one of a user without any.\<close>

definition orphan_db :: old_db where
  "orphan_db = \<lparr>o_sessions = [\<lparr>os_id = 7, os_user_id = 1, os_status = ''active'', os_created_at = 0, os_updated_at = 5\<rparr>],
     o_dreams = [\<lparr>od_id = 1, od_user_id = 1, od_text = [], od_created_at = 0, od_session_id = None\<rparr>,
       \<lparr>od_id = 2, od_user_id = 2, od_text = [], od_created_at = 0, od_session_id = None\<rparr>],
     o_now = 9, o_uuids = (\<lambda>n. 100 + n)\<rparr>"

definition sample_orphan_id :: "int \<Rightarrow> uuid" where
  "sample_orphan_id u = 1000 + (if 0 \<le> u then 2 * nat u else 2 * nat (- u) + 1)"

lemma sample_orphan_ids: "orphan_ids_ok sample_orphan_id (o_sessions orphan_db)"
  unfolding orphan_ids_ok_def inj_def sample_orphan_id_def orphan_db_def
  by (auto split: if_splits) (drule arg_cong [where f = even], simp)+

theorem orphan_dreams_get_a_session_of_their_user_witness:
  "\<exists>new ds. enforce_session_not_null sample_orphan_id orphan_db = Inr (o_sessions orphan_db @ new, ds)
    \<and> map dr_id ds = [1, 2] \<and> list_ex (\<lambda>x. os_user_id x = 2) (o_sessions orphan_db @ new)"
proof -
  have "distinct (map os_id (o_sessions orphan_db))" "old_one_active (o_sessions orphan_db)" "dreams_owned orphan_db"
    by (simp_all add: orphan_db_def old_one_active_def dreams_owned_def)
  from orphan_dreams_get_a_session_of_their_user [OF this sample_orphan_ids, of empty_world]
  obtain new ds where r: "enforce_session_not_null sample_orphan_id orphan_db = Inr (o_sessions orphan_db @ new, ds)"
    "map (\<lambda>d. (dr_id d, dr_user_id d, dr_text d, dr_created_at d)) ds
      = map (\<lambda>d. (od_id d, od_user_id d, od_text d, od_created_at d)) (o_dreams orphan_db)"
    "list_all (\<lambda>d. list_ex (\<lambda>x. os_id x = dr_session_id d \<and> os_user_id x = dr_user_id d) (o_sessions orphan_db @ new)) ds"
    by blast
  from r(2) have "map (\<lambda>d. (dr_id d, dr_user_id d)) ds = [(1, 1), (2, 2)]" by (auto simp: orphan_db_def)
  with r show ?thesis by (intro exI [of _ new] exI [of _ ds]) (auto simp: list_ex_iff list_all_iff)
qed

subsection \<open>The backfill of revision c3d4e5f6a7b8\<close>

definition drawn :: "int list \<Rightarrow> old_db \<Rightarrow> int \<Rightarrow> uuid option" where
  "drawn us s = map_of (zip us (map (o_uuids s) [0..<length us]))"

lemma upt_Suc_map: "[0..<Suc n] = 0 # map Suc [0..<n]"
  by (simp add: upt_conv_Cons map_Suc_upt del: upt_Suc)

lemma fold_backfill:
  "distinct us \<Longrightarrow> o_dreams (fold backfill_user us s)
      = map (\<lambda>d. case drawn us s (od_user_id d) of None \<Rightarrow> d | Some i \<Rightarrow> d\<lparr>od_session_id := Some i\<rparr>) (o_dreams s)
    \<and> o_sessions (fold backfill_user us s)
      = o_sessions s @ map2 (\<lambda>u i. open_session i u (o_now s)) us (map (o_uuids s) [0..<length us])"
proof (induction us arbitrary: s)
  case (Cons u us)
  let ?t = "backfill_user u s"
  have env: "o_uuids ?t = (\<lambda>n. o_uuids s (Suc n))" "o_now ?t = o_now s"
    "o_sessions ?t = o_sessions s @ [open_session (o_uuids s 0) u (o_now s)]"
    "o_dreams ?t = map (\<lambda>d. if od_user_id d = u then d\<lparr>od_session_id := Some (o_uuids s 0)\<rparr> else d) (o_dreams s)"
    by (simp_all add: backfill_user_def update_where_def)
  have drawn: "drawn (u # us) s v = (if v = u then Some (o_uuids s 0) else drawn us ?t v)" for v
    by (simp add: drawn_def upt_Suc_map env o_def del: upt_Suc)
  have none: "drawn us ?t u = None" using Cons.prems by (auto simp: drawn_def map_of_eq_None_iff dest: set_zip_leftD)
  have "map (\<lambda>d. case drawn us ?t (od_user_id d) of None \<Rightarrow> d | Some i \<Rightarrow> d\<lparr>od_session_id := Some i\<rparr>) (o_dreams ?t)
      = map (\<lambda>d. case drawn (u # us) s (od_user_id d) of None \<Rightarrow> d | Some i \<Rightarrow> d\<lparr>od_session_id := Some i\<rparr>) (o_dreams s)"
    unfolding env(4) map_map by (rule map_cong [OF refl]) (auto simp: drawn none split: option.split)
  then show ?case using Cons by (simp add: env upt_Suc_map o_def del: upt_Suc)
qed (simp_all add: drawn_def)

text \<open>
  Starting from the empty session table: every dream gets the one session that was created for its user, and
  the downgrade leads back to the tables as they were.
\<close>

lemma backfill_gives_one_session_per_user:
  assumes "o_sessions s = []"
  defines "t \<equiv> backfill_dream_sessions s"
  shows "dreams_owned t" and "\<forall>d \<in> set (o_dreams t). od_session_id d \<noteq> None"
    and "map os_user_id (o_sessions t) = remdups (map od_user_id (o_dreams s))" and "list_all (\<lambda>x. os_status x = SESSION_ACTIVE) (o_sessions t)"
    and "undo_backfill t = t\<lparr>o_sessions := [], o_dreams := map (\<lambda>d. d\<lparr>od_session_id := None\<rparr>) (o_dreams s)\<rparr>"
proof -
  let ?us = "remdups (map od_user_id (o_dreams s))" and ?is = "map (o_uuids s) [0..<length (remdups (map od_user_id (o_dreams s)))]"
  have t: "o_dreams t = map (\<lambda>d. case drawn ?us s (od_user_id d) of None \<Rightarrow> d | Some i \<Rightarrow> d\<lparr>od_session_id := Some i\<rparr>) (o_dreams s)"
    "o_sessions t = map2 (\<lambda>u i. open_session i u (o_now s)) ?us ?is"
    using fold_backfill [of ?us s] assms(1) by (simp_all add: t_def backfill_dream_sessions_def)
  have some: "\<exists>i. drawn ?us s (od_user_id d) = Some i \<and> (od_user_id d, i) \<in> set (zip ?us ?is)" if "d \<in> set (o_dreams s)" for d
  proof -
    have "od_user_id d \<in> fst ` set (zip ?us ?is)" using that by (metis image_eqI length_map length_upt list.set_map map_fst_zip minus_nat.diff_0 set_remdups)
    then show ?thesis unfolding drawn_def
      by (metis map_of_SomeD map_of_eq_None_iff not_None_eq)
  qed
  show "\<forall>d \<in> set (o_dreams t). od_session_id d \<noteq> None" using some by (fastforce simp: t)
  show "map os_user_id (o_sessions t) = ?us" by (simp add: t o_def case_prod_unfold)
  show "list_all (\<lambda>x. os_status x = SESSION_ACTIVE) (o_sessions t)"
    by (auto simp: t list_all_iff open_session_def)
  show "undo_backfill t = t\<lparr>o_sessions := [], o_dreams := map (\<lambda>d. d\<lparr>od_session_id := None\<rparr>) (o_dreams s)\<rparr>"
    by (auto simp: undo_backfill_def t split: option.split)
  show "dreams_owned t" unfolding dreams_owned_def
  proof (intro ballI allI impI)
    fix d i assume "d \<in> set (o_dreams t)" and i: "od_session_id d = Some i"
    then obtain e where e: "e \<in> set (o_dreams s)"
      "d = (case drawn ?us s (od_user_id e) of None \<Rightarrow> e | Some i \<Rightarrow> e\<lparr>od_session_id := Some i\<rparr>)" by (auto simp: t)
    with some obtain j where j: "drawn ?us s (od_user_id e) = Some j" "(od_user_id e, j) \<in> set (zip ?us ?is)" by blast
    have "open_session j (od_user_id e) (o_now s) \<in> set (o_sessions t)"
      using imageI [OF j(2), of "\<lambda>(u, i). open_session i u (o_now s)"] by (simp add: t del: set_zip)
    then show "\<exists>x \<in> set (o_sessions t). os_id x = i \<and> os_user_id x = od_user_id d"
      using e j i by (intro bexI [of _ "open_session j (od_user_id e) (o_now s)"]) simp_all
  qed
qed

subsection \<open>Threads for the analyses\<close>

definition thread_row :: "old_analysis \<Rightarrow> uuid \<Rightarrow> thread_v1" where
  "thread_row a i = \<lparr>tv_id = i, tv_session_id = oa_session_id a, tv_status = THREAD_STATUS_ACTIVE,
     tv_created_at = oa_created_at a, tv_updated_at = oa_created_at a, tv_last_analysis_id = Some (oa_id a)\<rparr>"

definition analysis_row :: "old_analysis \<Rightarrow> uuid \<Rightarrow> analysis_v1" where
  "analysis_row a i = \<lparr>av_row = a, av_thread_id = Some i, av_is_latest = True, av_continuation_index = 0\<rparr>"

lemma of_old_session_single: "distinct (map oa_session_id xs) \<Longrightarrow> a \<in> set xs \<Longrightarrow> of_old_session (oa_session_id a) xs = [a]"
  unfolding of_old_session_def by (rule distinct_key_filter)

lemma group_threads_single:
  assumes "distinct (map oa_session_id xs)"
  shows "group_threads uu xs = map2 (\<lambda>a i. (thread_row a i)\<lparr>tv_last_analysis_id := None\<rparr>) xs (map uu [0..<length xs])"
proof -
  have "thread_of_group xs (oa_session_id a) i = (thread_row a i)\<lparr>tv_last_analysis_id := None\<rparr>" if "a \<in> set xs" for a i
    by (simp add: thread_of_group_def of_old_session_single [OF assms that] thread_row_def)
  then show ?thesis
    using assms by (auto simp: group_threads_def distinct_remdups_id zip_map1 o_def dest!: set_zip_leftD intro!: map_cong)
qed

lemma latest_ids_single: "distinct (map oa_session_id xs) \<Longrightarrow> latest_ids xs = map oa_id xs"
  by (simp add: latest_ids_def distinct_remdups_id of_old_session_single cong: map_cong)

lemma map2_fst: "(\<And>a i. k (f a i) = g a) \<Longrightarrow> length is = length xs \<Longrightarrow> map k (map2 f xs is) = map g xs"
proof (induction xs arbitrary: "is")
  case (Cons x xs)
  then show ?case by (cases "is") auto
qed simp

lemma map2_snd: "(\<And>a i. k (f a i) = g i) \<Longrightarrow> length is = length xs \<Longrightarrow> map k (map2 f xs is) = map g is"
proof (induction xs arbitrary: "is")
  case (Cons x xs)
  then show ?case by (cases "is") auto
qed simp

lemma map_map2: "(\<And>a i. (a, i) \<in> set (zip xs is) \<Longrightarrow> h (f a i) = g a i) \<Longrightarrow> map h (map2 f xs is) = map2 g xs is"
  by (auto simp del: set_zip)

lemma map_as_map2: "length is = length xs \<Longrightarrow> map f xs = map2 (\<lambda>a i. f a) xs is"
proof (induction xs arbitrary: "is")
  case (Cons x xs)
  then show ?case by (cases "is") auto
qed simp

lemma in_map2: "(a, i) \<in> set (zip xs is) \<Longrightarrow> f a i \<in> set (map2 f xs is)"
  by (force simp del: set_zip)

lemma analysis_row_keys: "length is = length xs \<Longrightarrow> map av_thread_id (map2 analysis_row xs is) = map Some is"
  by (rule map2_snd) (simp_all add: analysis_row_def)

lemma find_analysis_row:
  assumes "distinct is" "length is = length xs" and "(a, i) \<in> set (zip xs is)"
  shows "find (\<lambda>y. av_thread_id y = Some i \<and> av_is_latest y) (map2 analysis_row xs is) = Some (analysis_row a i)"
proof -
  have "distinct (map av_thread_id (map2 analysis_row xs is))"
    unfolding analysis_row_keys [OF assms(2)] using assms(1) by (simp add: distinct_map)
  from find_distinct_key [OF this in_map2 [OF assms(3)]]
  have "find (\<lambda>y. av_thread_id y = Some i) (map2 analysis_row xs is) = Some (analysis_row a i)"
    by (simp only: analysis_row_def analysis_v1.select_convs)
  moreover have "find (\<lambda>y. av_thread_id y = Some i \<and> av_is_latest y) (map2 analysis_row xs is)
      = find (\<lambda>y. av_thread_id y = Some i) (map2 analysis_row xs is)"
    by (intro find_cong) (auto simp: analysis_row_def)
  ultimately show ?thesis by simp
qed

lemma migrated_tables:
  fixes xs :: "old_analysis list"
  assumes one: "distinct (map oa_session_id xs)" and ids: "inj uu"
  shows "add_analysis_threads uu xs
    = Inr (map2 thread_row xs (map uu [0..<length xs]), map2 analysis_row xs (map uu [0..<length xs]))"
proof -
  define "is" where "is = map uu [0..<length xs]"
  have is_ok: "distinct is" "length is = length xs" using inj_on_subset [OF ids subset_UNIV] by (simp_all add: is_def distinct_map)
  let ?ts = "group_threads uu xs" and ?ys = "map2 analysis_row xs is"
  have ts: "?ts = map2 (\<lambda>a i. (thread_row a i)\<lparr>tv_last_analysis_id := None\<rparr>) xs is"
    unfolding is_def by (rule group_threads_single [OF one])
  have "map tv_session_id ?ts = map oa_session_id xs" unfolding ts by (rule map2_fst [OF _ is_ok(2)]) (simp add: thread_row_def)
  then have keys: "distinct (map tv_session_id ?ts)" using one by simp
  have found: "attach ?ts a = (analysis_row a i)\<lparr>av_is_latest := False\<rparr>" if "(a, i) \<in> set (zip xs is)" for a i
    using find_distinct_key [OF keys, unfolded ts, OF in_map2 [OF that]]
    by (simp add: attach_def ts thread_row_def analysis_row_def)
  have "map (attach ?ts) xs = map2 (\<lambda>a i. (analysis_row a i)\<lparr>av_is_latest := False\<rparr>) xs is"
    unfolding map_as_map2 [OF is_ok(2), of "attach ?ts"] using found by (auto simp del: set_zip)
  then have ys: "mark_latest (latest_ids xs) (map (attach ?ts) xs) = ?ys"
    by (auto simp: mark_latest_def latest_ids_single [OF one] update_where_def analysis_row_def dest: set_zip_leftD)
  have latest: "filter av_is_latest ?ys = ?ys" by (auto simp: filter_id_conv analysis_row_def)
  have "one_latest ?ys" unfolding one_latest_def latest analysis_row_keys [OF is_ok(2)] using is_ok(1) by (simp add: distinct_map)
  moreover have "\<not> list_ex (\<lambda>a. av_thread_id a = None) ?ys" by (auto simp: list_ex_iff analysis_row_def)
  moreover have "map (point_to_latest ?ys) ?ts = map2 thread_row xs is"
    unfolding ts by (rule map_map2) (simp add: point_to_latest_def find_analysis_row [OF is_ok] thread_row_def analysis_row_def [THEN arg_cong [where f = av_row]])
  ultimately show ?thesis unfolding is_def [symmetric] by (simp only: add_analysis_threads_def ys Let_def simp_thms if_False)
qed

definition lived_thread :: "old_analysis \<Rightarrow> uuid \<Rightarrow> analysis_thread" where
  "lived_thread a i = \<lparr>th_id = i, th_session_id = oa_session_id a, th_status = THREAD_STATUS_ACTIVE, th_created_at = oa_created_at a,
     th_updated_at = oa_created_at a, th_last_activity_at = Some (oa_created_at a), th_last_analysis_id = Some (oa_id a)\<rparr>"

lemma lived_threads:
  assumes "distinct is" "length is = length xs" and "distinct (map oa_session_id xs)"
  shows "add_thread_lifecycle (map2 thread_row xs is, map2 analysis_row xs is) = Inr (map2 lived_thread xs is)"
proof -
  let ?ys = "map2 analysis_row xs is"
  have row: "thread_v2 ?ys (thread_row a i) = lived_thread a i" if "(a, i) \<in> set (zip xs is)" for a i
    using find_analysis_row [OF assms(1, 2) that]
    by (simp add: thread_v2_def last_activity_def thread_row_def lived_thread_def analysis_row_def renamed_status_def thread_status_defs)
  have us: "map (thread_v2 ?ys) (map2 thread_row xs is) = map2 lived_thread xs is"
    by (rule map_map2) (rule row)
  have all: "filter (\<lambda>u. th_status u = ''active'') (map2 lived_thread xs is) = map2 lived_thread xs is"
    by (auto simp: filter_id_conv lived_thread_def thread_status_defs)
  have keys: "map th_session_id (map2 lived_thread xs is) = map oa_session_id xs"
    by (rule map2_fst [OF _ assms(2)]) (simp add: lived_thread_def)
  show ?thesis unfolding add_thread_lifecycle_def prod.case us Let_def all keys using assms(3) by simp
qed

lemma distinct_filter_key:
  assumes "distinct (map k xs)"
  shows "filter (\<lambda>x. k x = v) xs = [] \<or> (\<exists>x \<in> set xs. filter (\<lambda>x. k x = v) xs = [x])"
proof (cases "\<exists>x \<in> set xs. k x = v")
  case True
  then show ?thesis using distinct_key_filter [OF assms] by auto
qed (auto simp: filter_empty_conv)

lemma distinct_filter_key_le: "distinct (map k xs) \<Longrightarrow> length (filter (\<lambda>x. k x = v) xs) \<le> 1"
  using distinct_filter_key [of k xs v] by auto

lemma single_analyses_ok:
  assumes "distinct (map sa_thread_id rows)" and "\<And>r. r \<in> set rows \<Longrightarrow> sa_continuation_index r = 0"
  shows "analyses_ok (w\<lparr>threads := us, analyses := rows\<rparr>)"
  unfolding analyses_ok_def
proof (intro allI conjI)
  fix tid
  let ?w = "w\<lparr>threads := us, analyses := rows\<rparr>"
  show "length (filter (latest_of tid) (analyses ?w)) \<le> 1"
    using length_filter_conj_le [of sa_is_latest "\<lambda>a. sa_thread_id a = tid" rows] distinct_filter_key_le [OF assms(1), of tid]
    by (simp add: latest_of_def [abs_def] conj_commute)
  show "map sa_continuation_index (filter (of_thread tid) (analyses ?w)) = [0..<length (filter (of_thread tid) (analyses ?w))]"
    using distinct_filter_key [OF assms(1), of tid] assms(2) by (auto simp: of_thread_def [abs_def])
qed

text \<open>C31. The migration that introduces threads, together with the two revisions that complete the rows, never
  fails on the tables it was written for (one analysis per session) and puts them into the state the thread
  service relies on: one thread per session, active, no session with two; every analysis is the latest and
  first of its thread, the thread belongs to its session, points to it and was last active when it was made.
  Nothing is lost: the downgrade gives back the analyses as they were.\<close>

theorem migrated_analyses_satisfy_the_thread_invariants:
  assumes "distinct (map oa_session_id xs)" and "inj uu"
  shows "\<exists>us rows ts ys. upgrade_analyses uu xs = Inr (us, rows)
    \<and> map th_session_id us = map oa_session_id xs \<and> distinct (map th_id us) \<and> one_active_thread us
    \<and> list_all (\<lambda>u. th_status u = THREAD_STATUS_ACTIVE) us \<and> analyses_ok (w\<lparr>threads := us, analyses := rows\<rparr>)
    \<and> map sa_id rows = map oa_id xs \<and> map sa_analysis_json rows = map oa_analysis_json xs
    \<and> list_all2 (\<lambda>u a. sa_thread_id a = th_id u \<and> sa_session_id a = th_session_id u \<and> sa_is_latest a
         \<and> th_last_analysis_id u = Some (sa_id a) \<and> th_last_activity_at u = Some (sa_created_at a)) us rows
    \<and> add_analysis_threads uu xs = Inr (ts, ys) \<and> drop_analysis_threads ys = Inr xs"
proof -
  define "is" where "is = map uu [0..<length xs]"
  have is_ok: "distinct is" "length is = length xs" using inj_on_subset [OF assms(2) subset_UNIV] by (simp_all add: is_def distinct_map)
  let ?us = "map2 lived_thread xs is" and ?ts = "map2 thread_row xs is" and ?ys = "map2 analysis_row xs is"
  let ?rows = "map add_analysis_job_id ?ys"
  have added: "add_analysis_threads uu xs = Inr (?ts, ?ys)" unfolding is_def by (rule migrated_tables [OF assms])
  then have "upgrade_analyses uu xs = Inr (?us, ?rows)"
    by (simp add: upgrade_analyses_def bindE_def lived_threads [OF is_ok assms(1)])
  moreover have sids: "map th_session_id ?us = map oa_session_id xs" by (rule map2_fst [OF _ is_ok(2)]) (simp add: lived_thread_def)
  moreover have "map th_id ?us = is" using map2_snd [of th_id lived_thread id "is" xs] is_ok(2) by (simp add: lived_thread_def)
  moreover have "one_active_thread ?us" unfolding one_active_thread_def active_thread_of_def [abs_def]
  proof
    fix sid
    have "length (filter (\<lambda>u. th_session_id u = sid) ?us) \<le> 1"
      using distinct_filter_key_le [of th_session_id ?us sid] assms(1) sids by metis
    then show "length (filter (\<lambda>u. th_session_id u = sid \<and> th_status u = THREAD_STATUS_ACTIVE) ?us) \<le> 1"
      using length_filter_conj_le [of "\<lambda>u. th_status u = THREAD_STATUS_ACTIVE" "\<lambda>u. th_session_id u = sid" ?us]
      unfolding conj_commute [of "th_status _ = _"] by (rule le_trans [rotated])
  qed
  moreover have "list_all (\<lambda>u. th_status u = THREAD_STATUS_ACTIVE) ?us" by (auto simp: list_all_iff lived_thread_def)
  moreover have "analyses_ok (w\<lparr>threads := ?us, analyses := ?rows\<rparr>)"
  proof (rule single_analyses_ok)
    have "map sa_thread_id ?rows = map id is" unfolding map_map [of _ add_analysis_job_id]
      by (rule map2_snd [OF _ is_ok(2)]) (simp add: add_analysis_job_id_def analysis_row_def Let_def)
    then show "distinct (map sa_thread_id ?rows)" using is_ok(1) by (simp only: list.map_id)
  qed (auto simp: add_analysis_job_id_def analysis_row_def Let_def)
  moreover have "map sa_id ?rows = map oa_id xs" "map sa_analysis_json ?rows = map oa_analysis_json xs"
    unfolding map_map [of _ add_analysis_job_id] by (rule map2_fst [OF _ is_ok(2)]; simp add: add_analysis_job_id_def analysis_row_def Let_def)+
  moreover have "list_all2 (\<lambda>u a. sa_thread_id a = th_id u \<and> sa_session_id a = th_session_id u \<and> sa_is_latest a
       \<and> th_last_analysis_id u = Some (sa_id a) \<and> th_last_activity_at u = Some (sa_created_at a)) ?us ?rows"
    by (auto simp: list_all2_conv_all_nth is_ok lived_thread_def analysis_row_def add_analysis_job_id_def Let_def)
  moreover have "map av_row ?ys = xs" using map2_fst [of av_row analysis_row id "is" xs] is_ok(2) by (simp add: analysis_row_def)
  then have "drop_analysis_threads ?ys = Inr xs"
    using assms(1) by (simp add: drop_analysis_threads_def flip: map_map [of oa_session_id av_row, unfolded o_def])
  ultimately show ?thesis using added is_ok(1) by (simp del: map_map)
qed

definition stored_analyses :: "old_analysis list" where
  "stored_analyses = map (\<lambda>n. \<lparr>oa_id = 50 + n, oa_session_id = n, oa_user_id = 1, oa_provider = [], oa_model = [],
     oa_prompt_version = ''v1'', oa_analysis_version = ''v1'', oa_analysis_json = JNull, oa_raw_response = None,
     oa_created_at = int n\<rparr>) [7, 8]"

theorem migrated_analyses_satisfy_the_thread_invariants_witness:
  "\<exists>us rows. upgrade_analyses (\<lambda>n. 100 + n) stored_analyses = Inr (us, rows)
    \<and> map th_session_id us = [7, 8] \<and> analyses_ok (empty_world\<lparr>threads := us, analyses := rows\<rparr>)"
proof -
  have "distinct (map oa_session_id stored_analyses)" "inj (\<lambda>n. 100 + n :: nat)" by (simp_all add: stored_analyses_def inj_def)
  from migrated_analyses_satisfy_the_thread_invariants [OF this, of empty_world] show ?thesis
    by (auto simp: stored_analyses_def)
qed

end
