(* ===== verification/Schema.thy ===== *)
theory Schema
  imports Prelude
begin

text \<open>
  The schema of the database: the revisions of \<open>migrations/versions\<close> as lists of the statements they issue,
  PostgreSQL's data definition language as far as the revisions use it, and the metadata of \<open>db/models\<close> that
  SQLAlchemy derives from the column declarations. The revisions build what the models declare, up to the
  differences that the last theorem lists, and every downgrade undoes its upgrade. What the revisions do to the
  rows is the subject of theory Migrations.
\<close>

subsection \<open>Schemas\<close>

datatype sql_type = INTEGER | BIGINT | VARCHAR "nat option" | TEXT | BOOLEAN | TIMESTAMP | UUID | JSON

text \<open>Server defaults: \<open>now()\<close>, a literal, or the sequence of an automatic identifier.\<close>

datatype server_default = Now | Literal string | Sequence

record column =
  c_name :: string
  c_type :: sql_type
  c_nullable :: bool
  c_default :: "server_default option"

datatype con =
    Primary_key "string list"
  | Unique "string list"
  | Foreign_key "string list" string "string list"

text \<open>The condition of a partial index: \<open>column = 'text'\<close>, or that a boolean column holds.\<close>

datatype condition = Equals string string | Holds string

record index =
  i_name :: string
  i_table :: string
  i_columns :: "string list"
  i_unique :: bool
  i_where :: "condition option"

record tab =
  t_name :: string
  t_columns :: "column list"
  t_cons :: "(string \<times> con) list"

record schema =
  tabs :: "tab list"
  indexes :: "index list"

definition no_schema :: schema where
  "no_schema = \<lparr>tabs = [], indexes = []\<rparr>"

definition columns_of :: "tab \<Rightarrow> string list" where
  "columns_of x = map c_name (t_columns x)"

definition key_columns :: "con \<Rightarrow> string list list" where
  "key_columns k = (case k of Primary_key cs \<Rightarrow> [cs] | Unique cs \<Rightarrow> [cs] | Foreign_key _ _ _ \<Rightarrow> [])"

definition keys_of :: "tab \<Rightarrow> string list list" where
  "keys_of x = concat (map (\<lambda>nk. key_columns (snd nk)) (t_cons x))"

definition key_in :: "tab list \<Rightarrow> string \<Rightarrow> string list \<Rightarrow> bool" where
  "key_in ts r cs = list_ex (\<lambda>y. t_name y = r \<and> cs \<in> set (keys_of y)) ts"

text \<open>A foreign key needs a unique or primary key in the table it refers to.\<close>

definition resolves :: "tab list \<Rightarrow> con \<Rightarrow> bool" where
  "resolves ts k = (case k of Foreign_key _ r cs \<Rightarrow> key_in ts r cs | _ \<Rightarrow> True)"

definition con_columns :: "con \<Rightarrow> string list" where
  "con_columns k = (case k of Primary_key cs \<Rightarrow> cs | Unique cs \<Rightarrow> cs | Foreign_key cs _ _ \<Rightarrow> cs)"

definition con_ok :: "tab list \<Rightarrow> tab \<Rightarrow> con \<Rightarrow> bool" where
  "con_ok ts x k \<longleftrightarrow> set (con_columns k) \<subseteq> set (columns_of x) \<and> resolves ts k"

definition tab_ok :: "tab list \<Rightarrow> tab \<Rightarrow> bool" where
  "tab_ok ts x \<longleftrightarrow> distinct (columns_of x) \<and> distinct (map fst (t_cons x)) \<and> list_all (con_ok ts x) (map snd (t_cons x))"

definition condition_columns :: "condition option \<Rightarrow> string list" where
  "condition_columns w = (case w of None \<Rightarrow> [] | Some (Equals c _) \<Rightarrow> [c] | Some (Holds c) \<Rightarrow> [c])"

definition index_uses :: "index \<Rightarrow> string list" where
  "index_uses i = i_columns i @ condition_columns (i_where i)"

definition index_ok :: "tab list \<Rightarrow> index \<Rightarrow> bool" where
  "index_ok ts i = list_ex (\<lambda>x. t_name x = i_table i \<and> set (index_uses i) \<subseteq> set (columns_of x)) ts"

definition schema_ok :: "schema \<Rightarrow> bool" where
  "schema_ok s \<longleftrightarrow> distinct (map t_name (tabs s)) \<and> list_all (tab_ok (tabs s)) (tabs s)
     \<and> distinct (map i_name (indexes s)) \<and> list_all (index_ok (tabs s)) (indexes s)"

subsection \<open>Statements\<close>

text \<open>
  The operations of \<open>alembic.op\<close> the revisions call. A statement that PostgreSQL refuses is an error; dropping a
  table drops its indexes, dropping a column the indexes and constraints of its table that mention it.
\<close>

datatype ddl =
    Create_table string "column list" "(string \<times> con) list"
  | Drop_table string
  | Add_column string column "(string \<times> con) list"
  | Drop_column string string
  | Alter_nullable string string bool
  | Create_index index
  | Drop_index string
  | Add_constraint string string con
  | Drop_constraint string string

datatype ddl_error = Undefined_object | Not_accepted

definition con_mentions :: "string \<Rightarrow> string \<Rightarrow> con \<Rightarrow> bool" where
  "con_mentions t c k = (c \<in> set (con_columns k) \<or> (case k of Foreign_key _ r cs \<Rightarrow> r = t \<and> c \<in> set cs | _ \<Rightarrow> False))"

definition index_mentions :: "string \<Rightarrow> string \<Rightarrow> index \<Rightarrow> bool" where
  "index_mentions t c i \<longleftrightarrow> i_table i = t \<and> c \<in> set (index_uses i)"

definition change :: "string \<Rightarrow> (tab \<Rightarrow> tab) \<Rightarrow> schema \<Rightarrow> schema" where
  "change t f s = s\<lparr>tabs := map (\<lambda>x. if t_name x = t then f x else x) (tabs s)\<rparr>"

definition has_table :: "string \<Rightarrow> (tab \<Rightarrow> bool) \<Rightarrow> schema \<Rightarrow> bool" where
  "has_table t P s = list_ex (\<lambda>x. t_name x = t \<and> P x) (tabs s)"

definition table_ok :: "string \<Rightarrow> schema \<Rightarrow> bool" where
  "table_ok t s = list_all (\<lambda>x. t_name x = t \<longrightarrow> tab_ok (tabs s) x) (tabs s)"

definition no_dangling :: "schema \<Rightarrow> bool" where
  "no_dangling s = list_all (\<lambda>x. list_all (resolves (tabs s)) (map snd (t_cons x))) (tabs s)"

text \<open>
  A statement needs the objects it names. PostgreSQL refuses a name given twice, a key or an index on a missing
  column, and to drop what a remaining foreign key refers to.
\<close>

fun effect :: "ddl \<Rightarrow> schema \<Rightarrow> schema" where
  "effect (Create_table t cs ks) s = s\<lparr>tabs := tabs s @ [\<lparr>t_name = t, t_columns = cs, t_cons = ks\<rparr>]\<rparr>"
| "effect (Drop_table t) s =
     \<lparr>tabs = filter (\<lambda>x. t_name x \<noteq> t) (tabs s), indexes = filter (\<lambda>i. i_table i \<noteq> t) (indexes s)\<rparr>"
| "effect (Add_column t c ks) s = change t (\<lambda>x. x\<lparr>t_columns := t_columns x @ [c], t_cons := t_cons x @ ks\<rparr>) s"
| "effect (Drop_column t c) s =
     (change t (\<lambda>x. x\<lparr>t_columns := filter (\<lambda>d. c_name d \<noteq> c) (t_columns x),
        t_cons := filter (\<lambda>(n, k). \<not> con_mentions t c k) (t_cons x)\<rparr>) s)
     \<lparr>indexes := filter (\<lambda>i. \<not> index_mentions t c i) (indexes s)\<rparr>"
| "effect (Alter_nullable t c b) s =
     change t (\<lambda>x. x\<lparr>t_columns := map (\<lambda>d. if c_name d = c then d\<lparr>c_nullable := b\<rparr> else d) (t_columns x)\<rparr>) s"
| "effect (Create_index i) s = s\<lparr>indexes := indexes s @ [i]\<rparr>"
| "effect (Drop_index n) s = s\<lparr>indexes := filter (\<lambda>i. i_name i \<noteq> n) (indexes s)\<rparr>"
| "effect (Add_constraint t n k) s = change t (\<lambda>x. x\<lparr>t_cons := t_cons x @ [(n, k)]\<rparr>) s"
| "effect (Drop_constraint n t) s = change t (\<lambda>x. x\<lparr>t_cons := filter (\<lambda>(m, k). m \<noteq> n) (t_cons x)\<rparr>) s"

fun object_found :: "ddl \<Rightarrow> schema \<Rightarrow> bool" where
  "object_found (Create_table t cs ks) s = True"
| "object_found (Drop_table t) s = has_table t (\<lambda>x. True) s"
| "object_found (Add_column t c ks) s = has_table t (\<lambda>x. True) s"
| "object_found (Drop_column t c) s = has_table t (\<lambda>x. c \<in> set (columns_of x)) s"
| "object_found (Alter_nullable t c b) s = has_table t (\<lambda>x. c \<in> set (columns_of x)) s"
| "object_found (Create_index i) s = has_table (i_table i) (\<lambda>x. True) s"
| "object_found (Drop_index n) s = (n \<in> set (map i_name (indexes s)))"
| "object_found (Add_constraint t n k) s = has_table t (\<lambda>x. True) s"
| "object_found (Drop_constraint n t) s = has_table t (\<lambda>x. n \<in> set (map fst (t_cons x))) s"

fun allowed :: "ddl \<Rightarrow> schema \<Rightarrow> bool" where
  "allowed (Create_table t cs ks) s = (\<not> has_table t (\<lambda>x. True) s \<and> table_ok t (effect (Create_table t cs ks) s))"
| "allowed (Drop_table t) s = no_dangling (effect (Drop_table t) s)"
| "allowed (Add_column t c ks) s = table_ok t (effect (Add_column t c ks) s)"
| "allowed (Drop_column t c) s = no_dangling (effect (Drop_column t c) s)"
| "allowed (Alter_nullable t c b) s = True"
| "allowed (Create_index i) s = (i_name i \<notin> set (map i_name (indexes s)) \<and> index_ok (tabs s) i)"
| "allowed (Drop_index n) s = True"
| "allowed (Add_constraint t n k) s = table_ok t (effect (Add_constraint t n k) s)"
| "allowed (Drop_constraint n t) s = no_dangling (effect (Drop_constraint n t) s)"

definition execute :: "ddl \<Rightarrow> schema \<Rightarrow> ddl_error + schema" where
  "execute x s = (if \<not> object_found x s then Inl Undefined_object else if \<not> allowed x s then Inl Not_accepted
     else Inr (effect x s))"

primrec execute_all :: "ddl list \<Rightarrow> schema \<Rightarrow> ddl_error + schema" where
  "execute_all [] s = Inr s"
| "execute_all (x # xs) s = (case execute x s of Inl e \<Rightarrow> Inl e | Inr t \<Rightarrow> execute_all xs t)"

subsection \<open>Every statement keeps the schema well-formed\<close>

lemma execute_all_append:
  "execute_all (xs @ ys) s = (case execute_all xs s of Inl e \<Rightarrow> Inl e | Inr t \<Rightarrow> execute_all ys t)"
  by (induction xs arbitrary: s) (auto split: sum.split)

lemma execute_Inr [simp]: "execute x s = Inr t \<longleftrightarrow> object_found x s \<and> allowed x s \<and> t = effect x s"
  by (auto simp: execute_def)

lemma change_simps [simp]:
  "indexes (change t f s) = indexes s"
  "tabs (change t f s) = map (\<lambda>x. if t_name x = t then f x else x) (tabs s)"
  by (simp_all add: change_def)

lemma schema_ok_iff:
  "schema_ok s \<longleftrightarrow> distinct (map t_name (tabs s)) \<and> (\<forall>x\<in>set (tabs s). tab_ok (tabs s) x)
     \<and> distinct (map i_name (indexes s)) \<and> (\<forall>i\<in>set (indexes s). index_ok (tabs s) i)"
  by (simp add: schema_ok_def list_all_iff)

lemma key_in_mono:
  assumes "key_in ts r cs" and "\<And>y. y \<in> set ts \<Longrightarrow> \<exists>z\<in>set us. t_name z = t_name y \<and> set (keys_of y) \<subseteq> set (keys_of z)"
  shows "key_in us r cs"
  using assms by (fastforce simp: key_in_def list_ex_iff)

lemma resolves_mono:
  assumes "resolves ts k" and "\<And>y. y \<in> set ts \<Longrightarrow> \<exists>z\<in>set us. t_name z = t_name y \<and> set (keys_of y) \<subseteq> set (keys_of z)"
  shows "resolves us k"
  using assms by (auto simp: resolves_def split: con.splits intro: key_in_mono)

lemma tab_ok_mono:
  assumes "tab_ok ts x" and "\<And>y. y \<in> set ts \<Longrightarrow> \<exists>z\<in>set us. t_name z = t_name y \<and> set (keys_of y) \<subseteq> set (keys_of z)"
  shows "tab_ok us x"
  using assms by (auto simp: tab_ok_def con_ok_def list_all_iff intro: resolves_mono)

lemma index_ok_mono:
  assumes "index_ok ts i" and "\<And>y. y \<in> set ts \<Longrightarrow> t_name y = i_table i \<Longrightarrow>
      set (index_uses i) \<subseteq> set (columns_of y) \<Longrightarrow> \<exists>z\<in>set us. t_name z = t_name y \<and> set (index_uses i) \<subseteq> set (columns_of z)"
  shows "index_ok us i"
  using assms by (fastforce simp: index_ok_def list_ex_iff)

lemma tab_ok_superset: "tab_ok ts x \<Longrightarrow> set ts \<subseteq> set us \<Longrightarrow> tab_ok us x"
  by (rule tab_ok_mono) blast+

lemma index_ok_superset:
  "index_ok ts i \<Longrightarrow> (\<And>y. y \<in> set ts \<Longrightarrow> t_name y = i_table i \<Longrightarrow> y \<in> set us) \<Longrightarrow> index_ok us i"
  by (rule index_ok_mono) blast+

lemma schema_okD:
  assumes "schema_ok s"
  shows "distinct (map t_name (tabs s))" "x \<in> set (tabs s) \<Longrightarrow> tab_ok (tabs s) x"
    "distinct (map i_name (indexes s))" "i \<in> set (indexes s) \<Longrightarrow> index_ok (tabs s) i"
  using assms by (simp_all add: schema_ok_iff)

lemma columns_of_map:
  "columns_of (x\<lparr>t_columns := map f (t_columns x)\<rparr>) = map (\<lambda>d. c_name (f d)) (t_columns x)"
  by (simp add: columns_of_def)

lemma map_name_change:
  "(\<And>x. t_name (f x) = t_name x) \<Longrightarrow> map (t_name \<circ> (\<lambda>x. if t_name x = t then f x else x)) xs = map t_name xs"
  by (induction xs) auto

text \<open>A change that only adds to one table.\<close>

lemma growing_change_ok:
  assumes ok: "schema_ok s" and tab: "table_ok t (change t f s)"
    and f: "\<And>x. t_name (f x) = t_name x" "\<And>x. set (keys_of x) \<subseteq> set (keys_of (f x))"
      "\<And>x. set (columns_of x) \<subseteq> set (columns_of (f x))"
  shows "schema_ok (change t f s)"
proof -
  have keys: "\<exists>z\<in>set (tabs (change t f s)). t_name z = t_name y \<and> set (keys_of y) \<subseteq> set (keys_of z)"
    if "y \<in> set (tabs s)" for y using that f by (intro bexI [of _ "if t_name y = t then f y else y"]) auto
  have "tab_ok (tabs (change t f s)) x" if "x \<in> set (tabs (change t f s))" for x
  proof (cases "t_name x = t")
    case True
    then show ?thesis using that tab by (auto simp: table_ok_def list_all_iff)
  next
    case False
    then have "x \<in> set (tabs s)" using that f(1) by (auto split: if_splits)
    then show ?thesis using tab_ok_mono [OF schema_okD(2) [OF ok] keys] by simp
  qed
  moreover have "index_ok (tabs (change t f s)) i" if "i \<in> set (indexes s)" for i
  proof (rule index_ok_mono)
    show "index_ok (tabs s) i" using ok that by (simp add: schema_ok_iff)
    fix y assume "y \<in> set (tabs s)" "t_name y = i_table i" "set (index_uses i) \<subseteq> set (columns_of y)"
    then show "\<exists>z\<in>set (tabs (change t f s)). t_name z = t_name y \<and> set (index_uses i) \<subseteq> set (columns_of z)"
      using f(1) f(3) [of y] by (intro bexI [of _ "if t_name y = t then f y else y"]) auto
  qed
  ultimately show ?thesis using ok f(1) by (simp add: schema_ok_iff map_name_change)
qed

text \<open>A change that only removes, where the guard of the statement has found no dangling foreign key.\<close>

lemma shrunk_tab_ok:
  assumes "tab_ok ts x" and "list_all (resolves us) (map snd (t_cons x'))"
    and "distinct (columns_of x')" and "distinct (map fst (t_cons x'))"
    and "\<And>k. k \<in> snd ` set (t_cons x') \<Longrightarrow> set (con_columns k) \<subseteq> set (columns_of x')"
  shows "tab_ok us x'"
  using assms by (auto simp: tab_ok_def con_ok_def list_all_iff)

lemma keys_of_append [simp]:
  "keys_of (x\<lparr>t_columns := cs, t_cons := ks\<rparr>) = keys_of (x\<lparr>t_cons := ks\<rparr>)"
  "keys_of (x\<lparr>t_cons := ks @ ks'\<rparr>) = keys_of (x\<lparr>t_cons := ks\<rparr>) @ keys_of (x\<lparr>t_cons := ks'\<rparr>)"
  by (simp_all add: keys_of_def)

lemma keys_of_same: "t_cons y = t_cons x \<Longrightarrow> keys_of y = keys_of x"
  by (simp add: keys_of_def)

lemma keys_of_own [simp]: "keys_of (x\<lparr>t_cons := t_cons x\<rparr>) = keys_of x"
  by simp

lemma columns_of_cons [simp]: "columns_of (x\<lparr>t_cons := ks\<rparr>) = columns_of x"
  by (simp add: columns_of_def)

lemma columns_of_columns [simp]: "columns_of (x\<lparr>t_columns := cs, t_cons := ks\<rparr>) = map c_name cs"
  by (simp add: columns_of_def)

lemma no_danglingD: "no_dangling s \<Longrightarrow> x \<in> set (tabs s) \<Longrightarrow> list_all (resolves (tabs s)) (map snd (t_cons x))"
  by (simp add: no_dangling_def list_all_iff)

lemma create_ok: "schema_ok s \<Longrightarrow> execute (Create_table t cs ks) s = Inr u \<Longrightarrow> schema_ok u"
proof -
  assume ok: "schema_ok s" and run: "execute (Create_table t cs ks) s = Inr u"
  define x where "x = \<lparr>t_name = t, t_columns = cs, t_cons = ks\<rparr>"
  have u: "u = s\<lparr>tabs := tabs s @ [x]\<rparr>" and new: "t \<notin> t_name ` set (tabs s)" and x: "tab_ok (tabs s @ [x]) x"
    using run by (simp_all add: x_def has_table_def list_ex_iff table_ok_def image_iff) blast+
  have "tab_ok (tabs s @ [x]) y" if "y \<in> set (tabs s)" for y
    by (rule tab_ok_superset [OF schema_okD(2) [OF ok that]]) auto
  moreover have "index_ok (tabs s @ [x]) i" if "i \<in> set (indexes s)" for i
    by (rule index_ok_superset [OF schema_okD(4) [OF ok that]]) auto
  ultimately show ?thesis using ok new x by (auto simp: u schema_ok_iff x_def)
qed

lemma drop_table_ok: "schema_ok s \<Longrightarrow> execute (Drop_table t) s = Inr u \<Longrightarrow> schema_ok u"
proof -
  assume ok: "schema_ok s" and run: "execute (Drop_table t) s = Inr u"
  then have u: "u = \<lparr>tabs = filter (\<lambda>x. t_name x \<noteq> t) (tabs s), indexes = filter (\<lambda>i. i_table i \<noteq> t) (indexes s)\<rparr>"
    and safe: "no_dangling u" by auto
  have "tab_ok (tabs u) x" if "x \<in> set (tabs u)" for x
  proof (rule shrunk_tab_ok)
    have "tab_ok (tabs s) x" using ok that by (auto simp: u schema_ok_iff)
    then show "tab_ok (tabs s) x" "distinct (columns_of x)" "distinct (map fst (t_cons x))"
      "\<And>k. k \<in> snd ` set (t_cons x) \<Longrightarrow> set (con_columns k) \<subseteq> set (columns_of x)"
      by (auto simp: tab_ok_def con_ok_def list_all_iff)
  qed (rule no_danglingD [OF safe that])
  moreover have "index_ok (tabs u) i" if "i \<in> set (indexes u)" for i
    using that by (auto simp: u intro: index_ok_superset [OF schema_okD(4) [OF ok]])
  ultimately show ?thesis using ok by (auto simp: u schema_ok_iff distinct_map_filter)
qed

text \<open>Dropping a column or a constraint leaves a part of the columns and constraints of one table.\<close>

lemma shrinking_change_ok:
  assumes ok: "schema_ok s" and safe: "no_dangling u"
    and u: "tabs u = map (\<lambda>x. if t_name x = t then f x else x) (tabs s)" "indexes u = filter P (indexes s)"
    and f: "\<And>x. t_name (f x) = t_name x" "\<And>x. distinct (columns_of x) \<Longrightarrow> distinct (columns_of (f x))"
      "\<And>x. distinct (map fst (t_cons x)) \<Longrightarrow> distinct (map fst (t_cons (f x)))"
      "\<And>x n k. (n, k) \<in> set (t_cons (f x)) \<Longrightarrow> (n, k) \<in> set (t_cons x) \<and>
         (set (con_columns k) \<subseteq> set (columns_of x) \<longrightarrow> set (con_columns k) \<subseteq> set (columns_of (f x)))"
    and P: "\<And>i x. P i \<Longrightarrow> i_table i = t \<Longrightarrow> set (index_uses i) \<subseteq> set (columns_of x) \<Longrightarrow> set (index_uses i) \<subseteq> set (columns_of (f x))"
  shows "schema_ok u"
proof -
  have "tab_ok (tabs u) y" if y: "y \<in> set (tabs u)" for y
  proof -
    obtain x where x: "x \<in> set (tabs s)" and y': "y = (if t_name x = t then f x else x)" using y by (auto simp: u)
    have tab: "tab_ok (tabs s) x" using ok x by (simp add: schema_ok_iff)
    show ?thesis
    proof (rule shrunk_tab_ok [OF tab no_danglingD [OF safe y]])
      show "distinct (columns_of y)" "distinct (map fst (t_cons y))"
        using tab f by (simp_all add: y' tab_ok_def)
      show "set (con_columns k) \<subseteq> set (columns_of y)" if "k \<in> snd ` set (t_cons y)" for k
        using that tab f(4) by (fastforce simp: y' tab_ok_def con_ok_def list_all_iff split: if_splits)
    qed
  qed
  moreover have "index_ok (tabs u) i" if "i \<in> set (indexes u)" for i
  proof (rule index_ok_mono)
    show "index_ok (tabs s) i" using ok that by (auto simp: u schema_ok_iff)
    fix y assume "y \<in> set (tabs s)" "t_name y = i_table i" "set (index_uses i) \<subseteq> set (columns_of y)"
    then show "\<exists>z\<in>set (tabs u). t_name z = t_name y \<and> set (index_uses i) \<subseteq> set (columns_of z)"
      using f(1) P that by (intro bexI [of _ "if t_name y = t then f y else y"]) (auto simp: u)
  qed
  ultimately show ?thesis using ok f(1) by (auto simp: schema_ok_iff u map_name_change distinct_map_filter)
qed

lemma execute_ok: "schema_ok s \<Longrightarrow> execute x s = Inr u \<Longrightarrow> schema_ok u"
proof (cases x)
  case (Add_column t c ks)
  assume "schema_ok s" "execute x s = Inr u"
  then show ?thesis using Add_column by (auto intro!: growing_change_ok simp: columns_of_def keys_of_def)
next
  case (Drop_column t c)
  assume ok: "schema_ok s" and run: "execute x s = Inr u"
  let ?f = "\<lambda>x. x\<lparr>t_columns := filter (\<lambda>d. c_name d \<noteq> c) (t_columns x), t_cons := filter (\<lambda>(n, k). \<not> con_mentions t c k) (t_cons x)\<rparr>"
  show ?thesis
  proof (rule shrinking_change_ok [OF ok, where t = t and f = ?f and P = "\<lambda>i. \<not> index_mentions t c i"])
    show "no_dangling u" "tabs u = map (\<lambda>x. if t_name x = t then ?f x else x) (tabs s)"
      "indexes u = filter (\<lambda>i. \<not> index_mentions t c i) (indexes s)" using run Drop_column by auto
  qed (auto simp: columns_of_def distinct_map_filter con_mentions_def index_mentions_def)
next
  case (Alter_nullable t c b)
  assume ok: "schema_ok s" and run: "execute x s = Inr u"
  let ?f = "\<lambda>x. x\<lparr>t_columns := map (\<lambda>d. if c_name d = c then d\<lparr>c_nullable := b\<rparr> else d) (t_columns x)\<rparr>"
  have u: "u = change t ?f s" using run Alter_nullable by auto
  have [simp]: "columns_of (?f y) = columns_of y" "keys_of (?f y) = keys_of y" for y
    by (auto simp: columns_of_def keys_of_def)
  have keys: "\<exists>z\<in>set (tabs u). t_name z = t_name y \<and> set (keys_of y) \<subseteq> set (keys_of z)" if "y \<in> set (tabs s)" for y
    using that by (intro bexI [of _ "if t_name y = t then ?f y else y"]) (auto simp: u)
  have "tab_ok (tabs u) (?f y)" if "y \<in> set (tabs s)" for y
    using tab_ok_mono [OF schema_okD(2) [OF ok that] keys] by (simp add: tab_ok_def con_ok_def list_all_iff)
  then have "table_ok t u" by (auto simp: table_ok_def list_all_iff u)
  then show ?thesis using ok unfolding u by (intro growing_change_ok) auto
next
  case (Create_index i)
  assume "schema_ok s" "execute x s = Inr u"
  then show ?thesis using Create_index by (auto simp: schema_ok_iff)
next
  case (Drop_index n)
  assume "schema_ok s" "execute x s = Inr u"
  then show ?thesis using Drop_index by (auto simp: schema_ok_iff distinct_map_filter)
next
  case (Add_constraint t n k)
  assume "schema_ok s" "execute x s = Inr u"
  then show ?thesis using Add_constraint by (auto intro!: growing_change_ok simp: keys_of_def)
next
  case (Drop_constraint n t)
  assume ok: "schema_ok s" and run: "execute x s = Inr u"
  let ?f = "\<lambda>x. x\<lparr>t_cons := filter (\<lambda>(m, k). m \<noteq> n) (t_cons x)\<rparr>"
  show ?thesis
  proof (rule shrinking_change_ok [OF ok, where t = t and f = ?f and P = "\<lambda>i. True"])
    show "no_dangling u" "tabs u = map (\<lambda>x. if t_name x = t then ?f x else x) (tabs s)"
      "indexes u = filter (\<lambda>i. True) (indexes s)" using run Drop_constraint by auto
  qed (auto simp: distinct_map_filter)
qed (auto intro: create_ok drop_table_ok simp del: execute_Inr)

lemma execute_all_ok: "execute_all xs s = Inr t \<Longrightarrow> schema_ok s \<Longrightarrow> schema_ok t"
  by (induction xs arbitrary: s) (auto split: sum.splits dest: execute_ok)

subsection \<open>Undoing statements\<close>

text \<open>\<open>undoes ys xs\<close>: wherever the statements \<open>xs\<close> succeed, \<open>ys\<close> succeed afterwards and restore the schema.\<close>

definition undoes :: "ddl list \<Rightarrow> ddl list \<Rightarrow> bool" where
  "undoes ys xs \<longleftrightarrow> (\<forall>s u. schema_ok s \<longrightarrow> execute_all xs s = Inr u \<longrightarrow> execute_all ys u = Inr s)"

named_theorems undo "rules by which a downgrade undoes an upgrade"

lemma undoesD: "undoes ys xs \<Longrightarrow> schema_ok s \<Longrightarrow> execute_all xs s = Inr u \<Longrightarrow> execute_all ys u = Inr s"
  by (simp add: undoes_def)

lemma undoes_Nil [undo]: "undoes [] []"
  by (simp add: undoes_def)

lemma undoes_append: "undoes ys xs \<Longrightarrow> undoes ys' xs' \<Longrightarrow> undoes (ys' @ ys) (xs @ xs')"
  unfolding undoes_def by (auto simp: execute_all_append split: sum.splits dest: execute_all_ok)

lemma no_dangling_ok: "schema_ok s \<Longrightarrow> no_dangling s"
  by (auto simp: schema_ok_iff no_dangling_def tab_ok_def con_ok_def list_all_iff)

lemma changed_back:
  assumes "\<And>x. x \<in> set (tabs s) \<Longrightarrow> t_name x = t \<Longrightarrow> g (f x) = x" and "\<And>x. t_name (f x) = t_name x"
  shows "map (\<lambda>x. if t_name x = t then g x else x) (map (\<lambda>x. if t_name x = t then f x else x) (tabs s)) = tabs s"
  using assms by (auto simp: comp_def intro!: map_idI)

lemma has_table_change [simp]:
  "(\<And>x. t_name (f x) = t_name x) \<Longrightarrow> has_table t P (change t f s) = has_table t (\<lambda>x. P (f x)) s"
  by (auto simp: has_table_def list_ex_iff)

lemma create_indexes:
  "execute_all (map Create_index js) s = Inr u \<Longrightarrow> u = s\<lparr>indexes := indexes s @ js\<rparr>"
proof (induction js arbitrary: s)
  case (Cons i js)
  then have "execute_all (map Create_index js) (s\<lparr>indexes := indexes s @ [i]\<rparr>) = Inr u"
    by (auto split: sum.splits)
  from Cons.IH [OF this] show ?case by simp
qed simp

lemma columns_of_update [simp]: "columns_of (x\<lparr>t_columns := cs\<rparr>) = map c_name cs"
  by (simp add: columns_of_def)

lemma key_in_change:
  assumes "\<And>x. t_name (f x) = t_name x" and "\<And>x. keys_of (f x) = keys_of x"
  shows "key_in (tabs (change t f s)) r cs = key_in (tabs s) r cs"
  using assms by (simp add: key_in_def list_ex_iff Bex_def image_iff) metis

lemma table_ok_change:
  assumes "table_ok t (change t f s)" and "x \<in> set (tabs s)" and "t_name x = t" and "t_name (f x) = t_name x"
  shows "tab_ok (tabs (change t f s)) (f x)"
  using assms by (auto simp: table_ok_def list_all_iff)

lemma table_ok_changeI:
  assumes "\<And>x. x \<in> set (tabs s) \<Longrightarrow> t_name x = t \<Longrightarrow> tab_ok (tabs (change t f s)) (f x)" and "\<And>x. t_name (f x) = t_name x"
  shows "table_ok t (change t f s)"
  unfolding table_ok_def list_all_iff
proof (intro ballI impI)
  fix y assume y: "y \<in> set (tabs (change t f s))" "t_name y = t"
  then obtain x where "x \<in> set (tabs s)" "t_name x = t" "y = f x" using assms(2) by (auto split: if_splits)
  then show "tab_ok (tabs (change t f s)) y" using assms(1) by simp
qed

lemma undo_Create_table [undo]:
  assumes "list_all (\<lambda>i. i_table i = t) js"
  shows "undoes [Drop_table t] (Create_table t cs ks # map Create_index js)"
  unfolding undoes_def
proof (intro allI impI)
  fix s u assume ok: "schema_ok s" and run: "execute_all (Create_table t cs ks # map Create_index js) s = Inr u"
  then have new: "\<not> has_table t (\<lambda>x. True) s"
    and u: "u = s\<lparr>tabs := tabs s @ [\<lparr>t_name = t, t_columns = cs, t_cons = ks\<rparr>], indexes := indexes s @ js\<rparr>"
    by (auto split: sum.splits dest: create_indexes)
  have "filter (\<lambda>x. t_name x \<noteq> t) (tabs s) = tabs s"
    using new by (auto simp: has_table_def list_ex_iff intro!: filter_True)
  moreover have "filter (\<lambda>i. i_table i \<noteq> t) (indexes s) = indexes s"
    using new schema_okD(4) [OF ok] by (force simp: has_table_def list_ex_iff index_ok_def intro!: filter_True)
  moreover have "filter (\<lambda>i. i_table i \<noteq> t) js = []" using assms by (auto simp: list_all_iff filter_empty_conv)
  ultimately have "effect (Drop_table t) u = s" by (simp add: u)
  then show "execute_all [Drop_table t] u = Inr s"
    using no_dangling_ok [OF ok] by (simp add: execute_def u has_table_def)
qed

lemma undo_Create_index [undo]: "i_name i = n \<Longrightarrow> undoes [Drop_index n] [Create_index i]"
proof -
  assume n: "i_name i = n"
  have "filter (\<lambda>j. i_name j \<noteq> n) (indexes s) = indexes s" if "allowed (Create_index i) s" for s
    using that n by (intro filter_True ballI) (metis allowed.simps(6) image_eqI list.set_map)
  then show ?thesis using n by (auto simp: undoes_def execute_def split: if_splits)
qed

lemma keys_columns: "tab_ok ts y \<Longrightarrow> cs \<in> set (keys_of y) \<Longrightarrow> set cs \<subseteq> set (columns_of y)"
proof -
  assume tab: "tab_ok ts y" and "cs \<in> set (keys_of y)"
  then obtain n k where k: "(n, k) \<in> set (t_cons y)" "cs \<in> set (key_columns k)" by (auto simp: keys_of_def)
  then have "con_ok ts y k" using tab by (force simp: tab_ok_def list_all_iff)
  then show ?thesis using k(2) by (cases k) (auto simp: con_ok_def con_columns_def key_columns_def)
qed

lemma unmentioned:
  assumes ok: "schema_ok s" and new: "\<And>x. x \<in> set (tabs s) \<Longrightarrow> t_name x = t \<Longrightarrow> c \<notin> set (columns_of x)"
  shows "i \<in> set (indexes s) \<Longrightarrow> \<not> index_mentions t c i"
    and "x \<in> set (tabs s) \<Longrightarrow> (n, k) \<in> set (t_cons x) \<Longrightarrow> t_name x = t \<Longrightarrow> \<not> con_mentions t c k"
proof -
  assume "i \<in> set (indexes s)"
  then obtain x where "x \<in> set (tabs s)" "t_name x = i_table i" "set (index_uses i) \<subseteq> set (columns_of x)"
    using schema_okD(4) [OF ok] by (auto simp: index_ok_def list_ex_iff)
  then show "\<not> index_mentions t c i" using new by (auto simp: index_mentions_def)
next
  assume x: "x \<in> set (tabs s)" "(n, k) \<in> set (t_cons x)" "t_name x = t"
  have "con_ok (tabs s) x k" using schema_okD(2) [OF ok x(1)] x(2) by (force simp: tab_ok_def list_all_iff)
  then have own: "c \<notin> set (con_columns k)" and ref: "resolves (tabs s) k" using new [OF x(1,3)] by (auto simp: con_ok_def)
  have "c \<notin> set cs" if "key_in (tabs s) t cs" for cs
  proof -
    obtain y where y: "y \<in> set (tabs s)" "t_name y = t" "cs \<in> set (keys_of y)"
      using \<open>key_in (tabs s) t cs\<close> by (auto simp: key_in_def list_ex_iff)
    then have "set cs \<subseteq> set (columns_of y)" using keys_columns [OF schema_okD(2) [OF ok]] by simp
    then show ?thesis using new [OF y(1,2)] by auto
  qed
  then show "\<not> con_mentions t c k" using own ref by (auto simp: con_mentions_def resolves_def split: con.splits)
qed

lemma undo_Add_column [undo]:
  assumes "c_name c = n" and "list_all (\<lambda>(m, k). con_mentions t n k) ks"
  shows "undoes [Drop_column t n] [Add_column t c ks]"
  unfolding undoes_def
proof (intro allI impI)
  fix s u assume ok: "schema_ok s" and run: "execute_all [Add_column t c ks] s = Inr u"
  let ?f = "\<lambda>x. x\<lparr>t_columns := t_columns x @ [c], t_cons := t_cons x @ ks\<rparr>"
  have u: "u = change t ?f s" and tab: "table_ok t u" and there: "has_table t (\<lambda>x. True) s"
    using run by (auto simp: execute_def split: if_splits)
  have new: "n \<notin> set (columns_of x)" if "x \<in> set (tabs s)" "t_name x = t" for x
    using table_ok_change [of t ?f s x] that tab assms(1) by (auto simp: u tab_ok_def columns_of_def)
  note free = unmentioned [OF ok new]
  have "tabs (effect (Drop_column t n) u) = tabs s"
    unfolding u effect.simps
  proof (simp del: map_map, rule changed_back)
    fix x assume x: "x \<in> set (tabs s)" "t_name x = t"
    have "filter (\<lambda>d. c_name d \<noteq> n) (t_columns x) = t_columns x"
      using new [OF x] by (auto simp: columns_of_def intro!: filter_True)
    moreover have "filter (\<lambda>(m, k). \<not> con_mentions t n k) (t_cons x) = t_cons x"
      using free(2) [OF _ _ x(1) _ x(2)] by (auto intro!: filter_True)
    moreover have "filter (\<lambda>(m, k). \<not> con_mentions t n k) ks = []"
      using assms(2) by (auto simp: list_all_iff filter_empty_conv)
    ultimately show "(?f x)\<lparr>t_columns := filter (\<lambda>d. c_name d \<noteq> n) (t_columns (?f x)),
        t_cons := filter (\<lambda>(m, k). \<not> con_mentions t n k) (t_cons (?f x))\<rparr> = x"
      using assms(1) by simp
  qed simp
  moreover have "indexes (effect (Drop_column t n) u) = indexes s"
    using free(1) by (auto simp: u intro!: filter_True)
  ultimately have "effect (Drop_column t n) u = s" by simp
  moreover have "has_table t (\<lambda>x. n \<in> set (columns_of x)) u" using there assms(1) by (simp add: u)
  ultimately show "execute_all [Drop_column t n] u = Inr s"
    using no_dangling_ok [OF ok] by (simp add: execute_def del: effect.simps)
qed

lemma undo_Add_constraint [undo]: "undoes [Drop_constraint n t] [Add_constraint t n k]"
  unfolding undoes_def
proof (intro allI impI)
  fix s u assume ok: "schema_ok s" and run: "execute_all [Add_constraint t n k] s = Inr u"
  let ?f = "\<lambda>x. x\<lparr>t_cons := t_cons x @ [(n, k)]\<rparr>"
  have u: "u = change t ?f s" and tab: "table_ok t u" and there: "has_table t (\<lambda>x. True) s"
    using run by (auto simp: execute_def split: if_splits)
  have new: "n \<notin> fst ` set (t_cons x)" if "x \<in> set (tabs s)" "t_name x = t" for x
    using table_ok_change [of t ?f s x] that tab by (auto simp: u tab_ok_def)
  have "tabs (effect (Drop_constraint n t) u) = tabs s"
    unfolding u effect.simps
  proof (simp del: map_map, rule changed_back)
    fix x assume "x \<in> set (tabs s)" "t_name x = t"
    then have "filter (\<lambda>(m, k). m \<noteq> n) (t_cons x) = t_cons x" using new by (force intro!: filter_True)
    then show "(?f x)\<lparr>t_cons := filter (\<lambda>(m, k). m \<noteq> n) (t_cons (?f x))\<rparr> = x" by simp
  qed simp
  then have "effect (Drop_constraint n t) u = s" by (simp add: u)
  moreover have "has_table t (\<lambda>x. n \<in> set (map fst (t_cons x))) u" using there by (simp add: u)
  ultimately show "execute_all [Drop_constraint n t] u = Inr s"
    using no_dangling_ok [OF ok] by (simp add: execute_def del: effect.simps)
qed

text \<open>A column that is added and then made \<open>NOT NULL\<close> is a column added as \<open>NOT NULL\<close>.\<close>

lemma undo_Add_column_then_alter [undo]:
  assumes "c_name c = n"
  shows "undoes [Drop_column t n] [Add_column t c [], Alter_nullable t n b]"
  unfolding undoes_def
proof (intro allI impI)
  fix s u assume ok: "schema_ok s" and run: "execute_all [Add_column t c [], Alter_nullable t n b] s = Inr u"
  let ?c = "c\<lparr>c_nullable := b\<rparr>"
  have tab: "table_ok t (effect (Add_column t c []) s)" and there: "has_table t (\<lambda>x. True) s"
    using run by (auto simp: execute_def split: if_splits)
  have old: "map (\<lambda>d. if c_name d = n then d\<lparr>c_nullable := b\<rparr> else d) (t_columns x) = t_columns x"
    if "x \<in> set (tabs s)" "t_name x = t" for x
    using table_ok_change [of t "\<lambda>x. x\<lparr>t_columns := t_columns x @ [c], t_cons := t_cons x @ []\<rparr>" s x] that tab assms(1)
    by (auto simp: tab_ok_def columns_of_def image_iff intro!: map_idI)
  have same: "effect (Alter_nullable t n b) (effect (Add_column t c []) s) = effect (Add_column t ?c []) s"
    using old assms(1) by (auto simp: change_def)
  let ?f = "\<lambda>d x. x\<lparr>t_columns := t_columns x @ [d]\<rparr>"
  have add: "effect (Add_column t d []) s = change t (?f d) s" for d by simp
  have "key_in (tabs (change t (?f d) s)) = key_in (tabs s)" for d
    by (intro ext key_in_change) (simp_all add: keys_of_def)
  then have refs: "resolves (tabs (change t (?f d) s)) = resolves (tabs s)" for d
    by (intro ext) (simp add: resolves_def del: change_simps split: con.split)
  have "tab_ok (tabs (change t (?f ?c) s)) (?f ?c x)" if "x \<in> set (tabs s)" "t_name x = t" for x
    using table_ok_change [of t "?f c" s x] that tab by (simp add: add tab_ok_def con_ok_def [abs_def] refs del: change_simps effect.simps)
  then have "table_ok t (effect (Add_column t ?c []) s)"
    unfolding add by (intro table_ok_changeI) simp_all
  then have "execute_all [Add_column t ?c []] s = Inr u"
    using run same there by (simp add: execute_def del: effect.simps split: if_splits)
  then show "execute_all [Drop_column t n] u = Inr s"
    using undo_Add_column [of ?c n t "[]"] ok assms(1) by (simp add: undoes_def)
qed

text \<open>A table goes with its indexes.\<close>

fun creates :: "string \<Rightarrow> ddl list \<Rightarrow> bool" where
  "creates t (Create_table t' cs ks # xs) = (t' = t \<and> list_all (\<lambda>x. case x of Create_index i \<Rightarrow> i_table i = t | _ \<Rightarrow> False) xs)"
| "creates t _ = False"

lemma undo_creates [undo]:
  assumes "creates t xs"
  shows "undoes [Drop_table t] xs"
proof -
  obtain cs ks ys where xs: "xs = Create_table t cs ks # ys"
    and ys: "\<And>y. y \<in> set ys \<Longrightarrow> \<exists>i. y = Create_index i \<and> i_table i = t"
    using assms by (cases "(t, xs)" rule: creates.cases) (fastforce simp: list_all_iff split: ddl.splits)+
  define js where "js = map (\<lambda>y. SOME i. y = Create_index i) ys"
  have "ys = map Create_index js" unfolding js_def map_map
    using ys by (intro map_idI [symmetric]) (fastforce dest: ys)
  moreover have "list_all (\<lambda>i. i_table i = t) js"
    using ys \<open>ys = map Create_index js\<close> by (fastforce simp: list_all_iff)
  ultimately show ?thesis using undo_Create_table xs by simp
qed

text \<open>The last statement of a downgrade undoes the first statements of its upgrade.\<close>

lemma undoes_split:
  "ds \<noteq> [] \<Longrightarrow> undoes [last ds] (take n us) \<Longrightarrow> undoes (butlast ds) (drop n us) \<Longrightarrow> undoes ds us"
  using undoes_append [of "[last ds]" "take n us" "butlast ds" "drop n us"] by simp

lemma undoes_step: "ds \<noteq> [] \<Longrightarrow> undoes [last ds] [u] \<Longrightarrow> undoes (butlast ds) us \<Longrightarrow> undoes ds (u # us)"
  using undoes_split [of ds 1 "u # us"] by simp

subsection \<open>Columns, constraints and indexes as the code writes them\<close>

text \<open>
  PostgreSQL names an unnamed constraint after its table and columns. \<open>sa.DateTime()\<close> is \<open>TIMESTAMP\<close>,
  \<open>sa.String(n)\<close> is \<open>VARCHAR(n)\<close>.
\<close>

definition col :: "string \<Rightarrow> sql_type \<Rightarrow> bool \<Rightarrow> server_default option \<Rightarrow> column" where
  "col n ty nullable d = \<lparr>c_name = n, c_type = ty, c_nullable = nullable, c_default = d\<rparr>"

definition required_col :: "string \<Rightarrow> sql_type \<Rightarrow> column" where
  "required_col n ty = col n ty False None"

definition optional_col :: "string \<Rightarrow> sql_type \<Rightarrow> column" where
  "optional_col n ty = col n ty True None"

definition now_col :: "string \<Rightarrow> column" where
  "now_col n = col n TIMESTAMP False (Some Now)"

definition pk :: "string \<Rightarrow> string \<times> con" where
  "pk t = (t @ ''_pkey'', Primary_key [''id''])"

definition unique :: "string \<Rightarrow> string \<Rightarrow> string \<times> con" where
  "unique t c = (t @ ''_'' @ c @ ''_key'', Unique [c])"

definition fk :: "string \<Rightarrow> string \<Rightarrow> string \<Rightarrow> string \<times> con" where
  "fk t c r = (t @ ''_'' @ c @ ''_fkey'', Foreign_key [c] r [''id''])"

definition ix :: "string \<Rightarrow> string \<Rightarrow> string list \<Rightarrow> index" where
  "ix n t cs = \<lparr>i_name = n, i_table = t, i_columns = cs, i_unique = False, i_where = None\<rparr>"

definition unique_ix :: "string \<Rightarrow> string \<Rightarrow> string list \<Rightarrow> condition option \<Rightarrow> index" where
  "unique_ix n t cs w = \<lparr>i_name = n, i_table = t, i_columns = cs, i_unique = True, i_where = w\<rparr>"


subsection \<open>The revisions\<close>

text \<open>Each is the list of the schema statements of its file, in order; the statements on rows are in theory Migrations.\<close>

record revision =
  rev_id :: string
  down_revision :: "string option"
  upgrade :: "ddl list"
  downgrade :: "ddl list"

definition upgrade_6b5dae2e4e11 :: "ddl list" where
  "upgrade_6b5dae2e4e11 =
    [Create_table ''players''
       [required_col ''id'' INTEGER,
        required_col ''username'' (VARCHAR (Some 32)),
        now_col ''created_at'',
        optional_col ''updated_at'' TIMESTAMP]
       [unique ''players'' ''username'', pk ''players'']]"

definition downgrade_6b5dae2e4e11 :: "ddl list" where
  "downgrade_6b5dae2e4e11 =
    [Drop_table ''players'']"

definition revision_6b5dae2e4e11 :: revision where
  "revision_6b5dae2e4e11 = \<lparr>rev_id = ''6b5dae2e4e11'', down_revision = None,
     upgrade = upgrade_6b5dae2e4e11, downgrade = downgrade_6b5dae2e4e11\<rparr>"

definition upgrade_a1b2c3d4e5f6 :: "ddl list" where
  "upgrade_a1b2c3d4e5f6 =
    [Create_table ''dreams''
       [col ''id'' INTEGER False (Some Sequence),
        required_col ''user_id'' BIGINT,
        required_col ''text'' TEXT,
        now_col ''created_at'']
       [pk ''dreams'']]"

definition downgrade_a1b2c3d4e5f6 :: "ddl list" where
  "downgrade_a1b2c3d4e5f6 =
    [Drop_table ''dreams'']"

definition revision_a1b2c3d4e5f6 :: revision where
  "revision_a1b2c3d4e5f6 = \<lparr>rev_id = ''a1b2c3d4e5f6'', down_revision = Some ''6b5dae2e4e11'',
     upgrade = upgrade_a1b2c3d4e5f6, downgrade = downgrade_a1b2c3d4e5f6\<rparr>"

definition upgrade_b2c3d4e5f6a7 :: "ddl list" where
  "upgrade_b2c3d4e5f6a7 =
    [Create_table ''dream_sessions''
       [required_col ''id'' UUID,
        required_col ''user_id'' BIGINT,
        required_col ''status'' (VARCHAR None),
        now_col ''created_at'',
        now_col ''updated_at'']
       [pk ''dream_sessions''],
     Create_index (ix ''ix_dream_sessions_user_id'' ''dream_sessions'' [''user_id'']),
     Add_column ''dreams'' (optional_col ''session_id'' UUID) [],
     Add_constraint ''dreams'' ''fk_dreams_session_id_dream_sessions'' (Foreign_key [''session_id''] ''dream_sessions'' [''id'']),
     Create_index (ix ''ix_dreams_session_id'' ''dreams'' [''session_id''])]"

definition downgrade_b2c3d4e5f6a7 :: "ddl list" where
  "downgrade_b2c3d4e5f6a7 =
    [Drop_index ''ix_dreams_session_id'',
     Drop_constraint ''fk_dreams_session_id_dream_sessions'' ''dreams'',
     Drop_column ''dreams'' ''session_id'',
     Drop_index ''ix_dream_sessions_user_id'',
     Drop_table ''dream_sessions'']"

definition revision_b2c3d4e5f6a7 :: revision where
  "revision_b2c3d4e5f6a7 = \<lparr>rev_id = ''b2c3d4e5f6a7'', down_revision = Some ''a1b2c3d4e5f6'',
     upgrade = upgrade_b2c3d4e5f6a7, downgrade = downgrade_b2c3d4e5f6a7\<rparr>"

definition upgrade_c3d4e5f6a7b8 :: "ddl list" where
  "upgrade_c3d4e5f6a7b8 =
    []"

definition downgrade_c3d4e5f6a7b8 :: "ddl list" where
  "downgrade_c3d4e5f6a7b8 =
    []"

definition revision_c3d4e5f6a7b8 :: revision where
  "revision_c3d4e5f6a7b8 = \<lparr>rev_id = ''c3d4e5f6a7b8'', down_revision = Some ''b2c3d4e5f6a7'',
     upgrade = upgrade_c3d4e5f6a7b8, downgrade = downgrade_c3d4e5f6a7b8\<rparr>"

definition upgrade_d4e5f6a7b8c9 :: "ddl list" where
  "upgrade_d4e5f6a7b8c9 =
    [Alter_nullable ''dreams'' ''session_id'' False]"

definition downgrade_d4e5f6a7b8c9 :: "ddl list" where
  "downgrade_d4e5f6a7b8c9 =
    [Alter_nullable ''dreams'' ''session_id'' True]"

definition revision_d4e5f6a7b8c9 :: revision where
  "revision_d4e5f6a7b8c9 = \<lparr>rev_id = ''d4e5f6a7b8c9'', down_revision = Some ''c3d4e5f6a7b8'',
     upgrade = upgrade_d4e5f6a7b8c9, downgrade = downgrade_d4e5f6a7b8c9\<rparr>"

definition upgrade_e5f6a7b8c9d0 :: "ddl list" where
  "upgrade_e5f6a7b8c9d0 =
    [Add_column ''dream_sessions'' (optional_col ''last_activity_at'' TIMESTAMP) [],
     Alter_nullable ''dream_sessions'' ''last_activity_at'' False]"

definition downgrade_e5f6a7b8c9d0 :: "ddl list" where
  "downgrade_e5f6a7b8c9d0 =
    [Drop_column ''dream_sessions'' ''last_activity_at'']"

definition revision_e5f6a7b8c9d0 :: revision where
  "revision_e5f6a7b8c9d0 = \<lparr>rev_id = ''e5f6a7b8c9d0'', down_revision = Some ''d4e5f6a7b8c9'',
     upgrade = upgrade_e5f6a7b8c9d0, downgrade = downgrade_e5f6a7b8c9d0\<rparr>"

definition upgrade_f6a7b8c9d0e1 :: "ddl list" where
  "upgrade_f6a7b8c9d0e1 =
    [Create_table ''session_summaries''
       [required_col ''id'' UUID,
        required_col ''session_id'' UUID,
        required_col ''user_id'' BIGINT,
        required_col ''dream_count'' INTEGER,
        required_col ''key_symbols'' JSON,
        required_col ''recurring_words'' JSON,
        optional_col ''raw_text_sample'' TEXT,
        now_col ''created_at'']
       [fk ''session_summaries'' ''session_id'' ''dream_sessions'', pk ''session_summaries'', unique ''session_summaries'' ''session_id''],
     Create_index (ix ''ix_session_summaries_user_id'' ''session_summaries'' [''user_id''])]"

definition downgrade_f6a7b8c9d0e1 :: "ddl list" where
  "downgrade_f6a7b8c9d0e1 =
    [Drop_index ''ix_session_summaries_user_id'',
     Drop_table ''session_summaries'']"

definition revision_f6a7b8c9d0e1 :: revision where
  "revision_f6a7b8c9d0e1 = \<lparr>rev_id = ''f6a7b8c9d0e1'', down_revision = Some ''e5f6a7b8c9d0'',
     upgrade = upgrade_f6a7b8c9d0e1, downgrade = downgrade_f6a7b8c9d0e1\<rparr>"

definition upgrade_a7b8c9d0e1f2 :: "ddl list" where
  "upgrade_a7b8c9d0e1f2 =
    [Create_table ''session_analyses''
       [required_col ''id'' UUID,
        required_col ''session_id'' UUID,
        required_col ''user_id'' BIGINT,
        required_col ''provider'' (VARCHAR None),
        required_col ''model'' (VARCHAR None),
        required_col ''prompt_version'' (VARCHAR None),
        required_col ''analysis_version'' (VARCHAR None),
        required_col ''analysis_json'' JSON,
        optional_col ''raw_response'' TEXT,
        now_col ''created_at'']
       [fk ''session_analyses'' ''session_id'' ''dream_sessions'', pk ''session_analyses'', unique ''session_analyses'' ''session_id''],
     Create_index (ix ''ix_session_analyses_user_id'' ''session_analyses'' [''user_id''])]"

definition downgrade_a7b8c9d0e1f2 :: "ddl list" where
  "downgrade_a7b8c9d0e1f2 =
    [Drop_index ''ix_session_analyses_user_id'',
     Drop_table ''session_analyses'']"

definition revision_a7b8c9d0e1f2 :: revision where
  "revision_a7b8c9d0e1f2 = \<lparr>rev_id = ''a7b8c9d0e1f2'', down_revision = Some ''f6a7b8c9d0e1'',
     upgrade = upgrade_a7b8c9d0e1f2, downgrade = downgrade_a7b8c9d0e1f2\<rparr>"

definition upgrade_b8c9d0e1f2a3 :: "ddl list" where
  "upgrade_b8c9d0e1f2a3 =
    [Create_table ''analysis_threads''
       [required_col ''id'' UUID,
        required_col ''session_id'' UUID,
        required_col ''status'' (VARCHAR None),
        now_col ''created_at'',
        now_col ''updated_at'',
        optional_col ''last_analysis_id'' UUID]
       [fk ''analysis_threads'' ''session_id'' ''dream_sessions'', pk ''analysis_threads''],
     Create_index (ix ''ix_analysis_threads_session_id'' ''analysis_threads'' [''session_id'']),
     Create_index (ix ''ix_analysis_threads_session_id_status'' ''analysis_threads'' [''session_id'', ''status'']),
     Add_column ''session_analyses'' (optional_col ''thread_id'' UUID) [],
     Add_column ''session_analyses'' (col ''is_latest'' BOOLEAN False (Some (Literal ''false''))) [],
     Add_column ''session_analyses'' (col ''continuation_index'' INTEGER False (Some (Literal ''0''))) [],
     Drop_constraint ''session_analyses_session_id_key'' ''session_analyses'',
     Alter_nullable ''session_analyses'' ''thread_id'' False,
     Add_constraint ''session_analyses'' ''fk_session_analyses_thread_id'' (Foreign_key [''thread_id''] ''analysis_threads'' [''id'']),
     Add_constraint ''analysis_threads'' ''fk_analysis_threads_last_analysis'' (Foreign_key [''last_analysis_id''] ''session_analyses'' [''id'']),
     Create_index (ix ''ix_session_analyses_thread_id'' ''session_analyses'' [''thread_id'']),
     Create_index (unique_ix ''ix_session_analyses_one_latest_per_thread'' ''session_analyses'' [''thread_id''] (Some (Holds ''is_latest''))),
     Create_index (ix ''ix_session_analyses_session_id_created_at'' ''session_analyses'' [''session_id'', ''created_at''])]"

definition downgrade_b8c9d0e1f2a3 :: "ddl list" where
  "downgrade_b8c9d0e1f2a3 =
    [Drop_index ''ix_session_analyses_session_id_created_at'',
     Drop_index ''ix_session_analyses_one_latest_per_thread'',
     Drop_index ''ix_session_analyses_thread_id'',
     Drop_constraint ''fk_analysis_threads_last_analysis'' ''analysis_threads'',
     Drop_constraint ''fk_session_analyses_thread_id'' ''session_analyses'',
     Drop_column ''session_analyses'' ''continuation_index'',
     Drop_column ''session_analyses'' ''is_latest'',
     Drop_column ''session_analyses'' ''thread_id'',
     Drop_index ''ix_analysis_threads_session_id_status'',
     Drop_index ''ix_analysis_threads_session_id'',
     Drop_table ''analysis_threads'',
     Add_constraint ''session_analyses'' ''session_analyses_session_id_key'' (Unique [''session_id''])]"

definition revision_b8c9d0e1f2a3 :: revision where
  "revision_b8c9d0e1f2a3 = \<lparr>rev_id = ''b8c9d0e1f2a3'', down_revision = Some ''a7b8c9d0e1f2'',
     upgrade = upgrade_b8c9d0e1f2a3, downgrade = downgrade_b8c9d0e1f2a3\<rparr>"

definition upgrade_c9d0e1f2a3b4 :: "ddl list" where
  "upgrade_c9d0e1f2a3b4 =
    [Add_column ''analysis_threads'' (optional_col ''last_activity_at'' TIMESTAMP) [],
     Create_index (unique_ix ''ix_analysis_threads_one_active_per_session'' ''analysis_threads'' [''session_id''] (Some (Equals ''status'' ''active'')))]"

definition downgrade_c9d0e1f2a3b4 :: "ddl list" where
  "downgrade_c9d0e1f2a3b4 =
    [Drop_index ''ix_analysis_threads_one_active_per_session'',
     Drop_column ''analysis_threads'' ''last_activity_at'']"

definition revision_c9d0e1f2a3b4 :: revision where
  "revision_c9d0e1f2a3b4 = \<lparr>rev_id = ''c9d0e1f2a3b4'', down_revision = Some ''b8c9d0e1f2a3'',
     upgrade = upgrade_c9d0e1f2a3b4, downgrade = downgrade_c9d0e1f2a3b4\<rparr>"

definition upgrade_d0e1f2a3b4c5 :: "ddl list" where
  "upgrade_d0e1f2a3b4c5 =
    [Create_table ''analysis_jobs''
       [required_col ''id'' UUID,
        required_col ''session_id'' UUID,
        optional_col ''thread_id'' UUID,
        required_col ''status'' (VARCHAR None),
        required_col ''provider'' (VARCHAR None),
        required_col ''model'' (VARCHAR None),
        col ''mode'' (VARCHAR None) False (Some (Literal ''auto'')),
        col ''attempts'' INTEGER False (Some (Literal ''0'')),
        col ''max_attempts'' INTEGER False (Some (Literal ''1'')),
        optional_col ''last_error_class'' (VARCHAR None),
        optional_col ''last_error_message'' TEXT,
        col ''retryable'' BOOLEAN False (Some (Literal ''false'')),
        now_col ''created_at'',
        now_col ''updated_at'',
        now_col ''available_after'',
        optional_col ''started_at'' TIMESTAMP,
        optional_col ''completed_at'' TIMESTAMP,
        optional_col ''locked_by'' (VARCHAR None),
        optional_col ''locked_at'' TIMESTAMP]
       [(''fk_analysis_jobs_session_id'', Foreign_key [''session_id''] ''dream_sessions'' [''id'']), (''fk_analysis_jobs_thread_id'', Foreign_key [''thread_id''] ''analysis_threads'' [''id'']), pk ''analysis_jobs''],
     Create_index (ix ''ix_analysis_jobs_session_id'' ''analysis_jobs'' [''session_id'']),
     Create_index (ix ''ix_analysis_jobs_thread_id'' ''analysis_jobs'' [''thread_id'']),
     Create_index (ix ''ix_analysis_jobs_status'' ''analysis_jobs'' [''status'']),
     Create_index (ix ''ix_analysis_jobs_status_available_after_created_at'' ''analysis_jobs'' [''status'', ''available_after'', ''created_at'']),
     Create_index ((ix ''ix_analysis_jobs_queued_available'' ''analysis_jobs'' [''available_after'', ''created_at'', ''id''])
       \<lparr>i_where := Some (Equals ''status'' ''queued'')\<rparr>)]"

definition downgrade_d0e1f2a3b4c5 :: "ddl list" where
  "downgrade_d0e1f2a3b4c5 =
    [Drop_index ''ix_analysis_jobs_queued_available'',
     Drop_index ''ix_analysis_jobs_status_available_after_created_at'',
     Drop_index ''ix_analysis_jobs_status'',
     Drop_index ''ix_analysis_jobs_thread_id'',
     Drop_index ''ix_analysis_jobs_session_id'',
     Drop_table ''analysis_jobs'']"

definition revision_d0e1f2a3b4c5 :: revision where
  "revision_d0e1f2a3b4c5 = \<lparr>rev_id = ''d0e1f2a3b4c5'', down_revision = Some ''c9d0e1f2a3b4'',
     upgrade = upgrade_d0e1f2a3b4c5, downgrade = downgrade_d0e1f2a3b4c5\<rparr>"

definition upgrade_e1f2a3b4c5d6 :: "ddl list" where
  "upgrade_e1f2a3b4c5d6 =
    [Add_column ''session_analyses'' (optional_col ''analysis_job_id'' UUID) [],
     Create_index (ix ''ix_session_analyses_analysis_job_id'' ''session_analyses'' [''analysis_job_id''])]"

definition downgrade_e1f2a3b4c5d6 :: "ddl list" where
  "downgrade_e1f2a3b4c5d6 =
    [Drop_index ''ix_session_analyses_analysis_job_id'',
     Drop_column ''session_analyses'' ''analysis_job_id'']"

definition revision_e1f2a3b4c5d6 :: revision where
  "revision_e1f2a3b4c5d6 = \<lparr>rev_id = ''e1f2a3b4c5d6'', down_revision = Some ''d0e1f2a3b4c5'',
     upgrade = upgrade_e1f2a3b4c5d6, downgrade = downgrade_e1f2a3b4c5d6\<rparr>"

definition upgrade_f2a3b4c5d6e7 :: "ddl list" where
  "upgrade_f2a3b4c5d6e7 =
    [Create_table ''admin_prompt_versions''
       [required_col ''id'' UUID,
        required_col ''prompt_type'' (VARCHAR None),
        required_col ''version'' INTEGER,
        required_col ''content'' TEXT,
        col ''active_flag'' BOOLEAN False (Some (Literal ''false'')),
        now_col ''created_at'']
       [pk ''admin_prompt_versions'', (''uq_admin_prompt_versions_type_version'', Unique [''prompt_type'', ''version''])],
     Create_index (ix ''ix_admin_prompt_versions_prompt_type'' ''admin_prompt_versions'' [''prompt_type'']),
     Create_index (unique_ix ''ix_admin_prompt_versions_one_active_per_type'' ''admin_prompt_versions'' [''prompt_type''] (Some (Holds ''active_flag''))),
     Create_table ''dialogue_policy_traces''
       [required_col ''id'' UUID,
        required_col ''user_id'' BIGINT,
        optional_col ''session_id'' UUID,
        optional_col ''dream_id'' INTEGER,
        optional_col ''job_id'' UUID,
        required_col ''input_json'' JSON,
        required_col ''decision_json'' JSON,
        required_col ''route'' (VARCHAR None),
        required_col ''reason_code'' (VARCHAR None),
        required_col ''outcome_json'' JSON,
        now_col ''created_at'']
       [fk ''dialogue_policy_traces'' ''dream_id'' ''dreams'', fk ''dialogue_policy_traces'' ''job_id'' ''analysis_jobs'', fk ''dialogue_policy_traces'' ''session_id'' ''dream_sessions'', pk ''dialogue_policy_traces''],
     Create_index (ix ''ix_dialogue_policy_traces_user_id'' ''dialogue_policy_traces'' [''user_id'']),
     Create_index (ix ''ix_dialogue_policy_traces_session_id'' ''dialogue_policy_traces'' [''session_id'']),
     Create_index (ix ''ix_dialogue_policy_traces_dream_id'' ''dialogue_policy_traces'' [''dream_id'']),
     Create_index (ix ''ix_dialogue_policy_traces_job_id'' ''dialogue_policy_traces'' [''job_id'']),
     Create_index (ix ''ix_dialogue_policy_traces_route'' ''dialogue_policy_traces'' [''route''])]"

definition downgrade_f2a3b4c5d6e7 :: "ddl list" where
  "downgrade_f2a3b4c5d6e7 =
    [Drop_index ''ix_dialogue_policy_traces_route'',
     Drop_index ''ix_dialogue_policy_traces_job_id'',
     Drop_index ''ix_dialogue_policy_traces_dream_id'',
     Drop_index ''ix_dialogue_policy_traces_session_id'',
     Drop_index ''ix_dialogue_policy_traces_user_id'',
     Drop_table ''dialogue_policy_traces'',
     Drop_index ''ix_admin_prompt_versions_one_active_per_type'',
     Drop_index ''ix_admin_prompt_versions_prompt_type'',
     Drop_table ''admin_prompt_versions'']"

definition revision_f2a3b4c5d6e7 :: revision where
  "revision_f2a3b4c5d6e7 = \<lparr>rev_id = ''f2a3b4c5d6e7'', down_revision = Some ''e1f2a3b4c5d6'',
     upgrade = upgrade_f2a3b4c5d6e7, downgrade = downgrade_f2a3b4c5d6e7\<rparr>"

definition upgrade_a8b9c0d1e2f3 :: "ddl list" where
  "upgrade_a8b9c0d1e2f3 =
    [Create_table ''conversation_turns''
       [required_col ''id'' UUID,
        required_col ''user_id'' BIGINT,
        required_col ''session_id'' UUID,
        optional_col ''dream_id'' INTEGER,
        required_col ''role'' (VARCHAR None),
        required_col ''turn_type'' (VARCHAR None),
        col ''source'' (VARCHAR None) False (Some (Literal ''telegram'')),
        required_col ''text'' TEXT,
        optional_col ''metadata_json'' JSON,
        now_col ''created_at'']
       [pk ''conversation_turns'', fk ''conversation_turns'' ''session_id'' ''dream_sessions'', fk ''conversation_turns'' ''dream_id'' ''dreams''],
     Create_index (ix ''ix_conversation_turns_user_id'' ''conversation_turns'' [''user_id'']),
     Create_index (ix ''ix_conversation_turns_session_id'' ''conversation_turns'' [''session_id'']),
     Create_index (ix ''ix_conversation_turns_dream_id'' ''conversation_turns'' [''dream_id'']),
     Create_table ''dream_memories''
       [required_col ''id'' UUID,
        required_col ''dream_id'' INTEGER,
        required_col ''session_id'' UUID,
        required_col ''user_id'' BIGINT,
        required_col ''memory_version'' (VARCHAR None),
        required_col ''memory_json'' JSON,
        optional_col ''analysis_job_id'' UUID,
        now_col ''created_at'',
        now_col ''updated_at'']
       [pk ''dream_memories'', fk ''dream_memories'' ''dream_id'' ''dreams'', fk ''dream_memories'' ''session_id'' ''dream_sessions''],
     Create_index (unique_ix ''ix_dream_memories_dream_id'' ''dream_memories'' [''dream_id''] None),
     Create_index (ix ''ix_dream_memories_session_id'' ''dream_memories'' [''session_id'']),
     Create_index (ix ''ix_dream_memories_user_id'' ''dream_memories'' [''user_id'']),
     Add_column ''analysis_jobs'' (optional_col ''dream_id'' INTEGER) [fk ''analysis_jobs'' ''dream_id'' ''dreams''],
     Create_index (ix ''ix_analysis_jobs_dream_id'' ''analysis_jobs'' [''dream_id''])]"

definition downgrade_a8b9c0d1e2f3 :: "ddl list" where
  "downgrade_a8b9c0d1e2f3 =
    [Drop_index ''ix_analysis_jobs_dream_id'',
     Drop_column ''analysis_jobs'' ''dream_id'',
     Drop_table ''dream_memories'',
     Drop_table ''conversation_turns'']"

definition revision_a8b9c0d1e2f3 :: revision where
  "revision_a8b9c0d1e2f3 = \<lparr>rev_id = ''a8b9c0d1e2f3'', down_revision = Some ''f2a3b4c5d6e7'',
     upgrade = upgrade_a8b9c0d1e2f3, downgrade = downgrade_a8b9c0d1e2f3\<rparr>"

definition versions :: "revision list" where
  "versions =
    [revision_6b5dae2e4e11,
     revision_a1b2c3d4e5f6,
     revision_b2c3d4e5f6a7,
     revision_c3d4e5f6a7b8,
     revision_d4e5f6a7b8c9,
     revision_e5f6a7b8c9d0,
     revision_f6a7b8c9d0e1,
     revision_a7b8c9d0e1f2,
     revision_b8c9d0e1f2a3,
     revision_c9d0e1f2a3b4,
     revision_d0e1f2a3b4c5,
     revision_e1f2a3b4c5d6,
     revision_f2a3b4c5d6e7,
     revision_a8b9c0d1e2f3]"

subsection \<open>The metadata of the models\<close>

text \<open>
  \<open>index=True\<close> declares \<open>ix_<table>_<column>\<close>, unique together with \<open>unique=True\<close>; an integer primary key
  without a foreign key is a sequence. Each model is its table with its indexes.
\<close>

definition admin_prompt_versions_model :: "tab \<times> index list" where
  "admin_prompt_versions_model =
    (\<lparr>t_name = ''admin_prompt_versions'',
      t_columns =
       [required_col ''id'' UUID,
        required_col ''prompt_type'' (VARCHAR None),
        required_col ''version'' INTEGER,
        required_col ''content'' TEXT,
        col ''active_flag'' BOOLEAN False (Some (Literal ''false'')),
        now_col ''created_at''],
      t_cons = [pk ''admin_prompt_versions'',
        (''uq_admin_prompt_versions_type_version'', Unique [''prompt_type'', ''version''])]\<rparr>,
     [ix ''ix_admin_prompt_versions_prompt_type'' ''admin_prompt_versions'' [''prompt_type''],
      unique_ix ''ix_admin_prompt_versions_one_active_per_type'' ''admin_prompt_versions'' [''prompt_type''] (Some (Holds ''active_flag''))])"

definition analysis_jobs_model :: "tab \<times> index list" where
  "analysis_jobs_model =
    (\<lparr>t_name = ''analysis_jobs'',
      t_columns =
       [required_col ''id'' UUID,
        required_col ''session_id'' UUID,
        optional_col ''dream_id'' INTEGER,
        optional_col ''thread_id'' UUID,
        required_col ''status'' (VARCHAR None),
        required_col ''provider'' (VARCHAR None),
        required_col ''model'' (VARCHAR None),
        col ''mode'' (VARCHAR None) False (Some (Literal ''auto'')),
        col ''attempts'' INTEGER False (Some (Literal ''0'')),
        col ''max_attempts'' INTEGER False (Some (Literal ''1'')),
        optional_col ''last_error_class'' (VARCHAR None),
        optional_col ''last_error_message'' TEXT,
        col ''retryable'' BOOLEAN False (Some (Literal ''false'')),
        now_col ''created_at'',
        now_col ''updated_at'',
        now_col ''available_after'',
        optional_col ''started_at'' TIMESTAMP,
        optional_col ''completed_at'' TIMESTAMP,
        optional_col ''locked_by'' (VARCHAR None),
        optional_col ''locked_at'' TIMESTAMP],
      t_cons = [pk ''analysis_jobs'',
        fk ''analysis_jobs'' ''session_id'' ''dream_sessions'',
        fk ''analysis_jobs'' ''dream_id'' ''dreams'',
        fk ''analysis_jobs'' ''thread_id'' ''analysis_threads'']\<rparr>,
     [ix ''ix_analysis_jobs_session_id'' ''analysis_jobs'' [''session_id''],
      ix ''ix_analysis_jobs_dream_id'' ''analysis_jobs'' [''dream_id''],
      ix ''ix_analysis_jobs_thread_id'' ''analysis_jobs'' [''thread_id''],
      ix ''ix_analysis_jobs_status'' ''analysis_jobs'' [''status''],
      ix ''ix_analysis_jobs_status_available_after_created_at'' ''analysis_jobs'' [''status'', ''available_after'', ''created_at''],
      (ix ''ix_analysis_jobs_queued_available'' ''analysis_jobs'' [''available_after'', ''created_at'', ''id''])\<lparr>i_where := Some (Equals ''status'' ''queued'')\<rparr>])"

definition analysis_threads_model :: "tab \<times> index list" where
  "analysis_threads_model =
    (\<lparr>t_name = ''analysis_threads'',
      t_columns =
       [required_col ''id'' UUID,
        required_col ''session_id'' UUID,
        required_col ''status'' (VARCHAR None),
        now_col ''created_at'',
        now_col ''updated_at'',
        optional_col ''last_activity_at'' TIMESTAMP,
        optional_col ''last_analysis_id'' UUID],
      t_cons = [pk ''analysis_threads'',
        fk ''analysis_threads'' ''session_id'' ''dream_sessions'',
        (''fk_analysis_threads_last_analysis'', Foreign_key [''last_analysis_id''] ''session_analyses'' [''id''])]\<rparr>,
     [ix ''ix_analysis_threads_session_id'' ''analysis_threads'' [''session_id''],
      ix ''ix_analysis_threads_session_id_status'' ''analysis_threads'' [''session_id'', ''status''],
      unique_ix ''ix_analysis_threads_one_active_per_session'' ''analysis_threads'' [''session_id''] (Some (Equals ''status'' ''active''))])"

definition conversation_turns_model :: "tab \<times> index list" where
  "conversation_turns_model =
    (\<lparr>t_name = ''conversation_turns'',
      t_columns =
       [required_col ''id'' UUID,
        required_col ''user_id'' BIGINT,
        required_col ''session_id'' UUID,
        optional_col ''dream_id'' INTEGER,
        required_col ''role'' (VARCHAR None),
        required_col ''turn_type'' (VARCHAR None),
        col ''source'' (VARCHAR None) False (Some (Literal ''telegram'')),
        required_col ''text'' TEXT,
        optional_col ''metadata_json'' JSON,
        now_col ''created_at''],
      t_cons = [pk ''conversation_turns'',
        fk ''conversation_turns'' ''session_id'' ''dream_sessions'',
        fk ''conversation_turns'' ''dream_id'' ''dreams'']\<rparr>,
     [ix ''ix_conversation_turns_user_id'' ''conversation_turns'' [''user_id''],
      ix ''ix_conversation_turns_session_id'' ''conversation_turns'' [''session_id''],
      ix ''ix_conversation_turns_dream_id'' ''conversation_turns'' [''dream_id'']])"

definition dialogue_policy_traces_model :: "tab \<times> index list" where
  "dialogue_policy_traces_model =
    (\<lparr>t_name = ''dialogue_policy_traces'',
      t_columns =
       [required_col ''id'' UUID,
        required_col ''user_id'' BIGINT,
        optional_col ''session_id'' UUID,
        optional_col ''dream_id'' INTEGER,
        optional_col ''job_id'' UUID,
        required_col ''input_json'' JSON,
        required_col ''decision_json'' JSON,
        required_col ''route'' (VARCHAR None),
        required_col ''reason_code'' (VARCHAR None),
        required_col ''outcome_json'' JSON,
        now_col ''created_at''],
      t_cons = [pk ''dialogue_policy_traces'',
        fk ''dialogue_policy_traces'' ''session_id'' ''dream_sessions'',
        fk ''dialogue_policy_traces'' ''dream_id'' ''dreams'',
        fk ''dialogue_policy_traces'' ''job_id'' ''analysis_jobs'']\<rparr>,
     [ix ''ix_dialogue_policy_traces_user_id'' ''dialogue_policy_traces'' [''user_id''],
      ix ''ix_dialogue_policy_traces_session_id'' ''dialogue_policy_traces'' [''session_id''],
      ix ''ix_dialogue_policy_traces_dream_id'' ''dialogue_policy_traces'' [''dream_id''],
      ix ''ix_dialogue_policy_traces_job_id'' ''dialogue_policy_traces'' [''job_id''],
      ix ''ix_dialogue_policy_traces_route'' ''dialogue_policy_traces'' [''route'']])"

definition dream_memories_model :: "tab \<times> index list" where
  "dream_memories_model =
    (\<lparr>t_name = ''dream_memories'',
      t_columns =
       [required_col ''id'' UUID,
        required_col ''dream_id'' INTEGER,
        required_col ''session_id'' UUID,
        required_col ''user_id'' BIGINT,
        required_col ''memory_version'' (VARCHAR None),
        required_col ''memory_json'' JSON,
        optional_col ''analysis_job_id'' UUID,
        now_col ''created_at'',
        now_col ''updated_at''],
      t_cons = [pk ''dream_memories'',
        fk ''dream_memories'' ''dream_id'' ''dreams'',
        fk ''dream_memories'' ''session_id'' ''dream_sessions'']\<rparr>,
     [unique_ix ''ix_dream_memories_dream_id'' ''dream_memories'' [''dream_id''] None,
      ix ''ix_dream_memories_session_id'' ''dream_memories'' [''session_id''],
      ix ''ix_dream_memories_user_id'' ''dream_memories'' [''user_id''],
      ix ''ix_dream_memories_analysis_job_id'' ''dream_memories'' [''analysis_job_id'']])"

definition dreams_model :: "tab \<times> index list" where
  "dreams_model =
    (\<lparr>t_name = ''dreams'',
      t_columns =
       [col ''id'' INTEGER False (Some Sequence),
        required_col ''user_id'' BIGINT,
        required_col ''text'' TEXT,
        now_col ''created_at'',
        required_col ''session_id'' UUID],
      t_cons = [pk ''dreams'',
        fk ''dreams'' ''session_id'' ''dream_sessions'']\<rparr>,
     [ix ''ix_dreams_session_id'' ''dreams'' [''session_id'']])"

definition players_model :: "tab \<times> index list" where
  "players_model =
    (\<lparr>t_name = ''players'',
      t_columns =
       [col ''id'' INTEGER False (Some Sequence),
        required_col ''username'' (VARCHAR (Some 32)),
        now_col ''created_at'',
        optional_col ''updated_at'' TIMESTAMP],
      t_cons = [pk ''players'']\<rparr>,
     [])"

definition session_analyses_model :: "tab \<times> index list" where
  "session_analyses_model =
    (\<lparr>t_name = ''session_analyses'',
      t_columns =
       [required_col ''id'' UUID,
        required_col ''session_id'' UUID,
        required_col ''thread_id'' UUID,
        required_col ''user_id'' BIGINT,
        required_col ''provider'' (VARCHAR None),
        required_col ''model'' (VARCHAR None),
        required_col ''prompt_version'' (VARCHAR None),
        required_col ''analysis_version'' (VARCHAR None),
        required_col ''analysis_json'' JSON,
        optional_col ''raw_response'' TEXT,
        col ''is_latest'' BOOLEAN False (Some (Literal ''false'')),
        col ''continuation_index'' INTEGER False (Some (Literal ''0'')),
        optional_col ''analysis_job_id'' UUID,
        now_col ''created_at''],
      t_cons = [pk ''session_analyses'',
        fk ''session_analyses'' ''session_id'' ''dream_sessions'',
        fk ''session_analyses'' ''thread_id'' ''analysis_threads'']\<rparr>,
     [ix ''ix_session_analyses_session_id'' ''session_analyses'' [''session_id''],
      ix ''ix_session_analyses_thread_id'' ''session_analyses'' [''thread_id''],
      ix ''ix_session_analyses_user_id'' ''session_analyses'' [''user_id''],
      ix ''ix_session_analyses_analysis_job_id'' ''session_analyses'' [''analysis_job_id''],
      unique_ix ''ix_session_analyses_one_latest_per_thread'' ''session_analyses'' [''thread_id''] (Some (Holds ''is_latest'')),
      ix ''ix_session_analyses_session_id_created_at'' ''session_analyses'' [''session_id'', ''created_at'']])"

definition dream_sessions_model :: "tab \<times> index list" where
  "dream_sessions_model =
    (\<lparr>t_name = ''dream_sessions'',
      t_columns =
       [required_col ''id'' UUID,
        required_col ''user_id'' BIGINT,
        required_col ''status'' (VARCHAR None),
        now_col ''created_at'',
        now_col ''updated_at'',
        now_col ''last_activity_at''],
      t_cons = [pk ''dream_sessions'']\<rparr>,
     [ix ''ix_dream_sessions_user_id'' ''dream_sessions'' [''user_id'']])"

definition session_summaries_model :: "tab \<times> index list" where
  "session_summaries_model =
    (\<lparr>t_name = ''session_summaries'',
      t_columns =
       [required_col ''id'' UUID,
        required_col ''session_id'' UUID,
        required_col ''user_id'' BIGINT,
        required_col ''dream_count'' INTEGER,
        required_col ''key_symbols'' JSON,
        required_col ''recurring_words'' JSON,
        optional_col ''raw_text_sample'' TEXT,
        now_col ''created_at''],
      t_cons = [pk ''session_summaries'',
        fk ''session_summaries'' ''session_id'' ''dream_sessions'']\<rparr>,
     [unique_ix ''ix_session_summaries_session_id'' ''session_summaries'' [''session_id''] None,
      ix ''ix_session_summaries_user_id'' ''session_summaries'' [''user_id'']])"

definition models :: "(tab \<times> index list) list" where
  "models =
    [admin_prompt_versions_model,
     analysis_jobs_model,
     analysis_threads_model,
     conversation_turns_model,
     dialogue_policy_traces_model,
     dream_memories_model,
     dreams_model,
     players_model,
     session_analyses_model,
     dream_sessions_model,
     session_summaries_model]"

definition metadata :: schema where
  "metadata = \<lparr>tabs = map fst models, indexes = concat (map snd models)\<rparr>"

subsection \<open>The revisions against the models\<close>

text \<open>What a schema says, without the order of its columns and the names of its constraints.\<close>

datatype fact = Column string column | Constraint string con | Index index

definition facts :: "schema \<Rightarrow> fact list" where
  "facts s = concat (map (\<lambda>x. map (Column (t_name x)) (t_columns x) @ map (Constraint (t_name x)) (map snd (t_cons x))) (tabs s))
     @ map Index (indexes s)"

definition only_in :: "schema \<Rightarrow> schema \<Rightarrow> fact list" where
  "only_in a b = filter (\<lambda>f. f \<notin> set (facts b)) (facts a)"

text \<open>Alembic follows the chain of \<open>down_revision\<close>.\<close>

fun chained :: "string option \<Rightarrow> revision list \<Rightarrow> bool" where
  "chained r [] = True"
| "chained r (x # xs) = (down_revision x = r \<and> chained (Some (rev_id x)) xs)"

definition upgrade_all :: "revision list \<Rightarrow> schema \<Rightarrow> ddl_error + schema" where
  "upgrade_all rs = execute_all (concat (map upgrade rs))"

definition downgrade_all :: "revision list \<Rightarrow> schema \<Rightarrow> ddl_error + schema" where
  "downgrade_all rs = execute_all (concat (map downgrade (rev rs)))"

subsection \<open>Every downgrade undoes its upgrade\<close>

lemmas written = required_col_def optional_col_def now_col_def col_def pk_def unique_def fk_def ix_def unique_ix_def
  con_mentions_def con_columns_def

lemma undo_6b5dae2e4e11: "undoes downgrade_6b5dae2e4e11 upgrade_6b5dae2e4e11"
  by (simp add: upgrade_6b5dae2e4e11_def downgrade_6b5dae2e4e11_def undo)

lemma undo_a1b2c3d4e5f6: "undoes downgrade_a1b2c3d4e5f6 upgrade_a1b2c3d4e5f6"
  by (simp add: upgrade_a1b2c3d4e5f6_def downgrade_a1b2c3d4e5f6_def undo)

lemma undo_b2c3d4e5f6a7: "undoes downgrade_b2c3d4e5f6a7 upgrade_b2c3d4e5f6a7"
  by (simp add: upgrade_b2c3d4e5f6a7_def downgrade_b2c3d4e5f6a7_def undo undoes_step written)

lemma undo_c3d4e5f6a7b8: "undoes downgrade_c3d4e5f6a7b8 upgrade_c3d4e5f6a7b8"
  by (simp add: upgrade_c3d4e5f6a7b8_def downgrade_c3d4e5f6a7b8_def undo)

lemma undo_e5f6a7b8c9d0: "undoes downgrade_e5f6a7b8c9d0 upgrade_e5f6a7b8c9d0"
  by (simp add: upgrade_e5f6a7b8c9d0_def downgrade_e5f6a7b8c9d0_def undo written)

lemma undo_f6a7b8c9d0e1: "undoes downgrade_f6a7b8c9d0e1 upgrade_f6a7b8c9d0e1"
  by (simp add: upgrade_f6a7b8c9d0e1_def downgrade_f6a7b8c9d0e1_def undo undoes_step written)

lemma undo_a7b8c9d0e1f2: "undoes downgrade_a7b8c9d0e1f2 upgrade_a7b8c9d0e1f2"
  by (simp add: upgrade_a7b8c9d0e1f2_def downgrade_a7b8c9d0e1f2_def undo undoes_step written)

lemma undo_c9d0e1f2a3b4: "undoes downgrade_c9d0e1f2a3b4 upgrade_c9d0e1f2a3b4"
  by (simp add: upgrade_c9d0e1f2a3b4_def downgrade_c9d0e1f2a3b4_def undo undoes_step written)

lemma undo_d0e1f2a3b4c5: "undoes downgrade_d0e1f2a3b4c5 upgrade_d0e1f2a3b4c5"
  by (simp add: upgrade_d0e1f2a3b4c5_def downgrade_d0e1f2a3b4c5_def undo undoes_step written)

lemma undo_e1f2a3b4c5d6: "undoes downgrade_e1f2a3b4c5d6 upgrade_e1f2a3b4c5d6"
  by (simp add: upgrade_e1f2a3b4c5d6_def downgrade_e1f2a3b4c5d6_def undo undoes_step written)

lemma undo_f2a3b4c5d6e7: "undoes downgrade_f2a3b4c5d6e7 upgrade_f2a3b4c5d6e7"
  by (simp add: upgrade_f2a3b4c5d6e7_def downgrade_f2a3b4c5d6e7_def undo undoes_step written)

lemma undo_a8b9c0d1e2f3: "undoes downgrade_a8b9c0d1e2f3 upgrade_a8b9c0d1e2f3"
proof (rule undoes_split [where n = 4], goal_cases)
  case 3
  show ?case
    by (rule undoes_split [where n = 4])
      (simp_all add: upgrade_a8b9c0d1e2f3_def downgrade_a8b9c0d1e2f3_def undo undoes_step written)
qed (simp_all add: upgrade_a8b9c0d1e2f3_def downgrade_a8b9c0d1e2f3_def undo written)

text \<open>The schema after the first \<open>k\<close> revisions, and that every statement on the way to it is accepted.\<close>

definition schema_at :: "nat \<Rightarrow> schema" where
  "schema_at k = fold effect (concat (map upgrade (take k versions))) no_schema"

lemma execute_all_effects: "execute_all xs s = Inr u \<Longrightarrow> u = fold effect xs s"
  by (induction xs arbitrary: s) (auto split: sum.splits)

definition goes_through :: "nat \<Rightarrow> nat \<Rightarrow> bool" where
  "goes_through k n = (case upgrade_all (take n (drop k versions)) (schema_at k) of Inl _ \<Rightarrow> False | Inr _ \<Rightarrow> True)"

lemma upgrade_all_append:
  "upgrade_all (xs @ ys) s = (case upgrade_all xs s of Inl e \<Rightarrow> Inl e | Inr t \<Rightarrow> upgrade_all ys t)"
  by (simp add: upgrade_all_def execute_all_append split: sum.split)

lemma goes_through_step:
  assumes "upgrade_all (take k versions) no_schema = Inr (schema_at k)" and "goes_through k n"
  shows "upgrade_all (take (k + n) versions) no_schema = Inr (schema_at (k + n))"
proof -
  obtain u where "upgrade_all (take n (drop k versions)) (schema_at k) = Inr u"
    using assms(2) by (auto simp: goes_through_def split: sum.splits)
  then have "upgrade_all (take (k + n) versions) no_schema = Inr u"
    using assms(1) by (simp add: take_add upgrade_all_append)
  then show ?thesis unfolding schema_at_def upgrade_all_def by (auto dest: execute_all_effects)
qed

lemma goes_through_9: "goes_through 0 9"
  by code_simp

lemma goes_through_11: "goes_through 9 2"
  by code_simp

lemma goes_through_13: "goes_through 11 2"
  by code_simp

lemma goes_through_14: "goes_through 13 1"
  by code_simp

definition view :: "string \<Rightarrow> schema \<Rightarrow> schema" where
  "view t s = \<lparr>tabs = filter (\<lambda>x. t_name x = t) (tabs s), indexes = filter (\<lambda>i. i_table i = t) (indexes s)\<rparr>"

fun about :: "string \<Rightarrow> ddl \<Rightarrow> bool" where
  "about t (Create_table t' cs ks) = (t' = t)"
| "about t (Drop_table t') = (t' = t)"
| "about t (Add_column t' c ks) = (t' = t)"
| "about t (Drop_column t' c) = (t' = t)"
| "about t (Alter_nullable t' c b) = (t' = t)"
| "about t (Create_index i) = (i_table i = t)"
| "about t (Drop_index n) = True"
| "about t (Add_constraint t' n k) = (t' = t)"
| "about t (Drop_constraint n t') = (t' = t)"

lemma filter_change:
  "(\<And>x. t_name (f x) = t_name x) \<Longrightarrow> filter (\<lambda>x. t_name x = t) (map (\<lambda>x. if t_name x = t' then f x else x) xs)
     = (if t' = t then map (\<lambda>x. if t_name x = t' then f x else x) (filter (\<lambda>x. t_name x = t) xs) else filter (\<lambda>x. t_name x = t) xs)"
  by (induction xs) auto

lemma view_effect: "view t (effect x s) = (if about t x then effect x (view t s) else view t s)"
  by (cases x) (auto simp: view_def change_def filter_change index_mentions_def intro!: filter_cong)

lemma view_schema_at:
  "view t (schema_at k) = fold effect (filter (about t) (concat (map upgrade (take k versions)))) no_schema"
proof -
  have "view t (fold effect xs s) = fold effect (filter (about t) xs) (view t s)" for xs s
    by (induction xs arbitrary: s) (auto simp: view_effect)
  then show ?thesis by (simp add: schema_at_def view_def no_schema_def)
qed

definition drift :: "string \<Rightarrow> schema \<Rightarrow> schema \<Rightarrow> fact list \<times> fact list" where
  "drift t a b = (only_in (view t a) (view t b), only_in (view t b) (view t a))"

text \<open>No difference for six of the eleven tables.\<close>

lemma drift_agreeing:
  "drift ''admin_prompt_versions'' (schema_at 14) metadata = ([], [])"
  "drift ''analysis_jobs'' (schema_at 14) metadata = ([], [])"
  "drift ''analysis_threads'' (schema_at 14) metadata = ([], [])"
  unfolding drift_def view_schema_at by code_simp+

lemma drift_agreeing':
  "drift ''conversation_turns'' (schema_at 14) metadata = ([], [])"
  "drift ''dialogue_policy_traces'' (schema_at 14) metadata = ([], [])"
  "drift ''dreams'' (schema_at 14) metadata = ([], [])"
  unfolding drift_def view_schema_at by code_simp+

lemma drift_differing:
  "drift ''dream_memories'' (schema_at 14) metadata =
     ([], [Index (ix ''ix_dream_memories_analysis_job_id'' ''dream_memories'' [''analysis_job_id''])])"
  "drift ''players'' (schema_at 14) metadata =
     ([Column ''players'' (required_col ''id'' INTEGER), Constraint ''players'' (Unique [''username''])],
      [Column ''players'' (col ''id'' INTEGER False (Some Sequence))])"
  unfolding drift_def view_schema_at by code_simp+

lemma drift_differing':
  "drift ''session_analyses'' (schema_at 14) metadata =
     ([], [Index (ix ''ix_session_analyses_session_id'' ''session_analyses'' [''session_id''])])"
  "drift ''dream_sessions'' (schema_at 14) metadata =
     ([Column ''dream_sessions'' (required_col ''last_activity_at'' TIMESTAMP)],
      [Column ''dream_sessions'' (now_col ''last_activity_at'')])"
  "drift ''session_summaries'' (schema_at 14) metadata =
     ([Constraint ''session_summaries'' (Unique [''session_id''])],
      [Index (unique_ix ''ix_session_summaries_session_id'' ''session_summaries'' [''session_id''] None)])"
  unfolding drift_def view_schema_at by code_simp+

lemma schema_at_names:
  "map t_name (tabs (schema_at 14)) = [''players'', ''dreams'', ''dream_sessions'', ''session_summaries'', ''session_analyses'',
     ''analysis_threads'', ''analysis_jobs'', ''admin_prompt_versions'', ''dialogue_policy_traces'', ''conversation_turns'',
     ''dream_memories'']"
  by code_simp

lemma names_of_versions: "length versions = 14"
  by (simp add: versions_def)

lemma built:
  assumes "k \<le> 14"
  shows "upgrade_all (take k versions) no_schema = Inr (schema_at k)"
proof -
  have "upgrade_all (take 0 versions) no_schema = Inr (schema_at 0)"
    by (simp add: upgrade_all_def schema_at_def)
  from goes_through_step [OF this goes_through_9]
  have "upgrade_all (take 9 versions) no_schema = Inr (schema_at 9)" by simp
  from goes_through_step [OF this goes_through_11]
  have "upgrade_all (take 11 versions) no_schema = Inr (schema_at 11)" by simp
  from goes_through_step [OF this goes_through_13]
  have "upgrade_all (take 13 versions) no_schema = Inr (schema_at 13)" by simp
  from goes_through_step [OF this goes_through_14]
  have "upgrade_all (take k versions @ take (14 - k) (drop k versions)) no_schema = Inr (schema_at 14)"
    using assms by (simp add: take_add [symmetric])
  then obtain u where "upgrade_all (take k versions) no_schema = Inr u"
    by (auto simp: upgrade_all_append split: sum.splits)
  then show ?thesis by (auto simp: upgrade_all_def schema_at_def dest: execute_all_effects)
qed

lemma no_schema_ok: "schema_ok no_schema"
  by (simp add: schema_ok_def no_schema_def)

lemma schema_at_ok: "k \<le> 14 \<Longrightarrow> schema_ok (schema_at k)"
  using execute_all_ok [OF built [unfolded upgrade_all_def] no_schema_ok] by simp

lemma upgrade_next:
  assumes "k < 14"
  shows "execute_all (upgrade (versions ! k)) (schema_at k) = Inr (schema_at (Suc k))"
proof -
  have "take (Suc k) versions = take k versions @ [versions ! k]"
    using assms by (simp add: take_Suc_conv_app_nth names_of_versions)
  then show ?thesis
    using built [of "Suc k"] built [of k] assms by (simp add: upgrade_all_append) (simp add: upgrade_all_def)
qed

text \<open>
  Two downgrades do not undo their upgrade in every schema (one makes a column nullable that may have been so
  before, the other puts a constraint back at the end), but where the chain applies them they do.
\<close>

lemma undo_d4e5f6a7b8c9: "execute_all downgrade_d4e5f6a7b8c9 (schema_at 5) = Inr (schema_at 4)"
  by code_simp

lemma undo_b8c9d0e1f2a3: "execute_all downgrade_b8c9d0e1f2a3 (schema_at 9) = Inr (schema_at 8)"
  by code_simp

lemma downgrade_next:
  assumes "k < 14"
  shows "execute_all (downgrade (versions ! k)) (schema_at (Suc k)) = Inr (schema_at k)"
proof (cases "k = 4 \<or> k = 8")
  case True
  then show ?thesis
    using undo_d4e5f6a7b8c9 undo_b8c9d0e1f2a3 by (auto simp: versions_def revision_d4e5f6a7b8c9_def revision_b8c9d0e1f2a3_def)
next
  case False
  then have "k \<in> {0, 1, 2, 3, 5, 6, 7, 9, 10, 11, 12, 13}" using assms by simp presburger
  then have "undoes (downgrade (versions ! k)) (upgrade (versions ! k))"
    by (auto simp: versions_def undo_6b5dae2e4e11 revision_6b5dae2e4e11_def undo_a1b2c3d4e5f6 revision_a1b2c3d4e5f6_def
        undo_b2c3d4e5f6a7 revision_b2c3d4e5f6a7_def undo_c3d4e5f6a7b8 revision_c3d4e5f6a7b8_def
        undo_e5f6a7b8c9d0 revision_e5f6a7b8c9d0_def undo_f6a7b8c9d0e1 revision_f6a7b8c9d0e1_def
        undo_a7b8c9d0e1f2 revision_a7b8c9d0e1f2_def undo_c9d0e1f2a3b4 revision_c9d0e1f2a3b4_def
        undo_d0e1f2a3b4c5 revision_d0e1f2a3b4c5_def undo_e1f2a3b4c5d6 revision_e1f2a3b4c5d6_def
        undo_f2a3b4c5d6e7 revision_f2a3b4c5d6e7_def undo_a8b9c0d1e2f3 revision_a8b9c0d1e2f3_def)
  then show ?thesis using undoesD upgrade_next [OF assms] schema_at_ok [of k] assms by simp
qed

lemma downgrade_all_append:
  "downgrade_all (xs @ [x]) s = (case execute_all (downgrade x) s of Inl e \<Rightarrow> Inl e | Inr t \<Rightarrow> downgrade_all xs t)"
  by (simp add: downgrade_all_def execute_all_append split: sum.split)

text \<open>C33. The revisions form one chain from the empty database; every prefix of it can be applied, and from any
  revision the downgrades lead back to any earlier one with exactly the schema it had.\<close>

theorem revisions_are_undone:
  assumes "i \<le> j" and "j \<le> length versions"
  shows "chained None versions \<and> (\<exists>s t. upgrade_all (take i versions) no_schema = Inr s
    \<and> upgrade_all (drop i (take j versions)) s = Inr t \<and> upgrade_all (take j versions) no_schema = Inr t
    \<and> downgrade_all (drop i (take j versions)) t = Inr s)"
proof -
  have j: "j \<le> 14" using assms(2) by (simp add: names_of_versions)
  have "take j versions = take i versions @ drop i (take j versions)"
    using assms(1) by (metis append_take_drop_id min.absorb1 take_take)
  then have up: "upgrade_all (drop i (take j versions)) (schema_at i) = Inr (schema_at j)"
    using built [of i] built [OF j] assms(1) j upgrade_all_append [of "take i versions" "drop i (take j versions)" no_schema]
    by simp
  have "downgrade_all (drop i (take j versions)) (schema_at j) = Inr (schema_at i)"
    using assms(1) j
  proof (induction j)
    case 0
    then show ?case by (simp add: downgrade_all_def)
  next
    case (Suc j)
    show ?case
    proof (cases "i = Suc j")
      case False
      then have "drop i (take (Suc j) versions) = drop i (take j versions) @ [versions ! j]"
        using Suc.prems by (simp add: take_Suc_conv_app_nth names_of_versions)
      then show ?thesis using Suc False downgrade_next [of j] by (simp add: downgrade_all_append)
    qed (simp add: downgrade_all_def)
  qed
  moreover have "chained None versions" by code_simp
  ultimately show ?thesis using up built [of i] built [OF j] assms(1) j by auto
qed

theorem revisions_are_undone_witness:
  "downgrade_all (drop 2 (take 9 versions)) (schema_at 9) = Inr (schema_at 2)"
  using revisions_are_undone [of 2 9] built [of 2] built [of 9] by (auto simp: names_of_versions)

text \<open>C32. A database that the revisions have built is well-formed and has the tables of the models, with the columns,
  types, defaults, nullability, keys, foreign keys and indexes of the models, except for these differences.\<close>

theorem revisions_build_the_models:
  "\<exists>head. upgrade_all versions no_schema = Inr head \<and> schema_ok head
     \<and> set (map t_name (tabs head)) = set (map t_name (tabs metadata))
     \<and> filter (\<lambda>(t, d). d \<noteq> ([], [])) (map (\<lambda>t. (t, drift t head metadata)) (map t_name (tabs metadata))) =
      [(''dream_memories'', [], [Index (ix ''ix_dream_memories_analysis_job_id'' ''dream_memories'' [''analysis_job_id''])]),
       (''players'',
         [Column ''players'' (required_col ''id'' INTEGER), Constraint ''players'' (Unique [''username''])],
         [Column ''players'' (col ''id'' INTEGER False (Some Sequence))]),
       (''session_analyses'', [], [Index (ix ''ix_session_analyses_session_id'' ''session_analyses'' [''session_id''])]),
       (''dream_sessions'',
         [Column ''dream_sessions'' (required_col ''last_activity_at'' TIMESTAMP)],
         [Column ''dream_sessions'' (now_col ''last_activity_at'')]),
       (''session_summaries'',
         [Constraint ''session_summaries'' (Unique [''session_id''])],
         [Index (unique_ix ''ix_session_summaries_session_id'' ''session_summaries'' [''session_id''] None)])]"
proof -
  have names: "map t_name (tabs metadata) = [''admin_prompt_versions'', ''analysis_jobs'', ''analysis_threads'',
     ''conversation_turns'', ''dialogue_policy_traces'', ''dream_memories'', ''dreams'', ''players'', ''session_analyses'',
     ''dream_sessions'', ''session_summaries'']" by code_simp
  have "set (map t_name (tabs (schema_at 14))) = set (map t_name (tabs metadata))"
    unfolding names schema_at_names by code_simp
  then show ?thesis
    using built [of 14] schema_at_ok [of 14] names_of_versions
    by (intro exI [of _ "schema_at 14"]) (simp add: names drift_agreeing drift_agreeing' drift_differing drift_differing')
qed

end
