(* ===== verification/Validation.thy ===== *)
theory Validation
  imports Prompts Config
begin

text \<open>
  The structural and lexical check of a compiled prompt (\<open>services/prompts/validation.py\<close>), the sections of
  the Markdown asset (\<open>services/prompts/contracts.py\<close>) and the facade that builds and checks a prompt
  (\<open>services/analysis_facade.py\<close>). Positions in the prompt are found as the code finds them, with \<open>str.index\<close>.
\<close>

subsection \<open>Strings\<close>

text \<open>\<open>str.index\<close> and \<open>str.splitlines\<close>.\<close>

fun find_sub :: "ustr \<Rightarrow> ustr \<Rightarrow> nat option" where
  "find_sub p [] = (if p = [] then Some 0 else None)"
| "find_sub p (c # s) = (if starts_with (c # s) p then Some 0 else map_option Suc (find_sub p s))"

definition index_of :: "ustr \<Rightarrow> ustr \<Rightarrow> exn + nat" where
  "index_of s p = (case find_sub p s of None \<Rightarrow> Inl (ValueError [Lit ''substring not found'']) | Some n \<Rightarrow> Inr n)"

definition line_break :: "nat \<Rightarrow> bool" where
  "line_break c \<longleftrightarrow> c \<in> {10, 11, 12, 13, 28, 29, 30, 133, 8232, 8233}"

fun after_break :: "ustr \<Rightarrow> ustr" where
  "after_break [] = []"
| "after_break [c] = []"
| "after_break (c # d # s) = (if c = 13 \<and> d = 10 then s else d # s)"

lemma after_break_length: "length (after_break s) \<le> length s" "s \<noteq> [] \<Longrightarrow> length (after_break s) < length s"
  by (induction s rule: after_break.induct) auto

function splitlines :: "ustr \<Rightarrow> ustr list" where
  "splitlines [] = []"
| "splitlines (c # s) =
     takeWhile (\<lambda>c. \<not> line_break c) (c # s) # splitlines (after_break (dropWhile (\<lambda>c. \<not> line_break c) (c # s)))"
  by pat_completeness auto
termination
proof (relation "measure length")
  fix c s
  let ?r = "dropWhile (\<lambda>c. \<not> line_break c) (c # s)"
  have "length (after_break ?r) < length (c # s)"
  proof (cases "?r = []")
    case False
    have "length ?r \<le> length (c # s)" by (rule length_dropWhile_le)
    with after_break_length(2) [OF False] show ?thesis by linarith
  next
    case True
    show ?thesis by (simp only: True after_break.simps) simp
  qed
  then show "(after_break ?r, c # s) \<in> measure length" by simp
qed simp

definition strip_newlines :: "ustr \<Rightarrow> ustr" where
  "strip_newlines s = rev (dropWhile (\<lambda>c. c = NL) (rev (dropWhile (\<lambda>c. c = NL) s)))"

text \<open>\<open>body.split("\n\n")\<close>.\<close>

fun split_blank :: "ustr \<Rightarrow> ustr list" where
  "split_blank (c # d # s) =
     (if c = NL \<and> d = NL then [] # split_blank s
      else case split_blank (d # s) of [] \<Rightarrow> [[c]] | w # ws \<Rightarrow> (c # w) # ws)"
| "split_blank s = [s]"

subsection \<open>Sections of the asset\<close>

definition extract_markdown_section :: "unicode \<Rightarrow> ustr \<Rightarrow> ustr \<Rightarrow> ustr option \<Rightarrow> exn + ustr list" where
  "extract_markdown_section u markdown h next_heading =
     bindE (index_of markdown h) (\<lambda>i.
     let start = i + length h in
     case next_heading of
       None \<Rightarrow> Inr (splitlines (strip u (drop start markdown)))
     | Some next \<Rightarrow> bindE (index_of (drop start markdown) next) (\<lambda>n.
         Inr (splitlines (strip u (take n (drop start markdown))))))"

text \<open>The three sections the contract takes from the asset; the memory prompt has an asset of its own.\<close>

definition load_contract_sections :: "unicode \<Rightarrow> ustr \<Rightarrow> ustr \<Rightarrow> exn + prompt_assets" where
  "load_contract_sections u markdown memory_body =
     bindE (extract_markdown_section u markdown (SECTION_HEADINGS ! 3) (Some (SECTION_HEADINGS ! 4))) (\<lambda>instructions.
     bindE (extract_markdown_section u markdown (SECTION_HEADINGS ! 4) (Some (SECTION_HEADINGS ! 5))) (\<lambda>framework.
     bindE (extract_markdown_section u markdown (SECTION_HEADINGS ! 5) None) (\<lambda>output_format.
     Inr \<lparr>as_instructions = instructions, as_framework = framework, as_output_format = output_format, as_memory_body = memory_body\<rparr>)))"

subsection \<open>Structure\<close>

record StructuralValidationError =
  sv_code :: string
  sv_detail :: message

definition structural_error :: "string \<Rightarrow> message \<Rightarrow> StructuralValidationError" where
  "structural_error code detail = \<lparr>sv_code = code, sv_detail = detail\<rparr>"

definition extract_section_body :: "ustr \<Rightarrow> ustr \<Rightarrow> ustr option \<Rightarrow> exn + ustr" where
  "extract_section_body prompt h next_heading =
     bindE (index_of prompt h) (\<lambda>i.
     let start = i + length h in
     case next_heading of
       None \<Rightarrow> Inr (dropWhile (\<lambda>c. c = NL) (drop start prompt))
     | Some next \<Rightarrow> bindE (index_of (drop start prompt) next) (\<lambda>n. Inr (strip_newlines (take n (drop start prompt)))))"

text \<open>\<open>^([a-z_]+): (.+)$\<close> on one line.\<close>

definition field_char :: "nat \<Rightarrow> bool" where
  "field_char c \<longleftrightarrow> 97 \<le> c \<and> c \<le> 122 \<or> c = 95"

definition field_line :: "ustr \<Rightarrow> (ustr \<times> ustr) option" where
  "field_line line =
     (let name = takeWhile field_char line; rest = dropWhile field_char line in
      if name \<noteq> [] \<and> starts_with rest (ascii '': '') \<and> drop 2 rest \<noteq> [] then Some (name, drop 2 rest) else None)"

definition field_lines :: "ustr \<Rightarrow> (ustr \<times> ustr) list" where
  "field_lines body = List.map_filter field_line (splitlines body)"

definition parse_field_lines :: "ustr \<Rightarrow> ustr \<rightharpoonup> ustr" where
  "parse_field_lines body = map_of (rev (field_lines body))"

definition validate_section_order :: "ustr \<Rightarrow> PromptContract \<Rightarrow> exn + StructuralValidationError option" where
  "validate_section_order prompt contract =
     bindE (mapE (\<lambda>sec. index_of prompt (se_heading sec)) (pc_sections contract)) (\<lambda>positions.
     Inr (if positions \<noteq> sort positions then Some (structural_error ''section_order'' [Lit ''Sections are out of contract order'']) else None))"

definition repr_names :: "ustr list \<Rightarrow> message" where
  "repr_names names = [Lit ''['', Txt (join (ascii '', '') (map (\<lambda>n. [39] @ n @ [39]) names)), Lit '']'']"

text \<open>\<open>_validate_context_section\<close> and \<open>_validate_summary_section\<close> differ in their two codes only.\<close>

definition validate_fields :: "string \<Rightarrow> string \<Rightarrow> ustr \<Rightarrow> string list \<Rightarrow> StructuralValidationError option" where
  "validate_fields missing order body names =
     (case find (\<lambda>n. parse_field_lines body (ascii n) = None) names of
        Some n \<Rightarrow> Some (structural_error missing [Lit ''Missing required field: '', Lit n])
      | None \<Rightarrow>
          if map fst (field_lines body) \<noteq> map ascii names
          then Some (structural_error order ([Lit ''Expected fields ''] @ repr_names (map ascii names)
             @ [Lit '', got ''] @ repr_names (map fst (field_lines body))))
          else None)"

definition validate_context_section :: "ustr \<Rightarrow> string list \<Rightarrow> StructuralValidationError option" where
  "validate_context_section = validate_fields ''missing_context_field'' ''context_field_order''"

definition validate_summary_section :: "ustr \<Rightarrow> string list \<Rightarrow> StructuralValidationError option" where
  "validate_summary_section = validate_fields ''missing_summary_field'' ''summary_field_order''"

text \<open>\<open>^\[DREAM (\d+)\]$\<close>, and the number read by \<open>int\<close>.\<close>

definition dream_marker :: "unicode \<Rightarrow> ustr \<Rightarrow> int option" where
  "dream_marker u line =
     (let ds = butlast (drop 7 line) in
      if starts_with line (ascii ''[DREAM '') \<and> ends_with line (ascii '']'') \<and> ds \<noteq> [] \<and> list_all (\<lambda>c. uc_digit u c \<noteq> None) ds
      then py_int u ds else None)"

definition validate_dream_block :: "unicode \<Rightarrow> nat \<Rightarrow> ustr \<Rightarrow> StructuralValidationError option" where
  "validate_dream_block u index block =
     (case splitlines block of
        [marker, txt, stamp] \<Rightarrow>
          if dream_marker u marker \<noteq> Some (int index)
          then Some (structural_error ''dream_entry_index'' [Lit ''Expected [DREAM '', Num (int index), Lit ''], got '', Txt marker])
          else if \<not> starts_with txt (ascii ''text: '')
          then Some (structural_error ''dream_entry_text'' [Lit ''Dream '', Num (int index), Lit '' missing text: line''])
          else if \<not> starts_with stamp (ascii ''timestamp: '')
          then Some (structural_error ''dream_entry_timestamp'' [Lit ''Dream '', Num (int index), Lit '' missing timestamp: line''])
          else None
      | _ \<Rightarrow> Some (structural_error ''dream_entry_shape'' [Lit ''Dream '', Num (int index), Lit '' must have 3 lines'']))"

fun validate_dream_blocks :: "unicode \<Rightarrow> nat \<Rightarrow> ustr list \<Rightarrow> StructuralValidationError option" where
  "validate_dream_blocks u n [] = None"
| "validate_dream_blocks u n (b # bs) =
     (case validate_dream_block u n b of Some e \<Rightarrow> Some e | None \<Rightarrow> validate_dream_blocks u (Suc n) bs)"

definition validate_dream_section :: "unicode \<Rightarrow> ustr \<Rightarrow> int \<Rightarrow> StructuralValidationError option" where
  "validate_dream_section u body dream_count =
     (if dream_count = 0 then
        (if body \<noteq> ascii ''(no dreams provided)''
         then Some (structural_error ''dream_log_empty'' [Lit ''Expected empty-dream placeholder'']) else None)
      else validate_dream_blocks u 1 (filter (\<lambda>b. b \<noteq> []) (map (strip u) (split_blank body))))"

definition validate_fixed_section :: "ustr \<Rightarrow> ustr list \<Rightarrow> string \<Rightarrow> StructuralValidationError option" where
  "validate_fixed_section body required_lines code =
     (case find (\<lambda>l. \<not> contains body l) required_lines of
        Some l \<Rightarrow> Some (structural_error code [Lit ''Missing required line: '', Txt l]) | None \<Rightarrow> None)"

text \<open>The bodies of all sections, each up to the heading that follows.\<close>

fun section_bodies :: "ustr \<Rightarrow> ustr list \<Rightarrow> exn + ustr list" where
  "section_bodies prompt [] = Inr []"
| "section_bodies prompt (h # hs) =
     bindE (extract_section_body prompt h (first_row hs)) (\<lambda>b. bindE (section_bodies prompt hs) (\<lambda>bs. Inr (b # bs)))"

definition dream_count_of :: "unicode \<Rightarrow> ustr \<Rightarrow> exn + int" where
  "dream_count_of u body =
     (case py_int u (case parse_field_lines body (ascii ''dream_count'') of None \<Rightarrow> ascii ''0'' | Some t \<Rightarrow> t) of
        None \<Rightarrow> Inl (ValueError [Lit ''invalid literal for int() with base 10'']) | Some n \<Rightarrow> Inr n)"

definition validate_prompt_structure :: "unicode \<Rightarrow> ustr \<Rightarrow> PromptContract \<Rightarrow> exn + StructuralValidationError list" where
  "validate_prompt_structure u prompt contract =
     (if \<not> starts_with prompt (pc_prefix contract)
      then Inr [structural_error ''prefix'' [Lit ''Missing or invalid prompt prefix'']]
      else case find (\<lambda>sec. \<not> contains prompt (se_heading sec)) (pc_sections contract) of
        Some sec \<Rightarrow> Inr [structural_error ''missing_section'' [Lit ''Missing section: '', Txt (se_heading sec)]]
      | None \<Rightarrow>
        bindE (validate_section_order prompt contract) (\<lambda>order_error.
        case order_error of Some e \<Rightarrow> Inr [e] | None \<Rightarrow>
        bindE (section_bodies prompt (map se_heading (pc_sections contract))) (\<lambda>bodies.
        bindE (dream_count_of u (bodies ! 0)) (\<lambda>dream_count.
        Inr (List.map_filter id
          [validate_context_section (bodies ! 0) (se_fields (pc_sections contract ! 0)),
           validate_dream_section u (bodies ! 1) dream_count,
           validate_summary_section (bodies ! 2) (se_fields (pc_sections contract ! 2)),
           validate_fixed_section (bodies ! 3) (pc_required_instruction_lines contract) ''instructions'',
           validate_fixed_section (bodies ! 4) (pc_required_framework_items contract) ''framework'',
           validate_fixed_section (bodies ! 5) (pc_required_output_format_lines contract) ''output_format''])))))"

subsection \<open>Words\<close>

text \<open>\<open>\[(FILL|MISSING)\<close>, without regard to case.\<close>

fun placeholder :: "unicode \<Rightarrow> ustr \<Rightarrow> bool" where
  "placeholder u [] = False"
| "placeholder u (c # s) =
     (c = 91 \<and> list_ex (\<lambda>w. length w \<le> length s \<and> list_all2 (uc_ieq u) w (take (length w) s)) [ascii ''FILL'', ascii ''MISSING'']
      \<or> placeholder u s)"

definition lexical_safety_on_controlled_text :: "unicode \<Rightarrow> ustr \<Rightarrow> PromptContract \<Rightarrow> bool" where
  "lexical_safety_on_controlled_text u text contract =
     (let normalized = uc_lower u text in
      list_ex (contains normalized) (pc_required_instruction_anchors contract)
      \<and> \<not> list_ex (contains normalized) (pc_forbidden_phrases contract)
      \<and> \<not> placeholder u text)"

text \<open>Everything but the dreams is checked for words.\<close>

definition validate_prompt_safety :: "unicode \<Rightarrow> ustr \<Rightarrow> PromptContract \<Rightarrow> exn + bool" where
  "validate_prompt_safety u prompt contract =
     bindE (validate_prompt_structure u prompt contract) (\<lambda>errors.
     if errors \<noteq> [] then Inr False
     else bindE (index_of prompt (heading contract 1)) (\<lambda>dream_start.
       bindE (index_of prompt (heading contract 2)) (\<lambda>dream_end.
       Inr (lexical_safety_on_controlled_text u (take dream_start prompt @ drop dream_end prompt) contract))))"

subsection \<open>The facade\<close>

definition generate_analysis_prompt :: "unicode \<Rightarrow> formats \<Rightarrow> prompt_assets \<Rightarrow> uuid \<Rightarrow> ustr db" where
  "generate_analysis_prompt u f a sid =
     bindM (get_session_summary sid) (\<lambda>summary.
     case summary of
       None \<Rightarrow> throwM (HTTPException 404 [Lit ''Session summary not found''])
     | Some sm \<Rightarrow>
         bindM (getsM (\<lambda>s. (sort_key (\<lambda>d. (dr_created_at d, dr_id d)) (filter (\<lambda>d. dr_session_id d = sid) (dreams s)),
           find (\<lambda>r. ds_id r = sid) (sessions s)))) (\<lambda>(ds, session).
         let prompt = build_jungian_prompt f a sm ds (map_option ds_last_activity_at session) (map_option ds_created_at session) in
         bindM (liftM (validate_prompt_safety u prompt JUNGIAN_PROMPT_CONTRACT_V2)) (\<lambda>safe.
         if safe then returnM prompt else throwM (ValueError [Lit ''Prompt failed safety validation'']))))"

subsection \<open>Lines and fields\<close>

definition one_line :: "ustr \<Rightarrow> bool" where
  "one_line s \<longleftrightarrow> (\<forall>c \<in> set s. \<not> line_break c)"

lemma one_line_simps [simp]: "one_line []" "one_line (c # s) \<longleftrightarrow> \<not> line_break c \<and> one_line s"
  "one_line (s @ t) \<longleftrightarrow> one_line s \<and> one_line t"
  by (auto simp: one_line_def)

lemma NL_break [simp]: "line_break 10"
  by (simp add: line_break_def)

lemma splitlines_line: "one_line l \<Longrightarrow> splitlines (l @ 10 # r) = l # splitlines r"
proof -
  assume l: "one_line l"
  have "splitlines (l @ 10 # r) = takeWhile (\<lambda>c. \<not> line_break c) (l @ 10 # r) # splitlines (after_break (dropWhile (\<lambda>c. \<not> line_break c) (l @ 10 # r)))"
    by (cases l) simp_all
  moreover have "takeWhile (\<lambda>c. \<not> line_break c) (l @ 10 # r) = l" "dropWhile (\<lambda>c. \<not> line_break c) (l @ 10 # r) = 10 # r"
    using l by (simp_all add: one_line_def)
  moreover have "after_break (10 # r) = r" by (cases r) simp_all
  ultimately show ?thesis by simp
qed

lemma splitlines_last:
  assumes "one_line l" and "l \<noteq> []"
  shows "splitlines l = [l]"
proof -
  have "takeWhile (\<lambda>c. \<not> line_break c) l = l" "dropWhile (\<lambda>c. \<not> line_break c) l = []"
    using assms(1) by (simp_all add: one_line_def)
  moreover have "splitlines l = takeWhile (\<lambda>c. \<not> line_break c) l # splitlines (after_break (dropWhile (\<lambda>c. \<not> line_break c) l))"
    using assms(2) by (cases l) simp_all
  ultimately show ?thesis by (simp only: after_break.simps splitlines.simps)
qed

lemma splitlines_join:
  "(\<And>l. l \<in> set ls \<Longrightarrow> one_line l) \<Longrightarrow> ls \<noteq> [] \<Longrightarrow> last ls \<noteq> [] \<Longrightarrow> splitlines (join [NL] ls) = ls"
proof (induction "[NL]" ls rule: join.induct)
  case (3 x y xs)
  then show ?case by (simp add: splitlines_line)
qed (simp_all add: splitlines_last)

lemma join_append: "xs \<noteq> [] \<Longrightarrow> ys \<noteq> [] \<Longrightarrow> join sep (xs @ ys) = join sep xs @ sep @ join sep ys"
proof (induction sep xs rule: join.induct)
  case (2 sep x)
  then show ?case by (cases ys) simp_all
qed simp_all

lemma join_ends:
  "xs \<noteq> [] \<Longrightarrow> \<forall>x \<in> set xs. x \<noteq> [] \<Longrightarrow> join sep xs \<noteq> [] \<and> hd (join sep xs) = hd (hd xs) \<and> last (join sep xs) = last (last xs)"
  by (induction sep xs rule: join.induct) (auto simp: hd_append)

lemma field_line_shape:
  assumes "list_all field_char name" "name \<noteq> []" "v \<noteq> []"
  shows "field_line (name @ ascii '': '' @ v) = Some (name, v)"
proof -
  have t: "\<forall>c \<in> set name. field_char c" using assms(1) by (simp add: list_all_iff)
  have "\<not> field_char 58" by (simp add: field_char_def)
  then show ?thesis using t assms(2, 3) by (simp add: field_line_def ascii_def starts_with_def)
qed

lemma map_filter_map_all: "(\<And>x. x \<in> set xs \<Longrightarrow> f (g x) = Some (h x)) \<Longrightarrow> List.map_filter f (map g xs) = map h xs"
  by (induction xs) (simp_all add: List.map_filter_simps)

text \<open>A section made of the expected fields, each with a value on its line, passes.\<close>

lemma validate_fields_ok:
  assumes fields: "\<And>n v. (n, v) \<in> set kvs \<Longrightarrow> list_all field_char (ascii n) \<and> n \<noteq> [] \<and> v \<noteq> [] \<and> one_line v" and "kvs \<noteq> []"
  defines "body \<equiv> join [NL] (map (\<lambda>(n, v). ascii n @ ascii '': '' @ v) kvs)"
  shows "field_lines body = map (\<lambda>(n, v). (ascii n, v)) kvs" and "validate_fields missing order body (map fst kvs) = None"
proof -
  let ?l = "\<lambda>(n, v). ascii n @ ascii '': '' @ v"
  have colon: "one_line (ascii '': '')" by (simp add: one_line_def ascii_def line_break_def)
  have name: "one_line (ascii n)" if "(n, v) \<in> set kvs" for n v
    using fields [OF that] by (auto simp: list_all_iff one_line_def field_char_def line_break_def)
  have line: "one_line (?l p) \<and> ?l p \<noteq> [] \<and> field_line (?l p) = Some (case p of (n, v) \<Rightarrow> (ascii n, v))" if "p \<in> set kvs" for p
  proof -
    obtain n v where p: "p = (n, v)" by (cases p)
    have "field_line (ascii n @ ascii '': '' @ v) = Some (ascii n, v)"
      using fields that p by (intro field_line_shape) (auto simp: ascii_def)
    then show ?thesis using fields [of n v] name [of n v] colon that by (simp add: p)
  qed
  have "splitlines body = map ?l kvs"
    unfolding body_def using line assms(2) by (intro splitlines_join) (auto simp: last_map)
  moreover have "List.map_filter field_line (map ?l kvs) = map (\<lambda>(n, v). (ascii n, v)) kvs"
    using line by (intro map_filter_map_all) blast
  ultimately show lines: "field_lines body = map (\<lambda>(n, v). (ascii n, v)) kvs" by (simp add: field_lines_def)
  have "parse_field_lines body (ascii n) \<noteq> None" if nv: "(n, v) \<in> set kvs" for n v
  proof -
    have "(ascii n, v) \<in> set (rev (field_lines body))" using imageI [OF nv, of "\<lambda>(n, v). (ascii n, v)"] by (simp add: lines)
    then show ?thesis unfolding parse_field_lines_def by (blast dest: weak_map_of_SomeI)
  qed
  then show "validate_fields missing order body (map fst kvs) = None"
    by (auto simp: validate_fields_def find_None_iff lines o_def case_prod_unfold split: option.split)
qed

subsection \<open>Sections\<close>

text \<open>\<open>skips h A\<close>: a search for \<open>h\<close> passes over \<open>A\<close>, whatever follows it.\<close>

definition skips :: "ustr \<Rightarrow> ustr \<Rightarrow> bool" where
  "skips h A \<longleftrightarrow> (\<forall>t. find_sub h (A @ t) = map_option (\<lambda>n. length A + n) (find_sub h t))"

lemma skips_append: "skips h A \<Longrightarrow> skips h B \<Longrightarrow> skips h (A @ B)"
  by (simp add: skips_def option.map_comp o_def add.assoc)

lemma skips_Cons: "(\<And>t. \<not> starts_with (c # A @ t) h) \<Longrightarrow> skips h A \<Longrightarrow> skips h (c # A)"
  by (simp add: skips_def option.map_comp o_def)

lemma skips_Nil [simp]: "skips h []"
  by (simp add: skips_def option.map_ident)

lemma find_here: "h \<noteq> [] \<Longrightarrow> find_sub h (h @ t) = Some 0"
  by (cases h) (simp_all add: starts_with_def)

lemma find_after: "skips h A \<Longrightarrow> h \<noteq> [] \<Longrightarrow> find_sub h (A @ h @ t) = Some (length A)"
  by (simp add: skips_def find_here)

lemma contains_find: "contains s p \<longleftrightarrow> find_sub p s \<noteq> None"
  by (induction s) auto

text \<open>A heading starts with two hash signs, a blank and its number; nothing else contains a hash sign.\<close>

definition heading_like :: "nat \<Rightarrow> ustr \<Rightarrow> bool" where
  "heading_like d h \<longleftrightarrow> (\<exists>r. h = [35, 35, 32, d] @ r \<and> 35 \<notin> set r) \<and> d \<noteq> 35"

lemma skips_plain: "35 \<notin> set A \<Longrightarrow> heading_like d h \<Longrightarrow> skips h A"
  by (induction A) (auto simp: heading_like_def starts_with_def intro!: skips_Cons)

lemma skips_heading:
  assumes "heading_like d h" and "heading_like e k" and "d \<noteq> e"
  shows "skips h k"
proof -
  obtain r where k: "k = [35, 35, 32, e] @ r" "35 \<notin> set r" "e \<noteq> 35" using assms(2) by (auto simp: heading_like_def)
  have "skips h r" using skips_plain [OF k(2) assms(1)] .
  then show ?thesis using assms k by (auto simp: heading_like_def starts_with_def intro!: skips_Cons)
qed

fun segments :: "(ustr \<times> ustr) list \<Rightarrow> ustr" where
  "segments [] = []"
| "segments ((h, S) # ps) = h @ S @ segments ps"

fun segment_bodies :: "(ustr \<times> ustr) list \<Rightarrow> ustr list" where
  "segment_bodies [] = []"
| "segment_bodies [(h, S)] = [dropWhile (\<lambda>c. c = NL) S]"
| "segment_bodies ((h, S) # p # ps) = strip_newlines S # segment_bodies (p # ps)"

definition well_marked :: "(ustr \<times> ustr) list \<Rightarrow> bool" where
  "well_marked ps \<longleftrightarrow> distinct (map fst ps)
     \<and> (\<forall>(h, S) \<in> set ps. h \<noteq> [] \<and> (\<forall>(k, T) \<in> set ps. skips h T \<and> (k \<noteq> h \<longrightarrow> skips h k)))"

lemma well_markedD:
  "well_marked ps \<Longrightarrow> (h, S) \<in> set ps \<Longrightarrow> h \<noteq> []"
  "well_marked ps \<Longrightarrow> (h, S) \<in> set ps \<Longrightarrow> (k, T) \<in> set ps \<Longrightarrow> skips h T"
  "well_marked ps \<Longrightarrow> (h, S) \<in> set ps \<Longrightarrow> (k, T) \<in> set ps \<Longrightarrow> k \<noteq> h \<Longrightarrow> skips h k"
  by (fastforce simp: well_marked_def)+

lemma section_bodies_segments:
  assumes "well_marked ps" and "\<And>h S. (h, S) \<in> set ps \<Longrightarrow> skips h P"
  shows "section_bodies (P @ segments ps) (map fst ps) = Inr (segment_bodies ps)"
  using assms
proof (induction ps arbitrary: P rule: segment_bodies.induct)
  case (2 h S)
  then have "find_sub h (P @ h @ S) = Some (length P)" by (intro find_after) (auto simp: well_marked_def)
  then show ?case by (simp add: bindE_def extract_section_body_def index_of_def)
next
  case (3 h S p ps)
  obtain k T where p: "p = (k, T)" by (cases p)
  let ?rest = "segments (p # ps)"
  have w: "h \<noteq> []" "k \<noteq> []" "skips k S" "well_marked (p # ps)"
    using "3.prems"(1) p by (auto simp: well_marked_def)
  have here: "find_sub h (P @ h @ S @ ?rest) = Some (length P)"
    using "3.prems" w(1) by (intro find_after) auto
  have there: "find_sub k (S @ ?rest) = Some (length S)"
    using find_after [OF w(3, 2)] by (simp add: p)
  have "skips j (P @ h @ S)" if "(j, U) \<in> set (p # ps)" for j U
  proof -
    have j: "(j, U) \<in> set ((h, S) # p # ps)" and h: "(h, S) \<in> set ((h, S) # p # ps)" using that by simp_all
    have "j \<noteq> h" using "3.prems"(1) imageI [OF that, of fst] by (auto simp: well_marked_def)
    then have "skips j h" using well_markedD(3) [OF "3.prems"(1) j h] by simp
    moreover have "skips j P" "skips j S" using "3.prems"(2) [OF j] well_markedD(2) [OF "3.prems"(1) j h] .
    ultimately have "skips j P" "skips j h" "skips j S" by simp_all
    then show ?thesis by (intro skips_append)
  qed
  from "3.IH" [OF w(4) this] show ?case
    using here there by (simp add: p bindE_def extract_section_body_def index_of_def)
qed simp

lemma positions_segments:
  assumes "well_marked ps" and "\<And>h S. (h, S) \<in> set ps \<Longrightarrow> skips h P"
  shows "\<exists>ns. mapE (index_of (P @ segments ps)) (map fst ps) = Inr ns \<and> sorted ns \<and> (\<forall>n \<in> set ns. length P \<le> n)"
  using assms
proof (induction ps arbitrary: P)
  case (Cons p ps)
  obtain h S where p: "p = (h, S)" by (cases p)
  have h: "(h, S) \<in> set (p # ps)" by (simp add: p)
  have w: "well_marked ps" using Cons.prems(1) by (auto simp: well_marked_def)
  have skip: "skips j (P @ h @ S)" if "(j, U) \<in> set ps" for j U
  proof -
    have j: "(j, U) \<in> set (p # ps)" using that by simp
    have "j \<noteq> h" using Cons.prems(1) imageI [OF that, of fst] by (auto simp: well_marked_def p)
    then have "skips j h" using well_markedD(3) [OF Cons.prems(1) j h] by simp
    moreover have "skips j P" "skips j S" using Cons.prems(2) [OF j] well_markedD(2) [OF Cons.prems(1) j h] .
    ultimately show ?thesis by (intro skips_append)
  qed
  have "\<exists>ns. mapE (index_of ((P @ h @ S) @ segments ps)) (map fst ps) = Inr ns \<and> sorted ns \<and> (\<forall>n \<in> set ns. length (P @ h @ S) \<le> n)"
    by (rule Cons.IH [OF w]) (rule skip)
  then obtain ns where ns: "mapE (index_of (P @ segments (p # ps))) (map fst ps) = Inr ns"
    "sorted ns" "\<forall>n \<in> set ns. length (P @ h @ S) \<le> n" by (auto simp: p)
  moreover have "find_sub h (P @ h @ S @ segments ps) = Some (length P)"
    using find_after [OF Cons.prems(2) [OF h] well_markedD(1) [OF Cons.prems(1) h]] by simp
  then have "index_of (P @ segments (p # ps)) h = Inr (length P)" by (simp add: p index_of_def)
  ultimately have "mapE (index_of (P @ segments (p # ps))) (map fst (p # ps)) = Inr (length P # ns)"
    by (simp add: p bindE_def)
  moreover have "sorted (length P # ns)" "\<forall>n \<in> set (length P # ns). length P \<le> n" using ns by auto
  ultimately show ?case by blast
qed simp

lemma heading_likeI: "take 4 h = [35, 35, 32, d] \<Longrightarrow> 35 \<notin> set (drop 4 h) \<Longrightarrow> d \<noteq> 35 \<Longrightarrow> heading_like d h"
  unfolding heading_like_def by (metis append_take_drop_id)

lemma headings_like: "i < 6 \<Longrightarrow> heading_like (49 + i) (SECTION_HEADINGS ! i)"
proof -
  assume "i < 6"
  then have "i \<in> {0, 1, 2, 3, 4, 5}" by auto
  then show ?thesis by (elim insertE emptyE; intro heading_likeI; simp add: SECTION_HEADINGS_def)
qed

lemma headings_distinct: "distinct SECTION_HEADINGS" "length SECTION_HEADINGS = 6"
  by (simp_all add: SECTION_HEADINGS_def)

lemma heading_member: "h \<in> set SECTION_HEADINGS \<Longrightarrow> \<exists>i < 6. h = SECTION_HEADINGS ! i \<and> heading_like (49 + i) h"
  using headings_like headings_distinct(2) by (auto simp: in_set_conv_nth)

lemma headings_marked:
  assumes "length Ss = 6" and "\<forall>S \<in> set Ss. 35 \<notin> set S"
  shows "well_marked (zip SECTION_HEADINGS Ss)"
  unfolding well_marked_def
proof (intro conjI ballI)
  show "distinct (map fst (zip SECTION_HEADINGS Ss))" using assms(1) headings_distinct by simp
  fix p assume "p \<in> set (zip SECTION_HEADINGS Ss)"
  then obtain h S where p: "p = (h, S)" "h \<in> set SECTION_HEADINGS" by (metis prod.exhaust set_zip_leftD)
  then obtain d where d: "heading_like d h" "\<exists>i < 6. h = SECTION_HEADINGS ! i \<and> d = 49 + i" using heading_member by blast
  have "skips h T \<and> (k \<noteq> h \<longrightarrow> skips h k)" if kT: "(k, T) \<in> set (zip SECTION_HEADINGS Ss)" for k T
  proof -
    have "35 \<notin> set T" using kT assms(2) by (auto dest: set_zip_rightD)
    then have "skips h T" by (rule skips_plain [OF _ d(1)])
    moreover obtain e where e: "heading_like e k" "\<exists>i < 6. k = SECTION_HEADINGS ! i \<and> e = 49 + i"
      using heading_member set_zip_leftD [OF kT] by blast
    then have "d \<noteq> e" if "k \<noteq> h" using d(2) that by auto
    then have "skips h k" if "k \<noteq> h" using skips_heading [OF d(1) e(1)] that by blast
    ultimately show ?thesis by blast
  qed
  then show "case p of (h, S) \<Rightarrow> h \<noteq> [] \<and> (\<forall>(k, T) \<in> set (zip SECTION_HEADINGS Ss). skips h T \<and> (k \<noteq> h \<longrightarrow> skips h k))"
    using d(1) by (auto simp: p heading_like_def)
qed

subsection \<open>The blocks of the dreams\<close>

fun no_blank_line :: "ustr \<Rightarrow> bool" where
  "no_blank_line [] = False"
| "no_blank_line [c] = (c \<noteq> NL)"
| "no_blank_line (c # d # s) = (\<not> (c = NL \<and> d = NL) \<and> no_blank_line (d # s))"

lemma split_blank_here: "no_blank_line b \<Longrightarrow> split_blank (b @ NL # NL # r) = b # split_blank r"
  by (induction b rule: no_blank_line.induct) auto

lemma split_blank_end: "no_blank_line b \<Longrightarrow> split_blank b = [b]"
  by (induction b rule: no_blank_line.induct) auto

lemma split_blank_join: "(\<And>b. b \<in> set bs \<Longrightarrow> no_blank_line b) \<Longrightarrow> bs \<noteq> [] \<Longrightarrow> split_blank (join [NL, NL] bs) = bs"
proof (induction "[NL, NL]" bs rule: join.induct)
  case (3 x y xs)
  then show ?case by (simp add: split_blank_here)
qed (simp_all add: split_blank_end)

lemma no_blank_last: "one_line l \<Longrightarrow> l \<noteq> [] \<Longrightarrow> no_blank_line l"
  by (induction l rule: no_blank_line.induct) auto

lemma no_blank_line_line:
  assumes "one_line l" and "l \<noteq> []" and "no_blank_line s" and "hd s \<noteq> NL"
  shows "no_blank_line (l @ NL # s)"
  using assms(1, 2)
proof (induction l rule: no_blank_line.induct)
  case (2 c)
  then show ?case using assms(3, 4) by (cases s) auto
qed auto

lemma drop_ends:
  assumes "xs \<noteq> []" and "\<not> P (hd xs)" and "\<not> P (last xs)"
  shows "dropWhile P xs = xs" and "rev (dropWhile P (rev xs)) = xs"
proof -
  show "dropWhile P xs = xs" using assms by (cases xs) auto
  have "rev xs \<noteq> []" "\<not> P (hd (rev xs))" using assms by (simp_all add: hd_rev)
  then have "dropWhile P (rev xs) = rev xs" by (cases "rev xs") auto
  then show "rev (dropWhile P (rev xs)) = xs" by simp
qed

lemma strip_ends: "xs \<noteq> [] \<Longrightarrow> \<not> uc_space u (hd xs) \<Longrightarrow> \<not> uc_space u (last xs) \<Longrightarrow> strip u xs = xs"
  by (simp add: strip_def lstrip_def rstrip_def drop_ends)

lemma strip_newlines_around:
  assumes "xs \<noteq> []" and "hd xs \<noteq> NL" and "last xs \<noteq> NL"
  shows "strip_newlines (NL # xs @ [NL, NL]) = xs" and "strip_newlines (NL # xs @ [NL]) = xs"
  using drop_ends [of xs "\<lambda>c. c = NL"] assms by (cases xs; simp add: strip_newlines_def)+

text \<open>The laws of digits and blanks on which reading a marker back depends.\<close>

locale digit_laws =
  fixes u :: unicode
  assumes digit: "d < 10 \<Longrightarrow> uc_digit u (48 + d) = Some d"
    and digit_no_space: "d < 10 \<Longrightarrow> \<not> uc_space u (48 + d)"
    and bracket_no_space: "\<not> uc_space u 91"
begin

lemma int_digits_append: "int_digits u xs acc b = Some v \<Longrightarrow> int_digits u (xs @ ys) acc b = int_digits u ys v True"
  by (induction u xs acc b rule: int_digits.induct) (auto split: option.splits if_splits)

lemma digits_of_all: "c \<in> set (digits_of n) \<Longrightarrow> \<exists>d < 10. c = 48 + d"
proof (induction n rule: digits_of.induct)
  case (1 n)
  show ?case
  proof (cases "n < 10")
    case False
    then have "c \<in> set (digits_of (n div 10)) \<or> c = 48 + n mod 10"
      using "1.prems" by (auto simp: digits_of.simps [of n])
    then show ?thesis using "1.IH" [OF False] by (metis mod_less_divisor zero_less_numeral)
  qed (use "1.prems" in \<open>simp add: digits_of.simps [of n]\<close>)
qed

lemma digits_of_ne: "digits_of n \<noteq> []"
  by (cases "n < 10") (simp_all add: digits_of.simps [of n])

lemma int_digits_of: "int_digits u (digits_of n) 0 False = Some (int n)"
proof (induction n rule: digits_of.induct)
  case (1 n)
  show ?case
  proof (cases "n < 10")
    case False
    have d: "n mod 10 < 10" by simp
    have "int (n div 10) * 10 + int (n mod 10) = int n" by presburger
    then show ?thesis
      using False digit [OF d] int_digits_append [OF "1.IH" [OF False]] by (subst digits_of.simps) simp
  qed (simp add: digits_of.simps [of n] digit)
qed

lemma py_int_digits_of: "py_int u (digits_of n) = Some (int n)"
proof -
  have ends: "\<exists>d < 10. hd (digits_of n) = 48 + d" "\<exists>d < 10. last (digits_of n) = 48 + d"
    using digits_of_all digits_of_ne by (metis hd_in_set, metis last_in_set)
  then have "strip u (digits_of n) = digits_of n"
    using digit_no_space digits_of_ne by (intro strip_ends) auto
  moreover obtain c cs where "digits_of n = c # cs" "c \<noteq> 45" "c \<noteq> 43"
    using ends(1) digits_of_ne by (cases "digits_of n") auto
  ultimately show ?thesis using int_digits_of [of n] by (simp add: py_int_def)
qed

lemma marker_read: "dream_marker u (ascii ''[DREAM '' @ digits_of n @ ascii '']'') = Some (int n)"
proof -
  have "list_all (\<lambda>c. uc_digit u c \<noteq> None) (digits_of n)"
    using digits_of_all digit by (fastforce simp: list_all_iff)
  moreover have "length (ascii ''[DREAM '') = 7" "ascii '']'' = [93]" by (simp_all add: ascii_def)
  ultimately show ?thesis
    using digits_of_ne py_int_digits_of [of n]
    by (simp add: dream_marker_def Let_def starts_with_def ends_with_def butlast_append)
qed

end

interpretation basic_digits: digit_laws basic_unicode
  by unfold_locales (simp_all add: basic_unicode_def)

subsection \<open>A compiled prompt\<close>

text \<open>
  What goes into a prompt without disturbing its structure: text on one line and without hash signs. The
  identifiers and times are printed so, the assets consist of such lines and contain the required ones, and
  the summary says that there are no dreams exactly when there are none.
\<close>

definition plain :: "ustr \<Rightarrow> bool" where
  "plain s \<longleftrightarrow> one_line s \<and> 35 \<notin> set s"

definition plain_printing :: "unicode \<Rightarrow> formats \<Rightarrow> bool" where
  "plain_printing u f \<longleftrightarrow> (\<forall>i. plain (str_uuid f i) \<and> str_uuid f i \<noteq> [])
     \<and> (\<forall>t. plain (strftime f t) \<and> strftime f t \<noteq> [] \<and> \<not> uc_space u (last (strftime f t)))"

definition section_asset :: "ustr list \<Rightarrow> ustr list \<Rightarrow> bool" where
  "section_asset lines req \<longleftrightarrow> list_all plain lines \<and> lines \<noteq> [] \<and> hd lines \<noteq> [] \<and> last lines \<noteq> [] \<and> set req \<subseteq> set lines"

definition complete_assets :: "prompt_assets \<Rightarrow> bool" where
  "complete_assets a \<longleftrightarrow>
     section_asset (as_instructions a) (pc_required_instruction_lines JUNGIAN_PROMPT_CONTRACT_V2)
     \<and> section_asset (as_framework a) (pc_required_framework_items JUNGIAN_PROMPT_CONTRACT_V2)
     \<and> section_asset (as_output_format a) (pc_required_output_format_lines JUNGIAN_PROMPT_CONTRACT_V2)"

definition plain_session :: "session_summary \<Rightarrow> dream list \<Rightarrow> bool" where
  "plain_session sm ds \<longleftrightarrow> list_all plain (ss_key_symbols sm) \<and> list_all plain (ss_recurring_words sm)
     \<and> pred_option (\<lambda>t. plain t \<and> t \<noteq> []) (ss_raw_text_sample sm) \<and> list_all (\<lambda>d. plain (dr_text d)) ds
     \<and> (ss_dream_count sm = 0 \<longleftrightarrow> ds = [])"

definition entry_lines :: "DreamEntry \<Rightarrow> ustr list" where
  "entry_lines e = [ascii ''[DREAM '' @ digits_of (de_index e) @ ascii '']'', ascii ''text: '' @ de_text e, ascii ''timestamp: '' @ de_timestamp e]"

definition block :: "DreamEntry \<Rightarrow> ustr" where
  "block e = join [NL] (entry_lines e)"

definition plain_entry :: "unicode \<Rightarrow> DreamEntry \<Rightarrow> bool" where
  "plain_entry u e \<longleftrightarrow> plain (de_text e) \<and> plain (de_timestamp e) \<and> de_timestamp e \<noteq> [] \<and> \<not> uc_space u (last (de_timestamp e))"

lemma ascii_plain [simp]: "plain (ascii ''[DREAM '')" "plain (ascii '']'')" "plain (ascii ''text: '')" "plain (ascii ''timestamp: '')"
  "plain (ascii '': '')" "plain (ascii ''(no dreams provided)'')" "plain (ascii ''[]'')" "plain (ascii ''['')" "plain (ascii '', '')"
  "plain (ascii ''N/A'')" "plain (ascii ''h '')" "plain (ascii ''m '')" "plain (ascii ''s'')"
  by (simp_all add: plain_def one_line_def line_break_def ascii_def)

lemma plain_append [simp]: "plain (s @ t) \<longleftrightarrow> plain s \<and> plain t" "plain []"
  by (auto simp: plain_def)

lemma plain_digits [simp]: "plain (digits_of n)"
proof (induction n rule: digits_of.induct)
  case (1 n)
  have d: "plain [48 + d]" if "d < 10" for d using that by (auto simp: plain_def one_line_def line_break_def)
  show ?case
  proof (cases "n < 10")
    case False
    then show ?thesis using "1.IH" d [of "n mod 10"] by (simp add: digits_of.simps [of n])
  qed (simp add: digits_of.simps [of n] d)
qed

lemma join_dream_lines:
  assumes "es \<noteq> []"
  shows "join [NL] (dream_lines es) = join [NL, NL] (map block es) @ [NL]"
proof -
  have "join [NL] (concat (map (\<lambda>e. entry_lines e @ [[]]) es)) = join [NL, NL] (map block es) @ [NL]"
    using assms
  proof (induction es rule: induct_list012)
    case (2 e)
    show ?case by (simp add: block_def entry_lines_def)
  next
    case (3 e e' es)
    have "join [NL] (concat (map (\<lambda>e. entry_lines e @ [[]]) (e # e' # es)))
        = join [NL] (entry_lines e @ [[]]) @ [NL] @ join [NL] (concat (map (\<lambda>e. entry_lines e @ [[]]) (e' # es)))"
      by (simp add: entry_lines_def)
    then show ?case using 3 by (simp add: block_def entry_lines_def)
  qed simp
  then show ?thesis using assms by (simp add: dream_lines_def entry_lines_def)
qed

context digit_laws
begin

lemma block_lines:
  assumes "plain_entry u e"
  shows "splitlines (block e) = entry_lines e" and "no_blank_line (block e)" and "strip u (block e) = block e"
    and "block e \<noteq> []" "hd (block e) \<noteq> NL" "last (block e) \<noteq> NL"
proof -
  have lines: "\<forall>l \<in> set (entry_lines e). one_line l \<and> l \<noteq> []"
    using assms plain_digits [of "de_index e"] by (auto simp: entry_lines_def plain_entry_def plain_def ascii_def line_break_def)
  then show "splitlines (block e) = entry_lines e"
    unfolding block_def by (intro splitlines_join) (auto simp: entry_lines_def)
  have shape: "block e = ascii ''[DREAM '' @ digits_of (de_index e) @ ascii '']'' @ [NL] @ ascii ''text: '' @ de_text e @ [NL]
      @ ascii ''timestamp: '' @ de_timestamp e"
    by (simp add: block_def entry_lines_def)
  then have hd: "hd (block e) = 91" and last: "last (block e) = last (de_timestamp e)" and ne: "block e \<noteq> []"
    using assms by (simp_all add: ascii_def plain_entry_def)
  show "block e \<noteq> []" "hd (block e) \<noteq> NL" using ne hd by simp_all
  have "last (de_timestamp e) \<in> set (de_timestamp e)" using assms by (simp add: plain_entry_def)
  then show "last (block e) \<noteq> NL" using assms last by (auto simp: plain_entry_def plain_def one_line_def line_break_def)
  show "strip u (block e) = block e"
    using assms bracket_no_space by (intro strip_ends) (simp_all add: ne hd last plain_entry_def)
  obtain a b c where abc: "entry_lines e = [a, b, c]" by (simp add: entry_lines_def)
  then have l: "one_line a" "a \<noteq> []" "one_line b" "b \<noteq> []" "one_line c" "c \<noteq> []" using lines by auto
  have no_NL: "hd x \<noteq> NL" if "one_line x" "x \<noteq> []" for x using that by (cases x) (auto simp: line_break_def)
  have "no_blank_line (b @ NL # c)" using l no_blank_last no_NL by (intro no_blank_line_line) auto
  then have "no_blank_line (a @ NL # b @ NL # c)" using l no_NL [of b] by (intro no_blank_line_line [of a]) (auto simp: hd_append)
  then show "no_blank_line (block e)" by (simp add: block_def abc)
qed

lemma block_valid: "plain_entry u e \<Longrightarrow> validate_dream_block u (de_index e) (block e) = None"
  unfolding validate_dream_block_def block_lines(1) by (simp add: entry_lines_def marker_read) (simp add: starts_with_def)

lemma blocks_valid:
  "\<forall>e \<in> set es. plain_entry u e \<Longrightarrow> map de_index es = [n..<n + length es] \<Longrightarrow> validate_dream_blocks u n (map block es) = None"
proof (induction es arbitrary: n)
  case (Cons e es)
  have "[n..<n + length (e # es)] = n # [Suc n..<Suc n + length es]" by (simp add: upt_conv_Cons del: upt_Suc)
  with Cons.prems(2) have "de_index e = n" "map de_index es = [Suc n..<Suc n + length es]" by (metis list.inject list.simps(9))+
  then show ?case using Cons block_valid [of e] by simp
qed simp

lemma dream_section_valid:
  assumes "\<forall>e \<in> set es. plain_entry u e" and "map de_index es = [1..<Suc (length es)]" and "n = 0 \<longleftrightarrow> es = []"
  shows "validate_dream_section u (strip_newlines (NL # join [NL] (dream_lines es) @ [NL])) n = None"
proof (cases "es = []")
  case True
  have "ascii ''(no dreams provided)'' \<noteq> []" "hd (ascii ''(no dreams provided)'') \<noteq> NL" "last (ascii ''(no dreams provided)'') \<noteq> NL"
    by (simp_all add: ascii_def)
  from strip_newlines_around(2) [OF this] True assms(3) show ?thesis by (simp add: dream_lines_def validate_dream_section_def)
next
  case False
  let ?X = "join [NL, NL] (map block es)"
  have b: "\<forall>b \<in> set (map block es). b \<noteq> [] \<and> hd b \<noteq> NL \<and> last b \<noteq> NL \<and> no_blank_line b \<and> strip u b = b"
    using assms(1) block_lines by auto
  have X: "?X \<noteq> []" "hd ?X \<noteq> NL" "last ?X \<noteq> NL"
    using join_ends [of "map block es" "[NL, NL]"] b False by (auto simp: hd_map last_map)
  have "strip_newlines (NL # join [NL] (dream_lines es) @ [NL]) = ?X"
    using strip_newlines_around(1) [OF X] by (simp add: join_dream_lines [OF False])
  moreover have "split_blank ?X = map block es" using b False by (intro split_blank_join) auto
  moreover have "map (strip u) (map block es) = map block es" "filter (\<lambda>b. b \<noteq> []) (map block es) = map block es"
    using b by (auto simp: filter_id_conv)
  ultimately show ?thesis
    using blocks_valid [OF assms(1), of 1] assms(2, 3) False by (simp only: validate_dream_section_def) simp
qed

end

text \<open>The values printed into the prompt are plain.\<close>

lemma plain_ne [simp]: "digits_of n \<noteq> []"
  by (cases "n < 10") (simp_all add: digits_of.simps [of n])

lemma plain_str_int [simp]: "plain (str_int i)" "str_int i \<noteq> []"
  by (simp_all add: str_int_def) (simp_all add: plain_def line_break_def plain_digits [unfolded plain_def])

lemma plain_duration [simp]: "plain (format_duration d)" "format_duration d \<noteq> []"
  by (simp_all add: format_duration_def not_available_def Let_def split: option.split) (simp_all add: ascii_def)

lemma join_last: "xs \<noteq> [] \<Longrightarrow> last xs \<noteq> [] \<Longrightarrow> join sep xs \<noteq> [] \<and> last (join sep xs) = last (last xs)"
  by (induction sep xs rule: join.induct) auto

lemma join_hd: "xs \<noteq> [] \<Longrightarrow> hd xs \<noteq> [] \<Longrightarrow> hd (join sep xs) = hd (hd xs)"
  by (cases "(sep, xs)" rule: join.cases) simp_all

lemma plain_join: "plain sep \<Longrightarrow> list_all plain xs \<Longrightarrow> plain (join sep xs)"
  by (induction sep xs rule: join.induct) simp_all

lemma plain_list [simp]: "list_all plain xs \<Longrightarrow> plain (format_list xs)" "format_list xs \<noteq> []"
  by (simp_all add: format_list_def plain_join) (simp_all add: ascii_def)

lemma no_hash_join: "35 \<notin> set (join [NL] xs) \<longleftrightarrow> (\<forall>x \<in> set xs. 35 \<notin> set x)"
  by (induction "[NL] :: ustr" xs rule: join.induct) auto

lemma contains_append [intro]: "contains t p \<Longrightarrow> contains (s @ t) p"
  by (induction s) auto

lemma contains_start: "contains (p @ t) p"
  by (cases p; cases t) (simp_all add: starts_with_def)

lemma contains_join: "l \<in> set ls \<Longrightarrow> contains (join [NL] ls) l"
proof (induction "[NL] :: ustr" ls rule: join.induct)
  case (3 x y xs)
  then show ?case using contains_start [of l] contains_append [of "join [NL] (y # xs)" l "x @ [NL]"] by auto
qed (use contains_start [of l "[]"] in auto)

text \<open>Lines under headings, as segments.\<close>

fun under_headings :: "(ustr \<times> ustr list) list \<Rightarrow> (ustr \<times> ustr) list" where
  "under_headings [] = []"
| "under_headings [(h, ls)] = [(h, NL # join [NL] ls)]"
| "under_headings ((h, ls) # p # ps) = (h, NL # join [NL] ls @ [NL]) # under_headings (p # ps)"

lemma join_under_headings:
  "\<forall>(h, ls) \<in> set ps. ls \<noteq> [] \<Longrightarrow> join [NL] (concat (map (\<lambda>(h, ls). h # ls) ps)) = segments (under_headings ps)"
proof (induction ps rule: under_headings.induct)
  case (2 h ls)
  then show ?case by (cases ls) simp_all
next
  case (3 h ls p ps)
  obtain k ks where p: "p = (k, ks)" by (cases p)
  have "join [NL] ((h # ls) @ concat (map (\<lambda>(h, ls). h # ls) (p # ps)))
      = join [NL] (h # ls) @ [NL] @ join [NL] (concat (map (\<lambda>(h, ls). h # ls) (p # ps)))"
    by (rule join_append) (simp_all add: p)
  moreover have "join [NL] (h # ls) = h @ NL # join [NL] ls" using 3(2) by (cases ls) simp_all
  ultimately show ?case using 3 by simp
qed simp

definition section_lines :: "formats \<Rightarrow> prompt_assets \<Rightarrow> CompiledJungianPrompt \<Rightarrow> ustr list list" where
  "section_lines f a p =
     [[ascii ''session_id: '' @ str_uuid f (cb_session_id (cp_context p)), ascii ''user_id: '' @ str_int (cb_user_id (cp_context p)),
       ascii ''dream_count: '' @ digits_of (cb_dream_count (cp_context p)),
       ascii ''session_duration: '' @ cb_session_duration (cp_context p),
       ascii ''last_activity_at: '' @ cb_last_activity_at (cp_context p), []],
      dream_lines (cp_dreams p),
      [ascii ''key_symbols: '' @ format_list (sb_key_symbols (cp_summary p)),
       ascii ''recurring_words: '' @ format_list (sb_recurring_words (cp_summary p)),
       ascii ''raw_text_sample: '' @ sb_raw_text_sample (cp_summary p), []],
      as_instructions a @ [[]], as_framework a @ [[]], as_output_format a]"

lemma headings_of_contract: "map se_heading (pc_sections JUNGIAN_PROMPT_CONTRACT_V2) = SECTION_HEADINGS"
  by (simp add: JUNGIAN_PROMPT_CONTRACT_V2_def section_spec_def SECTION_HEADINGS_def)

lemma heading_nth: "i < 6 \<Longrightarrow> heading JUNGIAN_PROMPT_CONTRACT_V2 i = SECTION_HEADINGS ! i"
  unfolding heading_def by (metis headings_distinct(2) headings_of_contract length_map nth_map)

lemma zip_six: "length hs = 6 \<Longrightarrow> zip hs [a, b, c, d, e, g] = [(hs ! 0, a), (hs ! 1, b), (hs ! 2, c), (hs ! 3, d), (hs ! 4, e), (hs ! 5, g)]"
  by (auto simp: numeral_eq_Suc length_Suc_conv)

lemma rendered_as_segments:
  assumes "complete_assets a"
  shows "render_compiled_prompt f a p JUNGIAN_PROMPT_CONTRACT_V2
    = (pc_prefix JUNGIAN_PROMPT_CONTRACT_V2 @ [NL, NL]) @ segments (under_headings (zip SECTION_HEADINGS (section_lines f a p)))"
proof -
  let ?ps = "zip SECTION_HEADINGS (section_lines f a p)" and ?P = "pc_prefix JUNGIAN_PROMPT_CONTRACT_V2"
  have "prompt_lines f a p JUNGIAN_PROMPT_CONTRACT_V2 = [?P, []] @ concat (map (\<lambda>(h, ls). h # ls) ?ps)"
    by (simp add: prompt_lines_def section_lines_def zip_six headings_distinct heading_nth)
  moreover have "\<forall>(h, ls) \<in> set ?ps. ls \<noteq> []"
    using assms by (auto simp: zip_six headings_distinct section_lines_def dream_lines_def complete_assets_def section_asset_def)
  then have "join [NL] (concat (map (\<lambda>(h, ls). h # ls) ?ps)) = segments (under_headings ?ps)" by (rule join_under_headings)
  moreover have "concat (map (\<lambda>(h, ls). h # ls) ?ps) \<noteq> []" by (simp add: section_lines_def zip_six headings_distinct)
  ultimately show ?thesis
    using join_append [of "[?P, []]" "concat (map (\<lambda>(h, ls). h # ls) ?ps)" "[NL]"] by (simp add: render_compiled_prompt_def)
qed

lemma map_fst_under: "map fst (under_headings ps) = map fst ps"
  by (induction ps rule: under_headings.induct) simp_all

lemma under_zip: "length hs = length Ls \<Longrightarrow> under_headings (zip hs Ls) = zip hs (map snd (under_headings (zip hs Ls)))"
  by (metis map_fst_under map_fst_zip zip_map_fst_snd)

lemma under_no_hash: "\<forall>(h, ls) \<in> set ps. \<forall>l \<in> set ls. 35 \<notin> set l \<Longrightarrow> \<forall>S \<in> set (map snd (under_headings ps)). 35 \<notin> set S"
  by (induction ps rule: under_headings.induct) (auto simp: no_hash_join)

lemma plain_section_lines:
  assumes "complete_assets a"
    and "\<forall>l \<in> {str_uuid f (cb_session_id (cp_context p)), cb_session_duration (cp_context p), cb_last_activity_at (cp_context p),
      sb_raw_text_sample (cp_summary p)}. plain l"
    and "list_all plain (sb_key_symbols (cp_summary p))" "list_all plain (sb_recurring_words (cp_summary p))"
    and "\<forall>e \<in> set (cp_dreams p). plain_entry u e"
  shows "\<forall>ls \<in> set (section_lines f a p). \<forall>l \<in> set ls. plain l"
proof -
  have "plain (ascii t)" if "t \<in> {''session_id: '', ''user_id: '', ''dream_count: '', ''session_duration: '', ''last_activity_at: '',
    ''key_symbols: '', ''recurring_words: '', ''raw_text_sample: ''}" for t
    using that by (auto simp: plain_def one_line_def line_break_def ascii_def)
  then show ?thesis
    using assms by (auto simp: section_lines_def dream_lines_def plain_entry_def complete_assets_def section_asset_def list_all_iff)
qed

lemma bodies_six:
  "length hs = 6 \<Longrightarrow> segment_bodies (under_headings (zip hs [a, b, c, d, e, g])) =
    map (\<lambda>ls. strip_newlines (NL # join [NL] ls @ [NL])) [a, b, c, d, e] @ [dropWhile (\<lambda>c. c = NL) (NL # join [NL] g)]"
  by (simp add: zip_six)

lemma section_ends:
  assumes "list_all plain ls" "ls \<noteq> []" "hd ls \<noteq> []" "last ls \<noteq> []"
  shows "join [NL] ls \<noteq> []" "hd (join [NL] ls) \<noteq> NL" "last (join [NL] ls) \<noteq> NL"
proof -
  have no_NL: "NL \<notin> set l" if "l \<in> set ls" for l
    using that assms(1) NL_break by (fastforce simp: list_all_iff plain_def one_line_def)
  have "hd (hd ls) \<in> set (hd ls)" "hd ls \<in> set ls" "last (last ls) \<in> set (last ls)" "last ls \<in> set ls" using assms by simp_all
  with no_NL have "hd (hd ls) \<noteq> NL" "last (last ls) \<noteq> NL" by metis+
  with join_last [OF assms(2, 4)] join_hd [OF assms(2, 3)]
  show "join [NL] ls \<noteq> []" "hd (join [NL] ls) \<noteq> NL" "last (join [NL] ls) \<noteq> NL" by metis+
qed

lemma strip_section:
  assumes "list_all plain ls" "ls \<noteq> []" "hd ls \<noteq> []" "last ls \<noteq> []"
  shows "strip_newlines (NL # join [NL] (ls @ [[]]) @ [NL]) = join [NL] ls"
  using strip_newlines_around(1) [OF section_ends [OF assms]] join_append [OF assms(2), of "[[]]" "[NL]"] by simp

lemma drop_section:
  assumes "list_all plain ls" "ls \<noteq> []" "hd ls \<noteq> []" "last ls \<noteq> []"
  shows "dropWhile (\<lambda>c. c = NL) (join [NL] ls) = join [NL] ls"
  using section_ends [OF assms] by (cases "join [NL] ls") auto

lemma fixed_section_ok: "set req \<subseteq> set ls \<Longrightarrow> validate_fixed_section (join [NL] ls) req code = None"
  by (auto simp: validate_fixed_section_def find_None_iff contains_join split: option.split)

lemma mapE_map: "mapE g (map h xs) = mapE (\<lambda>x. g (h x)) xs"
  by (induction xs) simp_all

lemma mapE_each: "mapE g xs = Inr ys \<Longrightarrow> x \<in> set xs \<Longrightarrow> \<exists>y. g x = Inr y"
  by (auto simp: mapE_Inr list_all2_conv_all_nth in_set_conv_nth)

lemma compiled_entries:
  fixes f sm ds la cr
  defines "es \<equiv> cp_dreams (compile_jungian_prompt f sm ds la cr)"
  assumes "plain_printing u f" and "list_all (\<lambda>d. plain (dr_text d)) ds"
  shows "map de_index es = [1..<Suc (length es)]" and "\<forall>e \<in> set es. plain_entry u e" and "es = [] \<longleftrightarrow> ds = []"
proof -
  let ?s = "sort_dreams ds"
  have es: "es = map (\<lambda>(i, d). \<lparr>de_index = i, de_text = dr_text d, de_timestamp = format_datetime f (Some (dr_created_at d))\<rparr>)
      (zip [1..<Suc (length ?s)] ?s)"
    by (simp add: es_def compile_jungian_prompt_def Let_def)
  have len: "length ?s = length ds" by (simp add: sort_dreams_def)
  have "map de_index es = map fst (zip [1..<Suc (length ?s)] ?s)" unfolding es by (simp del: upt_Suc add: case_prod_unfold o_def)
  then show "map de_index es = [1..<Suc (length es)]" by (simp del: upt_Suc add: es)
  show "es = [] \<longleftrightarrow> ds = []" using len by (simp del: upt_Suc add: es) (metis length_0_conv)
  have "d \<in> set ds" if "(i, d) \<in> set (zip [1..<Suc (length ?s)] ?s)" for i d
    using set_zip_rightD [OF that] by (simp add: sort_dreams_def)
  then show "\<forall>e \<in> set es. plain_entry u e"
    using assms(2, 3) by (auto simp del: upt_Suc simp: es plain_entry_def plain_printing_def format_datetime_def list_all_iff)
qed

lemma structure_of_segments:
  fixes a f p
  defines "c \<equiv> JUNGIAN_PROMPT_CONTRACT_V2" and "ps \<equiv> under_headings (zip SECTION_HEADINGS (section_lines f a p))"
    and "prompt \<equiv> render_compiled_prompt f a p JUNGIAN_PROMPT_CONTRACT_V2"
  assumes "complete_assets a" and "\<forall>ls \<in> set (section_lines f a p). \<forall>l \<in> set ls. plain l"
  shows "starts_with prompt (pc_prefix c)" and "find (\<lambda>sec. \<not> contains prompt (se_heading sec)) (pc_sections c) = None"
    and "validate_section_order prompt c = Inr None" and "section_bodies prompt (map se_heading (pc_sections c)) = Inr (segment_bodies ps)"
proof -
  let ?P = "pc_prefix c @ [NL, NL]"
  have prompt: "prompt = ?P @ segments ps"
    using rendered_as_segments [OF assms(4)] by (simp add: prompt_def c_def ps_def)
  then show "starts_with prompt (pc_prefix c)" by (simp add: starts_with_def)
  have len: "length SECTION_HEADINGS = length (section_lines f a p)" by (simp add: headings_distinct section_lines_def)
  have ps: "ps = zip SECTION_HEADINGS (map snd ps)" unfolding ps_def by (rule under_zip [OF len])
  then have fst: "map fst ps = SECTION_HEADINGS" by (metis len map_fst_under map_fst_zip ps_def)
  have "\<forall>(h, ls) \<in> set (zip SECTION_HEADINGS (section_lines f a p)). \<forall>l \<in> set ls. 35 \<notin> set l"
    using assms(5) by (fastforce dest: set_zip_rightD simp: plain_def)
  then have "\<forall>S \<in> set (map snd ps). 35 \<notin> set S" unfolding ps_def by (rule under_no_hash)
  moreover have "length (map snd ps) = 6" by (metis fst headings_distinct(2) length_map)
  ultimately have marked: "well_marked ps" by (subst ps) (rule headings_marked)
  have P: "35 \<notin> set ?P" by (simp add: c_def JUNGIAN_PROMPT_CONTRACT_V2_def ascii_def)
  have skip: "skips h ?P" if "(h, S) \<in> set ps" for h S
  proof -
    have "h \<in> set SECTION_HEADINGS" using imageI [OF that, of fst] fst by (metis fst_conv set_map)
    then show ?thesis using heading_member skips_plain [OF P] by blast
  qed
  have headings: "map se_heading (pc_sections c) = map fst ps" by (simp add: fst c_def headings_of_contract)
  show "section_bodies prompt (map se_heading (pc_sections c)) = Inr (segment_bodies ps)"
    unfolding headings prompt by (rule section_bodies_segments [OF marked skip])
  have "\<exists>ns. mapE (index_of prompt) (map fst ps) = Inr ns \<and> sorted ns \<and> (\<forall>n \<in> set ns. length ?P \<le> n)"
    unfolding prompt by (rule positions_segments [OF marked skip])
  then obtain ns where ns: "mapE (index_of prompt) (map se_heading (pc_sections c)) = Inr ns" "sorted ns"
    unfolding headings by blast
  then show "validate_section_order prompt c = Inr None"
    by (simp add: validate_section_order_def mapE_map sorted_sort_id bindE_def)
  have "contains prompt (se_heading sec)" if "sec \<in> set (pc_sections c)" for sec
    using mapE_each [OF ns(1), of "se_heading sec"] that by (auto simp: contains_find index_of_def split: option.splits)
  then show "find (\<lambda>sec. \<not> contains prompt (se_heading sec)) (pc_sections c) = None" by (simp add: find_None_iff)
qed

lemma not_available_plain [simp]: "plain not_available" "not_available \<noteq> []"
  by (simp_all add: not_available_def) (simp add: ascii_def)

lemma printed_plain [simp]:
  "plain_printing u f \<Longrightarrow> plain (str_uuid f i) \<and> str_uuid f i \<noteq> []"
  "plain_printing u f \<Longrightarrow> plain (format_datetime f t) \<and> format_datetime f t \<noteq> []"
  by (auto simp: plain_printing_def format_datetime_def split: option.split)

definition context_fields :: "formats \<Rightarrow> CompiledJungianPrompt \<Rightarrow> (string \<times> ustr) list" where
  "context_fields f p =
     [(''session_id'', str_uuid f (cb_session_id (cp_context p))), (''user_id'', str_int (cb_user_id (cp_context p))),
      (''dream_count'', digits_of (cb_dream_count (cp_context p))), (''session_duration'', cb_session_duration (cp_context p)),
      (''last_activity_at'', cb_last_activity_at (cp_context p))]"

definition summary_fields :: "CompiledJungianPrompt \<Rightarrow> (string \<times> ustr) list" where
  "summary_fields p =
     [(''key_symbols'', format_list (sb_key_symbols (cp_summary p))),
      (''recurring_words'', format_list (sb_recurring_words (cp_summary p))), (''raw_text_sample'', sb_raw_text_sample (cp_summary p))]"

lemma compiled_fields_plain:
  fixes la cr
  assumes "plain_printing u f" and "plain_session sm ds"
  defines "p \<equiv> compile_jungian_prompt f sm ds la cr"
  shows "\<forall>(n, v) \<in> set (context_fields f p). plain v \<and> v \<noteq> []" and "\<forall>(n, v) \<in> set (summary_fields p). plain v \<and> v \<noteq> []"
proof -
  show "\<forall>(n, v) \<in> set (context_fields f p). plain v \<and> v \<noteq> []"
    using assms(1) by (simp add: context_fields_def p_def compile_jungian_prompt_def Let_def)
  show "\<forall>(n, v) \<in> set (summary_fields p). plain v \<and> v \<noteq> []"
    using assms(2) by (auto simp: summary_fields_def p_def compile_jungian_prompt_def plain_session_def Let_def split: option.split)
qed

definition field_texts :: "(string \<times> ustr) list \<Rightarrow> ustr list" where
  "field_texts kvs = map (\<lambda>(n, v). ascii n @ ascii '': '' @ v) kvs"

lemma section_lines_fields:
  "section_lines f a p = [field_texts (context_fields f p) @ [[]], dream_lines (cp_dreams p), field_texts (summary_fields p) @ [[]],
     as_instructions a @ [[]], as_framework a @ [[]], as_output_format a]"
  by (simp add: section_lines_def field_texts_def context_fields_def summary_fields_def) (simp add: ascii_def)

lemma field_texts_plain:
  assumes "\<forall>(n, v) \<in> set kvs. list_all field_char (ascii n) \<and> n \<noteq> [] \<and> plain v \<and> v \<noteq> []" and "kvs \<noteq> []"
  shows "list_all plain (field_texts kvs)" "field_texts kvs \<noteq> []" "hd (field_texts kvs) \<noteq> []" "last (field_texts kvs) \<noteq> []"
proof -
  have "plain (ascii n)" if "list_all field_char (ascii n)" for n
    using that by (auto simp: plain_def one_line_def list_all_iff field_char_def line_break_def)
  then show "list_all plain (field_texts kvs)" using assms(1) by (auto simp: field_texts_def list_all_iff)
  show "field_texts kvs \<noteq> []" using assms(2) by (simp add: field_texts_def)
  have "l \<noteq> []" if "l \<in> set (field_texts kvs)" for l using that by (auto simp: field_texts_def ascii_def)
  then show "hd (field_texts kvs) \<noteq> []" "last (field_texts kvs) \<noteq> []"
    using \<open>field_texts kvs \<noteq> []\<close> by (metis hd_in_set, metis last_in_set)
qed

lemma section_field_names:
  "list_all (\<lambda>(n, v). list_all field_char (ascii n) \<and> n \<noteq> []) (context_fields f p)"
  "list_all (\<lambda>(n, v). list_all field_char (ascii n) \<and> n \<noteq> []) (summary_fields p)"
  "map fst (context_fields f p) = se_fields (pc_sections JUNGIAN_PROMPT_CONTRACT_V2 ! 0)"
  "map fst (summary_fields p) = se_fields (pc_sections JUNGIAN_PROMPT_CONTRACT_V2 ! 2)"
  by (simp_all add: context_fields_def summary_fields_def JUNGIAN_PROMPT_CONTRACT_V2_def section_spec_def)
    (simp_all add: field_char_def ascii_def)

lemma field_section_ok:
  assumes "\<forall>(n, v) \<in> set kvs. plain v \<and> v \<noteq> []" and "list_all (\<lambda>(n, v). list_all field_char (ascii n) \<and> n \<noteq> []) kvs" and "kvs \<noteq> []"
  shows "strip_newlines (NL # join [NL] (field_texts kvs @ [[]]) @ [NL]) = join [NL] (field_texts kvs)"
    and "field_lines (join [NL] (field_texts kvs)) = map (\<lambda>(n, v). (ascii n, v)) kvs"
    and "validate_fields missing order (join [NL] (field_texts kvs)) (map fst kvs) = None"
proof -
  have all: "\<forall>(n, v) \<in> set kvs. list_all field_char (ascii n) \<and> n \<noteq> [] \<and> plain v \<and> v \<noteq> []"
    using assms(1, 2) by (auto simp: list_all_iff)
  show "strip_newlines (NL # join [NL] (field_texts kvs @ [[]]) @ [NL]) = join [NL] (field_texts kvs)"
    by (rule strip_section [OF field_texts_plain [OF all assms(3)]])
  have each: "list_all field_char (ascii n) \<and> n \<noteq> [] \<and> v \<noteq> [] \<and> one_line v" if "(n, v) \<in> set kvs" for n v
    using all that by (auto simp: plain_def)
  show "field_lines (join [NL] (field_texts kvs)) = map (\<lambda>(n, v). (ascii n, v)) kvs"
    "validate_fields missing order (join [NL] (field_texts kvs)) (map fst kvs) = None"
    unfolding field_texts_def using validate_fields_ok [OF each assms(3)] by blast+
qed


definition required_assets :: prompt_assets where
  "required_assets = \<lparr>as_instructions = pc_required_instruction_lines JUNGIAN_PROMPT_CONTRACT_V2,
     as_framework = pc_required_framework_items JUNGIAN_PROMPT_CONTRACT_V2,
     as_output_format = pc_required_output_format_lines JUNGIAN_PROMPT_CONTRACT_V2, as_memory_body = []\<rparr>"

lemma required_assets_complete: "complete_assets required_assets"
  by (simp add: complete_assets_def section_asset_def required_assets_def JUNGIAN_PROMPT_CONTRACT_V2_def plain_def one_line_def
      line_break_def)

lemma plain_formats_printing: "plain_printing basic_unicode plain_formats"
proof -
  have digit: "\<not> uc_space basic_unicode c" if "c \<in> set (digits_of n)" for c n
    using basic_digits.digits_of_all [OF that] basic_digits.digit_no_space by auto
  have "\<not> uc_space basic_unicode (last (str_int t))" for t
    using digit [OF last_in_set [OF plain_ne]] by (simp add: str_int_def)
  then show ?thesis by (simp add: plain_printing_def plain_formats_def)
qed

definition two_dreams_summary :: session_summary where
  "two_dreams_summary = old_summary\<lparr>ss_dream_count := 2, ss_key_symbols := [ascii ''sea'', ascii ''sky''], ss_recurring_words := [],
     ss_raw_text_sample := Some (ascii ''Sea'')\<rparr>"


end
