(* ===== verification/Spec2Isabelle.thy ===== *)
theory Spec2Isabelle
  imports System Mock Cleanup Migrations Schema Validation
begin

text \<open>
  LiberNovusBot: a Telegram bot that keeps a dream journal. This development models the Python program under
  \<open>src\<close>: what happens to a message, to the analysis jobs it leaves, to the stored rows, and to the requests of the
  console, the journal and the polling bot. It is written for a reader who has the repository.

  \<^bold>\<open>The program.\<close> A message arrives at the webhook of the application (\<open>main.py\<close>, \<open>routers\<close>) or through the polling
  bot (\<open>bot\<close>), which posts it there. The ingress (\<open>services/ingress\<close>) classifies it, asks the dialogue policy
  (\<open>services/dialogue_policy\<close>) for a route, and either answers with a fixed text (safety, refusal), or takes the
  session of the user (\<open>services/session_service.py\<close>), stores a dream, asks a language model for the answer
  (\<open>services/dialogue\<close>, \<open>services/llm_providers\<close>), writes the log of the conversation and a trace of the decision,
  and enqueues an analysis job (\<open>services/runtime/analysis_job_service.py\<close>), all in one transaction. A worker
  (\<open>analysis_runtime_worker.py\<close>, \<open>analysis_runtime_executor.py\<close>) acquires queued jobs under row locks, runs the
  analysis pipeline (\<open>services/analysis_orchestrator.py\<close>, \<open>services/memory\<close>) which compiles a prompt, calls a model,
  reads its answer as JSON and stores a validated analysis in a thread of the session (\<open>analysis_thread_service.py\<close>)
  or a factual memory of the dream, and delivers the result (\<open>services/notifications\<close>). Start-up checks the
  configuration (\<open>services/config\<close>); \<open>migrations\<close> build the database; \<open>scripts\<close> clean it up.

  \<^bold>\<open>Shared vocabulary.\<close>
  \<^item> Prelude: identifiers, time, Python values, JSON, exceptions as values of \<open>exn\<close>, and the operations
    \<open>('w, 'a) op = 'w \<Rightarrow> (exn + 'a) \<times> 'w\<close> in which services are written, with the collections \<open>run\<close> (execute) and
    \<open>pres\<close> (preserve an invariant). An exception keeps the state reached; only \<open>atomically\<close> and savepoints roll back.
  \<^item> Store: the rows of \<open>db/models\<close> as records, \<open>world\<close> (the tables, the clock of the transaction, supplies of fresh
    identifiers, locks of other transactions, Redis, sent messages), and the queries every service uses.
  \<^item> Text, Datetimes: Python strings as lists of code points, naive and aware datetimes.

  \<^bold>\<open>Components\<close> (theory: source; what its lemmas show).
  \<^item> Policy: \<open>services/dialogue_policy\<close>; the regular expressions of the crisis detector find a phrase wherever it
    stands, whatever its case and spacing, and such a message is routed to safety.
  \<^item> Sessions: \<open>session_service.py\<close>, \<open>dream_service.py\<close>, \<open>services/conversation\<close>; one active session per user.
  \<^item> Jobs, JobSpec: \<open>analysis_job_service.py\<close>; the invariant \<open>jobs_ok\<close> of the queue, disjointness of concurrent
    acquirers, finality of outcomes, and the refinement of the life cycle waiting, held, finished.
  \<^item> Machine, Threads: \<open>analysis_state_machine_service.py\<close>, \<open>analysis_thread_service.py\<close> and the snapshots; commands run
    in savepoints against rival transactions and are resolved again once; one active thread per session and one
    latest analysis per thread.
  \<^item> Config, Provider, Parser, Dumps, Contract, Mock: \<open>services/config\<close>, \<open>services/llm_providers\<close>, \<open>response_parser.py\<close>, the
    schemas of model output, the deterministic provider; what a loaded configuration guarantees, the bound of the
    retries, that a JSON object anywhere in an answer is found, that dumped JSON and stored analyses read back, and that the mock
    answers pass every check.
  \<^item> Summary, Prompts, Validation, Assets: session summaries, prompt compilation and rendering, the validator of prompts,
    the assets; the compiler's prompts of plain texts are valid.
  \<^item> Pipeline, Runtime, Presentation: a run stores one analysis or nothing, memories are factual, every job of a round
    is settled, at most one message per job is sent, and the reflection shown to the user has its announced shape.
  \<^item> Dialogue, Ingress: a turn with the model, every route of a message, the webhook; crisis messages always get the
    fixed text, dreams are enqueued, answered messages are logged.
  \<^item> Console: the read side (\<open>services/admin\<close>, \<open>services/journal\<close>); joins are nested loops over the tables.
  \<^item> Players: authentication by HMAC and the player table. Cleanup: \<open>scripts/cleanup_legacy_sessions.py\<close>.
  \<^item> Migrations, Schema: what the revisions do to rows, and to the schema, which is compared with the models.
  \<^item> Web: routes, guards, bodies, the transaction of a request, exception handlers, metrics and background work;
    \<open>serve\<close> is the whole application on one request. Bot: the polling bot as a client of \<open>serve\<close>.
  \<^item> System: requests, bot messages, worker rounds and changes from elsewhere, in any order (\<open>system_step\<close>).

  \<^bold>\<open>Interfaces.\<close> Contracts between components are locales, each interpreted in the theory of its provider:
  \<open>unicode_laws\<close> (Text), \<open>pydantic_laws\<close> (Contract), \<open>mock_setting\<close> (Mock), \<open>digit_laws\<close> (Validation) for what the code relies
  on in libraries, \<open>session_gate\<close> (Sessions: what asking for a session promises the ingress), \<open>once_lock\<close> (Runtime: what
  the delivery needs of its lock) and \<open>history\<close> (System: a reflexive and transitive relation between states gives
  rules for composed operations; interpreted on \<open>advances\<close>, over which C1 is proved).

  \<^bold>\<open>Properties.\<close> C1 is the consistency of the whole system. C2 to C13 are about the path of a message and of its job,
  C14 to C17 about requests, C18 and C19 about the mock provider, C20 to C24 about the log, the row types, the queue
  and the policy, C25 to C28 about model output and providers, C29 to C31 about authentication, prompts and migrated
  threads, C32 to C35 about the schema, migrated dreams and the clean-up, C36 to C40 about configuration, the read
  side, summaries and presentation.

  \<^bold>\<open>Bounds.\<close> The decoder of Parser recurses with fuel, twice the length of the text, and every step consumes a character,
  so more fuel changes nothing. Retries are bounded by the configuration. The worker's endless loop is
  \<open>run_until_stopped n\<close>, the first \<open>n\<close> rounds. All other loops are recursions over lists.

  \<^bold>\<open>Parameters.\<close> What is not under \<open>src\<close> is an argument: the Unicode tables (\<open>unicode\<close>), scalar coercions of pydantic,
  \<open>float()\<close> and \<open>repr\<close> of floats, HMAC and SHA-256, the order in which PostgreSQL returns unordered rows, the order in
  which the jobs of a batch finish, Redis, the Bot API, the models behind the providers, the network between bot and
  application, the prompt files. Theorems that need more than their types name it as a hypothesis and have a
  witness with concrete functions.

  \<^bold>\<open>Not modelled.\<close> \<open>services/prompt_compiler.py\<close> (a copy of \<open>services/prompts/compiler.py\<close>, which is modelled, and imported
  nowhere) and modules that only re-export; \<open>runtime_delivery_overrides.py\<close> (replaces clients in tests);
  \<open>migrations/env.py\<close> and the comments on columns; response schemas that only rename columns; start-up of the bot,
  OpenAPI, CORS, tracing, logging and log filters; the constants of \<open>settings.py\<close>, which the operations take as
  arguments; \<open>redis_service.py\<close>; \<open>admin-ui\<close> (TypeScript).
\<close>

end
